(* ===== verification/Prelude.thy ===== *)
theory Prelude
  imports Complex_Main "HOL-Library.AList" "HOL-Library.List_Lexorder" "HOL-Library.Char_ord"
begin

text \<open>
  The vocabulary shared by every component of the model: the exceptions the Python code
  raises, results of calls that may raise, Python dictionaries (insertion-ordered), the
  string methods the code uses, order-preserving deduplication, and Python's stable
  \<^verbatim>\<open>sorted(..., key=..., reverse=...)\<close>, with the lemmas that the component theories share.

  Conventions.  A Python \<^verbatim>\<open>str\<close> is a HOL \<open>string\<close> (characters are the code points below
  256).  A Python \<^verbatim>\<open>int\<close> is \<open>int\<close>, or \<open>nat\<close> where it is a length or a counter that only
  grows.  A Python \<^verbatim>\<open>float\<close> is its exact rational value, so floating-point rounding, infinities
  and NaN are outside the model.  Calls that read the clock take the time as an argument.
\<close>

section \<open>Exceptions and results\<close>

datatype pyerr =
    ValueError string
  | KeyError string
  | IndexError
  | TypeError string
  | AttributeError string
  | ZeroDivisionError
  | LibError string  \<comment> \<open>an exception raised by code outside the repository\<close>

type_synonym 'a res = "pyerr + 'a"

text \<open>The facts used to open a call: projections of results and pairs.\<close>

named_theorems effect_simps
named_theorems dict_simps

definition is_ok :: "'a res \<Rightarrow> bool" where
  "is_ok r = (case r of Inl _ \<Rightarrow> False | Inr _ \<Rightarrow> True)"

lemma is_ok_simps [simp, effect_simps]: "is_ok (Inr x)" "\<not> is_ok (Inl e)"
  by (simp_all add: is_ok_def)

lemma is_okE: "is_ok r \<Longrightarrow> (\<And>x. r = Inr x \<Longrightarrow> P) \<Longrightarrow> P"
  by (auto simp: is_ok_def split: sum.splits)

section \<open>Dictionaries\<close>

text \<open>
  A Python dictionary remembers the order in which its keys were first inserted: assigning to
  a present key keeps its place, a new key goes to the end, \<^verbatim>\<open>pop\<close> removes the entry.  That is
  \<open>AList.update\<close> and \<open>AList.delete\<close> on an association list with distinct keys.
\<close>

type_synonym ('k, 'v) dict = "('k \<times> 'v) list"

abbreviation dget :: "('k, 'v) dict \<Rightarrow> 'k \<Rightarrow> 'v option" where
  "dget d k \<equiv> map_of d k"

abbreviation dset :: "('k, 'v) dict \<Rightarrow> 'k \<Rightarrow> 'v \<Rightarrow> ('k, 'v) dict" where
  "dset d k v \<equiv> AList.update k v d"

abbreviation dpop :: "('k, 'v) dict \<Rightarrow> 'k \<Rightarrow> ('k, 'v) dict" where
  "dpop d k \<equiv> AList.delete k d"

abbreviation dkeys :: "('k, 'v) dict \<Rightarrow> 'k list" where
  "dkeys d \<equiv> map fst d"

abbreviation dwf :: "('k, 'v) dict \<Rightarrow> bool" where
  "dwf d \<equiv> distinct (map fst d)"

definition dmem :: "('k, 'v) dict \<Rightarrow> 'k \<Rightarrow> bool" where
  "dmem d k \<longleftrightarrow> dget d k \<noteq> None"

text \<open>Python's dictionary equality compares the entries and not their order.\<close>

definition dict_eq :: "('k, 'v) dict \<Rightarrow> ('k, 'v) dict \<Rightarrow> bool" where
  "dict_eq a b \<longleftrightarrow> (\<forall>k \<in> set (dkeys a) \<union> set (dkeys b). dget a k = dget b k)"

text \<open>\<^verbatim>\<open>OrderedDict.move_to_end(key)\<close> for a present key.\<close>

definition move_to_end :: "('k, 'v) dict \<Rightarrow> 'k \<Rightarrow> ('k, 'v) dict" where
  "move_to_end d k = (case dget d k of None \<Rightarrow> d | Some v \<Rightarrow> dpop d k @ [(k, v)])"

lemma dget_dset [dict_simps]: "dget (dset d k v) k' = (if k' = k then Some v else dget d k')"
  by (simp add: update_conv)

lemma dget_dpop [dict_simps]: "dget (dpop d k) k' = (if k' = k then None else dget d k')"
  by (simp add: delete_conv')

lemma dmem_iff [dict_simps]: "dmem d k \<longleftrightarrow> k \<in> set (dkeys d)"
  unfolding dmem_def by (auto simp: map_of_eq_None_iff)

lemma keys_dset [simp]: "fst ` set (dset d k v) = insert k (fst ` set d)"
proof (induction d)
  case Nil
  then show ?case by simp
next
  case (Cons p d)
  then show ?case by (cases p) auto
qed

lemma dkeys_dset_set [dict_simps]: "set (dkeys (dset d k v)) = insert k (set (dkeys d))"
  by simp

lemma dkeys_dpop [dict_simps]: "dkeys (dpop d k) = removeAll k (dkeys d)"
  by (induction d) auto

lemma set_dkeys_dpop [dict_simps]: "set (dkeys (dpop d k)) = set (dkeys d) - {k}"
  by (simp add: dkeys_dpop)

lemma keys_dpop [simp]: "fst ` set (dpop d k) = fst ` set d - {k}"
  using set_dkeys_dpop [where d = d and k = k] by simp

lemma dwf_dset [dict_simps, simp, intro]: "dwf d \<Longrightarrow> dwf (dset d k v)"
  by (rule distinct_update)

lemma dwf_dpop [dict_simps, simp, intro]: "dwf d \<Longrightarrow> dwf (dpop d k)"
  by (simp add: dkeys_dpop distinct_removeAll)

lemma dget_in_set: "dwf d \<Longrightarrow> dget d k = Some v \<longleftrightarrow> (k, v) \<in> set d"
  by simp

lemma length_dset [dict_simps]:
  "length (dset d k v) = (if k \<in> set (dkeys d) then length d else Suc (length d))"
  by (induction d) auto

lemma length_dpop_le [dict_simps]: "length (dpop d k) \<le> length d"
  by (induction d) auto

lemma dict_eq_iff: "dict_eq a b \<longleftrightarrow> map_of a = map_of b"
proof
  assume eq: "dict_eq a b"
  show "map_of a = map_of b"
  proof
    fix k
    show "map_of a k = map_of b k"
    proof (cases "k \<in> set (dkeys a) \<union> set (dkeys b)")
      case True
      with eq show ?thesis unfolding dict_eq_def by blast
    next
      case False
      then have "map_of a k = None" "map_of b k = None"
        by (auto simp: map_of_eq_None_iff)
      then show ?thesis by simp
    qed
  qed
qed (simp add: dict_eq_def)

lemma set_dset_subset: "set (dset d k v) \<subseteq> insert (k, v) (set d)"
  by (induction d) auto

lemma set_dpop_subset: "set (dpop d k) \<subseteq> set d"
  by (induction d) auto

lemma dget_append_new:
  "k \<notin> set (dkeys d) \<Longrightarrow> dget (d @ [(k, v)]) k' = (if k' = k then Some v else dget d k')"
  by (induction d) auto

lemma move_to_end_get [dict_simps]: "dget (move_to_end d k) k' = dget d k'"
proof (cases "dget d k")
  case None
  then show ?thesis by (simp add: move_to_end_def)
next
  case (Some v)
  have "k \<notin> set (dkeys (dpop d k))" unfolding set_dkeys_dpop by simp
  then have "dget (dpop d k @ [(k, v)]) k' = (if k' = k then Some v else dget (dpop d k) k')"
    by (rule dget_append_new)
  with Some show ?thesis by (simp add: move_to_end_def dict_simps)
qed

lemma dget_Some_key: "dget d k = Some v \<Longrightarrow> k \<in> set (dkeys d)"
  by (metis dmem_def dmem_iff option.distinct(1))

lemma move_to_end_keys [dict_simps]: "set (dkeys (move_to_end d k)) = set (dkeys d)"
proof (cases "dget d k")
  case None
  then show ?thesis by (simp add: move_to_end_def)
next
  case (Some v)
  have "set (dkeys (dpop d k @ [(k, v)])) = insert k (set (dkeys d) - {k})"
    unfolding map_append set_append set_dkeys_dpop by simp
  with Some dget_Some_key [OF Some] show ?thesis by (auto simp: move_to_end_def)
qed

lemma move_to_end_wf [dict_simps, intro]:
  assumes "dwf d" shows "dwf (move_to_end d k)"
proof (cases "dget d k")
  case None
  with assms show ?thesis by (simp add: move_to_end_def)
next
  case (Some v)
  have "k \<notin> set (dkeys (dpop d k))" unfolding set_dkeys_dpop by simp
  with assms dwf_dpop [of d k] Some show ?thesis by (simp add: move_to_end_def)
qed

lemma length_removeAll_distinct:
  "distinct xs \<Longrightarrow> x \<in> set xs \<Longrightarrow> Suc (length (removeAll x xs)) = length xs"
  by (induction xs) (auto simp: removeAll_id)

lemma length_dpop_mem:
  assumes "dwf d" and "k \<in> set (dkeys d)"
  shows "Suc (length (dpop d k)) = length d"
proof -
  have "length (dpop d k) = length (removeAll k (dkeys d))"
    using dkeys_dpop [of k d] by (metis length_map)
  with length_removeAll_distinct [OF assms] show ?thesis by simp
qed

lemma move_to_end_length [dict_simps]:
  assumes "dwf d" shows "length (move_to_end d k) = length d"
proof (cases "dget d k")
  case None
  then show ?thesis by (simp add: move_to_end_def)
next
  case (Some v)
  then have "k \<in> set (dkeys d)" by (force dest: map_of_SomeD)
  from length_dpop_mem [OF assms this] Some show ?thesis by (simp add: move_to_end_def)
qed

text \<open>The order of the keys.\<close>

lemma dkeys_dset_present: "k \<in> set (dkeys d) \<Longrightarrow> dkeys (dset d k v) = dkeys d"
  by (induction d) auto

lemma dkeys_dset_absent: "k \<notin> set (dkeys d) \<Longrightarrow> dkeys (dset d k v) = dkeys d @ [k]"
  by (induction d) auto

lemma dkeys_move_to_end:
  "k \<in> set (dkeys d) \<Longrightarrow> dkeys (move_to_end d k) = removeAll k (dkeys d) @ [k]"
proof -
  assume "k \<in> set (dkeys d)"
  then obtain v where "dget d k = Some v" using dmem_iff [of d k] by (auto simp: dmem_def)
  then show ?thesis by (simp add: move_to_end_def dkeys_dpop)
qed

section \<open>Strings\<close>

text \<open>\<^verbatim>\<open>str.isspace\<close> for one character, on the code points below 256.\<close>

definition is_space :: "char \<Rightarrow> bool" where
  "is_space c \<longleftrightarrow> (let n = (of_char c :: nat) in
     (9 \<le> n \<and> n \<le> 13) \<or> (28 \<le> n \<and> n \<le> 32) \<or> n = 133 \<or> n = 160)"

text \<open>\<^verbatim>\<open>str.strip()\<close>.\<close>

definition strip :: "string \<Rightarrow> string" where
  "strip s = rev (dropWhile is_space (rev (dropWhile is_space s)))"

definition starts_with :: "string \<Rightarrow> string \<Rightarrow> bool" where
  "starts_with s p \<longleftrightarrow> take (length p) s = p"

definition remove_prefix :: "string \<Rightarrow> string \<Rightarrow> string" where
  "remove_prefix s p = (if starts_with s p then drop (length p) s else s)"

text \<open>\<^verbatim>\<open>s.split(".")[0]\<close>: everything before the first dot.\<close>

definition before_dot :: "string \<Rightarrow> string" where
  "before_dot s = takeWhile (\<lambda>c. c \<noteq> CHR ''.'') s"

lemma starts_with_append [simp]: "starts_with (p @ s) p"
  by (simp add: starts_with_def)

lemma starts_with_iff: "starts_with s p \<longleftrightarrow> (\<exists>t. s = p @ t)"
  unfolding starts_with_def by (metis append_eq_conv_conj append_take_drop_id)

lemma remove_prefix_append [simp]: "remove_prefix (p @ s) p = s"
  by (simp add: remove_prefix_def)

lemma before_dot_append: "CHR ''.'' \<notin> set a \<Longrightarrow> before_dot (a @ CHR ''.'' # b) = a"
  unfolding before_dot_def by (induction a) auto

lemma before_dot_no_dot: "CHR ''.'' \<notin> set (before_dot s)"
  unfolding before_dot_def by (auto dest: set_takeWhileD)

lemma dropWhile_hd: "(\<And>y. xs \<noteq> [] \<Longrightarrow> hd xs = y \<Longrightarrow> \<not> P y) \<Longrightarrow> dropWhile P xs = xs"
  by (cases xs) auto

lemma strip_idem_aux:
  "dropWhile P (rev (dropWhile P (rev (dropWhile P xs)))) = rev (dropWhile P (rev (dropWhile P xs)))"
proof (rule dropWhile_hd)
  fix y
  let ?ys = "dropWhile P xs" and ?zs = "rev (dropWhile P (rev (dropWhile P xs)))"
  assume ne: "?zs \<noteq> []" and y: "hd ?zs = y"
  have "?ys = ?zs @ rev (takeWhile P (rev ?ys))"
    by (metis rev_append rev_rev_ident takeWhile_dropWhile_id)
  with ne y have "hd ?ys = y" by (metis hd_append2)
  moreover have "?ys \<noteq> []" using ne by (metis dropWhile.simps(1) rev.simps(1))
  ultimately have "hd ?ys = y" and "?ys \<noteq> []" by simp_all
  then show "\<not> P y" using hd_dropWhile by metis
qed

lemma strip_idem [simp]: "strip (strip s) = strip s"
  unfolding strip_def using strip_idem_aux [of is_space s] by simp

lemma strip_eq_self: "s \<noteq> [] \<Longrightarrow> \<not> is_space (hd s) \<Longrightarrow> \<not> is_space (last s) \<Longrightarrow> strip s = s"
proof -
  assume s: "s \<noteq> []" "\<not> is_space (hd s)" "\<not> is_space (last s)"
  then have "dropWhile is_space s = s"
    by (cases s) auto
  moreover have "dropWhile is_space (rev s) = rev s"
    using s by (cases "rev s") (auto simp: hd_rev [symmetric])
  ultimately show ?thesis by (simp add: strip_def)
qed

text \<open>\<^verbatim>\<open>str.encode()\<close> (UTF-8) on code points below 256; a byte string is a \<open>string\<close> too.\<close>

definition utf8_char :: "char \<Rightarrow> string" where
  "utf8_char c = (let n = (of_char c :: nat) in
     if n < 128 then [c] else [char_of (192 + n div 64), char_of (128 + n mod 64)])"

definition utf8_encode :: "string \<Rightarrow> string" where
  "utf8_encode s = concat (map utf8_char s)"

text \<open>\<^verbatim>\<open>int(s, 16)\<close> on the digits a \<^verbatim>\<open>hexdigest()\<close> consists of.\<close>

definition hex_value :: "char \<Rightarrow> nat" where
  "hex_value c = (let n = (of_char c :: nat) in if n < 58 then n - 48 else n - 87)"

definition int_of_hex :: "string \<Rightarrow> nat" where
  "int_of_hex s = foldl (\<lambda>acc c. 16 * acc + hex_value c) 0 s"

text \<open>
  The digests of \<^verbatim>\<open>hashlib\<close> the code uses, as functions from byte strings to hexadecimal
  digits.  Nothing proved here depends on which functions they are.
\<close>

record Digests =
  sha256_hex :: "string \<Rightarrow> string"
  md5_hex :: "string \<Rightarrow> string"

text \<open>\<^verbatim>\<open>hashlib.sha256(s.encode()).hexdigest()[:16]\<close>.\<close>

definition sha16 :: "Digests \<Rightarrow> string \<Rightarrow> string" where
  "sha16 D s = take 16 (sha256_hex D (utf8_encode s))"

section \<open>Lists\<close>

text \<open>\<^verbatim>\<open>list(dict.fromkeys(xs))\<close>: drop repetitions, keep the first occurrence.\<close>

primrec dedupe :: "'a list \<Rightarrow> 'a list" where
  "dedupe [] = []"
| "dedupe (x # xs) = x # removeAll x (dedupe xs)"

lemma set_dedupe [simp]: "set (dedupe xs) = set xs"
  by (induction xs) auto

lemma distinct_dedupe [simp]: "distinct (dedupe xs)"
  by (induction xs) (auto simp: distinct_removeAll)

lemma dedupe_distinct: "distinct xs \<Longrightarrow> dedupe xs = xs"
  by (induction xs) (auto simp: removeAll_id)

lemma dedupe_idem [simp]: "dedupe (dedupe xs) = dedupe xs"
  by (rule dedupe_distinct) simp

text \<open>\<^verbatim>\<open>sorted(xs, key=f, reverse=True)\<close> is stable: equal keys keep their order.\<close>

definition sort_desc :: "('a \<Rightarrow> rat) \<Rightarrow> 'a list \<Rightarrow> 'a list" where
  "sort_desc f xs = sort_key (\<lambda>x. - f x) xs"

lemma set_sort_desc [simp]: "set (sort_desc f xs) = set xs"
  by (simp add: sort_desc_def)

lemma length_sort_desc [simp]: "length (sort_desc f xs) = length xs"
  by (simp add: sort_desc_def)

lemma distinct_sort_desc [simp]: "distinct (sort_desc f xs) = distinct xs"
  by (simp add: sort_desc_def)

lemma sorted_sort_desc: "sorted_wrt (\<lambda>a b. f a \<ge> f b) (sort_desc f xs)"
proof -
  have "sorted (map (\<lambda>x. - f x) (sort_desc f xs))"
    unfolding sort_desc_def by (rule sorted_sort_key)
  then show ?thesis by (simp add: sorted_map)
qed

lemma sorted_wrt_take: "sorted_wrt P xs \<Longrightarrow> sorted_wrt P (take n xs)"
  by (metis append_take_drop_id sorted_wrt_append)

lemma sorted_map_last: "sorted (map f xs) \<Longrightarrow> x \<in> set xs \<Longrightarrow> f x \<le> f (last xs)"
  by (induction xs) auto

text \<open>The head of a stable ascending sort is the first element of least key.\<close>

lemma hd_sort_key_min:
  fixes f :: "'a \<Rightarrow> 'b::linorder"
  assumes "xs \<noteq> []"
  shows "hd (sort_key f xs) \<in> set xs \<and> (\<forall>y \<in> set xs. f (hd (sort_key f xs)) \<le> f y)"
proof -
  obtain z zs where zs: "sort_key f xs = z # zs"
    using assms by (metis length_sort length_0_conv neq_Nil_conv)
  have "sorted (map f (z # zs))" using sorted_sort_key [of f xs] zs by simp
  then have "\<forall>y \<in> set (z # zs). f z \<le> f y" by auto
  moreover have "set (z # zs) = set xs" using zs set_sort [of f xs] by simp
  ultimately show ?thesis using zs by auto
qed

text \<open>The first element of a stable sort among those that attain the least key.\<close>

lemma hd_sort_key_first:
  fixes f :: "'a \<Rightarrow> 'b::linorder"
  assumes "xs \<noteq> []"
  shows "hd (sort_key f xs) = hd (filter (\<lambda>z. f z = f (hd (sort_key f xs))) xs)"
proof -
  let ?m = "hd (sort_key f xs)"
  have ne: "sort_key f xs \<noteq> []" using assms(1) by (metis length_sort length_0_conv)
  then have "hd (filter (\<lambda>z. f z = f ?m) (sort_key f xs)) = ?m"
    by (cases "sort_key f xs") auto
  then show ?thesis unfolding sort_key_stable by simp
qed

section \<open>Association lists of lists\<close>

text \<open>\<^verbatim>\<open>d.setdefault(k, []).append(x)\<close>.\<close>

definition dappend :: "('k, 'v list) dict \<Rightarrow> 'k \<Rightarrow> 'v \<Rightarrow> ('k, 'v list) dict" where
  "dappend d k x = dset d k ((case dget d k of None \<Rightarrow> [] | Some xs \<Rightarrow> xs) @ [x])"

lemma dget_dappend [dict_simps]:
  "dget (dappend d k x) k' =
     (if k' = k then Some ((case dget d k of None \<Rightarrow> [] | Some xs \<Rightarrow> xs) @ [x]) else dget d k')"
  by (simp add: dappend_def dict_simps)

lemma dwf_dappend [dict_simps, intro]: "dwf d \<Longrightarrow> dwf (dappend d k x)"
  by (auto simp: dappend_def intro: dwf_dset)

text \<open>\<^verbatim>\<open>d.get(k, [])\<close>.\<close>

definition dlist :: "('k, 'v list) dict \<Rightarrow> 'k \<Rightarrow> 'v list" where
  "dlist d k = (case dget d k of None \<Rightarrow> [] | Some xs \<Rightarrow> xs)"

lemma dlist_simps [simp]:
  "dlist [] k = []"
  "dlist (dappend d k x) k' = (if k' = k then dlist d k @ [x] else dlist d k')"
  "dlist (dset d k xs) k' = (if k' = k then xs else dlist d k')"
  by (simp_all add: dlist_def dget_dappend dget_dset)

lemma dlist_None: "dget d k = None \<Longrightarrow> dlist d k = []"
  by (simp add: dlist_def)

lemma dlist_Some: "dget d k = Some xs \<Longrightarrow> dlist d k = xs"
  by (simp add: dlist_def)

section \<open>\<^verbatim>\<open>float(s)\<close> on a string\<close>

datatype pyfloat = Finite rat | PosInf | NegInf | NaN

definition is_digit :: "char \<Rightarrow> bool" where
  "is_digit c \<longleftrightarrow> (let n = (of_char c :: nat) in 48 \<le> n \<and> n \<le> 57)"

definition digit_value :: "char \<Rightarrow> nat" where
  "digit_value c = (of_char c :: nat) - 48"

definition ascii_lower :: "char \<Rightarrow> char" where
  "ascii_lower c = (let n = (of_char c :: nat) in if 65 \<le> n \<and> n \<le> 90 then char_of (n + 32) else c)"

text \<open>A run of digits, single underscores between digits allowed: value, number of digits, rest.\<close>

fun take_digits :: "nat \<Rightarrow> nat \<Rightarrow> string \<Rightarrow> nat \<times> nat \<times> string" where
  "take_digits acc n [] = (acc, n, [])"
| "take_digits acc n (c # cs) =
     (if is_digit c then take_digits (10 * acc + digit_value c) (n + 1) cs
      else if c = CHR ''_'' \<and> 0 < n \<and> cs \<noteq> [] \<and> is_digit (hd cs) then take_digits acc n cs
      else (acc, n, c # cs))"

definition take_sign :: "string \<Rightarrow> bool \<times> string" where
  "take_sign s = (case s of
     [] \<Rightarrow> (False, [])
   | c # cs \<Rightarrow> if c = CHR ''-'' then (True, cs) else if c = CHR ''+'' then (False, cs) else (False, s))"

text \<open>The exponent of a number, if any: the rest must be empty.\<close>

definition parse_exponent :: "string \<Rightarrow> int option" where
  "parse_exponent s = (case s of
     [] \<Rightarrow> Some 0
   | c # cs \<Rightarrow>
       if ascii_lower c = CHR ''e'' then
         (case take_sign cs of (neg, cs') \<Rightarrow>
            (case take_digits 0 0 cs' of (v, n, rest) \<Rightarrow>
               if n = 0 \<or> rest \<noteq> [] then None else Some (if neg then - int v else int v)))
       else None)"

definition parse_unsigned :: "string \<Rightarrow> rat option" where
  "parse_unsigned s =
     (case take_digits 0 0 s of (whole, n, rest) \<Rightarrow>
       (case (if rest \<noteq> [] \<and> hd rest = CHR ''.'' then take_digits 0 0 (tl rest) else (0, 0, rest)) of
          (fractional, m, rest') \<Rightarrow>
            if n + m = 0 then None
            else map_option (\<lambda>e. (of_nat whole + of_nat fractional / 10 ^ m)
                   * (if 0 \<le> e then 10 ^ nat e else 1 / 10 ^ nat (- e)))
                 (parse_exponent rest')))"

definition py_float :: "string \<Rightarrow> pyfloat res" where
  "py_float s =
     (case take_sign (strip s) of (neg, body) \<Rightarrow>
       (let word = map ascii_lower body
        in if word = ''inf'' \<or> word = ''infinity'' then Inr (if neg then NegInf else PosInf)
           else if word = ''nan'' then Inr NaN
           else case parse_unsigned body of
                  None \<Rightarrow> Inl (ValueError (''could not convert string to float: '' @ s))
                | Some q \<Rightarrow> Inr (Finite (if neg then - q else q))))"

text \<open>\<^verbatim>\<open>sep.join(xs)\<close>.\<close>

fun join_with :: "string \<Rightarrow> string list \<Rightarrow> string" where
  "join_with sep [] = []"
| "join_with sep [x] = x"
| "join_with sep (x # y # ys) = x @ sep @ join_with sep (y # ys)"

section \<open>Loops that may raise\<close>

text \<open>Applying a function that may raise to the elements of a list, in order.\<close>

fun map_res :: "('a \<Rightarrow> 'b res) \<Rightarrow> 'a list \<Rightarrow> 'b list res" where
  "map_res f [] = Inr []"
| "map_res f (x # xs) =
     (case f x of
        Inl e \<Rightarrow> Inl e
      | Inr y \<Rightarrow> (case map_res f xs of Inl e \<Rightarrow> Inl e | Inr ys \<Rightarrow> Inr (y # ys)))"

lemma map_res_ok: "map_res f xs = Inr ys \<longleftrightarrow> map f xs = map Inr ys"
proof (induction xs arbitrary: ys)
  case Nil
  then show ?case by auto
next
  case (Cons x xs)
  show ?case by (cases ys) (auto simp flip: Cons.IH split: sum.splits)
qed

lemma map_res_Inr: "(\<And>x. x \<in> set xs \<Longrightarrow> f x = Inr (g x)) \<Longrightarrow> map_res f xs = Inr (map g xs)"
  by (induction xs) auto

lemma map_res_length: "map_res f xs = Inr ys \<Longrightarrow> length ys = length xs"
  unfolding map_res_ok by (metis length_map)

lemma map_res_err: "map_res f xs = Inl e \<Longrightarrow> \<exists>x \<in> set xs. f x = Inl e"
  by (induction xs) (auto split: sum.splits)

lemma map_res_set: "map_res f xs = Inr ys \<Longrightarrow> f ` set xs = Inr ` set ys"
  unfolding map_res_ok by (metis list.set_map)

lemma map_res_mem: "map_res f xs = Inr ys \<Longrightarrow> y \<in> set ys \<Longrightarrow> \<exists>x \<in> set xs. f x = Inr y"
  by (drule map_res_set) (metis imageE imageI)

lemma map_res_mem2: "map_res f xs = Inr ys \<Longrightarrow> x \<in> set xs \<Longrightarrow> \<exists>y \<in> set ys. f x = Inr y"
  by (drule map_res_set) blast

section \<open>Decimal numerals\<close>

definition digit_char :: "nat \<Rightarrow> char" where
  "digit_char d = char_of (48 + d)"

fun nat_str :: "nat \<Rightarrow> string" where
  "nat_str n = (if n < 10 then [digit_char n] else nat_str (n div 10) @ [digit_char (n mod 10)])"

declare nat_str.simps [simp del]

definition int_str :: "int \<Rightarrow> string" where
  "int_str i = (if i < 0 then ''-'' @ nat_str (nat (- i)) else nat_str (nat i))"

lemma nat_str_nonempty [simp]: "nat_str n \<noteq> []"
  by (subst nat_str.simps) simp

text \<open>The digits of \<^verbatim>\<open>bytes.hex()\<close>; with them two concrete digests, for the examples.\<close>

definition hex_digit :: "nat \<Rightarrow> char" where
  "hex_digit d = (if d < 10 then digit_char d else char_of (87 + d))"

definition hex_encode :: "string \<Rightarrow> string" where
  "hex_encode s = concat (map (\<lambda>c. let n = of_char c in [hex_digit (n div 16), hex_digit (n mod 16)]) s)"

definition sample_digests :: Digests where
  "sample_digests = \<lparr>sha256_hex = hex_encode, md5_hex = (\<lambda>s. hex_encode (rev s))\<rparr>"

end
