(* ===== verification/Types.thy ===== *)
theory Types
  imports Prelude
begin

text \<open>
  The object model of \<^verbatim>\<open>src/l3store/core/types.py\<close>: the string enumerations with their
  values, the metadata record every object carries, the eight object classes, and the
  validators the classes declare.  A pydantic model is a record; its validators are functions
  that return the model or the \<open>ValueError\<close> they raise.  Defaults that read the clock or draw
  a fresh \<^verbatim>\<open>uuid4().hex\<close> are arguments.
\<close>

section \<open>Enumerations\<close>

datatype ObjectType =
  KV_CACHE | RAG | SEMANTIC_CACHE | AGENT_WORKFLOW | AGENT_STEP
| TOOL_CALL_ARTIFACT | PLAN_CACHE | WORKFLOW_TRACE

fun ObjectType_value :: "ObjectType \<Rightarrow> string" where
  "ObjectType_value KV_CACHE = ''kv_cache''"
| "ObjectType_value RAG = ''rag''"
| "ObjectType_value SEMANTIC_CACHE = ''semantic_cache''"
| "ObjectType_value AGENT_WORKFLOW = ''agent_workflow''"
| "ObjectType_value AGENT_STEP = ''agent_step''"
| "ObjectType_value TOOL_CALL_ARTIFACT = ''tool_call_artifact''"
| "ObjectType_value PLAN_CACHE = ''plan_cache''"
| "ObjectType_value WORKFLOW_TRACE = ''workflow_trace''"

definition all_object_types :: "ObjectType list" where
  "all_object_types = [KV_CACHE, RAG, SEMANTIC_CACHE, AGENT_WORKFLOW, AGENT_STEP,
     TOOL_CALL_ARTIFACT, PLAN_CACHE, WORKFLOW_TRACE]"

text \<open>Calling an enumeration class with a value looks the member up or raises.\<close>

definition enum_of :: "('e \<Rightarrow> string) \<Rightarrow> 'e list \<Rightarrow> string \<Rightarrow> 'e res" where
  "enum_of value members s =
     (case List.find (\<lambda>e. value e = s) members of
        None \<Rightarrow> Inl (ValueError (''not a valid member: '' @ s))
      | Some e \<Rightarrow> Inr e)"

definition ObjectType_of :: "string \<Rightarrow> ObjectType res" where
  "ObjectType_of s = enum_of ObjectType_value all_object_types s"

lemma ObjectType_of_value [simp]: "ObjectType_of (ObjectType_value t) = Inr t"
  by (cases t) (simp_all add: ObjectType_of_def enum_of_def all_object_types_def)

datatype AgentWorkflowType = REACT | MULTI_AGENT | RAG_AGENT | TOOL_AGENT

datatype AgentWorkflowStatus = CREATED | RUNNING | COMPLETED | FAILED | CANCELLED

datatype ArtifactScope = PUBLIC | SESSION | USER | WORKFLOW | PRIVATE

fun ArtifactScope_value :: "ArtifactScope \<Rightarrow> string" where
  "ArtifactScope_value PUBLIC = ''public''"
| "ArtifactScope_value SESSION = ''session''"
| "ArtifactScope_value USER = ''user''"
| "ArtifactScope_value WORKFLOW = ''workflow''"
| "ArtifactScope_value PRIVATE = ''private''"

lemma ArtifactScope_value_inj [simp]: "ArtifactScope_value a = ArtifactScope_value b \<longleftrightarrow> a = b"
  by (cases a; cases b) simp_all

text \<open>Scopes are \<^verbatim>\<open>str\<close> enumerations: they compare as their values do.\<close>

instantiation ArtifactScope :: linorder
begin

definition less_eq_ArtifactScope :: "ArtifactScope \<Rightarrow> ArtifactScope \<Rightarrow> bool" where
  "less_eq_ArtifactScope a b \<longleftrightarrow> ArtifactScope_value a \<le> ArtifactScope_value b"

definition less_ArtifactScope :: "ArtifactScope \<Rightarrow> ArtifactScope \<Rightarrow> bool" where
  "less_ArtifactScope a b \<longleftrightarrow> ArtifactScope_value a < ArtifactScope_value b"

instance
proof
  fix a b c :: ArtifactScope
  show "a < b \<longleftrightarrow> a \<le> b \<and> \<not> b \<le> a"
    unfolding less_eq_ArtifactScope_def less_ArtifactScope_def by (rule less_le_not_le)
  show "a \<le> a" by (simp add: less_eq_ArtifactScope_def)
  show "a \<le> b \<Longrightarrow> b \<le> c \<Longrightarrow> a \<le> c"
    unfolding less_eq_ArtifactScope_def by (rule order_trans)
  show "a \<le> b \<Longrightarrow> b \<le> a \<Longrightarrow> a = b"
    by (metis less_eq_ArtifactScope_def ArtifactScope_value_inj order_antisym)
  show "a \<le> b \<or> b \<le> a"
    unfolding less_eq_ArtifactScope_def by (rule linear)
qed

end

datatype ConsistencyClass = IMMUTABLE | TTL | SOURCE_VERSIONED | WRITE_THROUGH | WRITE_BACK

section \<open>Free-form payloads\<close>

text \<open>Values of the annotation \<^verbatim>\<open>Any\<close> that survive JSON: what tool outputs are made of.\<close>

datatype json =
    JNull
  | JBool bool
  | JInt int
  | JFloat rat
  | JStr string
  | JList "json list"
  | JDict "(string \<times> json) list"

section \<open>Metadata\<close>

record ObjectMeta =
  object_id :: string
  object_type :: ObjectType
  created_at :: rat
  last_accessed :: rat
  access_count :: int
  size_bytes :: int
  reuse_score :: rat
  ref_count :: int
  tags :: "(string, string) dict"
  m_workflow_id :: "string option"
  m_agent_id :: "string option"
  m_step_id :: "string option"
  m_turn_id :: "int option"
  m_tool_name :: "string option"
  m_tool_args_hash :: "string option"
  m_plan_id :: "string option"
  expected_next_use_step :: "int option"
  predicted_tool_latency_ms :: "rat option"
  valid_until :: "rat option"
  m_scope :: "ArtifactScope option"
  consistency_class :: "ConsistencyClass option"

text \<open>\<^verbatim>\<open>ObjectMeta(object_type=t)\<close> with every other field at its default.\<close>

definition new_meta :: "string \<Rightarrow> rat \<Rightarrow> ObjectType \<Rightarrow> ObjectMeta" where
  "new_meta fresh now t = \<lparr>
     object_id = fresh, object_type = t, created_at = now, last_accessed = now,
     access_count = 0, size_bytes = 0, reuse_score = 0, ref_count = 0, tags = [],
     m_workflow_id = None, m_agent_id = None, m_step_id = None, m_turn_id = None,
     m_tool_name = None, m_tool_args_hash = None, m_plan_id = None,
     expected_next_use_step = None, predicted_tool_latency_ms = None, valid_until = None,
     m_scope = None, consistency_class = None\<rparr>"

definition touch :: "rat \<Rightarrow> ObjectMeta \<Rightarrow> ObjectMeta" where
  "touch now m = m\<lparr>last_accessed := now, access_count := access_count m + 1\<rparr>"

lemma touch_simps [simp]:
  "object_id (touch now m) = object_id m"
  "object_type (touch now m) = object_type m"
  "last_accessed (touch now m) = now"
  "access_count (touch now m) = access_count m + 1"
  "size_bytes (touch now m) = size_bytes m"
  by (simp_all add: touch_def)

section \<open>Object classes\<close>

record AgentWorkflow =
  wf_meta :: ObjectMeta
  wf_workflow_id :: string
  wf_session_id :: string
  wf_workflow_type :: AgentWorkflowType
  wf_created_at :: rat
  wf_status :: AgentWorkflowStatus
  wf_agent_ids :: "string list"
  wf_step_ids :: "string list"

record AgentStep =
  st_meta :: ObjectMeta
  st_step_id :: string
  st_workflow_id :: string
  st_agent_id :: string
  st_turn_id :: int
  st_parent_step_id :: "string option"
  st_input_prompt_hash :: string
  st_output_hash :: string
  st_tool_call_id :: "string option"
  st_kv_block_ids :: "string list"
  st_rag_object_ids :: "string list"
  st_semantic_entry_ids :: "string list"
  st_timestamp_start :: rat
  st_timestamp_end :: "rat option"

definition validate_timestamps :: "AgentStep \<Rightarrow> AgentStep res" where
  "validate_timestamps s =
     (case st_timestamp_end s of
        None \<Rightarrow> Inr s
      | Some e \<Rightarrow> if e < st_timestamp_start s
                 then Inl (ValueError ''timestamp_end must be >= timestamp_start'')
                 else Inr s)"

record ToolCallArtifact =
  ta_meta :: ObjectMeta
  ta_tool_call_id :: string
  ta_tool_name :: string
  ta_tool_args_hash :: string
  ta_tool_output_hash :: string
  ta_tool_output_payload :: "(string, json) dict"
  ta_ttl :: rat
  ta_source_version :: string
  ta_permission_scope :: ArtifactScope
  ta_created_at :: rat
  ta_expires_at :: rat

definition validate_ttl :: "rat \<Rightarrow> rat res" where
  "validate_ttl v = (if v \<le> 0 then Inl (ValueError ''ttl must be positive'') else Inr v)"

definition validate_expiration :: "ToolCallArtifact \<Rightarrow> ToolCallArtifact res" where
  "validate_expiration a =
     (if ta_expires_at a \<le> ta_created_at a
      then Inl (ValueError ''expires_at must be greater than created_at'')
      else Inr a)"

text \<open>Constructing the model runs the field validators first, then the model validator.\<close>

definition validate_tool_artifact :: "ToolCallArtifact \<Rightarrow> ToolCallArtifact res" where
  "validate_tool_artifact a =
     (case validate_ttl (ta_ttl a) of
        Inl e \<Rightarrow> Inl e
      | Inr _ \<Rightarrow> validate_expiration a)"

definition is_expired :: "ToolCallArtifact \<Rightarrow> rat \<Rightarrow> bool" where
  "is_expired a now \<longleftrightarrow> ta_expires_at a \<le> now"

record PlanCacheEntry =
  pl_meta :: ObjectMeta
  pl_plan_id :: string
  pl_task_embedding_dim :: int
  pl_plan_template :: string
  pl_required_tools :: "string list"
  pl_constraints :: "(string, string) dict"
  pl_success_count :: int
  pl_failure_count :: int
  pl_last_validated_at :: "rat option"
  pl_validity_scope :: ArtifactScope

definition validate_non_negative_int :: "int \<Rightarrow> int res" where
  "validate_non_negative_int v =
     (if v < 0 then Inl (ValueError ''value must be non-negative'') else Inr v)"

definition validate_plan_entry :: "PlanCacheEntry \<Rightarrow> PlanCacheEntry res" where
  "validate_plan_entry p =
     (case validate_non_negative_int (pl_task_embedding_dim p) of
        Inl e \<Rightarrow> Inl e
      | Inr _ \<Rightarrow>
     (case validate_non_negative_int (pl_success_count p) of
        Inl e \<Rightarrow> Inl e
      | Inr _ \<Rightarrow>
     (case validate_non_negative_int (pl_failure_count p) of
        Inl e \<Rightarrow> Inl e
      | Inr _ \<Rightarrow> Inr p)))"

record WorkflowTrace =
  tr_meta :: ObjectMeta
  tr_workflow_id :: string
  tr_ordered_steps :: "string list"
  tr_tool_latencies :: "(string, rat) dict"
  tr_prompt_lengths :: "(string, int) dict"
  tr_shared_prefix_ratio :: rat
  tr_branching_factor :: rat
  tr_cache_events :: "(string, json) dict list"

definition validate_shared_prefix_ratio :: "rat \<Rightarrow> rat res" where
  "validate_shared_prefix_ratio v =
     (if \<not> (0 \<le> v \<and> v \<le> 1)
      then Inl (ValueError ''shared_prefix_ratio must be in [0.0, 1.0]'') else Inr v)"

definition validate_branching_factor :: "rat \<Rightarrow> rat res" where
  "validate_branching_factor v =
     (if v < 1 then Inl (ValueError ''branching_factor must be >= 1.0'') else Inr v)"

definition validate_trace :: "WorkflowTrace \<Rightarrow> WorkflowTrace res" where
  "validate_trace t =
     (case validate_shared_prefix_ratio (tr_shared_prefix_ratio t) of
        Inl e \<Rightarrow> Inl e
      | Inr _ \<Rightarrow>
     (case validate_branching_factor (tr_branching_factor t) of
        Inl e \<Rightarrow> Inl e
      | Inr _ \<Rightarrow> Inr t))"

record KVCacheBlock =
  kv_meta :: ObjectMeta
  kv_model_name :: string
  kv_token_ids :: "int list"
  kv_block_index :: int
  kv_token_hash :: string
  kv_parent_block_id :: "string option"
  kv_shared_by_sessions :: "string list"

text \<open>
  \<^verbatim>\<open>KVCacheBlock.compute_token_hash\<close>: the first 16 hexadecimal digits of the digest of the
  tokens as 32-bit integers.  The packing is numpy's (it raises on a token outside the 32-bit
  range) and is the argument \<open>int32_bytes\<close>.
\<close>

definition compute_token_hash ::
    "(int list \<Rightarrow> string res) \<Rightarrow> Digests \<Rightarrow> int list \<Rightarrow> string res" where
  "compute_token_hash int32_bytes D ids =
     (case int32_bytes ids of
        Inl e \<Rightarrow> Inl e
      | Inr bs \<Rightarrow> Inr (take 16 (sha256_hex D bs)))"

record RAGObject =
  rg_meta :: ObjectMeta
  rg_document_id :: string
  rg_chunk_index :: int
  rg_chunk_text :: string
  rg_embedding_dim :: int
  rg_source :: string
  rg_page_number :: "int option"

record SemanticCacheEntry =
  se_meta :: ObjectMeta
  se_prompt_text :: string
  se_response_text :: string
  se_model_name :: string
  se_embedding_dim :: int
  se_reuse_count :: int
  se_similarity_threshold :: rat

section \<open>What the validators accept\<close>

lemma validate_timestamps_ok:
  "is_ok (validate_timestamps s) \<longleftrightarrow>
     (\<forall>e. st_timestamp_end s = Some e \<longrightarrow> st_timestamp_start s \<le> e)"
  by (auto simp: validate_timestamps_def split: option.splits)

lemma validate_tool_artifact_ok:
  "is_ok (validate_tool_artifact a) \<longleftrightarrow> 0 < ta_ttl a \<and> ta_created_at a < ta_expires_at a"
  by (auto simp: validate_tool_artifact_def validate_ttl_def validate_expiration_def)

lemma validate_plan_entry_ok:
  "is_ok (validate_plan_entry p) \<longleftrightarrow>
     0 \<le> pl_task_embedding_dim p \<and> 0 \<le> pl_success_count p \<and> 0 \<le> pl_failure_count p"
  by (auto simp: validate_plan_entry_def validate_non_negative_int_def)

lemma validate_trace_ok:
  "is_ok (validate_trace t) \<longleftrightarrow>
     0 \<le> tr_shared_prefix_ratio t \<and> tr_shared_prefix_ratio t \<le> 1 \<and> 1 \<le> tr_branching_factor t"
  by (auto simp: validate_trace_def validate_shared_prefix_ratio_def validate_branching_factor_def)

lemma validate_returns_input:
  "validate_timestamps s = Inr s' \<Longrightarrow> s' = s"
  "validate_tool_artifact a = Inr a' \<Longrightarrow> a' = a"
  "validate_plan_entry p = Inr p' \<Longrightarrow> p' = p"
  "validate_trace t = Inr t' \<Longrightarrow> t' = t"
  by (auto simp: validate_timestamps_def validate_tool_artifact_def validate_ttl_def
      validate_expiration_def validate_plan_entry_def validate_non_negative_int_def
      validate_trace_def validate_shared_prefix_ratio_def validate_branching_factor_def
      split: option.splits if_splits)

text \<open>An artifact is live from its creation until just before its expiry.\<close>

lemma valid_artifact_live_at_creation:
  "validate_tool_artifact a = Inr b \<Longrightarrow> \<not> is_expired a (ta_created_at a)"
  by (auto simp: validate_tool_artifact_def validate_ttl_def validate_expiration_def
      is_expired_def split: if_splits)

lemma is_expired_mono: "is_expired a now \<Longrightarrow> now \<le> later \<Longrightarrow> is_expired a later"
  by (simp add: is_expired_def)

text \<open>A block with the given id and tokens, for the examples.\<close>

definition sample_block :: "string \<Rightarrow> int list \<Rightarrow> KVCacheBlock" where
  "sample_block oid ts = \<lparr>kv_meta = new_meta oid 0 KV_CACHE, kv_model_name = ''model'', kv_token_ids = ts,
     kv_block_index = 0, kv_token_hash = ''hash'', kv_parent_block_id = None, kv_shared_by_sessions = []\<rparr>"

lemma sample_block_simps [simp]:
  "object_id (kv_meta (sample_block oid ts)) = oid"
  "size_bytes (kv_meta (sample_block oid ts)) = 0"
  "kv_token_ids (sample_block oid ts) = ts"
  "kv_shared_by_sessions (sample_block oid ts) = []"
  by (simp_all add: sample_block_def new_meta_def)

end
