(* ===== verification/Storage.thy ===== *)
theory Storage
  imports Types
begin

text \<open>
  The storage interface of \<^verbatim>\<open>src/l3store/storage/backend.py\<close> and the in-memory backend of
  \<^verbatim>\<open>memory_backend.py\<close>.  An implementation of the abstract class \<^verbatim>\<open>StorageBackend\<close> is a record of
  operations over a state \<open>'s\<close>; \<open>'b\<close> is the type of stored byte strings, which the program
  never looks into.  The locales state the contract the object store relies on, over an
  abstraction of the state to a map from keys to byte strings.  \<open>storage_backend\<close> is what every
  backend of the repository keeps, S3 included; \<open>exact_backend\<close> adds that a call that raises
  has changed nothing and that a deletion knows what was there; \<open>counting_backend\<close> that a bulk
  deletion does too; \<open>total_backend\<close> that no call raises.  \<open>MemoryBackend\<close> is of the last kind.
\<close>

section \<open>The interface\<close>

record BlobInfo =
  content_length :: int
  last_modified :: "string option"
  user_metadata :: "(string, json) dict"

record ('s, 'b) StorageBackend =
  be_put :: "string \<Rightarrow> 'b \<Rightarrow> (string, json) dict option \<Rightarrow> 's \<Rightarrow> unit res \<times> 's"
  be_get :: "string \<Rightarrow> 's \<Rightarrow> 'b option res"
  be_delete :: "string \<Rightarrow> 's \<Rightarrow> bool res \<times> 's"
  be_delete_many :: "string list \<Rightarrow> 's \<Rightarrow> int res \<times> 's"
  be_exists :: "string \<Rightarrow> 's \<Rightarrow> bool res"
  be_list_keys :: "string \<Rightarrow> 's \<Rightarrow> string list res"
  be_get_metadata :: "string \<Rightarrow> 's \<Rightarrow> BlobInfo option res"
  be_ensure_bucket :: "'s \<Rightarrow> unit res \<times> 's"

text \<open>The default \<^verbatim>\<open>StorageBackend.delete_many\<close>: delete one key after the other and count.\<close>

fun delete_many_from :: "(string \<Rightarrow> 's \<Rightarrow> bool res \<times> 's) \<Rightarrow> int \<Rightarrow> string list \<Rightarrow> 's \<Rightarrow> int res \<times> 's" where
  "delete_many_from del count [] s = (Inr count, s)"
| "delete_many_from del count (k # ks) s =
     (case del k s of
        (Inl e, s') \<Rightarrow> (Inl e, s')
      | (Inr b, s') \<Rightarrow> delete_many_from del (if b then count + 1 else count) ks s')"

definition delete_many :: "(string \<Rightarrow> 's \<Rightarrow> bool res \<times> 's) \<Rightarrow> string list \<Rightarrow> 's \<Rightarrow> int res \<times> 's" where
  "delete_many del ks s = delete_many_from del 0 ks s"

section \<open>The contract\<close>

text \<open>Deleting one key, and what the default \<open>delete_many\<close> then does.\<close>

locale deleter =
  fixes del :: "string \<Rightarrow> 's \<Rightarrow> bool res \<times> 's"
    and contents :: "'s \<Rightarrow> string \<Rightarrow> 'b option"
  assumes delete_ok: "del k s = (Inr b, s') \<Longrightarrow>
      b = (contents s k \<noteq> None) \<and> contents s' = (contents s)(k := None)"
    and delete_err: "del k s = (Inl e, s') \<Longrightarrow> contents s' = contents s"
begin

lemma delete_many_from_ok:
  "delete_many_from del n ks s = (Inr r, s') \<Longrightarrow>
     r = n + int (card {k \<in> set ks. contents s k \<noteq> None})
     \<and> contents s' = (\<lambda>k. if k \<in> set ks then None else contents s k)"
proof (induction ks arbitrary: n s)
  case Nil
  then show ?case by simp
next
  case (Cons k ks)
  from Cons.prems obtain b s1 where d: "del k s = (Inr b, s1)"
    and rest: "delete_many_from del (if b then n + 1 else n) ks s1 = (Inr r, s')"
    by (auto split: prod.splits sum.splits)
  from delete_ok [OF d] have b: "b = (contents s k \<noteq> None)"
    and s1: "contents s1 = (contents s)(k := None)" by auto
  have set1: "{j \<in> set ks. contents s1 j \<noteq> None} = {j \<in> set ks. contents s j \<noteq> None} - {k}"
    using s1 by auto
  have "{j \<in> set (k # ks). contents s j \<noteq> None} =
      (if b then insert k ({j \<in> set ks. contents s j \<noteq> None} - {k})
       else {j \<in> set ks. contents s j \<noteq> None} - {k})"
    using b by auto
  then have "card {j \<in> set (k # ks). contents s j \<noteq> None} =
      (if b then 1 else 0) + card {j \<in> set ks. contents s1 j \<noteq> None}"
    unfolding set1 by (simp del: insert_Diff_single)
  with Cons.IH [OF rest] b s1 show ?case by auto
qed

lemma delete_many_ok:
  "delete_many del ks s = (Inr r, s') \<Longrightarrow>
     r = int (card {k \<in> set ks. contents s k \<noteq> None})
     \<and> contents s' = (\<lambda>k. if k \<in> set ks then None else contents s k)"
  unfolding delete_many_def using delete_many_from_ok [of 0] by simp

text \<open>Also when a deletion raises halfway, a key is either untouched or deleted on request.\<close>

lemma delete_many_from_frame:
  "delete_many_from del n ks s = (r, s') \<Longrightarrow>
     contents s' k = contents s k \<or> (k \<in> set ks \<and> contents s' k = None)"
proof (induction ks arbitrary: n s)
  case Nil
  then show ?case by simp
next
  case (Cons j ks)
  obtain o1 s1 where d: "del j s = (o1, s1)" by fastforce
  show ?case
  proof (cases o1)
    case (Inl e)
    with Cons.prems d delete_err show ?thesis by force
  next
    case (Inr b)
    with Cons.prems d have "delete_many_from del (if b then n + 1 else n) ks s1 = (r, s')"
      by simp
    from Cons.IH [OF this] delete_ok [of j s b s1] d Inr show ?thesis
      by (auto split: if_splits)
  qed
qed

end

text \<open>
  What every backend promises.  A call that raises may have been carried out or not, and touches
  no other key; what a deletion answers says nothing of what was there; a bulk deletion may fail
  for some of its keys, and does not count those.
\<close>

locale storage_backend =
  fixes B :: "('s, 'b) StorageBackend" and contents :: "'s \<Rightarrow> string \<Rightarrow> 'b option"
  assumes put_ok: "be_put B k v m s = (Inr (), s') \<Longrightarrow> contents s' = (contents s)(k \<mapsto> v)"
    and put_any: "be_put B k v m s = (out, s') \<Longrightarrow>
          contents s' = contents s \<or> contents s' = (contents s)(k \<mapsto> v)"
    and deleted_ok: "be_delete B k s = (Inr b, s') \<Longrightarrow> contents s' = (contents s)(k := None)"
    and deleted_any: "be_delete B k s = (dout, s') \<Longrightarrow>
          contents s' = contents s \<or> contents s' = (contents s)(k := None)"
    and get_ok: "be_get B k s = Inr r \<Longrightarrow> r = contents s k"
    and many_frame: "be_delete_many B ks s = (mout, s') \<Longrightarrow>
          contents s' k = contents s k \<or> (k \<in> set ks \<and> contents s' k = None)"
    and many_left: "be_delete_many B ks s = (Inr n, s') \<Longrightarrow>
          n + int (card {k \<in> set ks. contents s' k \<noteq> None}) \<le> int (length ks)"
    and list_ok: "be_list_keys B p s = Inr ks \<Longrightarrow>
          set ks = {k. contents s k \<noteq> None \<and> starts_with k p}"

text \<open>A backend whose calls change nothing when they raise, and whose deletion knows what was there.\<close>

definition failures_clean :: "('s, 'b) StorageBackend \<Rightarrow> ('s \<Rightarrow> string \<Rightarrow> 'b option) \<Rightarrow> bool" where
  "failures_clean B contents \<longleftrightarrow>
     (\<forall>k v m s e s'. be_put B k v m s = (Inl e, s') \<longrightarrow> contents s' = contents s)"

locale exact_backend = storage_backend + deleter "be_delete B" contents +
  assumes put_err: "be_put B k v m s = (Inl e, s') \<Longrightarrow> contents s' = contents s"
begin

lemma clean: "failures_clean B contents"
  unfolding failures_clean_def using put_err by blast

end

text \<open>A backend whose \<open>delete_many\<close> removes every key and counts the ones that were there.\<close>

locale counting_backend = exact_backend +
  assumes many_ok: "be_delete_many B ks s = (Inr n, s') \<Longrightarrow>
          contents s' = (\<lambda>k. if k \<in> set ks then None else contents s k)"
    and many_count: "be_delete_many B ks s = (Inr n, s') \<Longrightarrow>
          n = int (card {k \<in> set ks. contents s k \<noteq> None})"

text \<open>A backend that never raises.\<close>

locale total_backend = counting_backend +
  assumes put_total: "\<exists>s'. be_put B k v m s = (Inr (), s')"
    and get_total: "\<exists>r. be_get B k s = Inr r"
    and delete_total: "\<exists>b s'. be_delete B k s = (Inr b, s')"
    and many_total: "\<exists>n s'. be_delete_many B ks s = (Inr n, s')"
    and list_total: "\<exists>ks. be_list_keys B p s = Inr ks"
begin

lemma get_eq: "be_get B k s = Inr (contents s k)"
proof -
  obtain r where "be_get B k s = Inr r" using get_total by blast
  with get_ok [OF this] show ?thesis by simp
qed

lemma put_eq: "\<exists>s'. be_put B k v m s = (Inr (), s') \<and> contents s' = (contents s)(k \<mapsto> v)"
proof -
  obtain s' where "be_put B k v m s = (Inr (), s')" using put_total by blast
  with put_ok [OF this] show ?thesis by blast
qed

lemma delete_eq:
  "\<exists>s'. be_delete B k s = (Inr (contents s k \<noteq> None), s') \<and> contents s' = (contents s)(k := None)"
proof -
  obtain b s' where "be_delete B k s = (Inr b, s')" using delete_total by blast
  with delete_ok [OF this] show ?thesis by blast
qed

lemma many_eq:
  "\<exists>s'. be_delete_many B ks s = (Inr (int (card {k \<in> set ks. contents s k \<noteq> None})), s')
      \<and> contents s' = (\<lambda>k. if k \<in> set ks then None else contents s k)"
proof -
  obtain n s' where "be_delete_many B ks s = (Inr n, s')" using many_total by blast
  with many_count [OF this] many_ok [OF this] show ?thesis by blast
qed

end

section \<open>The in-memory backend\<close>

record 'b MemoryBackend =
  mb_objects :: "(string, 'b) dict"
  mb_metadata :: "(string, (string, json) dict) dict"

definition memory_init :: "'b MemoryBackend" where
  "memory_init = \<lparr>mb_objects = [], mb_metadata = []\<rparr>"

definition memory_put ::
    "string \<Rightarrow> 'b \<Rightarrow> (string, json) dict option \<Rightarrow> 'b MemoryBackend \<Rightarrow> unit res \<times> 'b MemoryBackend" where
  "memory_put key data metadata s =
     (Inr (), s\<lparr>mb_objects := dset (mb_objects s) key data,
                mb_metadata := dset (mb_metadata s) key
                  (case metadata of None \<Rightarrow> [] | Some m \<Rightarrow> m)\<rparr>)"

definition memory_get :: "string \<Rightarrow> 'b MemoryBackend \<Rightarrow> 'b option res" where
  "memory_get key s = Inr (dget (mb_objects s) key)"

definition memory_delete :: "string \<Rightarrow> 'b MemoryBackend \<Rightarrow> bool res \<times> 'b MemoryBackend" where
  "memory_delete key s =
     (Inr (dmem (mb_objects s) key),
      s\<lparr>mb_objects := dpop (mb_objects s) key, mb_metadata := dpop (mb_metadata s) key\<rparr>)"

definition memory_exists :: "string \<Rightarrow> 'b MemoryBackend \<Rightarrow> bool res" where
  "memory_exists key s = Inr (dmem (mb_objects s) key)"

definition memory_list_keys :: "string \<Rightarrow> 'b MemoryBackend \<Rightarrow> string list res" where
  "memory_list_keys prefix s =
     Inr (if prefix = [] then sort (dkeys (mb_objects s))
          else sort (filter (\<lambda>k. starts_with k prefix) (dkeys (mb_objects s))))"

definition memory_get_metadata ::
    "('b \<Rightarrow> nat) \<Rightarrow> string \<Rightarrow> 'b MemoryBackend \<Rightarrow> BlobInfo option res" where
  "memory_get_metadata blen key s =
     Inr (case dget (mb_objects s) key of
            None \<Rightarrow> None
          | Some data \<Rightarrow> Some \<lparr>content_length = int (blen data), last_modified = None,
              user_metadata = (case dget (mb_metadata s) key of None \<Rightarrow> [] | Some m \<Rightarrow> m)\<rparr>)"

definition memory_ensure_bucket :: "'b MemoryBackend \<Rightarrow> unit res \<times> 'b MemoryBackend" where
  "memory_ensure_bucket s = (Inr (), s)"

definition memory_backend :: "('b \<Rightarrow> nat) \<Rightarrow> ('b MemoryBackend, 'b) StorageBackend" where
  "memory_backend blen = \<lparr>
     be_put = memory_put, be_get = memory_get, be_delete = memory_delete,
     be_delete_many = delete_many memory_delete, be_exists = memory_exists,
     be_list_keys = memory_list_keys, be_get_metadata = memory_get_metadata blen,
     be_ensure_bucket = memory_ensure_bucket\<rparr>"

text \<open>
  The two dictionaries of the backend always have the same keys; a state with repeated keys is
  not a Python dictionary.  The abstraction reads a dictionary as a map.
\<close>

definition memory_wf :: "'b MemoryBackend \<Rightarrow> bool" where
  "memory_wf s \<longleftrightarrow> dwf (mb_objects s) \<and> dwf (mb_metadata s)
     \<and> set (dkeys (mb_objects s)) = set (dkeys (mb_metadata s))"

definition memory_contents :: "'b MemoryBackend \<Rightarrow> string \<Rightarrow> 'b option" where
  "memory_contents s = map_of (mb_objects s)"

lemma memory_wf_init [simp]: "memory_wf memory_init"
  by (simp add: memory_wf_def memory_init_def)

lemma memory_wf_put: "memory_wf s \<Longrightarrow> memory_put k v m s = (r, s') \<Longrightarrow> memory_wf s'"
  unfolding memory_put_def by (clarsimp simp: memory_wf_def)

lemma memory_wf_delete: "memory_wf s \<Longrightarrow> memory_delete k s = (r, s') \<Longrightarrow> memory_wf s'"
  unfolding memory_delete_def by (clarsimp simp: memory_wf_def)

lemma memory_delete_spec:
  "memory_delete k s = (Inr (memory_contents s k \<noteq> None),
     s\<lparr>mb_objects := dpop (mb_objects s) k, mb_metadata := dpop (mb_metadata s) k\<rparr>)"
  by (simp add: memory_delete_def memory_contents_def dmem_def)

lemma memory_contents_pop [simp]:
  "memory_contents (s\<lparr>mb_objects := dpop (mb_objects s) k, mb_metadata := d\<rparr>)
     = (memory_contents s)(k := None)"
  by (auto simp: memory_contents_def dict_simps)

lemma memory_contents_set [simp]:
  "memory_contents (s\<lparr>mb_objects := dset (mb_objects s) k v, mb_metadata := d\<rparr>)
     = (memory_contents s)(k \<mapsto> v)"
  by (auto simp: memory_contents_def dict_simps)

lemma memory_backend_simps [simp, effect_simps]:
  "be_put (memory_backend bl) = memory_put"
  "be_get (memory_backend bl) = memory_get"
  "be_delete (memory_backend bl) = memory_delete"
  "be_delete_many (memory_backend bl) = delete_many memory_delete"
  "be_exists (memory_backend bl) = memory_exists"
  "be_list_keys (memory_backend bl) = memory_list_keys"
  "be_ensure_bucket (memory_backend bl) = memory_ensure_bucket"
  by (simp_all add: memory_backend_def)

lemma delete_many_from_memory_total:
  "\<exists>n s'. delete_many_from memory_delete c ks s = (Inr n, s')"
  by (induction ks arbitrary: c s) (auto simp: memory_delete_def)

interpretation mem_del: deleter memory_delete memory_contents
  by unfold_locales (auto simp: memory_delete_spec)

interpretation mem: total_backend "memory_backend blen" memory_contents for blen :: "'b \<Rightarrow> nat"
proof unfold_locales
  fix ks n and s s' :: "'b MemoryBackend"
  assume "be_delete_many (memory_backend blen) ks s = (Inr n, s')"
  then have "delete_many memory_delete ks s = (Inr n, s')" by simp
  from mem_del.delete_many_ok [OF this]
  show gone: "memory_contents s' = (\<lambda>k. if k \<in> set ks then None else memory_contents s k)"
    and count: "n = int (card {k \<in> set ks. memory_contents s k \<noteq> None})" by blast+
  have "card {k \<in> set ks. memory_contents s k \<noteq> None} \<le> length ks"
    by (rule order_trans [OF card_mono card_length]) auto
  then show "n + int (card {k \<in> set ks. memory_contents s' k \<noteq> None}) \<le> int (length ks)"
    by (simp add: gone count)
next
  fix k ks r and s s' :: "'b MemoryBackend"
  assume "be_delete_many (memory_backend blen) ks s = (r, s')"
  then show "memory_contents s' k = memory_contents s k
      \<or> (k \<in> set ks \<and> memory_contents s' k = None)"
    using mem_del.delete_many_from_frame [of 0 ks s r s' k] by (simp add: delete_many_def)
next
  fix p ks and s :: "'b MemoryBackend"
  assume "be_list_keys (memory_backend blen) p s = Inr ks"
  then show "set ks = {k. memory_contents s k \<noteq> None \<and> starts_with k p}"
    by (auto simp: memory_list_keys_def memory_contents_def starts_with_def
        dom_map_of_conv_image_fst [symmetric] split: if_splits)
next
  fix ks and s :: "'b MemoryBackend"
  show "\<exists>n s'. be_delete_many (memory_backend blen) ks s = (Inr n, s')"
    using delete_many_from_memory_total by (simp add: delete_many_def)
qed (auto simp: memory_put_def memory_get_def memory_list_keys_def memory_delete_spec
    memory_contents_def fun_eq_iff dict_simps)

end
