(* ===== verification/S3.thy ===== *)
theory S3
  imports Storage
begin

text \<open>
  The S3 backend of \<^verbatim>\<open>src/l3store/storage/s3_backend.py\<close>.  The boto3 client is not part of the
  repository: it is a record of the calls the backend makes, over a state \<open>'c\<close> of the service,
  and an argument of every operation.  What the backend relies on is the locale \<open>s3_service\<close>,
  which states the documented behaviour of those calls.
\<close>

section \<open>The client\<close>

text \<open>\<^verbatim>\<open>botocore.exceptions.ClientError\<close> with its code, or any other exception.\<close>

datatype s3_error = ClientError string | OtherError string

fun raised :: "s3_error \<Rightarrow> pyerr" where
  "raised (ClientError code) = LibError (''ClientError '' @ code)"
| "raised (OtherError msg) = LibError msg"

record ('c, 'b) S3Client =
  head_bucket :: "string \<Rightarrow> 'c \<Rightarrow> s3_error + unit"
  create_bucket :: "string \<Rightarrow> 'c \<Rightarrow> (s3_error + unit) \<times> 'c"
  put_object :: "string \<Rightarrow> string \<Rightarrow> 'b \<Rightarrow> nat \<Rightarrow> (string, string) dict option \<Rightarrow> 'c
                   \<Rightarrow> (s3_error + unit) \<times> 'c"
  get_object :: "string \<Rightarrow> string \<Rightarrow> 'c \<Rightarrow> s3_error + 'b"
  delete_object :: "string \<Rightarrow> string \<Rightarrow> 'c \<Rightarrow> (s3_error + unit) \<times> 'c"
  delete_objects :: "string \<Rightarrow> string list \<Rightarrow> 'c \<Rightarrow> (s3_error + string list) \<times> 'c"
  head_object :: "string \<Rightarrow> string \<Rightarrow> 'c \<Rightarrow> s3_error + (int \<times> string \<times> (string, string) dict)"
  list_pages :: "string \<Rightarrow> string \<Rightarrow> 'c \<Rightarrow> s3_error + string list list"

section \<open>The backend\<close>

definition s3_ensure_bucket ::
    "('c, 'b) S3Client \<Rightarrow> string \<Rightarrow> 'c \<Rightarrow> unit res \<times> 'c" where
  "s3_ensure_bucket C bucket c =
     (case head_bucket C bucket c of
        Inr _ \<Rightarrow> (Inr (), c)
      | Inl (ClientError code) \<Rightarrow>
          (case create_bucket C bucket c of
             (Inl e, c') \<Rightarrow> (Inl (raised e), c')
           | (Inr _, c') \<Rightarrow> (Inr (), c'))
      | Inl e \<Rightarrow> (Inl (raised e), c))"

text \<open>\<open>blen\<close> is \<^verbatim>\<open>len\<close> on byte strings and \<open>py_str\<close> is \<^verbatim>\<open>str\<close> on metadata values.\<close>

definition s3_put ::
    "('c, 'b) S3Client \<Rightarrow> string \<Rightarrow> ('b \<Rightarrow> nat) \<Rightarrow> (json \<Rightarrow> string)
       \<Rightarrow> string \<Rightarrow> 'b \<Rightarrow> (string, json) dict option \<Rightarrow> 'c \<Rightarrow> unit res \<times> 'c" where
  "s3_put C bucket blen py_str key data metadata c =
     (let extra = (case metadata of
                     None \<Rightarrow> None
                   | Some [] \<Rightarrow> None
                   | Some m \<Rightarrow> Some (map (\<lambda>(k, v). (k, py_str v)) m))
      in case put_object C bucket key data (blen data) extra c of
           (Inl e, c') \<Rightarrow> (Inl (raised e), c')
         | (Inr _, c') \<Rightarrow> (Inr (), c'))"

definition s3_get :: "('c, 'b) S3Client \<Rightarrow> string \<Rightarrow> string \<Rightarrow> 'c \<Rightarrow> 'b option res" where
  "s3_get C bucket key c =
     (case get_object C bucket key c of
        Inr body \<Rightarrow> Inr (Some body)
      | Inl (ClientError code) \<Rightarrow>
          (if code = ''NoSuchKey'' \<or> code = ''404'' then Inr None
           else Inl (raised (ClientError code)))
      | Inl e \<Rightarrow> Inl (raised e))"

definition s3_exists :: "('c, 'b) S3Client \<Rightarrow> string \<Rightarrow> string \<Rightarrow> 'c \<Rightarrow> bool res" where
  "s3_exists C bucket key c =
     (case head_object C bucket key c of
        Inr _ \<Rightarrow> Inr True
      | Inl (ClientError code) \<Rightarrow> Inr False
      | Inl e \<Rightarrow> Inl (raised e))"

definition s3_delete :: "('c, 'b) S3Client \<Rightarrow> string \<Rightarrow> string \<Rightarrow> 'c \<Rightarrow> bool res \<times> 'c" where
  "s3_delete C bucket key c =
     (case s3_exists C bucket key c of
        Inl e \<Rightarrow> (Inl e, c)
      | Inr existed \<Rightarrow>
          (case delete_object C bucket key c of
             (Inl e, c') \<Rightarrow> (Inl (raised e), c')
           | (Inr _, c') \<Rightarrow> (Inr existed, c')))"

text \<open>The deletion loop: at most 1000 keys in a request.\<close>

definition batch_size :: nat where "batch_size = 1000"

function s3_delete_batches ::
    "('c, 'b) S3Client \<Rightarrow> string \<Rightarrow> string list \<Rightarrow> int \<Rightarrow> 'c \<Rightarrow> int res \<times> 'c" where
  "s3_delete_batches C bucket keys deleted c =
     (if keys = [] then (Inr deleted, c)
      else let batch = take batch_size keys
           in case delete_objects C bucket batch c of
                (Inl e, c') \<Rightarrow> (Inl (raised e), c')
              | (Inr errors, c') \<Rightarrow>
                  s3_delete_batches C bucket (drop batch_size keys)
                    (deleted + int (length batch) - int (length errors)) c')"
  by pat_completeness auto
termination
  by (relation "measure (\<lambda>(C, bucket, keys, deleted, c). length keys)")
     (auto simp: batch_size_def)

declare s3_delete_batches.simps [simp del]

definition s3_delete_many ::
    "('c, 'b) S3Client \<Rightarrow> string \<Rightarrow> string list \<Rightarrow> 'c \<Rightarrow> int res \<times> 'c" where
  "s3_delete_many C bucket keys c =
     (if keys = [] then (Inr 0, c) else s3_delete_batches C bucket keys 0 c)"

definition s3_list_keys :: "('c, 'b) S3Client \<Rightarrow> string \<Rightarrow> string \<Rightarrow> 'c \<Rightarrow> string list res" where
  "s3_list_keys C bucket prefix c =
     (case list_pages C bucket prefix c of
        Inl e \<Rightarrow> Inl (raised e)
      | Inr pages \<Rightarrow> Inr (concat pages))"

definition s3_get_metadata ::
    "('c, 'b) S3Client \<Rightarrow> string \<Rightarrow> string \<Rightarrow> 'c \<Rightarrow> BlobInfo option res" where
  "s3_get_metadata C bucket key c =
     (case head_object C bucket key c of
        Inr (len, modified, m) \<Rightarrow>
          Inr (Some \<lparr>content_length = len, last_modified = Some modified,
                     user_metadata = map (\<lambda>(k, v). (k, JStr v)) m\<rparr>)
      | Inl (ClientError code) \<Rightarrow> Inr None
      | Inl e \<Rightarrow> Inl (raised e))"

definition s3_backend ::
    "('c, 'b) S3Client \<Rightarrow> string \<Rightarrow> ('b \<Rightarrow> nat) \<Rightarrow> (json \<Rightarrow> string) \<Rightarrow> ('c, 'b) StorageBackend" where
  "s3_backend C bucket blen py_str = \<lparr>
     be_put = s3_put C bucket blen py_str, be_get = s3_get C bucket,
     be_delete = s3_delete C bucket, be_delete_many = s3_delete_many C bucket,
     be_exists = s3_exists C bucket, be_list_keys = s3_list_keys C bucket,
     be_get_metadata = s3_get_metadata C bucket, be_ensure_bucket = s3_ensure_bucket C bucket\<rparr>"

text \<open>
  The constructor.  \<open>make_client\<close> is \<^verbatim>\<open>boto3.client\<close>: the name of the service, endpoint, access key, secret key, region and
  configuration give the state of a client, or an error.
\<close>

record BotoConfig =
  bc_signature_version :: string
  bc_retries :: "nat \<times> string"
  bc_max_pool_connections :: nat

type_synonym 'c boto3_client = "string \<Rightarrow> string \<Rightarrow> string \<Rightarrow> string \<Rightarrow> string \<Rightarrow> BotoConfig \<Rightarrow> 'c res"

definition s3_init ::
    "'c boto3_client \<Rightarrow> ('c, 'b) S3Client \<Rightarrow> ('b \<Rightarrow> nat) \<Rightarrow> (json \<Rightarrow> string)
       \<Rightarrow> string \<Rightarrow> string \<Rightarrow> string \<Rightarrow> string \<Rightarrow> string \<Rightarrow> ('c \<times> ('c, 'b) StorageBackend) res" where
  "s3_init make_client C blen py_str endpoint_url access_key secret_key bucket region =
     map_sum id (\<lambda>c. (c, s3_backend C bucket blen py_str))
       (make_client ''s3'' endpoint_url access_key secret_key region
          \<lparr>bc_signature_version = ''s3v4'', bc_retries = (3, ''adaptive''), bc_max_pool_connections = 50\<rparr>)"

lemma s3_backend_simps [simp]:
  "be_put (s3_backend C bucket bl ps) = s3_put C bucket bl ps"
  "be_get (s3_backend C bucket bl ps) = s3_get C bucket"
  "be_delete (s3_backend C bucket bl ps) = s3_delete C bucket"
  "be_delete_many (s3_backend C bucket bl ps) = s3_delete_many C bucket"
  "be_list_keys (s3_backend C bucket bl ps) = s3_list_keys C bucket"
  by (simp_all add: s3_backend_def)

section \<open>The documented behaviour of the service\<close>

text \<open>
  \<open>objs\<close> reads the bucket as a map.  The service is strongly consistent: a call that returns has
  its effect, and a read sees it.  A call that raises has been carried out or not by the time it raises
  (a time-out says neither), and touches no other key.  The codes \<^verbatim>\<open>NoSuchKey\<close> and \<^verbatim>\<open>404\<close> mean that the
  object is not there; any other code (\<^verbatim>\<open>403\<close>, \<^verbatim>\<open>503\<close>) says nothing.  A multi-object deletion takes
  at most 1000 keys and reports those it could not delete; a key that was not there is not an error.
\<close>

fun says_missing :: "s3_error \<Rightarrow> bool" where
  "says_missing (ClientError code) = (code = ''NoSuchKey'' \<or> code = ''404'')"
| "says_missing (OtherError m) = False"

locale s3_service =
  fixes C :: "('c, 'b) S3Client" and bucket :: string
    and objs :: "'c \<Rightarrow> string \<Rightarrow> 'b option"
  assumes put_object_ok: "put_object C bucket k v n m c = (Inr (), c') \<Longrightarrow> objs c' = (objs c)(k \<mapsto> v)"
    and put_object_err: "put_object C bucket k v n m c = (Inl e, c') \<Longrightarrow>
          objs c' = objs c \<or> objs c' = (objs c)(k \<mapsto> v)"
    and get_object_ok: "get_object C bucket k c = Inr v \<Longrightarrow> objs c k = Some v"
    and get_object_missing: "get_object C bucket k c = Inl e \<Longrightarrow> says_missing e \<Longrightarrow> objs c k = None"
    and head_object_ok: "head_object C bucket k c = Inr i \<Longrightarrow> objs c k \<noteq> None"
    and head_object_missing: "head_object C bucket k c = Inl e \<Longrightarrow> says_missing e \<Longrightarrow> objs c k = None"
    and delete_object_ok: "delete_object C bucket k c = (Inr (), c') \<Longrightarrow> objs c' = (objs c)(k := None)"
    and delete_object_err: "delete_object C bucket k c = (Inl e, c') \<Longrightarrow>
          objs c' = objs c \<or> objs c' = (objs c)(k := None)"
    and delete_objects_ok: "delete_objects C bucket ks c = (Inr errs, c') \<Longrightarrow> length ks \<le> 1000 \<Longrightarrow>
          k \<in> set ks \<Longrightarrow> k \<notin> set errs \<Longrightarrow> objs c' k = None"
    and delete_objects_any: "delete_objects C bucket ks c = (out, c') \<Longrightarrow>
          objs c' k = objs c k \<or> (k \<in> set ks \<and> objs c' k = None)"
    and list_pages_ok: "list_pages C bucket p c = Inr pages \<Longrightarrow>
          set (concat pages) = {k. objs c k \<noteq> None \<and> starts_with k p}"
begin

text \<open>\<^verbatim>\<open>exists\<close> is right when it answers that the object is there, and when the error says that it is missing.\<close>

lemma s3_exists_there: "s3_exists C bucket k c = Inr True \<Longrightarrow> objs c k \<noteq> None"
  by (auto simp: s3_exists_def split: sum.splits s3_error.splits dest: head_object_ok)

lemma batches_unfold:
  "ks \<noteq> [] \<Longrightarrow> s3_delete_batches C bucket ks n c =
     (case delete_objects C bucket (take batch_size ks) c of
        (Inl e, c') \<Rightarrow> (Inl (raised e), c')
      | (Inr errors, c') \<Rightarrow>
          s3_delete_batches C bucket (drop batch_size ks)
            (n + int (length (take batch_size ks)) - int (length errors)) c')"
  by (subst s3_delete_batches.simps) (simp add: Let_def)

lemma shorter: "ks \<noteq> [] \<Longrightarrow> length (drop batch_size ks) < length ks"
  by (simp add: batch_size_def)

lemma batches_frame:
  "s3_delete_batches C bucket ks n c = (out, c') \<Longrightarrow>
     objs c' k = objs c k \<or> (k \<in> set ks \<and> objs c' k = None)"
proof (induction ks arbitrary: n c rule: length_induct)
  case (1 ks)
  show ?case
  proof (cases "ks = []")
    case True
    with "1.prems" show ?thesis by (simp add: s3_delete_batches.simps)
  next
    case False
    obtain r c1 where d: "delete_objects C bucket (take batch_size ks) c = (r, c1)" by fastforce
    from delete_objects_any [OF d, of k]
    have first: "objs c1 k = objs c k \<or> (k \<in> set ks \<and> objs c1 k = None)" by (auto dest: in_set_takeD)
    show ?thesis
    proof (cases r)
      case (Inl e)
      with "1.prems" False d first show ?thesis by (simp add: batches_unfold)
    next
      case (Inr errs)
      with "1.prems" False d have "s3_delete_batches C bucket (drop batch_size ks)
           (n + int (length (take batch_size ks)) - int (length errs)) c1 = (out, c')"
        by (simp add: batches_unfold)
      with "1.IH" shorter [OF False]
      have "objs c' k = objs c1 k \<or> (k \<in> set (drop batch_size ks) \<and> objs c' k = None)" by blast
      with first show ?thesis by (auto dest: in_set_dropD)
    qed
  qed
qed

text \<open>
  What the backend counts: the keys it was asked to delete, present or not, less those the service
  reported.  Every key that is still stored was reported.
\<close>

lemma batches_left:
  "s3_delete_batches C bucket ks n c = (Inr r, c') \<Longrightarrow>
     r + int (card {k \<in> set ks. objs c' k \<noteq> None}) \<le> n + int (length ks)"
proof (induction ks arbitrary: n c rule: length_induct)
  case (1 ks)
  show ?case
  proof (cases "ks = []")
    case True
    with "1.prems" show ?thesis by (simp add: s3_delete_batches.simps)
  next
    case False
    let ?a = "take batch_size ks" and ?b = "drop batch_size ks"
    from "1.prems" False obtain errs c1 where d: "delete_objects C bucket ?a c = (Inr errs, c1)"
      and rest: "s3_delete_batches C bucket ?b (n + int (length ?a) - int (length errs)) c1 = (Inr r, c')"
      by (auto simp: batches_unfold split: prod.splits sum.splits)
    from "1.IH" shorter [OF False] rest
    have IH: "r + int (card {k \<in> set ?b. objs c' k \<noteq> None}) \<le> n + int (length ?a) - int (length errs) + int (length ?b)"
      by blast
    have "objs c' k = None" if "k \<in> set ?a" "k \<notin> set errs" for k
      using delete_objects_ok [OF d _ that] batches_frame [OF rest, of k] by (auto simp: batch_size_def)
    moreover have "set ks = set ?a \<union> set ?b" by (metis append_take_drop_id set_append)
    ultimately have "{k \<in> set ks. objs c' k \<noteq> None} \<subseteq> set errs \<union> {k \<in> set ?b. objs c' k \<noteq> None}" by auto
    then have "card {k \<in> set ks. objs c' k \<noteq> None} \<le> card (set errs \<union> {k \<in> set ?b. objs c' k \<noteq> None})"
      by (rule card_mono [rotated]) simp
    also have "\<dots> \<le> length errs + card {k \<in> set ?b. objs c' k \<noteq> None}"
      by (rule order_trans [OF card_Un_le]) (simp add: card_length)
    finally have "card {k \<in> set ks. objs c' k \<noteq> None} \<le> length errs + card {k \<in> set ?b. objs c' k \<noteq> None}" .
    moreover have "length ?a + length ?b = length ks" by (metis append_take_drop_id length_append)
    ultimately show ?thesis using IH by linarith
  qed
qed

text \<open>Without a reported error it answers with the number of keys it was asked to delete.\<close>

lemma batches_count:
  assumes "\<And>ks c errs c'. delete_objects C bucket ks c = (Inr errs, c') \<Longrightarrow> errs = []"
  shows "s3_delete_batches C bucket ks n c = (Inr r, c') \<Longrightarrow> r = n + int (length ks)"
proof (induction ks arbitrary: n c rule: length_induct)
  case (1 ks)
  show ?case
  proof (cases "ks = []")
    case True
    with "1.prems" show ?thesis by (simp add: s3_delete_batches.simps)
  next
    case False
    with "1.prems" obtain c1 where rest:
        "s3_delete_batches C bucket (drop batch_size ks) (n + int (length (take batch_size ks))) c1
           = (Inr r, c')"
      by (auto simp: batches_unfold split: prod.splits sum.splits dest: assms)
    with "1.IH" shorter [OF False]
    have "r = n + int (length (take batch_size ks)) + int (length (drop batch_size ks))" by blast
    then show ?thesis by (simp add: batch_size_def)
  qed
qed

end

text \<open>Under that behaviour the S3 backend keeps the contract of a storage backend.\<close>

sublocale s3_service \<subseteq> s3_store: storage_backend "s3_backend C bucket blen py_str" objs
  for blen py_str
proof (unfold_locales, goal_cases)
  case (1 k v m s s')
  then show ?case by (auto simp: s3_put_def Let_def split: sum.splits prod.splits dest: put_object_ok)
next
  case (2 k v m s out s')
  then show ?case
    by (auto simp: s3_put_def Let_def split: sum.splits prod.splits dest: put_object_ok put_object_err)
next
  case (3 k s b s')
  then show ?case by (auto simp: s3_delete_def split: sum.splits prod.splits dest: delete_object_ok)
next
  case (4 k s out s')
  then show ?case
    by (auto simp: s3_delete_def split: sum.splits prod.splits dest: delete_object_ok delete_object_err)
next
  case (5 k s r)
  then show ?case
    by (auto simp: s3_get_def split: sum.splits s3_error.splits if_splits
        dest: get_object_ok get_object_missing)
next
  case (6 ks s out s' k)
  then show ?case
    using batches_frame [of ks 0 s out s' k] by (auto simp: s3_delete_many_def split: if_splits)
next
  case (7 ks s n s')
  then show ?case
    using batches_left [of ks 0 s n s'] by (auto simp: s3_delete_many_def split: if_splits)
next
  case (8 p s ks)
  then show ?case by (auto simp: s3_list_keys_def split: sum.splits dest: list_pages_ok)
qed

text \<open>
  A service whose failing calls change nothing and whose HEAD fails only for a missing object: this
  is more than what is documented, and what the backend would need to keep the exact contract.
\<close>

locale clean_s3_service = s3_service +
  assumes clean_put: "put_object C bucket k v n m c = (Inl e, c') \<Longrightarrow> objs c' = objs c"
    and clean_delete: "delete_object C bucket k c = (Inl e, c') \<Longrightarrow> objs c' = objs c"
    and clean_head: "head_object C bucket k c = Inl (ClientError code) \<Longrightarrow> objs c k = None"

sublocale clean_s3_service \<subseteq> clean_store: exact_backend "s3_backend C bucket blen py_str" objs
  for blen py_str
proof (unfold_locales, goal_cases)
  case (1 k s b s')
  then show ?case
    by (auto simp: s3_delete_def s3_exists_def split: sum.splits prod.splits s3_error.splits
        dest: head_object_ok clean_head delete_object_ok)
next
  case (2 k s e s')
  then show ?case by (auto simp: s3_delete_def split: sum.splits prod.splits dest: clean_delete)
next
  case (3 k v m s e s')
  then show ?case by (auto simp: s3_put_def Let_def split: sum.splits prod.splits dest: clean_put)
qed

section \<open>A bucket of this kind\<close>

text \<open>
  A bucket that holds at most a given number of objects and refuses further ones.  It is the
  instance on which the assumptions above are checked, and it is a backend whose second put of
  a pair can fail.
\<close>

record 'b Bucket =
  bk_objects :: "(string, 'b) dict"
  bk_quota :: nat

definition bucket_client :: "('b Bucket, 'b) S3Client" where
  "bucket_client = \<lparr>
     head_bucket = (\<lambda>b c. Inr ()),
     create_bucket = (\<lambda>b c. (Inr (), c)),
     put_object = (\<lambda>b k v n m c.
       if \<not> dmem (bk_objects c) k \<and> bk_quota c \<le> length (bk_objects c)
       then (Inl (ClientError ''QuotaExceeded''), c)
       else (Inr (), c\<lparr>bk_objects := dset (bk_objects c) k v\<rparr>)),
     get_object = (\<lambda>b k c. case dget (bk_objects c) k of
       None \<Rightarrow> Inl (ClientError ''NoSuchKey'') | Some v \<Rightarrow> Inr v),
     delete_object = (\<lambda>b k c. (Inr (), c\<lparr>bk_objects := dpop (bk_objects c) k\<rparr>)),
     delete_objects = (\<lambda>b ks c. (Inr [], c\<lparr>bk_objects := fold AList.delete ks (bk_objects c)\<rparr>)),
     head_object = (\<lambda>b k c. if dmem (bk_objects c) k then Inr (0, [], []) else Inl (ClientError ''404'')),
     list_pages = (\<lambda>b p c. Inr [filter (\<lambda>k. starts_with k p) (dkeys (bk_objects c))])\<rparr>"

definition bucket_contents :: "'b Bucket \<Rightarrow> string \<Rightarrow> 'b option" where
  "bucket_contents c = map_of (bk_objects c)"

lemma map_of_fold_delete:
  "map_of (fold AList.delete ks d) = (\<lambda>k. if k \<in> set ks then None else map_of d k)"
  by (induction ks arbitrary: d) (auto simp: delete_conv fun_eq_iff)

interpretation bucket: clean_s3_service bucket_client b bucket_contents for b
proof (unfold_locales, goal_cases)
  case (1 k v n m c c')
  then show ?case by (auto simp: bucket_client_def bucket_contents_def update_conv split: if_splits)
next
  case (2 k v n m c e c')
  then show ?case by (auto simp: bucket_client_def split: if_splits)
next
  case (3 k c v)
  then show ?case by (auto simp: bucket_client_def bucket_contents_def split: option.splits)
next
  case (4 k c e)
  then show ?case by (auto simp: bucket_client_def bucket_contents_def split: option.splits)
next
  case (9 ks c errs c' k)
  then show ?case by (auto simp: bucket_client_def bucket_contents_def map_of_fold_delete)
next
  case (10 ks c r c' k)
  then show ?case by (auto simp: bucket_client_def bucket_contents_def map_of_fold_delete split: if_splits)
next
  case (12 k v n m c e c')
  then show ?case by (auto simp: bucket_client_def split: if_splits)
qed (auto simp: bucket_client_def bucket_contents_def delete_conv dmem_def map_of_eq_None_iff
    split: if_splits)

text \<open>
  A bucket at its worst: a put is carried out but its answer is lost, HEAD is forbidden, and a bulk deletion
  deletes nothing and reports every key.  It behaves as documented too.
\<close>

definition troubled_client :: "('b Bucket, 'b) S3Client" where
  "troubled_client = bucket_client\<lparr>
     put_object := (\<lambda>b k v n m c. (Inl (OtherError ''ReadTimeoutError''), c\<lparr>bk_objects := dset (bk_objects c) k v\<rparr>)),
     head_object := (\<lambda>b k c. Inl (ClientError ''403'')),
     delete_objects := (\<lambda>b ks c. (Inr ks, c))\<rparr>"

lemma troubled_simps [simp]:
  "put_object troubled_client b k v n m c = (Inl (OtherError ''ReadTimeoutError''), c\<lparr>bk_objects := dset (bk_objects c) k v\<rparr>)"
  "head_object troubled_client b k c = Inl (ClientError ''403'')"
  "delete_objects troubled_client b ks c = (Inr ks, c)"
  "get_object troubled_client = get_object bucket_client"
  "delete_object troubled_client = delete_object bucket_client"
  "list_pages troubled_client = list_pages bucket_client"
  by (simp_all add: troubled_client_def)

interpretation troubled: s3_service troubled_client b bucket_contents for b
proof (unfold_locales, goal_cases)
  case (2 k v n m c e c')
  then show ?case by (auto simp: bucket_contents_def update_conv)
next
  case (3 k c v)
  then show ?case by (simp add: bucket.get_object_ok)
next
  case (4 k c e)
  then show ?case by (simp add: bucket.get_object_missing)
next
  case (7 k c c')
  then show ?case by (simp add: bucket.delete_object_ok)
next
  case (8 k c e c')
  then show ?case by (simp add: bucket.delete_object_err)
next
  case (11 p c pages)
  then show ?case using bucket.list_pages_ok by simp
qed simp_all

end
