(* ===== verification/BloomFilter.thy ===== *)
theory BloomFilter
  imports Storage "HOL-Library.Word"
begin

text \<open>
  The Bloom filter of \<^verbatim>\<open>src/l3store/metadata/bloom_filter.py\<close>: bits in a byte array, indices by
  double hashing.  The filter refines a growing set of bit positions, from which its one
  promise follows: what was added is never reported absent.
\<close>

unbundle bit_operations_syntax

section \<open>The filter\<close>

record BloomFilter =
  bf_size :: nat
  bf_num_hashes :: nat
  bf_bits :: "8 word list"
  bf_count :: nat

text \<open>\<^verbatim>\<open>int(x)\<close> on a float truncates towards zero; \<^verbatim>\<open>math.log\<close> raises outside its domain.\<close>

definition py_trunc :: "real \<Rightarrow> int" where
  "py_trunc x = (if 0 \<le> x then \<lfloor>x\<rfloor> else \<lceil>x\<rceil>)"

definition optimal_size :: "int \<Rightarrow> real \<Rightarrow> int res" where
  "optimal_size n p =
     (if p \<le> 0 then Inl (ValueError ''math domain error'')
      else Inr (max 64 (py_trunc (- real_of_int n * ln p / (ln 2)\<^sup>2))))"

definition optimal_hashes :: "int \<Rightarrow> int \<Rightarrow> int res" where
  "optimal_hashes m n =
     (if n = 0 then Inl ZeroDivisionError
      else Inr (max 1 (py_trunc (real_of_int m / real_of_int n * ln 2))))"

text \<open>An empty filter of given dimensions: \<^verbatim>\<open>bytearray(math.ceil(size / 8))\<close> is all zero.\<close>

definition bloom_new :: "nat \<Rightarrow> nat \<Rightarrow> BloomFilter" where
  "bloom_new sz num_hashes = \<lparr>bf_size = sz, bf_num_hashes = num_hashes,
     bf_bits = replicate ((sz + 7) div 8) 0, bf_count = 0\<rparr>"

definition bloom_init :: "int \<Rightarrow> real \<Rightarrow> BloomFilter res" where
  "bloom_init expected_items fp_rate =
     (case optimal_size expected_items fp_rate of
        Inl e \<Rightarrow> Inl e
      | Inr sz \<Rightarrow>
     (case optimal_hashes sz expected_items of
        Inl e \<Rightarrow> Inl e
      | Inr k \<Rightarrow> Inr (bloom_new (nat sz) (nat k))))"

definition get_indices :: "Digests \<Rightarrow> BloomFilter \<Rightarrow> string \<Rightarrow> nat list" where
  "get_indices D bf key =
     (let h1 = int_of_hex (sha256_hex D (utf8_encode key));
          h2 = int_of_hex (md5_hex D (utf8_encode key))
      in map (\<lambda>i. (h1 + i * h2) mod bf_size bf) [0..<bf_num_hashes bf])"

definition set_bit_at :: "8 word list \<Rightarrow> nat \<Rightarrow> 8 word list" where
  "set_bit_at bits idx =
     bits[idx div 8 := (bits ! (idx div 8)) OR push_bit (idx mod 8) 1]"

definition bit_at :: "8 word list \<Rightarrow> nat \<Rightarrow> bool" where
  "bit_at bits idx \<longleftrightarrow> (bits ! (idx div 8)) AND push_bit (idx mod 8) 1 \<noteq> 0"

definition bloom_add :: "Digests \<Rightarrow> string \<Rightarrow> BloomFilter \<Rightarrow> BloomFilter" where
  "bloom_add D key bf =
     bf\<lparr>bf_bits := foldl set_bit_at (bf_bits bf) (get_indices D bf key),
        bf_count := bf_count bf + 1\<rparr>"

definition might_contain :: "Digests \<Rightarrow> string \<Rightarrow> BloomFilter \<Rightarrow> bool" where
  "might_contain D key bf = list_all (bit_at (bf_bits bf)) (get_indices D bf key)"

section \<open>Well-formed filters\<close>

text \<open>The byte array is as long as the size needs, so that no index is out of its range.\<close>

definition bloom_wf :: "BloomFilter \<Rightarrow> bool" where
  "bloom_wf bf \<longleftrightarrow> 0 < bf_size bf \<and> length (bf_bits bf) = (bf_size bf + 7) div 8"

lemma bloom_wf_new [simp]: "bloom_wf (bloom_new n k) \<longleftrightarrow> 0 < n"
  by (simp add: bloom_wf_def bloom_new_def)

lemma bloom_init_wf: "bloom_init n p = Inr bf \<Longrightarrow> bloom_wf bf \<and> 64 \<le> bf_size bf \<and> 1 \<le> bf_num_hashes bf"
  by (auto simp: bloom_init_def optimal_size_def optimal_hashes_def bloom_new_def bloom_wf_def
      split: if_splits sum.splits)

lemma index_in_range:
  "bloom_wf bf \<Longrightarrow> i \<in> set (get_indices D bf key) \<Longrightarrow> i < bf_size bf \<and> i div 8 < length (bf_bits bf)"
proof -
  assume wf: "bloom_wf bf" and "i \<in> set (get_indices D bf key)"
  then have "i < bf_size bf" by (auto simp: get_indices_def Let_def bloom_wf_def)
  moreover have "(i + 8) div 8 \<le> (bf_size bf + 7) div 8"
    by (rule div_le_mono) (use calculation in simp)
  ultimately show ?thesis using wf by (simp add: bloom_wf_def)
qed

lemma length_foldl_set_bit [simp]: "length (foldl set_bit_at bits is) = length bits"
  by (induction "is" arbitrary: bits) (auto simp: set_bit_at_def)

lemma get_indices_add [simp]: "get_indices D (bloom_add D' k bf) = get_indices D bf"
  by (rule ext) (simp add: get_indices_def bloom_add_def)

lemma bloom_wf_add [simp]: "bloom_wf (bloom_add D k bf) = bloom_wf bf"
  by (simp add: bloom_wf_def bloom_add_def)

section \<open>The abstract filter: a set of positions\<close>

lemma bit_at_bit: "bit_at bits i \<longleftrightarrow> bit (bits ! (i div 8)) (i mod 8)"
proof -
  have "(bits ! (i div 8)) AND push_bit (i mod 8) 1 \<noteq> 0 \<longleftrightarrow> bit (bits ! (i div 8)) (i mod 8)"
    by (simp add: and_exp_eq_0_iff_not_bit push_bit_eq_mult)
  then show ?thesis by (simp add: bit_at_def)
qed

lemma bit_at_set_bit:
  assumes "i div 8 < length bits"
  shows "bit_at (set_bit_at bits i) j \<longleftrightarrow> j = i \<or> bit_at bits j"
proof (cases "j div 8 = i div 8")
  case True
  have "j = i \<longleftrightarrow> j mod 8 = i mod 8" using True by (metis mult_div_mod_eq)
  moreover have "bit (push_bit (i mod 8) (1 :: 8 word)) (j mod 8) \<longleftrightarrow> j mod 8 = i mod 8"
    by (auto simp: push_bit_eq_mult bit_exp_iff)
  ultimately show ?thesis
    using assms True by (simp add: bit_at_bit set_bit_at_def bit_or_iff) blast
next
  case False
  then show ?thesis by (auto simp: bit_at_bit set_bit_at_def)
qed

lemma bit_at_foldl:
  "\<forall>i \<in> set is. i div 8 < length bits \<Longrightarrow>
     bit_at (foldl set_bit_at bits is) j \<longleftrightarrow> j \<in> set is \<or> bit_at bits j"
proof (induction "is" arbitrary: bits)
  case Nil
  then show ?case by simp
next
  case (Cons i "is")
  have "\<forall>i \<in> set is. i div 8 < length (set_bit_at bits i)" for i
    using Cons.prems by (simp add: set_bit_at_def)
  then have "\<forall>i' \<in> set is. i' div 8 < length (set_bit_at bits i)"
    using Cons.prems by (simp add: set_bit_at_def)
  from Cons.IH [OF this] Cons.prems show ?case by (auto simp: bit_at_set_bit)
qed

definition bloom_positions :: "BloomFilter \<Rightarrow> nat set" where
  "bloom_positions bf = {i. bit_at (bf_bits bf) i}"

lemma bloom_positions_add:
  assumes "bloom_wf bf"
  shows "bloom_positions (bloom_add D k bf) = bloom_positions bf \<union> set (get_indices D bf k)"
proof -
  have "\<forall>i \<in> set (get_indices D bf k). i div 8 < length (bf_bits bf)"
    using assms index_in_range by blast
  then show ?thesis
    by (auto simp: bloom_positions_def bloom_add_def bit_at_foldl)
qed

lemma might_contain_positions:
  "might_contain D k bf \<longleftrightarrow> set (get_indices D bf k) \<subseteq> bloom_positions bf"
  by (auto simp: might_contain_def bloom_positions_def list_all_iff)

section \<open>The interface the metadata store relies on\<close>

text \<open>A filter that forgets nothing.\<close>

locale membership_filter =
  fixes add :: "string \<Rightarrow> 'f \<Rightarrow> 'f" and might :: "string \<Rightarrow> 'f \<Rightarrow> bool" and wf :: "'f \<Rightarrow> bool"
  assumes wf_add: "wf f \<Longrightarrow> wf (add x f)"
    and might_self: "wf f \<Longrightarrow> might x (add x f)"
    and might_mono: "wf f \<Longrightarrow> might y f \<Longrightarrow> might y (add x f)"
begin

lemma wf_adds: "wf f \<Longrightarrow> wf (fold add xs f)"
  by (induction xs arbitrary: f) (auto intro: wf_add)

lemma might_adds_old: "wf f \<Longrightarrow> might y f \<Longrightarrow> might y (fold add xs f)"
  by (induction xs arbitrary: f) (auto intro: wf_add might_mono)

lemma might_adds: "wf f \<Longrightarrow> y \<in> set xs \<Longrightarrow> might y (fold add xs f)"
proof (induction xs arbitrary: f)
  case Nil
  then show ?case by simp
next
  case (Cons x xs)
  show ?case
  proof (cases "y = x")
    case True
    then show ?thesis using Cons.prems might_adds_old wf_add might_self by simp
  next
    case False
    with Cons show ?thesis by (simp add: wf_add)
  qed
qed

end

interpretation bloom: membership_filter "bloom_add D" "might_contain D" bloom_wf for D
proof
  fix f x y
  assume wf: "bloom_wf f"
  show "bloom_wf (bloom_add D x f)" using wf by simp
  show "might_contain D x (bloom_add D x f)"
    using wf by (simp add: might_contain_positions bloom_positions_add)
  show "might_contain D y (bloom_add D x f)" if "might_contain D y f"
    using wf that by (auto simp: might_contain_positions bloom_positions_add)
qed

text \<open>Setting bits never clears one, and a filter with no bit set rejects everything.\<close>

lemma bloom_new_rejects:
  "0 < n \<Longrightarrow> 0 < k \<Longrightarrow> \<not> might_contain D key (bloom_new n k)"
proof -
  assume "0 < n" "0 < k"
  then have wf: "bloom_wf (bloom_new n k)" by simp
  have "\<not> bit_at (replicate m (0 :: 8 word)) i" if "i div 8 < m" for m i
    using that by (simp add: bit_at_def)
  then have "i \<notin> bloom_positions (bloom_new n k)" if "i \<in> set (get_indices D (bloom_new n k) key)" for i
    using index_in_range [OF wf that] by (simp add: bloom_positions_def bloom_new_def)
  moreover have "get_indices D (bloom_new n k) key \<noteq> []"
    using \<open>0 < k\<close> by (simp add: get_indices_def Let_def bloom_new_def)
  then obtain i where "i \<in> set (get_indices D (bloom_new n k) key)" by fastforce
  ultimately show ?thesis by (auto simp: might_contain_positions)
qed

section \<open>Properties\<close>

lemma bloom_count_add: "bf_count (bloom_add D k bf) = bf_count bf + 1"
  by (simp add: bloom_add_def)

lemma bloom_adds:
  assumes "bloom_wf bf"
  shows "bloom_wf (fold (bloom_add D) keys bf) \<and>
    bloom_positions (fold (bloom_add D) keys bf) = bloom_positions bf \<union> (\<Union>k \<in> set keys. set (get_indices D bf k)) \<and>
    get_indices D (fold (bloom_add D) keys bf) = get_indices D bf \<and>
    bf_count (fold (bloom_add D) keys bf) = bf_count bf + length keys"
  using assms
  by (induction keys arbitrary: bf) (auto simp: bloom_positions_add bloom_count_add)

lemma bloom_new_positions: "i \<in> set (get_indices D (bloom_new n k) key) \<Longrightarrow> 0 < n \<Longrightarrow> i \<notin> bloom_positions (bloom_new n k)"
proof -
  assume "0 < n" and i: "i \<in> set (get_indices D (bloom_new n k) key)"
  then have "bloom_wf (bloom_new n k)" by simp
  from index_in_range [OF this i] show ?thesis
    by (simp add: bloom_positions_def bloom_new_def bit_at_def)
qed

text \<open>C16: After adding any keys to a new filter, a key is reported present exactly when each of its bit
  positions is one of an added key: no added key is ever reported absent, and a filter without
  keys reports everything absent.  The count is the number of additions.\<close>

theorem bloom_answers:
  assumes "bloom_init n p = Inr bf"
  shows "(might_contain D key (fold (bloom_add D) keys bf) \<longleftrightarrow>
      set (get_indices D bf key) \<subseteq> (\<Union>k \<in> set keys. set (get_indices D bf k)))
    \<and> (key \<in> set keys \<longrightarrow> might_contain D key (fold (bloom_add D) keys bf))
    \<and> \<not> might_contain D key bf
    \<and> bf_count (fold (bloom_add D) keys bf) = length keys"
proof (intro conjI impI)
  obtain m k where bf: "bf = bloom_new m k"
    using assms by (auto simp: bloom_init_def split: sum.splits)
  have wf: "bloom_wf bf" and m: "0 < m" and k: "0 < k"
    using bloom_init_wf [OF assms] by (auto simp: bf bloom_new_def)
  have none: "i \<notin> bloom_positions bf" if "i \<in> set (get_indices D bf key)" for i
    using bloom_new_positions that m unfolding bf by blast
  then show "might_contain D key (fold (bloom_add D) keys bf) \<longleftrightarrow>
      set (get_indices D bf key) \<subseteq> (\<Union>k \<in> set keys. set (get_indices D bf k))"
    using bloom_adds [OF wf, of D keys] by (auto simp: might_contain_positions)
  show "might_contain D key (fold (bloom_add D) keys bf)" if "key \<in> set keys"
    by (rule bloom.might_adds [OF wf that])
  show "\<not> might_contain D key bf" unfolding bf by (rule bloom_new_rejects [OF m k])
  show "bf_count (fold (bloom_add D) keys bf) = length keys"
    using bloom_adds [OF wf, of D keys] by (simp add: bf bloom_new_def)
qed

lemma bloom_answers_witness:
  "\<exists>bf. bloom_init 1 1 = Inr bf \<and>
     might_contain sample_digests ''b'' (fold (bloom_add sample_digests) [''a'', ''b''] bf) \<and>
     \<not> might_contain sample_digests ''b'' bf"
proof -
  obtain bf where bf: "bloom_init 1 1 = Inr bf"
    by (simp add: bloom_init_def optimal_size_def optimal_hashes_def)
  with bloom_answers [OF bf, of sample_digests "''b''" "[''a'', ''b'']"] show ?thesis by auto
qed

end
