(* ===== verification/PrefixTree.thy ===== *)
theory PrefixTree
  imports Types "HOL-Library.Sublist"
begin

text \<open>
  The token trie of \<^verbatim>\<open>src/l3store/metadata/prefix_tree.py\<close> with its side table from object to
  tokens.  The trie refines the table: searching a token list finds exactly the objects whose
  registered tokens are a non-empty prefix of it, as long as no object is registered again under
  other tokens; removal prunes every node that has become useless.
\<close>

section \<open>The trie\<close>

datatype node = Node (children: "(int \<times> node) list") (object_ids: "string set")

definition empty_node :: node where
  "empty_node = Node [] {}"

record PrefixMatch =
  match_object_id :: string
  matched_length :: nat

record PrefixTree =
  pt_root :: node
  pt_tokens :: "(string, int list) dict"

definition prefix_tree_new :: PrefixTree where
  "prefix_tree_new = \<lparr>pt_root = empty_node, pt_tokens = []\<rparr>"

definition child_or_new :: "(int \<times> node) list \<Rightarrow> int \<Rightarrow> node" where
  "child_or_new ch t = (case dget ch t of None \<Rightarrow> empty_node | Some c \<Rightarrow> c)"

fun insert_node :: "int list \<Rightarrow> string \<Rightarrow> node \<Rightarrow> node" where
  "insert_node [] oid (Node ch ids) = Node ch (insert oid ids)"
| "insert_node (t # ts) oid (Node ch ids) =
     Node (dset ch t (insert_node ts oid (child_or_new ch t))) ids"

definition pt_insert :: "int list \<Rightarrow> string \<Rightarrow> PrefixTree \<Rightarrow> PrefixTree" where
  "pt_insert token_ids oid t =
     t\<lparr>pt_root := insert_node token_ids oid (pt_root t),
       pt_tokens := dset (pt_tokens t) oid token_ids\<rparr>"

text \<open>
  The order in which Python iterates over a set of strings is not determined; \<open>enum\<close> is the
  order of this run.
\<close>

definition enumerates :: "(string set \<Rightarrow> string list) \<Rightarrow> bool" where
  "enumerates enum \<longleftrightarrow> (\<forall>S. finite S \<longrightarrow> set (enum S) = S \<and> distinct (enum S))"

fun search_node ::
    "(string set \<Rightarrow> string list) \<Rightarrow> nat \<Rightarrow> int list \<Rightarrow> node \<Rightarrow> PrefixMatch list" where
  "search_node enum depth [] n = []"
| "search_node enum depth (t # ts) n =
     (case dget (children n) t of
        None \<Rightarrow> []
      | Some c \<Rightarrow>
          map (\<lambda>oid. \<lparr>match_object_id = oid, matched_length = depth\<rparr>) (enum (object_ids c))
          @ search_node enum (depth + 1) ts c)"

definition pt_search ::
    "(string set \<Rightarrow> string list) \<Rightarrow> int list \<Rightarrow> PrefixTree \<Rightarrow> PrefixMatch list" where
  "pt_search enum token_ids t = search_node enum 1 token_ids (pt_root t)"

definition longest_match ::
    "(string set \<Rightarrow> string list) \<Rightarrow> int list \<Rightarrow> PrefixTree \<Rightarrow> PrefixMatch option" where
  "longest_match enum token_ids t =
     (let matches = pt_search enum token_ids t
      in if matches = [] then None else Some (last matches))"

text \<open>
  Removal walks down the tokens (\<open>None\<close> if a token has no child), discards the object at the end
  and then goes back up the path, deleting empty children until the first one that stays; the
  flag says that the loop has not left yet.
\<close>

fun remove_at :: "int list \<Rightarrow> string \<Rightarrow> node \<Rightarrow> (node \<times> bool) option" where
  "remove_at [] oid (Node ch ids) = Some (Node ch (ids - {oid}), True)"
| "remove_at (t # ts) oid (Node ch ids) =
     (case dget ch t of
        None \<Rightarrow> None
      | Some c \<Rightarrow>
          (case remove_at ts oid c of
             None \<Rightarrow> None
           | Some (c', pruning) \<Rightarrow>
               if pruning \<and> children c' = [] \<and> object_ids c' = {}
               then Some (Node (dpop ch t) ids, True)
               else Some (Node (dset ch t c') ids, False)))"

definition pt_remove :: "string \<Rightarrow> PrefixTree \<Rightarrow> bool \<times> PrefixTree" where
  "pt_remove oid t =
     (case dget (pt_tokens t) oid of
        None \<Rightarrow> (False, t)
      | Some token_ids \<Rightarrow>
          (let t' = t\<lparr>pt_tokens := dpop (pt_tokens t) oid\<rparr>
           in case remove_at token_ids oid (pt_root t) of
                None \<Rightarrow> (False, t')
              | Some (root', _) \<Rightarrow> (True, t'\<lparr>pt_root := root'\<rparr>)))"

definition pt_len :: "PrefixTree \<Rightarrow> nat" where
  "pt_len t = length (pt_tokens t)"

definition pt_contains :: "string \<Rightarrow> PrefixTree \<Rightarrow> bool" where
  "pt_contains oid t = dmem (pt_tokens t) oid"

section \<open>The objects at a path\<close>

fun ids_at :: "node \<Rightarrow> int list \<Rightarrow> string set" where
  "ids_at (Node ch ids) [] = ids"
| "ids_at (Node ch ids) (t # ts) = (case dget ch t of None \<Rightarrow> {} | Some c \<Rightarrow> ids_at c ts)"

named_theorems trie_simps

lemma ids_at_empty [simp, trie_simps]: "ids_at empty_node ts = {}"
  by (cases ts) (simp_all add: empty_node_def)

lemma ids_at_child: "ids_at (child_or_new ch t) ts = ids_at (Node ch ids) (t # ts)"
  by (simp add: child_or_new_def split: option.splits)

lemma ids_at_insert [trie_simps]:
  "ids_at (insert_node ts oid n) us = (if us = ts then insert oid (ids_at n us) else ids_at n us)"
proof (induction ts oid n arbitrary: us rule: insert_node.induct)
  case (1 oid ch ids)
  then show ?case by (cases us) auto
next
  case (2 t ts oid ch ids)
  show ?case
  proof (cases us)
    case Nil
    then show ?thesis by simp
  next
    case (Cons v vs)
    have "ids_at (child_or_new ch t) vs = ids_at (Node ch ids) (t # vs)"
      by (rule ids_at_child)
    with Cons "2.IH" [of vs] show ?thesis by (auto simp: dict_simps simp del: ids_at_empty)
  qed
qed

lemma ids_at_remove [trie_simps]:
  "remove_at ts oid n = Some (n', p) \<Longrightarrow>
     ids_at n' us = (if us = ts then ids_at n us - {oid} else ids_at n us)"
proof (induction ts oid n arbitrary: us n' p rule: remove_at.induct)
  case (1 oid ch ids)
  then show ?case by (cases us) auto
next
  case (2 t ts oid ch ids)
  from "2.prems" obtain c c' q where c: "dget ch t = Some c" and rc: "remove_at ts oid c = Some (c', q)"
    by (auto split: option.splits)
  note IH = "2.IH" [OF c rc]
  have n': "n' = Node (if q \<and> children c' = [] \<and> object_ids c' = {} then dpop ch t else dset ch t c') ids"
    using "2.prems" c rc by (auto split: if_splits)
  show ?case
  proof (cases us)
    case Nil
    with n' show ?thesis by simp
  next
    case (Cons v vs)
    have "ids_at c' vs = {}" if "children c' = [] \<and> object_ids c' = {}"
      using that by (cases c'; cases vs) auto
    with n' IH [of vs] c Cons show ?thesis by (auto simp: dict_simps)
  qed
qed

lemma remove_at_total: "ids_at n ts \<noteq> {} \<Longrightarrow> remove_at ts oid n \<noteq> None"
proof (induction ts oid n rule: remove_at.induct)
  case (1 oid ch ids)
  then show ?case by simp
next
  case (2 t ts oid ch ids)
  then show ?case by (auto split: option.splits)
qed

section \<open>Finite, pruned tries\<close>

text \<open>No node below the root is a dead leaf, and the object sets are finite.\<close>

inductive live :: "node \<Rightarrow> bool" where
  liveI: "finite ids \<Longrightarrow> (\<And>t c. dget ch t = Some c \<Longrightarrow> live c \<and> (children c \<noteq> [] \<or> object_ids c \<noteq> {}))
          \<Longrightarrow> live (Node ch ids)"

inductive_cases live_NodeE: "live (Node ch ids)"

lemma live_empty [simp, intro]: "live empty_node"
  unfolding empty_node_def by (rule liveI) auto

lemma live_finite: "live n \<Longrightarrow> finite (object_ids n)"
  by (cases n) (auto elim: live_NodeE)

lemma live_child: "live n \<Longrightarrow> dget (children n) t = Some c \<Longrightarrow> live c"
  by (cases n) (auto elim: live_NodeE)

lemma dset_not_Nil [simp]: "dset d k v \<noteq> []"
  by (cases d) auto

lemma insert_node_not_dead: "children (insert_node ts oid n) \<noteq> [] \<or> object_ids (insert_node ts oid n) \<noteq> {}"
  by (induction ts oid n rule: insert_node.induct) auto

lemma live_insert: "live n \<Longrightarrow> live (insert_node ts oid n)"
proof (induction ts oid n rule: insert_node.induct)
  case (1 oid ch ids)
  then show ?case by (auto elim!: live_NodeE intro!: liveI)
next
  case (2 t ts oid ch ids)
  have "live (child_or_new ch t)"
    using "2.prems" by (auto simp: child_or_new_def elim!: live_NodeE split: option.splits)
  then have "live (insert_node ts oid (child_or_new ch t))" by (rule "2.IH")
  then show ?case
    using "2.prems" insert_node_not_dead
    by (auto simp: dict_simps elim!: live_NodeE intro!: liveI split: if_splits)
qed

lemma live_remove: "live n \<Longrightarrow> remove_at ts oid n = Some (n', p) \<Longrightarrow>
    live n' \<and> (p \<or> children n' \<noteq> [])"
proof (induction ts oid n arbitrary: n' p rule: remove_at.induct)
  case (1 oid ch ids)
  then show ?case by (auto elim!: live_NodeE intro!: liveI)
next
  case (2 t ts oid ch ids)
  from "2.prems"(2) obtain c c' q where c: "dget ch t = Some c" and rc: "remove_at ts oid c = Some (c', q)"
    by (auto split: option.splits)
  have "live c" using "2.prems"(1) c by (auto elim: live_NodeE)
  from "2.IH" [OF c this rc] have c': "live c'" "q \<or> children c' \<noteq> []" by auto
  show ?case
  proof (cases "q \<and> children c' = [] \<and> object_ids c' = {}")
    case True
    then have "n' = Node (dpop ch t) ids" "p" using "2.prems"(2) c rc by auto
    then show ?thesis using "2.prems"(1)
      by (auto simp: dict_simps elim!: live_NodeE intro!: liveI split: if_splits)
  next
    case False
    with "2.prems"(2) c rc have n': "n' = Node (dset ch t c') ids"
      by (simp only: remove_at.simps option.case prod.case if_False option.inject prod.inject)
    have "live n'"
      using "2.prems"(1) c' False unfolding n'
      by (auto simp: dict_simps elim!: live_NodeE intro!: liveI split: if_splits)
    with n' show ?thesis by simp
  qed
qed

section \<open>Searching\<close>

lemma search_node_iff:
  assumes en: "enumerates enum"
  shows "live n \<Longrightarrow> m \<in> set (search_node enum d ts n) \<longleftrightarrow>
    (\<exists>k < length ts. match_object_id m \<in> ids_at n (take (Suc k) ts) \<and> matched_length m = d + k)"
proof (induction ts arbitrary: n d)
  case Nil
  then show ?case by simp
next
  case (Cons t ts)
  show ?case
  proof (cases "dget (children n) t")
    case None
    then have "ids_at n (take (Suc k) (t # ts)) = {}" for k by (cases n) simp
    with None show ?thesis by simp
  next
    case (Some c)
    have c: "live c" using Cons.prems Some by (rule live_child)
    have at: "ids_at n (t # us) = ids_at c us" for us using Some by (cases n) simp
    have "set (enum (object_ids c)) = object_ids c"
      using en live_finite [OF c] unfolding enumerates_def by blast
    moreover have "object_ids c = ids_at c []" by (cases c) simp
    ultimately have here: "m \<in> set (map (\<lambda>oid. \<lparr>match_object_id = oid, matched_length = d\<rparr>)
        (enum (object_ids c))) \<longleftrightarrow> match_object_id m \<in> ids_at c [] \<and> matched_length m = d"
      by (cases m) auto
    have "(\<exists>k < length (t # ts). match_object_id m \<in> ids_at n (take (Suc k) (t # ts)) \<and> matched_length m = d + k)
      \<longleftrightarrow> match_object_id m \<in> ids_at c [] \<and> matched_length m = d
        \<or> (\<exists>k < length ts. match_object_id m \<in> ids_at c (take (Suc k) ts) \<and> matched_length m = d + 1 + k)"
      by (auto simp: at less_Suc_eq_0_disj)
    with here Cons.IH [OF c, of "d + 1"] Some show ?thesis by simp
  qed
qed

lemma search_node_depth: "m \<in> set (search_node enum d ts n) \<Longrightarrow> d \<le> matched_length m"
  by (induction ts arbitrary: d n) (fastforce split: option.splits)+

lemma sorted_const: "\<forall>x \<in> set xs. f x = (c::nat) \<Longrightarrow> sorted (map f xs)"
  by (induction xs) auto

lemma search_node_sorted: "sorted (map matched_length (search_node enum d ts n))"
proof (induction ts arbitrary: d n)
  case Nil
  then show ?case by simp
next
  case (Cons t ts)
  show ?case
  proof (cases "dget (children n) t")
    case None
    then show ?thesis by simp
  next
    case (Some c)
    have "sorted (map matched_length (map (\<lambda>oid. \<lparr>match_object_id = oid, matched_length = d\<rparr>) xs))" for xs
      by (rule sorted_const [of _ _ d]) auto
    with Cons.IH [of "d + 1" c] Some show ?thesis
      by (auto simp: sorted_append simp del: map_map dest: search_node_depth)
  qed
qed

section \<open>The tree against its table\<close>

definition pt_wf :: "PrefixTree \<Rightarrow> bool" where
  "pt_wf t \<longleftrightarrow> live (pt_root t) \<and> dwf (pt_tokens t) \<and>
     (\<forall>oid ts. oid \<in> ids_at (pt_root t) ts \<longleftrightarrow> dget (pt_tokens t) oid = Some ts)"

definition pt_table :: "PrefixTree \<Rightarrow> string \<Rightarrow> int list option" where
  "pt_table t = map_of (pt_tokens t)"

lemma pt_wf_new [simp]: "pt_wf prefix_tree_new"
  by (simp add: pt_wf_def prefix_tree_new_def)

text \<open>
  An insertion keeps the tree in step with its table when the object is new or keeps its tokens.
\<close>

lemma pt_insert_wf:
  assumes "pt_wf t" and "pt_table t oid = None \<or> pt_table t oid = Some ts"
  shows "pt_wf (pt_insert ts oid t)"
  using assms live_insert
  by (auto simp: pt_wf_def pt_insert_def pt_table_def trie_simps dict_simps
      simp del: map_of_eq_Some_iff Some_eq_map_of_iff)

lemma pt_insert_table: "pt_table (pt_insert ts oid t) = (pt_table t)(oid \<mapsto> ts)"
  by (auto simp: pt_insert_def pt_table_def dict_simps)

lemma pt_remove_spec:
  assumes "pt_wf t" and "pt_remove oid t = (b, t')"
  shows "b = (pt_table t oid \<noteq> None) \<and> pt_wf t' \<and> pt_table t' = (pt_table t)(oid := None)"
proof (cases "dget (pt_tokens t) oid")
  case None
  then show ?thesis using assms by (auto simp: pt_remove_def pt_table_def)
next
  case (Some ts)
  have "ids_at (pt_root t) ts \<noteq> {}" using assms(1) Some by (auto simp: pt_wf_def)
  from remove_at_total [OF this] obtain n p where n: "remove_at ts oid (pt_root t) = Some (n, p)"
    by fastforce
  have t': "b" "t' = t\<lparr>pt_tokens := dpop (pt_tokens t) oid, pt_root := n\<rparr>"
    using assms(2) Some n by (auto simp: pt_remove_def Let_def)
  have "live n" using assms(1) n live_remove unfolding pt_wf_def by blast
  moreover have "(o1 \<in> ids_at n us) = (dget (dpop (pt_tokens t) oid) o1 = Some us)" for o1 us
    using assms(1) Some by (auto simp: pt_wf_def ids_at_remove [OF n] dict_simps)
  ultimately have "pt_wf t'" using assms(1) unfolding t' pt_wf_def by simp
  moreover have "pt_table t' = (pt_table t)(oid := None)"
    unfolding t' pt_table_def by (auto simp: dict_simps)
  ultimately show ?thesis using t'(1) Some by (simp add: pt_table_def)
qed

lemma pt_search_iff:
  assumes "enumerates enum" and "pt_wf t"
  shows "m \<in> set (pt_search enum toks t) \<longleftrightarrow>
     (\<exists>ts. pt_table t (match_object_id m) = Some ts \<and> ts \<noteq> [] \<and> prefix ts toks
        \<and> matched_length m = length ts)"
proof -
  have live: "live (pt_root t)" using assms(2) by (simp add: pt_wf_def)
  have "m \<in> set (pt_search enum toks t) \<longleftrightarrow>
    (\<exists>k < length toks. pt_table t (match_object_id m) = Some (take (Suc k) toks)
        \<and> matched_length m = Suc k)"
    using assms(2) search_node_iff [OF assms(1) live, of m 1 toks]
    by (auto simp: pt_search_def pt_wf_def pt_table_def)
  also have "\<dots> \<longleftrightarrow> (\<exists>ts. pt_table t (match_object_id m) = Some ts \<and> ts \<noteq> [] \<and> prefix ts toks
        \<and> matched_length m = length ts)"
  proof
    assume "\<exists>k < length toks. pt_table t (match_object_id m) = Some (take (Suc k) toks)
        \<and> matched_length m = Suc k"
    then obtain k where k: "k < length toks"
      "pt_table t (match_object_id m) = Some (take (Suc k) toks)" "matched_length m = Suc k" by blast
    then show "\<exists>ts. pt_table t (match_object_id m) = Some ts \<and> ts \<noteq> [] \<and> prefix ts toks
        \<and> matched_length m = length ts"
      by (intro exI [of _ "take (Suc k) toks"]) (auto simp: take_is_prefix)
  next
    assume "\<exists>ts. pt_table t (match_object_id m) = Some ts \<and> ts \<noteq> [] \<and> prefix ts toks
        \<and> matched_length m = length ts"
    then obtain ts zs where ts: "pt_table t (match_object_id m) = Some ts" "ts \<noteq> []"
      "toks = ts @ zs" "matched_length m = length ts" by (auto elim: prefixE)
    then show "\<exists>k < length toks. pt_table t (match_object_id m) = Some (take (Suc k) toks)
        \<and> matched_length m = Suc k"
      by (intro exI [of _ "length ts - 1"]) (cases ts; auto)
  qed
  finally show ?thesis .
qed

section \<open>The interface of a prefix index\<close>

locale prefix_index =
  fixes insert :: "int list \<Rightarrow> string \<Rightarrow> 't \<Rightarrow> 't"
    and remove :: "string \<Rightarrow> 't \<Rightarrow> bool \<times> 't"
    and search :: "int list \<Rightarrow> 't \<Rightarrow> PrefixMatch list"
    and table :: "'t \<Rightarrow> string \<Rightarrow> int list option"
    and wf :: "'t \<Rightarrow> bool"
  assumes insert_wf: "wf t \<Longrightarrow> table t oid = None \<or> table t oid = Some ts \<Longrightarrow> wf (insert ts oid t)"
    and insert_table: "table (insert ts oid t) = (table t)(oid \<mapsto> ts)"
    and remove_spec: "wf t \<Longrightarrow> remove oid t = (b, t') \<Longrightarrow>
          b = (table t oid \<noteq> None) \<and> wf t' \<and> table t' = (table t)(oid := None)"
    and search_iff: "wf t \<Longrightarrow> m \<in> set (search toks t) \<longleftrightarrow>
          (\<exists>ts. table t (match_object_id m) = Some ts \<and> ts \<noteq> [] \<and> prefix ts toks
             \<and> matched_length m = length ts)"
    and search_sorted: "wf t \<Longrightarrow> sorted (map matched_length (search toks t))"
begin

text \<open>What was inserted is found under every extension of its tokens, until it is removed.\<close>

lemma insert_found:
  assumes "wf t" and "table t oid = None" and "ts \<noteq> []"
  shows "\<lparr>match_object_id = oid, matched_length = length ts\<rparr> \<in> set (search (ts @ rest) (insert ts oid t))"
  using assms by (simp add: search_iff insert_wf insert_table)

lemma insert_others:
  assumes "wf t" and "table t oid = None" and "match_object_id m \<noteq> oid"
  shows "m \<in> set (search toks (insert ts oid t)) \<longleftrightarrow> m \<in> set (search toks t)"
  using assms by (simp add: search_iff insert_wf insert_table)

lemma removed_not_found:
  assumes "wf t" and "remove oid t = (b, t')"
  shows "oid \<notin> match_object_id ` set (search toks t')"
proof -
  from remove_spec [OF assms] have "wf t'" "table t' oid = None" by auto
  then show ?thesis by (auto simp: search_iff)
qed

text \<open>The last match of a search is a longest one.\<close>

lemma last_longest:
  assumes "wf t" and "m \<in> set (search toks t)"
  shows "matched_length m \<le> matched_length (last (search toks t))"
  using search_sorted [OF assms(1)] assms(2) by (rule sorted_map_last)

end

text \<open>The trie provides it, whatever order the run enumerates its object sets in.\<close>

lemma trie_index:
  assumes en: "enumerates enum"
  shows "prefix_index pt_insert pt_remove (pt_search enum) pt_table pt_wf"
proof
  fix t oid ts b t' m toks
  show "pt_wf t \<Longrightarrow> pt_table t oid = None \<or> pt_table t oid = Some ts \<Longrightarrow> pt_wf (pt_insert ts oid t)"
    by (rule pt_insert_wf)
  show "pt_table (pt_insert ts oid t) = (pt_table t)(oid \<mapsto> ts)" by (rule pt_insert_table)
  show "pt_wf t \<Longrightarrow> pt_remove oid t = (b, t') \<Longrightarrow>
      b = (pt_table t oid \<noteq> None) \<and> pt_wf t' \<and> pt_table t' = (pt_table t)(oid := None)"
    by (rule pt_remove_spec)
  show "pt_wf t \<Longrightarrow> m \<in> set (pt_search enum toks t) \<longleftrightarrow>
      (\<exists>ts. pt_table t (match_object_id m) = Some ts \<and> ts \<noteq> [] \<and> prefix ts toks
         \<and> matched_length m = length ts)"
    by (rule pt_search_iff [OF en])
  show "sorted (map matched_length (pt_search enum toks t))"
    unfolding pt_search_def by (rule search_node_sorted)
qed

lemma enumerates_sorted [simp]: "enumerates sorted_list_of_set"
  by (simp add: enumerates_def)

interpretation trie: prefix_index pt_insert pt_remove "pt_search sorted_list_of_set" pt_table pt_wf
  by (rule trie_index) simp

section \<open>Properties\<close>

text \<open>Histories of insertions and removals, and the table of registered tokens they leave.\<close>

datatype pt_op = Insert "int list" string | Remove string

fun pt_apply :: "pt_op \<Rightarrow> PrefixTree \<Rightarrow> PrefixTree" where
  "pt_apply (Insert ts oid) t = pt_insert ts oid t"
| "pt_apply (Remove oid) t = snd (pt_remove oid t)"

fun table_apply :: "pt_op \<Rightarrow> (string \<rightharpoonup> int list) \<Rightarrow> (string \<rightharpoonup> int list)" where
  "table_apply (Insert ts oid) f = f(oid \<mapsto> ts)"
| "table_apply (Remove oid) f = f(oid := None)"

text \<open>A registered object is not registered again under other tokens.\<close>

fun registers_once :: "pt_op list \<Rightarrow> (string \<rightharpoonup> int list) \<Rightarrow> bool" where
  "registers_once [] f \<longleftrightarrow> True"
| "registers_once (op # ops) f \<longleftrightarrow>
     (case op of Insert ts oid \<Rightarrow> f oid = None \<or> f oid = Some ts | Remove oid \<Rightarrow> True)
     \<and> registers_once ops (table_apply op f)"

lemma pt_run:
  assumes "pt_wf t" and "registers_once ops (pt_table t)"
  shows "pt_wf (fold pt_apply ops t) \<and> pt_table (fold pt_apply ops t) = fold table_apply ops (pt_table t)"
  using assms
proof (induction ops arbitrary: t)
  case (Cons op ops)
  have "pt_wf (pt_apply op t) \<and> pt_table (pt_apply op t) = table_apply op (pt_table t)"
  proof (cases op)
    case (Insert ts oid)
    with Cons.prems show ?thesis by (simp add: pt_insert_wf pt_insert_table)
  next
    case (Remove oid)
    obtain b t' where "pt_remove oid t = (b, t')" by fastforce
    with pt_remove_spec [OF Cons.prems(1) this] Remove show ?thesis by simp
  qed
  with Cons show ?case by simp
qed simp

text \<open>C17: After any history that registers no object under two token sequences, a search returns exactly
  the registered objects whose tokens are a non-empty prefix of the query, each with the length of its
  tokens, from the shortest to the longest.\<close>

theorem prefix_search_exact:
  assumes "registers_once ops Map.empty" and "enumerates enum"
  shows "(m \<in> set (pt_search enum toks (fold pt_apply ops prefix_tree_new)) \<longleftrightarrow>
      (\<exists>ts. fold table_apply ops Map.empty (match_object_id m) = Some ts \<and> ts \<noteq> [] \<and> prefix ts toks
         \<and> matched_length m = length ts))
    \<and> sorted (map matched_length (pt_search enum toks (fold pt_apply ops prefix_tree_new)))"
proof (rule conjI)
  have "pt_table prefix_tree_new = Map.empty" by (simp add: pt_table_def prefix_tree_new_def)
  with pt_run [OF pt_wf_new, of ops] assms(1)
  have wf: "pt_wf (fold pt_apply ops prefix_tree_new)"
    and tab: "pt_table (fold pt_apply ops prefix_tree_new) = fold table_apply ops Map.empty" by simp_all
  show "m \<in> set (pt_search enum toks (fold pt_apply ops prefix_tree_new)) \<longleftrightarrow>
      (\<exists>ts. fold table_apply ops Map.empty (match_object_id m) = Some ts \<and> ts \<noteq> [] \<and> prefix ts toks
         \<and> matched_length m = length ts)"
    using pt_search_iff [OF assms(2) wf, of m toks] by (simp add: tab)
  show "sorted (map matched_length (pt_search enum toks (fold pt_apply ops prefix_tree_new)))"
    unfolding pt_search_def by (rule search_node_sorted)
qed

lemma prefix_search_exact_witness:
  "\<lparr>match_object_id = ''a'', matched_length = 2\<rparr> \<in>
     set (pt_search sorted_list_of_set [1, 2, 3]
       (fold pt_apply [Insert [1, 2] ''a'', Insert [1] ''b'', Remove ''b''] prefix_tree_new)) \<and>
   \<lparr>match_object_id = ''b'', matched_length = 1\<rparr> \<notin>
     set (pt_search sorted_list_of_set [1, 2, 3]
       (fold pt_apply [Insert [1, 2] ''a'', Insert [1] ''b'', Remove ''b''] prefix_tree_new))"
proof -
  have once: "registers_once [Insert [1, 2] ''a'', Insert [1] ''b'', Remove ''b''] Map.empty" by simp
  show ?thesis
    unfolding prefix_search_exact [OF once enumerates_sorted, THEN conjunct1] by simp
qed

text \<open>The longest match of a query is a match, and none is longer; there is none only when there is no match.\<close>

theorem longest_match_longest:
  assumes "longest_match enum toks t = r"
  shows "(r = None \<longleftrightarrow> pt_search enum toks t = []) \<and>
    (\<forall>m. r = Some m \<longrightarrow> m \<in> set (pt_search enum toks t) \<and>
       (\<forall>m' \<in> set (pt_search enum toks t). matched_length m' \<le> matched_length m))"
proof -
  have "sorted (map matched_length (pt_search enum toks t))"
    unfolding pt_search_def by (rule search_node_sorted)
  from sorted_map_last [OF this] assms show ?thesis
    by (auto simp: longest_match_def Let_def split: if_splits)
qed

lemma longest_match_longest_witness:
  "\<exists>r. longest_match sorted_list_of_set [1, 2, 3] (pt_insert [1, 2] ''a'' (pt_insert [1] ''b'' prefix_tree_new)) = r \<and>
     (r = None \<longleftrightarrow> pt_search sorted_list_of_set [1, 2, 3] (pt_insert [1, 2] ''a'' (pt_insert [1] ''b'' prefix_tree_new)) = [])"
  using longest_match_longest [OF refl, of sorted_list_of_set "[1, 2, 3]"
      "pt_insert [1, 2] ''a'' (pt_insert [1] ''b'' prefix_tree_new)"] by blast

end
