(* ===== verification/Hnsw.thy ===== *)
theory Hnsw
  imports Types
begin

text \<open>
  The approximate-nearest-neighbour index of \<^verbatim>\<open>src/l3store/metadata/hnsw_index.py\<close>: a wrapper that
  assigns small integer labels to object ids, recycles the labels of removed objects and
  filters search results.  The graph itself is hnswlib's and arrays are numpy's: both are
  records of the functions the wrapper calls, arguments of every operation.
\<close>

section \<open>What the wrapper uses of numpy and hnswlib\<close>

text \<open>
  \<open>nd_row\<close> is the array as one contiguous \<^verbatim>\<open>float32\<close> row, \<^verbatim>\<open>nbytes\<close> and \<^verbatim>\<open>shape\<close> are numpy's
  attributes.
\<close>

record 'a Numpy =
  nd_shape :: "'a \<Rightarrow> nat list"
  nd_nbytes :: "'a \<Rightarrow> nat"
  nd_row :: "'a \<Rightarrow> 'a"

text \<open>
  \<open>hl_new dim max_elements ef_construction M ef\<close> creates and initialises an index (it raises
  \<^verbatim>\<open>ImportError\<close> where hnswlib is missing); the other calls are \<^verbatim>\<open>add_items\<close> of one row,
  \<^verbatim>\<open>knn_query\<close> with its labels and distances, and \<^verbatim>\<open>mark_deleted\<close>.
\<close>

record ('h, 'a) HnswLib =
  hl_new :: "int \<Rightarrow> int \<Rightarrow> int \<Rightarrow> int \<Rightarrow> int \<Rightarrow> 'h res"
  hl_add_items :: "'a \<Rightarrow> nat \<Rightarrow> bool \<Rightarrow> 'h \<Rightarrow> unit res \<times> 'h"
  hl_knn_query :: "'a \<Rightarrow> nat \<Rightarrow> 'h \<Rightarrow> (nat \<times> rat) list res"
  hl_mark_deleted :: "nat \<Rightarrow> 'h \<Rightarrow> unit res \<times> 'h"

section \<open>The index\<close>

record 'h HNSWIndex =
  hx_dim :: int
  hx_max_elements :: int
  hx_index :: 'h
  hx_id_to_object :: "(nat, string) dict"
  hx_object_to_id :: "(string, nat) dict"
  hx_free_ids :: "nat list"
  hx_next_id :: nat

definition hnsw_init :: "('h, 'a) HnswLib \<Rightarrow> int \<Rightarrow> int \<Rightarrow> 'h HNSWIndex res" where
  "hnsw_init L d max_elements =
     (if d \<le> 0 then Inl (ValueError ''dim must be positive'')
      else if max_elements \<le> 0 then Inl (ValueError ''max_elements must be positive'')
      else case hl_new L d max_elements 200 16 50 of
             Inl e \<Rightarrow> Inl e
           | Inr h \<Rightarrow> Inr \<lparr>hx_dim = d, hx_max_elements = max_elements, hx_index = h,
               hx_id_to_object = [], hx_object_to_id = [], hx_free_ids = [], hx_next_id = 0\<rparr>)"

definition prepare_embedding :: "'a Numpy \<Rightarrow> int \<Rightarrow> 'a \<Rightarrow> 'a res" where
  "prepare_embedding N d v =
     (let shape = (if length (nd_shape N v) = 1 then 1 # nd_shape N v else nd_shape N v)
      in if map int shape = [1, d] then Inr (nd_row N v)
         else Inl (ValueError ''embedding must have shape (dim,) or (1, dim)''))"

definition hnsw_add ::
    "'a Numpy \<Rightarrow> ('h, 'a) HnswLib \<Rightarrow> string \<Rightarrow> 'a \<Rightarrow> 'h HNSWIndex \<Rightarrow> unit res \<times> 'h HNSWIndex" where
  "hnsw_add N L oid embedding x =
     (if dmem (hx_object_to_id x) oid then (Inr (), x)
      else if hx_free_ids x = [] \<and> hx_max_elements x \<le> int (hx_next_id x)
      then (Inl (ValueError ''HNSWIndex max_elements limit reached''), x)
      else case prepare_embedding N (hx_dim x) embedding of
             Inl e \<Rightarrow> (Inl e, x)
           | Inr vector \<Rightarrow>
               (let replace_deleted = (hx_free_ids x \<noteq> []);
                    internal_id = (if replace_deleted then last (hx_free_ids x) else hx_next_id x);
                    x1 = (if replace_deleted
                          then x\<lparr>hx_free_ids := butlast (hx_free_ids x)\<rparr>
                          else x\<lparr>hx_next_id := hx_next_id x + 1\<rparr>)
                in case hl_add_items L vector internal_id replace_deleted (hx_index x1) of
                     (Inl e, h) \<Rightarrow> (Inl e, x1\<lparr>hx_index := h\<rparr>)
                   | (Inr _, h) \<Rightarrow>
                       (Inr (), x1\<lparr>hx_index := h,
                          hx_id_to_object := dset (hx_id_to_object x1) internal_id oid,
                          hx_object_to_id := dset (hx_object_to_id x1) oid internal_id\<rparr>)))"

text \<open>The loop over labels and distances, with its early exit once \<open>k\<close> results are there.\<close>

fun collect_results ::
    "(nat, string) dict \<Rightarrow> int \<Rightarrow> rat \<Rightarrow> (nat \<times> rat) list \<Rightarrow> (string \<times> rat) list
       \<Rightarrow> (string \<times> rat) list" where
  "collect_results ids k threshold [] results = results"
| "collect_results ids k threshold ((label, distance) # rest) results =
     (case dget ids label of
        None \<Rightarrow> collect_results ids k threshold rest results
      | Some oid \<Rightarrow>
          (let similarity = 1 - distance;
               results' = (if threshold \<le> similarity then results @ [(oid, similarity)] else results)
           in if k \<le> int (length results') then results'
              else collect_results ids k threshold rest results'))"

definition hnsw_search ::
    "'a Numpy \<Rightarrow> ('h, 'a) HnswLib \<Rightarrow> 'a \<Rightarrow> int \<Rightarrow> rat \<Rightarrow> 'h HNSWIndex \<Rightarrow> (string \<times> rat) list res" where
  "hnsw_search N L query_embedding k threshold x =
     (if k \<le> 0 \<or> hx_id_to_object x = [] then Inr []
      else case prepare_embedding N (hx_dim x) query_embedding of
             Inl e \<Rightarrow> Inl e
           | Inr query \<Rightarrow>
               (let query_k = min (nat k) (length (hx_id_to_object x))
                in case hl_knn_query L query query_k (hx_index x) of
                     Inl e \<Rightarrow> Inl e
                   | Inr hits \<Rightarrow> Inr (collect_results (hx_id_to_object x) k threshold hits [])))"

definition hnsw_remove ::
    "('h, 'a) HnswLib \<Rightarrow> string \<Rightarrow> 'h HNSWIndex \<Rightarrow> bool res \<times> 'h HNSWIndex" where
  "hnsw_remove L oid x =
     (case dget (hx_object_to_id x) oid of
        None \<Rightarrow> (Inr False, x)
      | Some internal_id \<Rightarrow>
          (let x1 = x\<lparr>hx_object_to_id := dpop (hx_object_to_id x) oid,
                      hx_id_to_object := dpop (hx_id_to_object x) internal_id\<rparr>
           in case hl_mark_deleted L internal_id (hx_index x1) of
                (Inl e, h) \<Rightarrow> (Inl e, x1\<lparr>hx_index := h\<rparr>)
              | (Inr _, h) \<Rightarrow>
                  (Inr True, x1\<lparr>hx_index := h, hx_free_ids := hx_free_ids x1 @ [internal_id]\<rparr>)))"

definition hnsw_size :: "'h HNSWIndex \<Rightarrow> nat" where
  "hnsw_size x = length (hx_object_to_id x)"

section \<open>Invariant: labels and objects correspond\<close>

definition hnsw_members :: "'h HNSWIndex \<Rightarrow> string set" where
  "hnsw_members x = set (dkeys (hx_object_to_id x))"

definition inverse_dicts :: "(nat, string) dict \<Rightarrow> (string, nat) dict \<Rightarrow> bool" where
  "inverse_dicts a b \<longleftrightarrow> (\<forall>i oid. dget a i = Some oid \<longleftrightarrow> dget b oid = Some i)"

lemma inverse_dicts_Nil [simp]: "inverse_dicts [] []"
  by (simp add: inverse_dicts_def)

lemma inverse_dicts_set:
  assumes "inverse_dicts a b" and "dget a i = None" and "dget b oid = None"
  shows "inverse_dicts (dset a i oid) (dset b oid i)"
  using assms unfolding inverse_dicts_def dget_dset by (metis option.distinct(1) option.inject)

lemma inverse_dicts_pop:
  assumes "inverse_dicts a b" and "dget b oid = Some i"
  shows "inverse_dicts (dpop a i) (dpop b oid)"
  using assms unfolding inverse_dicts_def dget_dpop by (metis option.distinct(1) option.inject)

text \<open>
  The two dictionaries are inverse to each other, no label is both free and in use, every
  label was drawn from the counter and the counter never passes the capacity.
\<close>

definition hnsw_wf :: "'h HNSWIndex \<Rightarrow> bool" where
  "hnsw_wf x \<longleftrightarrow>
     dwf (hx_id_to_object x) \<and> dwf (hx_object_to_id x) \<and> distinct (hx_free_ids x)
     \<and> inverse_dicts (hx_id_to_object x) (hx_object_to_id x)
     \<and> set (hx_free_ids x) \<inter> set (dkeys (hx_id_to_object x)) = {}
     \<and> (\<forall>i \<in> set (hx_free_ids x) \<union> set (dkeys (hx_id_to_object x)). i < hx_next_id x)
     \<and> int (hx_next_id x) \<le> hx_max_elements x"

text \<open>No label is lost: every label drawn is in use or free.\<close>

definition hnsw_tight :: "'h HNSWIndex \<Rightarrow> bool" where
  "hnsw_tight x \<longleftrightarrow> {..<hx_next_id x} = set (hx_free_ids x) \<union> set (dkeys (hx_id_to_object x))"

lemma hnsw_wfD:
  assumes "hnsw_wf x"
  shows "dwf (hx_id_to_object x)" "dwf (hx_object_to_id x)"
    and "inverse_dicts (hx_id_to_object x) (hx_object_to_id x)"
    and "set (dkeys (hx_id_to_object x)) \<subseteq> {..<hx_next_id x}"
    and "int (hx_next_id x) \<le> hx_max_elements x"
  using assms unfolding hnsw_wf_def by blast+

lemma inverse_dictsD: "inverse_dicts a b \<Longrightarrow> dget a i = Some oid \<longleftrightarrow> dget b oid = Some i"
  unfolding inverse_dicts_def by blast

lemma dkeysE: "k \<in> set (dkeys d) \<Longrightarrow> (\<And>v. dget d k = Some v \<Longrightarrow> P) \<Longrightarrow> P"
  by (metis dmem_def dmem_iff not_None_eq)

lemma hnsw_init_wf: "hnsw_init L d m = Inr x \<Longrightarrow> hnsw_wf x \<and> hnsw_tight x \<and> hnsw_members x = {}"
  by (auto simp: hnsw_init_def hnsw_wf_def hnsw_tight_def hnsw_members_def split: if_splits sum.splits)

lemma hnsw_wf_index [simp]: "hnsw_wf (x\<lparr>hx_index := h\<rparr>) = hnsw_wf x"
  by (simp add: hnsw_wf_def)

lemma hnsw_members_simps [simp]:
  "hnsw_members (x\<lparr>hx_index := h\<rparr>) = hnsw_members x"
  "hnsw_members (x\<lparr>hx_free_ids := fs\<rparr>) = hnsw_members x"
  "hnsw_members (x\<lparr>hx_next_id := n\<rparr>) = hnsw_members x"
  by (simp_all add: hnsw_members_def)

text \<open>Drawing a label: the state between the draw and the call of \<^verbatim>\<open>add_items\<close>.\<close>

definition draw_label :: "'h HNSWIndex \<Rightarrow> nat \<times> 'h HNSWIndex" where
  "draw_label x =
     (if hx_free_ids x \<noteq> [] then (last (hx_free_ids x), x\<lparr>hx_free_ids := butlast (hx_free_ids x)\<rparr>)
      else (hx_next_id x, x\<lparr>hx_next_id := hx_next_id x + 1\<rparr>))"

lemma draw_label_wf:
  assumes "hnsw_wf x" and "\<not> (hx_free_ids x = [] \<and> hx_max_elements x \<le> int (hx_next_id x))"
    and "draw_label x = (i, x1)"
  shows "hnsw_wf x1 \<and> i \<notin> set (hx_free_ids x1) \<and> i \<notin> set (dkeys (hx_id_to_object x1))
     \<and> i < hx_next_id x1 \<and> hx_object_to_id x1 = hx_object_to_id x
     \<and> hx_id_to_object x1 = hx_id_to_object x"
proof (cases "hx_free_ids x = []")
  case True
  then have i: "i = hx_next_id x" and x1: "x1 = x\<lparr>hx_next_id := hx_next_id x + 1\<rparr>"
    using assms(3) by (auto simp: draw_label_def)
  have below: "\<forall>j \<in> set (dkeys (hx_id_to_object x)). j < hx_next_id x"
    using assms(1) by (simp add: hnsw_wf_def)
  then have "hx_next_id x \<notin> set (dkeys (hx_id_to_object x))" by blast
  moreover have "\<forall>j \<in> set (dkeys (hx_id_to_object x)). j < hx_next_id x + 1"
    using below by auto
  ultimately show ?thesis using assms(1,2) True unfolding i x1 by (simp add: hnsw_wf_def)
next
  case False
  define fs where "fs = butlast (hx_free_ids x)"
  have fs: "hx_free_ids x = fs @ [i]" "x1 = x\<lparr>hx_free_ids := fs\<rparr>"
    using assms(3) False by (auto simp: draw_label_def fs_def)
  from assms(1) have wf:
    "dwf (hx_id_to_object x)" "dwf (hx_object_to_id x)" "distinct (fs @ [i])"
    "inverse_dicts (hx_id_to_object x) (hx_object_to_id x)"
    "set (fs @ [i]) \<inter> set (dkeys (hx_id_to_object x)) = {}"
    "\<forall>j \<in> set (fs @ [i]) \<union> set (dkeys (hx_id_to_object x)). j < hx_next_id x"
    "int (hx_next_id x) \<le> hx_max_elements x"
    unfolding hnsw_wf_def fs(1) by blast+
  have "hnsw_wf x1" unfolding fs(2) hnsw_wf_def using wf by simp
  moreover have "i \<notin> set fs" "i \<notin> set (dkeys (hx_id_to_object x))" "i < hx_next_id x"
    using wf(3,5,6) by simp_all
  ultimately show ?thesis unfolding fs(2) by simp
qed

lemma hnsw_add_unfold:
  "hnsw_add N L oid v x =
     (if oid \<in> hnsw_members x then (Inr (), x)
      else if hx_free_ids x = [] \<and> hx_max_elements x \<le> int (hx_next_id x)
      then (Inl (ValueError ''HNSWIndex max_elements limit reached''), x)
      else case prepare_embedding N (hx_dim x) v of
             Inl e \<Rightarrow> (Inl e, x)
           | Inr vec \<Rightarrow>
               (case hl_add_items L vec (fst (draw_label x)) (hx_free_ids x \<noteq> []) (hx_index x) of
                  (Inl e, h) \<Rightarrow> (Inl e, (snd (draw_label x))\<lparr>hx_index := h\<rparr>)
                | (Inr _, h) \<Rightarrow> (Inr (), (snd (draw_label x))\<lparr>hx_index := h,
                     hx_id_to_object := dset (hx_id_to_object x) (fst (draw_label x)) oid,
                     hx_object_to_id := dset (hx_object_to_id x) oid (fst (draw_label x))\<rparr>)))"
  by (simp add: hnsw_add_def draw_label_def dmem_iff hnsw_members_def Let_def
      split: sum.splits prod.splits)

lemma hnsw_insert_wf:
  assumes wf: "hnsw_wf x" and "oid \<notin> hnsw_members x" and "i \<notin> set (hx_free_ids x)"
    and "i \<notin> set (dkeys (hx_id_to_object x))" and "i < hx_next_id x"
  shows "hnsw_wf (x\<lparr>hx_index := h, hx_id_to_object := dset (hx_id_to_object x) i oid,
      hx_object_to_id := dset (hx_object_to_id x) oid i\<rparr>)"
proof -
  have none: "dget (hx_object_to_id x) oid = None" "dget (hx_id_to_object x) i = None"
    using assms by (auto simp: hnsw_members_def map_of_eq_None_iff)
  have "inverse_dicts (dset (hx_id_to_object x) i oid) (dset (hx_object_to_id x) oid i)"
    using wf none by (auto intro: inverse_dicts_set simp: hnsw_wf_def)
  with assms show ?thesis by (simp add: hnsw_wf_def)
qed

lemma hnsw_add_wf:
  assumes wf: "hnsw_wf x" and add: "hnsw_add N L oid v x = (r, x')"
  shows "hnsw_wf x'"
proof -
  obtain i x1 where d: "draw_label x = (i, x1)" by fastforce
  show ?thesis
  proof (cases "oid \<in> hnsw_members x \<or> (hx_free_ids x = [] \<and> hx_max_elements x \<le> int (hx_next_id x))")
    case True
    with add wf show ?thesis by (auto simp: hnsw_add_unfold split: if_splits)
  next
    case False
    from draw_label_wf [OF wf _ d] False have x1: "hnsw_wf x1" "i \<notin> set (hx_free_ids x1)"
      "i \<notin> set (dkeys (hx_id_to_object x1))" "i < hx_next_id x1"
      "hx_object_to_id x1 = hx_object_to_id x" "hx_id_to_object x1 = hx_id_to_object x" by auto
    from False x1 have oid: "oid \<notin> hnsw_members x1" by (simp add: hnsw_members_def)
    from hnsw_insert_wf [OF x1(1) oid x1(2-4)] x1(1) x1(5,6) add False d wf
    show ?thesis by (auto simp: hnsw_add_unfold split: sum.splits prod.splits if_splits)
  qed
qed

lemma hnsw_add_members:
  assumes "hnsw_add N L oid v x = (r, x')"
  shows "hnsw_members x' = (if is_ok r then insert oid (hnsw_members x) else hnsw_members x)"
proof (cases "oid \<in> hnsw_members x")
  case True
  with assms show ?thesis by (auto simp: hnsw_add_unfold)
next
  case False
  have keys: "hnsw_members (y\<lparr>hx_object_to_id := dset (hx_object_to_id x) oid i\<rparr>)
      = insert oid (hnsw_members x)" for y :: "'a HNSWIndex" and i
    by (simp add: hnsw_members_def)
  have drawn: "hnsw_members (snd (draw_label x)) = hnsw_members x"
    by (simp add: draw_label_def)
  show ?thesis
    using assms False
    by (clarsimp simp: hnsw_add_unfold keys drawn is_ok_def split: sum.splits prod.splits if_splits)
qed

lemma hnsw_remove_wf:
  assumes wf: "hnsw_wf x" and rm: "hnsw_remove L oid x = (r, x')"
  shows "hnsw_wf x' \<and> hnsw_members x' = hnsw_members x - {oid}
     \<and> (\<forall>b. r = Inr b \<longrightarrow> b = (oid \<in> hnsw_members x))"
proof (cases "dget (hx_object_to_id x) oid")
  case None
  then have "oid \<notin> hnsw_members x" by (simp add: hnsw_members_def map_of_eq_None_iff)
  with None wf rm show ?thesis by (auto simp: hnsw_remove_def)
next
  case (Some i)
  let ?x1 = "x\<lparr>hx_object_to_id := dpop (hx_object_to_id x) oid,
               hx_id_to_object := dpop (hx_id_to_object x) i\<rparr>"
  have fwd: "dget (hx_id_to_object x) i = Some oid"
    using wf Some unfolding hnsw_wf_def inverse_dicts_def by blast
  have mem: "oid \<in> hnsw_members x" "i \<in> set (dkeys (hx_id_to_object x))"
    using dget_Some_key [OF Some] dget_Some_key [OF fwd] by (simp_all add: hnsw_members_def)
  have wf1: "hnsw_wf ?x1" using wf inverse_dicts_pop [OF _ Some, of "hx_id_to_object x"]
    by (auto simp: hnsw_wf_def)
  have wf2: "hnsw_wf (?x1\<lparr>hx_index := h, hx_free_ids := hx_free_ids x @ [i]\<rparr>)" for h
    using wf1 wf mem by (auto simp: hnsw_wf_def)
  have members: "hnsw_members (?x1\<lparr>hx_index := h\<rparr>) = hnsw_members x - {oid}" for h
    by (simp add: hnsw_members_def)
  obtain r1 h where mark: "hl_mark_deleted L i (hx_index x) = (r1, h)" by fastforce
  show ?thesis
  proof (cases r1)
    case (Inl e)
    then have "x' = ?x1\<lparr>hx_index := h\<rparr>" "r = Inl e" using rm Some mark by (auto simp: hnsw_remove_def)
    then show ?thesis using wf1 members by simp
  next
    case (Inr u)
    then have "x' = ?x1\<lparr>hx_index := h, hx_free_ids := hx_free_ids x @ [i]\<rparr>" "r = Inr True"
      using rm Some mark by (auto simp: hnsw_remove_def)
    then show ?thesis using wf2 members mem by simp
  qed
qed

section \<open>Search results\<close>

text \<open>The hits that name a live object and reach the threshold, in the order of the query.\<close>

fun live_hits :: "(nat, string) dict \<Rightarrow> rat \<Rightarrow> (nat \<times> rat) list \<Rightarrow> (string \<times> rat) list" where
  "live_hits ids threshold [] = []"
| "live_hits ids threshold ((label, d) # rest) =
     (case dget ids label of
        None \<Rightarrow> live_hits ids threshold rest
      | Some oid \<Rightarrow>
          if threshold \<le> 1 - d then (oid, 1 - d) # live_hits ids threshold rest
          else live_hits ids threshold rest)"

lemma collect_results_eq:
  "int (length acc) < k \<Longrightarrow>
     collect_results ids k threshold hits acc = take (nat k) (acc @ live_hits ids threshold hits)"
proof (induction ids k threshold hits acc rule: collect_results.induct)
  case (1 ids k threshold acc)
  then show ?case by simp
next
  case (2 ids k threshold label d rest acc)
  show ?case
  proof (cases "dget ids label")
    case None
    with 2 show ?thesis by simp
  next
    case (Some oid)
    let ?acc = "if threshold \<le> 1 - d then acc @ [(oid, 1 - d)] else acc"
    have shape: "acc @ live_hits ids threshold ((label, d) # rest) = ?acc @ live_hits ids threshold rest"
      using Some by simp
    show ?thesis
    proof (cases "k \<le> int (length ?acc)")
      case True
      then have "nat k = length ?acc" using "2.prems" by (auto split: if_splits)
      then have "take (nat k) (?acc @ live_hits ids threshold rest) = ?acc"
        by simp
      with True Some show ?thesis unfolding shape by (simp add: Let_def)
    next
      case False
      from "2.IH"(2) [OF Some refl refl] False Some show ?thesis
        unfolding shape by (simp add: Let_def)
    qed
  qed
qed

lemma live_hits_mem:
  "(oid, s) \<in> set (live_hits ids threshold hits) \<Longrightarrow> threshold \<le> s \<and> (\<exists>l. dget ids l = Some oid)"
  by (induction ids threshold hits rule: live_hits.induct) (auto split: option.splits if_splits)

lemma hnsw_search_eq:
  assumes "hnsw_search N L v k threshold x = Inr rs"
  shows "rs = [] \<or> (\<exists>hits. rs = take (nat k) (live_hits (hx_id_to_object x) threshold hits))"
  using assms
  by (auto simp: hnsw_search_def collect_results_eq Let_def split: if_splits sum.splits)

lemma hnsw_search_members:
  assumes wf: "hnsw_wf x" and s: "hnsw_search N L v k threshold x = Inr rs"
  shows "(\<forall>(oid, sim) \<in> set rs. oid \<in> hnsw_members x \<and> threshold \<le> sim) \<and> int (length rs) \<le> max 0 k"
proof -
  have live: "oid \<in> hnsw_members x" if "dget (hx_id_to_object x) l = Some oid" for l oid
  proof -
    have "dget (hx_object_to_id x) oid = Some l"
      using that inverse_dictsD [OF hnsw_wfD(3) [OF wf]] by blast
    then show ?thesis unfolding hnsw_members_def by (rule dget_Some_key)
  qed
  from hnsw_search_eq [OF s] show ?thesis
    by (auto dest!: in_set_takeD live_hits_mem intro: live)
qed

section \<open>Capacity\<close>

lemma inverse_dicts_length:
  assumes "inverse_dicts a b" and "dwf a" and "dwf b"
  shows "length a = length b"
proof -
  note fwd = inverse_dictsD [OF assms(1)]
  have "bij_betw (\<lambda>i. the (dget a i)) (set (dkeys a)) (set (dkeys b))"
  proof (rule bij_betw_byWitness [where f' = "\<lambda>oid. the (dget b oid)"])
    show "\<forall>i \<in> set (dkeys a). the (dget b (the (dget a i))) = i"
    proof
      fix i assume "i \<in> set (dkeys a)"
      then obtain oid where oid: "dget a i = Some oid" by (rule dkeysE)
      with fwd have "dget b oid = Some i" by blast
      with oid show "the (dget b (the (dget a i))) = i" by simp
    qed
    show "\<forall>oid \<in> set (dkeys b). the (dget a (the (dget b oid))) = oid"
    proof
      fix oid assume "oid \<in> set (dkeys b)"
      then obtain i where i: "dget b oid = Some i" by (rule dkeysE)
      with fwd have "dget a i = Some oid" by blast
      with i show "the (dget a (the (dget b oid))) = oid" by simp
    qed
    show "(\<lambda>i. the (dget a i)) ` set (dkeys a) \<subseteq> set (dkeys b)"
    proof
      fix oid assume "oid \<in> (\<lambda>i. the (dget a i)) ` set (dkeys a)"
      then obtain i where "i \<in> set (dkeys a)" and oid: "oid = the (dget a i)" by blast
      then have "dget a i = Some oid" by (auto elim: dkeysE simp del: set_map)
      with fwd show "oid \<in> set (dkeys b)" by (blast intro: dget_Some_key)
    qed
    show "(\<lambda>oid. the (dget b oid)) ` set (dkeys b) \<subseteq> set (dkeys a)"
    proof
      fix i assume "i \<in> (\<lambda>oid. the (dget b oid)) ` set (dkeys b)"
      then obtain oid where "oid \<in> set (dkeys b)" and i: "i = the (dget b oid)" by blast
      then have "dget b oid = Some i" by (auto elim: dkeysE simp del: set_map)
      with fwd show "i \<in> set (dkeys a)" by (blast intro: dget_Some_key)
    qed
  qed
  then have "card (set (dkeys a)) = card (set (dkeys b))" by (rule bij_betw_same_card)
  then show ?thesis using distinct_card [OF assms(2)] distinct_card [OF assms(3)] by simp
qed

lemma hnsw_size_card: "hnsw_wf x \<Longrightarrow> hnsw_size x = card (hnsw_members x)"
  using distinct_card [OF hnsw_wfD(2), of x] by (simp add: hnsw_size_def hnsw_members_def)

lemma hnsw_labels_card:
  assumes "hnsw_wf x"
  shows "card (set (dkeys (hx_id_to_object x))) = hnsw_size x"
  using distinct_card [OF hnsw_wfD(1) [OF assms]]
    inverse_dicts_length [OF hnsw_wfD(3) [OF assms] hnsw_wfD(1) [OF assms] hnsw_wfD(2) [OF assms]]
  by (simp add: hnsw_size_def)

lemma hnsw_size_bounded: "hnsw_wf x \<Longrightarrow> int (hnsw_size x) \<le> hx_max_elements x"
proof -
  assume wf: "hnsw_wf x"
  then have "card (set (dkeys (hx_id_to_object x))) \<le> card {..<hx_next_id x}"
    by (intro card_mono [OF finite_lessThan] hnsw_wfD)
  then show ?thesis using hnsw_labels_card [OF wf] hnsw_wfD(5) [OF wf] by simp
qed

text \<open>
  An index that lost no label refuses an object for lack of room only when it is full: labels
  of removed objects are used again.
\<close>

lemma hnsw_room:
  assumes "hnsw_wf x" and "hnsw_tight x" and "int (hnsw_size x) < hx_max_elements x"
  shows "\<not> (hx_free_ids x = [] \<and> hx_max_elements x \<le> int (hx_next_id x))"
proof
  assume full: "hx_free_ids x = [] \<and> hx_max_elements x \<le> int (hx_next_id x)"
  then have "{..<hx_next_id x} = set (dkeys (hx_id_to_object x))"
    using assms(2) by (simp add: hnsw_tight_def)
  then have "hx_next_id x = card (set (dkeys (hx_id_to_object x)))" by (metis card_lessThan)
  also have "\<dots> = hnsw_size x" by (rule hnsw_labels_card [OF assms(1)])
  finally show False using full assms(3) by simp
qed

lemma draw_label_tight:
  "hnsw_tight x \<Longrightarrow> hnsw_wf x \<Longrightarrow>
     {..<hx_next_id (snd (draw_label x))}
       = set (hx_free_ids (snd (draw_label x))) \<union> insert (fst (draw_label x)) (set (dkeys (hx_id_to_object x)))"
proof (cases "hx_free_ids x = []")
  case True
  assume t: "hnsw_tight x"
  have "{..<Suc (hx_next_id x)} = insert (hx_next_id x) {..<hx_next_id x}" by auto
  with True t show ?thesis by (simp add: draw_label_def hnsw_tight_def)
next
  case False
  assume t: "hnsw_tight x"
  have "set (hx_free_ids x) = set (butlast (hx_free_ids x) @ [last (hx_free_ids x)])"
    using False by simp
  then have "set (hx_free_ids x) = insert (last (hx_free_ids x)) (set (butlast (hx_free_ids x)))" by simp
  with False t show ?thesis by (simp add: draw_label_def hnsw_tight_def)
qed

lemma hnsw_add_tight:
  assumes "hnsw_wf x" and "hnsw_tight x" and "hnsw_add N L oid v x = (Inr (), x')"
  shows "hnsw_tight x'"
proof (cases "oid \<in> hnsw_members x")
  case True
  with assms show ?thesis by (simp add: hnsw_add_unfold)
next
  case False
  obtain i x1 where d: "draw_label x = (i, x1)" by fastforce
  with False assms(3) obtain h where "x' = x1\<lparr>hx_index := h,
      hx_id_to_object := dset (hx_id_to_object x) i oid,
      hx_object_to_id := dset (hx_object_to_id x) oid i\<rparr>"
    by (auto simp: hnsw_add_unfold split: if_splits sum.splits prod.splits)
  with draw_label_tight [OF assms(2,1)] d show ?thesis by (simp add: hnsw_tight_def)
qed

lemma hnsw_remove_tight:
  assumes wf: "hnsw_wf x" and tight: "hnsw_tight x" and rm: "hnsw_remove L oid x = (Inr b, x')"
  shows "hnsw_tight x'"
proof (cases "dget (hx_object_to_id x) oid")
  case None
  with rm tight show ?thesis by (simp add: hnsw_remove_def)
next
  case (Some i)
  have "i \<in> set (dkeys (hx_id_to_object x))"
    using inverse_dictsD [OF hnsw_wfD(3) [OF wf]] Some by (blast intro: dget_Some_key)
  with tight have labels: "{..<hx_next_id x}
      = set (hx_free_ids x @ [i]) \<union> (set (dkeys (hx_id_to_object x)) - {i})"
    unfolding hnsw_tight_def by auto
  from rm Some obtain h where "x' = x\<lparr>hx_object_to_id := dpop (hx_object_to_id x) oid,
      hx_id_to_object := dpop (hx_id_to_object x) i, hx_index := h,
      hx_free_ids := hx_free_ids x @ [i]\<rparr>"
    by (auto simp: hnsw_remove_def Let_def split: prod.splits sum.splits)
  then show ?thesis using labels by (simp add: hnsw_tight_def)
qed

section \<open>The interface of a similarity index\<close>

locale similarity_index =
  fixes add :: "string \<Rightarrow> 'v \<Rightarrow> 'x \<Rightarrow> unit res \<times> 'x"
    and remove :: "string \<Rightarrow> 'x \<Rightarrow> bool res \<times> 'x"
    and search :: "'v \<Rightarrow> int \<Rightarrow> rat \<Rightarrow> 'x \<Rightarrow> (string \<times> rat) list res"
    and members :: "'x \<Rightarrow> string set"
    and wf :: "'x \<Rightarrow> bool"
  assumes add_wf: "wf x \<Longrightarrow> add oid v x = (r, x') \<Longrightarrow> wf x'"
    and add_members: "add oid v x = (r, x') \<Longrightarrow>
          members x' = (if is_ok r then insert oid (members x) else members x)"
    and remove_spec: "wf x \<Longrightarrow> remove oid x = (out, x') \<Longrightarrow>
          wf x' \<and> members x' = members x - {oid} \<and> (\<forall>b. out = Inr b \<longrightarrow> b = (oid \<in> members x))"
    and search_spec: "wf x \<Longrightarrow> search v k threshold x = Inr rs \<Longrightarrow>
          (\<forall>(oid, sim) \<in> set rs. oid \<in> members x \<and> threshold \<le> sim) \<and> int (length rs) \<le> max 0 k"
begin

lemma removed_not_found:
  assumes "wf x" and "remove oid x = (r, x')" and "search v k threshold x' = Inr rs"
  shows "oid \<notin> fst ` set rs"
proof -
  from remove_spec [OF assms(1,2)] have x': "wf x'" "members x' = members x - {oid}" by auto
  from search_spec [OF x'(1) assms(3)] x'(2) show ?thesis by auto
qed

end

interpretation hnsw: similarity_index "hnsw_add N L" "hnsw_remove L" "hnsw_search N L"
    hnsw_members hnsw_wf for N :: "'a Numpy" and L :: "('h, 'a) HnswLib"
proof
  fix x x' :: "'h HNSWIndex" and oid v r out k threshold rs
  show "hnsw_wf x \<Longrightarrow> hnsw_add N L oid v x = (r, x') \<Longrightarrow> hnsw_wf x'" by (rule hnsw_add_wf)
  show "hnsw_add N L oid v x = (r, x') \<Longrightarrow>
      hnsw_members x' = (if is_ok r then insert oid (hnsw_members x) else hnsw_members x)"
    by (rule hnsw_add_members)
  show "hnsw_wf x \<Longrightarrow> hnsw_remove L oid x = (out, x') \<Longrightarrow>
      hnsw_wf x' \<and> hnsw_members x' = hnsw_members x - {oid}
      \<and> (\<forall>b. out = Inr b \<longrightarrow> b = (oid \<in> hnsw_members x))"
    by (rule hnsw_remove_wf)
  show "hnsw_wf x \<Longrightarrow> hnsw_search N L v k threshold x = Inr rs \<Longrightarrow>
      (\<forall>(oid, sim) \<in> set rs. oid \<in> hnsw_members x \<and> threshold \<le> sim) \<and> int (length rs) \<le> max 0 k"
    by (rule hnsw_search_members)
qed

section \<open>Properties\<close>

inductive hnsw_reachable ::
    "'a Numpy \<Rightarrow> ('h, 'a) HnswLib \<Rightarrow> int \<Rightarrow> int \<Rightarrow> 'h HNSWIndex \<Rightarrow> bool" for N L d m where
  created: "hnsw_init L d m = Inr x \<Longrightarrow> hnsw_reachable N L d m x"
| added: "hnsw_reachable N L d m x \<Longrightarrow> hnsw_add N L oid v x = (r, x') \<Longrightarrow> hnsw_reachable N L d m x'"
| removed: "hnsw_reachable N L d m x \<Longrightarrow> hnsw_remove L oid x = (b, x') \<Longrightarrow> hnsw_reachable N L d m x'"

lemma hnsw_max_elements:
  "hnsw_add N L oid v x = (r, x') \<Longrightarrow> hx_max_elements x' = hx_max_elements x"
  "hnsw_remove L oid x = (b, x') \<Longrightarrow> hx_max_elements x' = hx_max_elements x"
  by (auto simp: hnsw_add_def hnsw_remove_def Let_def split: if_splits sum.splits option.splits prod.splits)

lemma hnsw_reachable_wf: "hnsw_reachable N L d m x \<Longrightarrow> hnsw_wf x \<and> hx_max_elements x = m"
proof (induction rule: hnsw_reachable.induct)
  case (created x)
  then show ?case using hnsw_init_wf [OF created] by (auto simp: hnsw_init_def split: if_splits sum.splits)
next
  case (added x oid v r x')
  then show ?case using hnsw_add_wf hnsw_max_elements(1) by metis
next
  case (removed x oid b x')
  then show ?case using hnsw_remove_wf hnsw_max_elements(2) by metis
qed

text \<open>An index library on lists of numbers: what \<^verbatim>\<open>hnswlib\<close> documents, by exhaustive search.\<close>

definition sample_numpy :: "rat list Numpy" where
  "sample_numpy = \<lparr>nd_shape = (\<lambda>xs. [length xs]), nd_nbytes = (\<lambda>xs. 4 * length xs), nd_row = id\<rparr>"

definition squared_distance :: "rat list \<Rightarrow> rat list \<Rightarrow> rat" where
  "squared_distance xs ys = sum_list (map (\<lambda>(x, y). (x - y) * (x - y)) (zip xs ys))"

definition sample_hnswlib :: "((nat \<times> rat list) list, rat list) HnswLib" where
  "sample_hnswlib = \<lparr>hl_new = (\<lambda>d m ef_construction M ef. Inr []),
     hl_add_items = (\<lambda>v i replace h. (Inr (), (i, v) # filter (\<lambda>(j, _). j \<noteq> i) h)),
     hl_knn_query = (\<lambda>q k h. if length h < k then Inl (LibError ''Cannot return the results'')
                      else Inr (take k (sort_key snd (map (\<lambda>(j, v). (j, squared_distance q v)) h)))),
     hl_mark_deleted = (\<lambda>i h. (Inr (), filter (\<lambda>(j, _). j \<noteq> i) h))\<rparr>"

definition sample_index :: "(nat \<times> rat list) list HNSWIndex" where
  "sample_index = \<lparr>hx_dim = 2, hx_max_elements = 3, hx_index = [], hx_id_to_object = [],
     hx_object_to_id = [], hx_free_ids = [], hx_next_id = 0\<rparr>"

definition sample_full :: "(nat \<times> rat list) list HNSWIndex" where
  "sample_full = snd (hnsw_add sample_numpy sample_hnswlib ''b'' [0, 1]
     (snd (hnsw_add sample_numpy sample_hnswlib ''a'' [1, 0] sample_index)))"

lemma sample_full_reachable: "hnsw_reachable sample_numpy sample_hnswlib 2 3 sample_full"
proof -
  have "hnsw_init sample_hnswlib 2 3 = Inr sample_index"
    by (simp add: hnsw_init_def sample_hnswlib_def sample_index_def)
  then have "hnsw_reachable sample_numpy sample_hnswlib 2 3 sample_index" by (rule created)
  then show ?thesis unfolding sample_full_def
    by (metis added prod.collapse)
qed

text \<open>C18: However an index came about, labels and objects correspond one to one, free labels are not in
  use, its size is the number of objects it holds, and it never exceeds \<^verbatim>\<open>max_elements\<close>.\<close>

theorem hnsw_invariant:
  assumes "hnsw_reachable N L d m x"
  shows "(dget (hx_id_to_object x) i = Some oid \<longleftrightarrow> dget (hx_object_to_id x) oid = Some i)
    \<and> (i \<in> set (hx_free_ids x) \<longrightarrow> dget (hx_id_to_object x) i = None \<and> i < hx_next_id x)
    \<and> hnsw_size x = card (hnsw_members x) \<and> int (hnsw_size x) \<le> m"
proof -
  have wf: "hnsw_wf x" and m: "hx_max_elements x = m" using hnsw_reachable_wf [OF assms] by simp_all
  have "i \<notin> set (dkeys (hx_id_to_object x)) \<and> i < hx_next_id x" if "i \<in> set (hx_free_ids x)"
    using wf that unfolding hnsw_wf_def by blast
  then show ?thesis
    using inverse_dictsD [OF hnsw_wfD(3) [OF wf]] hnsw_size_card [OF wf] hnsw_size_bounded [OF wf]
    unfolding m by (auto simp: map_of_eq_None_iff simp del: map_of_eq_Some_iff Some_eq_map_of_iff)
qed

lemma hnsw_invariant_witness:
  "dget (hx_id_to_object sample_full) 1 = Some ''b'' \<and> dget (hx_object_to_id sample_full) ''b'' = Some 1
   \<and> hnsw_size sample_full = card (hnsw_members sample_full) \<and> int (hnsw_size sample_full) \<le> 3"
proof -
  have "dget (hx_object_to_id sample_full) ''b'' = Some 1" by code_simp
  then show ?thesis using hnsw_invariant [OF sample_full_reachable, of 1 "''b''"] by blast
qed

text \<open>A search answers at most \<^verbatim>\<open>k\<close> objects, all of them in the index and at least as similar as the
  threshold; and once an object is removed no later search on that index finds it.\<close>

theorem hnsw_search_sound:
  assumes "hnsw_reachable N L d m x" and "hnsw_remove L gone x = (b, x')"
    and "hnsw_search N L v k threshold x' = Inr rs"
  shows "int (length rs) \<le> max 0 k
    \<and> (\<forall>(oid, sim) \<in> set rs. oid \<in> hnsw_members x \<and> oid \<noteq> gone \<and> threshold \<le> sim)"
proof -
  have wf: "hnsw_wf x" using hnsw_reachable_wf [OF assms(1)] by simp
  from hnsw.remove_spec [OF wf assms(2)] have x': "hnsw_wf x'" "hnsw_members x' = hnsw_members x - {gone}"
    by auto
  from hnsw.search_spec [OF x'(1) assms(3)] show ?thesis unfolding x'(2) by auto
qed

lemma hnsw_search_sound_witness:
  "hnsw_search sample_numpy sample_hnswlib [1, 0] 5 0 (snd (hnsw_remove sample_hnswlib ''b'' sample_full))
     = Inr [(''a'', 1)] \<and> ''a'' \<in> hnsw_members sample_full"
proof -
  have s: "hnsw_search sample_numpy sample_hnswlib [1, 0] 5 0
      (snd (hnsw_remove sample_hnswlib ''b'' sample_full)) = Inr [(''a'', 1)]" by code_simp
  from hnsw_search_sound [OF sample_full_reachable prod.collapse [symmetric] s] s show ?thesis by simp
qed

end
