(* ===== verification/MetadataStore.thy ===== *)
theory MetadataStore
  imports BloomFilter PrefixTree Hnsw
begin

text \<open>
  The in-memory index of \<^verbatim>\<open>src/l3store/metadata/metadata_store.py\<close>: a Bloom filter over every
  object, a token trie over KV-cache blocks and a lazily created HNSW index over semantic cache
  entries.  What the code uses of its libraries is one record, \<open>Runtime\<close>.  The lemmas say which
  of the three structures an operation touches and that the well-formedness of all three is
  kept, over the interfaces \<open>membership_filter\<close>, \<open>prefix_index\<close> and \<open>similarity_index\<close>.
\<close>

section \<open>The store\<close>

record ('h, 'a) Runtime =
  rt_digests :: Digests
  rt_numpy :: "'a Numpy"
  rt_hnsw :: "('h, 'a) HnswLib"
  rt_set_order :: "string set \<Rightarrow> string list"

record 'h MetadataStore =
  md_bloom :: BloomFilter
  md_prefix_tree :: PrefixTree
  md_expected_items :: int
  md_hnsw :: "'h HNSWIndex option"

definition metadata_init ::
    "('h, 'a) Runtime \<Rightarrow> int \<Rightarrow> real \<Rightarrow> int option \<Rightarrow> 'h MetadataStore res" where
  "metadata_init R expected_items fp_rate embedding_dim =
     (case bloom_init expected_items fp_rate of
        Inl e \<Rightarrow> Inl e
      | Inr bloom \<Rightarrow>
          (let md = \<lparr>md_bloom = bloom, md_prefix_tree = prefix_tree_new,
                     md_expected_items = expected_items, md_hnsw = None\<rparr>
           in case embedding_dim of
                None \<Rightarrow> Inr md
              | Some d \<Rightarrow>
                  (case hnsw_init (rt_hnsw R) d expected_items of
                     Inl e \<Rightarrow> Inl e
                   | Inr x \<Rightarrow> Inr (md\<lparr>md_hnsw := Some x\<rparr>))))"

definition on_object_added ::
    "('h, 'a) Runtime \<Rightarrow> ObjectType \<Rightarrow> string \<Rightarrow> int list option
       \<Rightarrow> 'h MetadataStore \<Rightarrow> 'h MetadataStore" where
  "on_object_added R ty oid token_ids md =
     (let md1 = md\<lparr>md_bloom := bloom_add (rt_digests R) oid (md_bloom md)\<rparr>
      in case token_ids of
           None \<Rightarrow> md1
         | Some ts \<Rightarrow>
             if ty = KV_CACHE \<and> ts \<noteq> []
             then md1\<lparr>md_prefix_tree := pt_insert ts oid (md_prefix_tree md1)\<rparr> else md1)"

definition ensure_hnsw ::
    "('h, 'a) Runtime \<Rightarrow> int \<Rightarrow> 'h MetadataStore \<Rightarrow> 'h HNSWIndex res \<times> 'h MetadataStore" where
  "ensure_hnsw R embedding_dim md =
     (case md_hnsw md of
        None \<Rightarrow>
          (case hnsw_init (rt_hnsw R) embedding_dim (md_expected_items md) of
             Inl e \<Rightarrow> (Inl e, md)
           | Inr x \<Rightarrow> (Inr x, md\<lparr>md_hnsw := Some x\<rparr>))
      | Some x \<Rightarrow>
          if hx_dim x \<noteq> embedding_dim
          then (Inl (ValueError ''semantic embedding dimension mismatch''), md)
          else (Inr x, md))"

text \<open>\<^verbatim>\<open>embedding.shape[-1]\<close>; a zero-dimensional array has no last axis.\<close>

definition last_axis :: "'a Numpy \<Rightarrow> 'a \<Rightarrow> int res" where
  "last_axis N v = (if nd_shape N v = [] then Inl IndexError else Inr (int (last (nd_shape N v))))"

definition on_semantic_entry_added ::
    "('h, 'a) Runtime \<Rightarrow> string \<Rightarrow> 'a \<Rightarrow> 'h MetadataStore \<Rightarrow> unit res \<times> 'h MetadataStore" where
  "on_semantic_entry_added R oid embedding md =
     (let md1 = md\<lparr>md_bloom := bloom_add (rt_digests R) oid (md_bloom md)\<rparr>
      in case last_axis (rt_numpy R) embedding of
           Inl e \<Rightarrow> (Inl e, md1)
         | Inr d \<Rightarrow>
             (case ensure_hnsw R d md1 of
                (Inl e, md2) \<Rightarrow> (Inl e, md2)
              | (Inr x, md2) \<Rightarrow>
                  (case hnsw_add (rt_numpy R) (rt_hnsw R) oid embedding x of
                     (r, x') \<Rightarrow> (r, md2\<lparr>md_hnsw := Some x'\<rparr>))))"

definition on_object_removed ::
    "('h, 'a) Runtime \<Rightarrow> ObjectType \<Rightarrow> string \<Rightarrow> 'h MetadataStore \<Rightarrow> unit res \<times> 'h MetadataStore" where
  "on_object_removed R ty oid md =
     (if ty = KV_CACHE
      then (Inr (), md\<lparr>md_prefix_tree := snd (pt_remove oid (md_prefix_tree md))\<rparr>)
      else case md_hnsw md of
             None \<Rightarrow> (Inr (), md)
           | Some x \<Rightarrow>
               if ty = SEMANTIC_CACHE
               then (case hnsw_remove (rt_hnsw R) oid x of
                       (Inl e, x') \<Rightarrow> (Inl e, md\<lparr>md_hnsw := Some x'\<rparr>)
                     | (Inr _, x') \<Rightarrow> (Inr (), md\<lparr>md_hnsw := Some x'\<rparr>))
               else (Inr (), md))"

definition might_exist :: "('h, 'a) Runtime \<Rightarrow> string \<Rightarrow> 'h MetadataStore \<Rightarrow> bool" where
  "might_exist R oid md = might_contain (rt_digests R) oid (md_bloom md)"

definition find_prefix_matches ::
    "('h, 'a) Runtime \<Rightarrow> int list \<Rightarrow> 'h MetadataStore \<Rightarrow> PrefixMatch list" where
  "find_prefix_matches R token_ids md = pt_search (rt_set_order R) token_ids (md_prefix_tree md)"

definition find_longest_prefix ::
    "('h, 'a) Runtime \<Rightarrow> int list \<Rightarrow> 'h MetadataStore \<Rightarrow> PrefixMatch option" where
  "find_longest_prefix R token_ids md =
     longest_match (rt_set_order R) token_ids (md_prefix_tree md)"

definition search_similar_prompts ::
    "('h, 'a) Runtime \<Rightarrow> 'a \<Rightarrow> int \<Rightarrow> rat \<Rightarrow> 'h MetadataStore \<Rightarrow> (string \<times> rat) list res" where
  "search_similar_prompts R query_embedding k threshold md =
     (case md_hnsw md of
        None \<Rightarrow> Inr []
      | Some x \<Rightarrow> hnsw_search (rt_numpy R) (rt_hnsw R) query_embedding k threshold x)"

record MetadataStats =
  bloom_count :: nat
  prefix_tree_size :: nat
  ms_hnsw_size :: nat

definition metadata_stats :: "'h MetadataStore \<Rightarrow> MetadataStats" where
  "metadata_stats md = \<lparr>bloom_count = bf_count (md_bloom md),
     prefix_tree_size = pt_len (md_prefix_tree md),
     ms_hnsw_size = (case md_hnsw md of None \<Rightarrow> 0 | Some x \<Rightarrow> hnsw_size x)\<rparr>"

section \<open>The Bloom filter never forgets\<close>

definition md_bloom_wf :: "'h MetadataStore \<Rightarrow> bool" where
  "md_bloom_wf md \<longleftrightarrow> bloom_wf (md_bloom md)"

text \<open>\<open>md'\<close> is well-formed and knows every object that \<open>md\<close> knows.\<close>

definition md_grows :: "('h, 'a) Runtime \<Rightarrow> 'h MetadataStore \<Rightarrow> 'h MetadataStore \<Rightarrow> bool" where
  "md_grows R md md' \<longleftrightarrow>
     md_bloom_wf md' \<and> (\<forall>oid. might_exist R oid md \<longrightarrow> might_exist R oid md')"

lemma md_growsI_same: "md_bloom_wf md \<Longrightarrow> md_bloom md' = md_bloom md \<Longrightarrow> md_grows R md md'"
  by (simp add: md_grows_def md_bloom_wf_def might_exist_def)

lemma md_grows_refl: "md_bloom_wf md \<Longrightarrow> md_grows R md md"
  by (rule md_growsI_same) simp_all

lemma md_grows_trans: "md_grows R a b \<Longrightarrow> md_grows R b c \<Longrightarrow> md_grows R a c"
  by (simp add: md_grows_def)

lemma md_grows_add:
  assumes "md_bloom_wf md" and "md_bloom md' = bloom_add (rt_digests R) oid (md_bloom md)"
  shows "md_grows R md md' \<and> might_exist R oid md'"
  using assms bloom.wf_add [of "md_bloom md" "rt_digests R" oid]
    bloom.might_self [of "md_bloom md" "rt_digests R" oid]
    bloom.might_mono [of "md_bloom md" "rt_digests R" _ oid]
  by (simp add: md_grows_def md_bloom_wf_def might_exist_def)

lemma on_object_added_bloom [simp]:
  "md_bloom (on_object_added R ty oid ts md) = bloom_add (rt_digests R) oid (md_bloom md)"
  by (simp add: on_object_added_def Let_def split: option.split)

lemma ensure_hnsw_bloom:
  "ensure_hnsw R d md = (r, md') \<Longrightarrow> md_bloom md' = md_bloom md \<and> md_prefix_tree md' = md_prefix_tree md"
  by (auto simp: ensure_hnsw_def split: option.splits sum.splits if_splits)

lemma on_semantic_entry_added_bloom:
  assumes "on_semantic_entry_added R oid v md = (r, md')"
  shows "md_bloom md' = bloom_add (rt_digests R) oid (md_bloom md)
       \<and> md_prefix_tree md' = md_prefix_tree md"
proof (cases "last_axis (rt_numpy R) v")
  case (Inl e)
  with assms show ?thesis by (auto simp: on_semantic_entry_added_def)
next
  case (Inr d)
  obtain q md2 where e: "ensure_hnsw R d (md\<lparr>md_bloom := bloom_add (rt_digests R) oid (md_bloom md)\<rparr>)
      = (q, md2)" by fastforce
  with assms Inr have "md_bloom md' = md_bloom md2 \<and> md_prefix_tree md' = md_prefix_tree md2"
    by (auto simp: on_semantic_entry_added_def split: sum.splits prod.splits)
  with ensure_hnsw_bloom [OF e] show ?thesis by simp
qed

lemma on_object_removed_bloom:
  "on_object_removed R ty oid md = (r, md') \<Longrightarrow> md_bloom md' = md_bloom md"
  by (auto simp: on_object_removed_def split: option.splits sum.splits if_splits prod.splits)

lemma on_object_added_grows:
  "md_bloom_wf md \<Longrightarrow> md_grows R md (on_object_added R ty oid ts md)
     \<and> might_exist R oid (on_object_added R ty oid ts md)"
  by (rule md_grows_add) simp_all

lemma on_semantic_entry_added_grows:
  "md_bloom_wf md \<Longrightarrow> on_semantic_entry_added R oid v md = (r, md') \<Longrightarrow>
     md_grows R md md' \<and> might_exist R oid md'"
  by (rule md_grows_add) (simp_all add: on_semantic_entry_added_bloom)

lemma on_object_removed_grows:
  "md_bloom_wf md \<Longrightarrow> on_object_removed R ty oid md = (r, md') \<Longrightarrow> md_grows R md md'"
  by (rule md_growsI_same) (simp_all add: on_object_removed_bloom)

section \<open>Well-formedness of the three structures\<close>

text \<open>
  The trie part needs that an object is not indexed again under other tokens, see
  \<open>pt_insert_wf\<close>; the other parts hold in every history.
\<close>

definition metadata_wf :: "'h MetadataStore \<Rightarrow> bool" where
  "metadata_wf md \<longleftrightarrow> bloom_wf (md_bloom md) \<and> pt_wf (md_prefix_tree md)
     \<and> (\<forall>x. md_hnsw md = Some x \<longrightarrow> hnsw_wf x)"

definition md_semantic_ids :: "'h MetadataStore \<Rightarrow> string set" where
  "md_semantic_ids md = (case md_hnsw md of None \<Rightarrow> {} | Some x \<Rightarrow> hnsw_members x)"

lemma hnsw_init_fresh: "hnsw_init L d n = Inr x \<Longrightarrow> hnsw_wf x \<and> hnsw_members x = {} \<and> hx_dim x = d"
  by (auto simp: hnsw_init_def hnsw_wf_def hnsw_members_def split: if_splits sum.splits)

lemma pt_table_new [simp]: "pt_table prefix_tree_new = Map.empty"
  by (simp add: pt_table_def prefix_tree_new_def)

lemma metadata_init_wf:
  assumes "metadata_init R n p d = Inr md"
  shows "metadata_wf md \<and> md_semantic_ids md = {} \<and> pt_table (md_prefix_tree md) = Map.empty"
  using assms
  by (auto simp: metadata_init_def metadata_wf_def md_semantic_ids_def Let_def
      dest!: bloom_init_wf hnsw_init_fresh split: sum.splits option.splits)

text \<open>What adding an object asks of the tokens that come with it.\<close>

definition tokens_fresh :: "ObjectType \<Rightarrow> string \<Rightarrow> int list option \<Rightarrow> 'h MetadataStore \<Rightarrow> bool" where
  "tokens_fresh ty oid token_ids md \<longleftrightarrow>
     (case token_ids of
        None \<Rightarrow> True
      | Some ts \<Rightarrow> ty \<noteq> KV_CACHE \<or> ts = [] \<or> pt_table (md_prefix_tree md) oid = None
          \<or> pt_table (md_prefix_tree md) oid = Some ts)"

lemma on_object_added_wf:
  assumes "metadata_wf md" and "tokens_fresh ty oid ts md"
  shows "metadata_wf (on_object_added R ty oid ts md)"
  using assms pt_insert_wf [of "md_prefix_tree md" oid]
  by (auto simp: metadata_wf_def tokens_fresh_def on_object_added_def Let_def split: option.splits)

lemma on_object_added_table:
  "pt_table (md_prefix_tree (on_object_added R KV_CACHE oid (Some ts) md)) =
     (if ts = [] then pt_table (md_prefix_tree md) else (pt_table (md_prefix_tree md))(oid \<mapsto> ts))"
  by (simp add: on_object_added_def Let_def pt_insert_table)

lemma ensure_hnsw_spec:
  assumes "metadata_wf md" and "ensure_hnsw R d md = (Inr x, md')"
  shows "hnsw_wf x \<and> hx_dim x = d \<and> md_hnsw md' = Some x \<and> hnsw_members x = md_semantic_ids md"
  using assms
  by (auto simp: ensure_hnsw_def metadata_wf_def md_semantic_ids_def dest!: hnsw_init_fresh
      split: option.splits sum.splits if_splits)

lemma ensure_hnsw_err: "ensure_hnsw R d md = (Inl e, md') \<Longrightarrow> md' = md"
  by (auto simp: ensure_hnsw_def split: option.splits sum.splits if_splits)

lemma on_semantic_entry_added_wf:
  assumes wf: "metadata_wf md" and call: "on_semantic_entry_added R oid v md = (r, md')"
  shows "metadata_wf md' \<and>
    md_semantic_ids md' = (if is_ok r then insert oid (md_semantic_ids md) else md_semantic_ids md)"
proof -
  let ?md1 = "md\<lparr>md_bloom := bloom_add (rt_digests R) oid (md_bloom md)\<rparr>"
  have wf1: "metadata_wf ?md1" and ids1: "md_semantic_ids ?md1 = md_semantic_ids md"
    using wf by (simp_all add: metadata_wf_def md_semantic_ids_def)
  show ?thesis
  proof (cases "last_axis (rt_numpy R) v")
    case (Inl e)
    with call wf1 ids1 show ?thesis by (auto simp: on_semantic_entry_added_def)
  next
    case (Inr d)
    obtain q md2 where e: "ensure_hnsw R d ?md1 = (q, md2)" by fastforce
    show ?thesis
    proof (cases q)
      case (Inl err)
      with call Inr e have "r = Inl err" "md' = md2" by (auto simp: on_semantic_entry_added_def)
      moreover have "md2 = ?md1" using ensure_hnsw_err e Inl by blast
      ultimately show ?thesis using wf1 ids1 by simp
    next
      case (Inr x)
      obtain x' where a: "hnsw_add (rt_numpy R) (rt_hnsw R) oid v x = (r, x')"
        and md': "md' = md2\<lparr>md_hnsw := Some x'\<rparr>"
        using call Inr e \<open>last_axis _ _ = Inr d\<close>
        by (auto simp: on_semantic_entry_added_def split: prod.splits)
      note x = ensure_hnsw_spec [OF wf1 e [unfolded Inr]]
      have "hnsw_wf x'" using hnsw.add_wf [OF conjunct1 [OF x] a] .
      moreover note hnsw.add_members [OF a]
      moreover note ensure_hnsw_bloom [OF e]
      ultimately show ?thesis using wf1 ids1 x
        by (simp add: md' metadata_wf_def md_semantic_ids_def)
    qed
  qed
qed

lemma on_object_removed_wf:
  assumes wf: "metadata_wf md" and call: "on_object_removed R ty oid md = (r, md')"
  shows "metadata_wf md'"
proof (cases "ty = KV_CACHE")
  case True
  with call have "md' = md\<lparr>md_prefix_tree := snd (pt_remove oid (md_prefix_tree md))\<rparr>"
    by (simp add: on_object_removed_def)
  moreover have "pt_wf (snd (pt_remove oid (md_prefix_tree md)))"
    using wf pt_remove_spec [of "md_prefix_tree md" oid] by (metis metadata_wf_def prod.collapse)
  ultimately show ?thesis using wf by (simp add: metadata_wf_def)
next
  case False
  show ?thesis
  proof (cases "md_hnsw md")
    case None
    with False call wf show ?thesis by (simp add: on_object_removed_def)
  next
    case (Some x)
    obtain q x' where rm: "hnsw_remove (rt_hnsw R) oid x = (q, x')" by fastforce
    have "hnsw_wf x" using wf Some by (simp add: metadata_wf_def)
    from hnsw.remove_spec [OF this rm] have "hnsw_wf x'" by simp
    with False call wf Some rm show ?thesis
      by (auto simp: on_object_removed_def metadata_wf_def split: sum.splits if_splits)
  qed
qed

lemma on_object_removed_kv:
  assumes "metadata_wf md"
  shows "pt_table (md_prefix_tree (snd (on_object_removed R KV_CACHE oid md)))
       = (pt_table (md_prefix_tree md))(oid := None)"
proof -
  obtain b t where rm: "pt_remove oid (md_prefix_tree md) = (b, t)" by fastforce
  have "pt_wf (md_prefix_tree md)" using assms by (simp add: metadata_wf_def)
  from pt_remove_spec [OF this rm] rm show ?thesis by (simp add: on_object_removed_def)
qed

lemma on_object_removed_semantic:
  assumes "metadata_wf md" and "on_object_removed R SEMANTIC_CACHE oid md = (r, md')"
  shows "md_semantic_ids md' = md_semantic_ids md - {oid}"
proof (cases "md_hnsw md")
  case None
  with assms show ?thesis by (simp add: on_object_removed_def md_semantic_ids_def)
next
  case (Some x)
  obtain q x' where rm: "hnsw_remove (rt_hnsw R) oid x = (q, x')" by fastforce
  have "hnsw_wf x" using assms(1) Some by (simp add: metadata_wf_def)
  from hnsw.remove_spec [OF this rm] have "hnsw_members x' = hnsw_members x - {oid}" by simp
  moreover have "md_hnsw md' = Some x'"
    using assms(2) Some rm by (cases q) (auto simp: on_object_removed_def)
  ultimately show ?thesis using Some by (simp add: md_semantic_ids_def)
qed

section \<open>Searching\<close>

lemma search_similar_prompts_spec:
  assumes "metadata_wf md" and "search_similar_prompts R v k threshold md = Inr rs"
  shows "(\<forall>(oid, sim) \<in> set rs. oid \<in> md_semantic_ids md \<and> threshold \<le> sim)
       \<and> int (length rs) \<le> max 0 k"
proof (cases "md_hnsw md")
  case None
  with assms(2) show ?thesis by (simp add: search_similar_prompts_def)
next
  case (Some x)
  with assms have "hnsw_wf x" "hnsw_search (rt_numpy R) (rt_hnsw R) v k threshold x = Inr rs"
    by (simp_all add: search_similar_prompts_def metadata_wf_def)
  from hnsw.search_spec [OF this] Some show ?thesis by (simp add: md_semantic_ids_def)
qed

lemma metadata_stats_sizes:
  assumes "metadata_wf md"
  shows "ms_hnsw_size (metadata_stats md) = card (md_semantic_ids md)"
    and "prefix_tree_size (metadata_stats md) = card (dom (pt_table (md_prefix_tree md)))"
proof -
  show "ms_hnsw_size (metadata_stats md) = card (md_semantic_ids md)"
    using assms hnsw_size_card
    by (auto simp: metadata_stats_def metadata_wf_def md_semantic_ids_def split: option.splits)
  have "dwf (pt_tokens (md_prefix_tree md))" using assms by (simp add: metadata_wf_def pt_wf_def)
  from distinct_card [OF this] show
    "prefix_tree_size (metadata_stats md) = card (dom (pt_table (md_prefix_tree md)))"
    by (simp add: metadata_stats_def pt_len_def pt_table_def dom_map_of_conv_image_fst)
qed

text \<open>Concrete libraries and an empty metadata store over them, for the examples.\<close>

definition sample_runtime :: "((nat \<times> rat list) list, rat list) Runtime" where
  "sample_runtime = \<lparr>rt_digests = sample_digests, rt_numpy = sample_numpy, rt_hnsw = sample_hnswlib,
     rt_set_order = sorted_list_of_set\<rparr>"

definition empty_metadata :: "(nat \<times> rat list) list MetadataStore" where
  "empty_metadata = \<lparr>md_bloom = bloom_new 64 2, md_prefix_tree = prefix_tree_new, md_expected_items = 8,
     md_hnsw = None\<rparr>"

lemma empty_metadata_wf: "metadata_wf empty_metadata \<and> md_bloom_wf empty_metadata"
  by (simp add: empty_metadata_def metadata_wf_def md_bloom_wf_def)

end
