(* ===== verification/Codec.thy ===== *)
theory Codec
  imports Types
begin

text \<open>
  \<^verbatim>\<open>src/l3store/storage/serialization.py\<close> and \<^verbatim>\<open>src/l3store/utils/config.py\<close>.  Turning a model into
  JSON and back is pydantic's, packing arrays is numpy's: both are the record \<open>Codec\<close>, an
  argument of the serializer, over the abstract types \<open>'a\<close> of arrays and \<open>'b\<close> of byte strings.
  \<open>codec_ok\<close> states their documented behaviour: arrays survive, and reading a dumped model
  constructs it again, which runs its validators.
\<close>

section \<open>What the serializer uses of pydantic and numpy\<close>

text \<open>
  \<open>dump_x\<close> is \<^verbatim>\<open>model_dump_json(indent=2)\<close> encoded as UTF-8, \<open>load_x\<close> is
  \<^verbatim>\<open>model_validate_json\<close>; \<open>np_savez\<close> takes the named arrays and \<open>np_loadz\<close> returns the archive,
  a mapping from names to arrays.
\<close>

record ('a, 'b) Codec =
  dump_meta :: "ObjectMeta \<Rightarrow> 'b"
  load_meta :: "'b \<Rightarrow> ObjectMeta res"
  dump_kv :: "KVCacheBlock \<Rightarrow> 'b"
  load_kv :: "'b \<Rightarrow> KVCacheBlock res"
  dump_rag :: "RAGObject \<Rightarrow> 'b"
  load_rag :: "'b \<Rightarrow> RAGObject res"
  dump_semantic :: "SemanticCacheEntry \<Rightarrow> 'b"
  load_semantic :: "'b \<Rightarrow> SemanticCacheEntry res"
  dump_workflow :: "AgentWorkflow \<Rightarrow> 'b"
  load_workflow :: "'b \<Rightarrow> AgentWorkflow res"
  dump_step :: "AgentStep \<Rightarrow> 'b"
  load_step :: "'b \<Rightarrow> AgentStep res"
  dump_tool :: "ToolCallArtifact \<Rightarrow> 'b"
  load_tool :: "'b \<Rightarrow> ToolCallArtifact res"
  dump_plan :: "PlanCacheEntry \<Rightarrow> 'b"
  load_plan :: "'b \<Rightarrow> PlanCacheEntry res"
  dump_trace :: "WorkflowTrace \<Rightarrow> 'b"
  load_trace :: "'b \<Rightarrow> WorkflowTrace res"
  np_save :: "'a \<Rightarrow> 'b"
  np_load :: "'b \<Rightarrow> 'a res"
  np_savez :: "(string, 'a) dict \<Rightarrow> 'b"
  np_loadz :: "'b \<Rightarrow> (string, 'a) dict res"

section \<open>The serializer\<close>

definition serialize_meta :: "('a, 'b) Codec \<Rightarrow> ObjectMeta \<Rightarrow> 'b" where
  "serialize_meta K x = dump_meta K x"

definition deserialize_meta :: "('a, 'b) Codec \<Rightarrow> 'b \<Rightarrow> ObjectMeta res" where
  "deserialize_meta K data = load_meta K data"

definition serialize_kv_block_meta :: "('a, 'b) Codec \<Rightarrow> KVCacheBlock \<Rightarrow> 'b" where
  "serialize_kv_block_meta K x = dump_kv K x"

definition deserialize_kv_block_meta :: "('a, 'b) Codec \<Rightarrow> 'b \<Rightarrow> KVCacheBlock res" where
  "deserialize_kv_block_meta K data = load_kv K data"

definition serialize_kv_tensors :: "('a, 'b) Codec \<Rightarrow> 'a \<Rightarrow> 'a \<Rightarrow> 'b" where
  "serialize_kv_tensors K key_states value_states =
     np_savez K [(''key_states'', key_states), (''value_states'', value_states)]"

definition deserialize_kv_tensors :: "('a, 'b) Codec \<Rightarrow> 'b \<Rightarrow> ('a \<times> 'a) res" where
  "deserialize_kv_tensors K data =
     (case np_loadz K data of
        Inl e \<Rightarrow> Inl e
      | Inr npz \<Rightarrow>
          (case dget npz ''key_states'' of
             None \<Rightarrow> Inl (KeyError ''key_states'')
           | Some k \<Rightarrow>
               (case dget npz ''value_states'' of
                  None \<Rightarrow> Inl (KeyError ''value_states'')
                | Some v \<Rightarrow> Inr (k, v))))"

definition serialize_rag_meta :: "('a, 'b) Codec \<Rightarrow> RAGObject \<Rightarrow> 'b" where
  "serialize_rag_meta K x = dump_rag K x"

definition deserialize_rag_meta :: "('a, 'b) Codec \<Rightarrow> 'b \<Rightarrow> RAGObject res" where
  "deserialize_rag_meta K data = load_rag K data"

definition serialize_embedding :: "('a, 'b) Codec \<Rightarrow> 'a \<Rightarrow> 'b" where
  "serialize_embedding K embedding = np_save K embedding"

definition deserialize_embedding :: "('a, 'b) Codec \<Rightarrow> 'b \<Rightarrow> 'a res" where
  "deserialize_embedding K data = np_load K data"

definition serialize_semantic_entry :: "('a, 'b) Codec \<Rightarrow> SemanticCacheEntry \<Rightarrow> 'b" where
  "serialize_semantic_entry K x = dump_semantic K x"

definition deserialize_semantic_entry :: "('a, 'b) Codec \<Rightarrow> 'b \<Rightarrow> SemanticCacheEntry res" where
  "deserialize_semantic_entry K data = load_semantic K data"

definition serialize_agent_workflow :: "('a, 'b) Codec \<Rightarrow> AgentWorkflow \<Rightarrow> 'b" where
  "serialize_agent_workflow K x = dump_workflow K x"

definition deserialize_agent_workflow :: "('a, 'b) Codec \<Rightarrow> 'b \<Rightarrow> AgentWorkflow res" where
  "deserialize_agent_workflow K data = load_workflow K data"

definition serialize_agent_step :: "('a, 'b) Codec \<Rightarrow> AgentStep \<Rightarrow> 'b" where
  "serialize_agent_step K x = dump_step K x"

definition deserialize_agent_step :: "('a, 'b) Codec \<Rightarrow> 'b \<Rightarrow> AgentStep res" where
  "deserialize_agent_step K data = load_step K data"

definition serialize_tool_artifact :: "('a, 'b) Codec \<Rightarrow> ToolCallArtifact \<Rightarrow> 'b" where
  "serialize_tool_artifact K x = dump_tool K x"

definition deserialize_tool_artifact :: "('a, 'b) Codec \<Rightarrow> 'b \<Rightarrow> ToolCallArtifact res" where
  "deserialize_tool_artifact K data = load_tool K data"

definition serialize_plan_cache_entry :: "('a, 'b) Codec \<Rightarrow> PlanCacheEntry \<Rightarrow> 'b" where
  "serialize_plan_cache_entry K x = dump_plan K x"

definition deserialize_plan_cache_entry :: "('a, 'b) Codec \<Rightarrow> 'b \<Rightarrow> PlanCacheEntry res" where
  "deserialize_plan_cache_entry K data = load_plan K data"

definition serialize_plan_embedding :: "('a, 'b) Codec \<Rightarrow> 'a \<Rightarrow> 'b" where
  "serialize_plan_embedding K embedding = serialize_embedding K embedding"

definition deserialize_plan_embedding :: "('a, 'b) Codec \<Rightarrow> 'b \<Rightarrow> 'a res" where
  "deserialize_plan_embedding K data = deserialize_embedding K data"

definition serialize_workflow_trace :: "('a, 'b) Codec \<Rightarrow> WorkflowTrace \<Rightarrow> 'b" where
  "serialize_workflow_trace K x = dump_trace K x"

definition deserialize_workflow_trace :: "('a, 'b) Codec \<Rightarrow> 'b \<Rightarrow> WorkflowTrace res" where
  "deserialize_workflow_trace K data = load_trace K data"

lemmas serializer_defs =
  serialize_meta_def deserialize_meta_def
  serialize_kv_block_meta_def deserialize_kv_block_meta_def
  serialize_rag_meta_def deserialize_rag_meta_def
  serialize_semantic_entry_def deserialize_semantic_entry_def
  serialize_agent_workflow_def deserialize_agent_workflow_def
  serialize_agent_step_def deserialize_agent_step_def
  serialize_tool_artifact_def deserialize_tool_artifact_def
  serialize_plan_cache_entry_def deserialize_plan_cache_entry_def
  serialize_workflow_trace_def deserialize_workflow_trace_def
  serialize_kv_tensors_def deserialize_kv_tensors_def
  serialize_embedding_def deserialize_embedding_def
  serialize_plan_embedding_def deserialize_plan_embedding_def

section \<open>Documented behaviour of the libraries\<close>

definition codec_ok :: "('a, 'b) Codec \<Rightarrow> bool" where
  "codec_ok K \<longleftrightarrow>
     (\<forall>x. load_meta K (dump_meta K x) = Inr x) \<and>
     (\<forall>x. load_kv K (dump_kv K x) = Inr x) \<and>
     (\<forall>x. load_rag K (dump_rag K x) = Inr x) \<and>
     (\<forall>x. load_semantic K (dump_semantic K x) = Inr x) \<and>
     (\<forall>x. load_workflow K (dump_workflow K x) = Inr x) \<and>
     (\<forall>x. load_step K (dump_step K x) = validate_timestamps x) \<and>
     (\<forall>x. load_tool K (dump_tool K x) = validate_tool_artifact x) \<and>
     (\<forall>x. load_plan K (dump_plan K x) = validate_plan_entry x) \<and>
     (\<forall>x. load_trace K (dump_trace K x) = validate_trace x) \<and>
     (\<forall>v. np_load K (np_save K v) = Inr v) \<and>
     (\<forall>d. dwf d \<longrightarrow> np_loadz K (np_savez K d) = Inr d)"

lemma codec_okD:
  assumes "codec_ok K"
  shows "deserialize_meta K (serialize_meta K m) = Inr m"
    and "deserialize_kv_block_meta K (serialize_kv_block_meta K kv) = Inr kv"
    and "deserialize_rag_meta K (serialize_rag_meta K rg) = Inr rg"
    and "deserialize_semantic_entry K (serialize_semantic_entry K se) = Inr se"
    and "deserialize_agent_workflow K (serialize_agent_workflow K w) = Inr w"
    and "deserialize_agent_step K (serialize_agent_step K st) = validate_timestamps st"
    and "deserialize_tool_artifact K (serialize_tool_artifact K ta) = validate_tool_artifact ta"
    and "deserialize_plan_cache_entry K (serialize_plan_cache_entry K pl) = validate_plan_entry pl"
    and "deserialize_workflow_trace K (serialize_workflow_trace K tr) = validate_trace tr"
    and "deserialize_embedding K (serialize_embedding K v) = Inr v"
    and "deserialize_plan_embedding K (serialize_plan_embedding K v) = Inr v"
    and "deserialize_kv_tensors K (serialize_kv_tensors K a b) = Inr (a, b)"
  using assms by (simp_all add: codec_ok_def serializer_defs)

text \<open>A byte string that remembers what was written is a codec of this kind.\<close>

datatype 'a blob =
    Blob_meta ObjectMeta
  | Blob_kv KVCacheBlock
  | Blob_rag RAGObject
  | Blob_semantic SemanticCacheEntry
  | Blob_workflow AgentWorkflow
  | Blob_step AgentStep
  | Blob_tool ToolCallArtifact
  | Blob_plan PlanCacheEntry
  | Blob_trace WorkflowTrace
  | Blob_array 'a
  | Blob_arrays "(string \<times> 'a) list"

definition blob_codec :: "('a, 'a blob) Codec" where
  "blob_codec = \<lparr>
     dump_meta = Blob_meta,
     load_meta = (\<lambda>b. case b of Blob_meta x \<Rightarrow> Inr x | _ \<Rightarrow> Inl (ValueError ''invalid JSON'')),
     dump_kv = Blob_kv,
     load_kv = (\<lambda>b. case b of Blob_kv x \<Rightarrow> Inr x | _ \<Rightarrow> Inl (ValueError ''invalid JSON'')),
     dump_rag = Blob_rag,
     load_rag = (\<lambda>b. case b of Blob_rag x \<Rightarrow> Inr x | _ \<Rightarrow> Inl (ValueError ''invalid JSON'')),
     dump_semantic = Blob_semantic,
     load_semantic = (\<lambda>b. case b of Blob_semantic x \<Rightarrow> Inr x | _ \<Rightarrow> Inl (ValueError ''invalid JSON'')),
     dump_workflow = Blob_workflow,
     load_workflow = (\<lambda>b. case b of Blob_workflow x \<Rightarrow> Inr x | _ \<Rightarrow> Inl (ValueError ''invalid JSON'')),
     dump_step = Blob_step,
     load_step = (\<lambda>b. case b of Blob_step x \<Rightarrow> validate_timestamps x | _ \<Rightarrow> Inl (ValueError ''invalid JSON'')),
     dump_tool = Blob_tool,
     load_tool = (\<lambda>b. case b of Blob_tool x \<Rightarrow> validate_tool_artifact x | _ \<Rightarrow> Inl (ValueError ''invalid JSON'')),
     dump_plan = Blob_plan,
     load_plan = (\<lambda>b. case b of Blob_plan x \<Rightarrow> validate_plan_entry x | _ \<Rightarrow> Inl (ValueError ''invalid JSON'')),
     dump_trace = Blob_trace,
     load_trace = (\<lambda>b. case b of Blob_trace x \<Rightarrow> validate_trace x | _ \<Rightarrow> Inl (ValueError ''invalid JSON'')),
     np_save = Blob_array,
     np_load = (\<lambda>b. case b of Blob_array v \<Rightarrow> Inr v | _ \<Rightarrow> Inl (ValueError ''not an array'')),
     np_savez = Blob_arrays,
     np_loadz = (\<lambda>b. case b of Blob_arrays d \<Rightarrow> Inr d | _ \<Rightarrow> Inl (ValueError ''not an archive''))\<rparr>"

lemma blob_codec_ok [simp]: "codec_ok blob_codec"
  by (simp add: codec_ok_def blob_codec_def)

section \<open>Configuration\<close>

record StorageConfig =
  cf_backend :: string
  cf_endpoint_url :: string
  cf_access_key :: string
  cf_secret_key :: string
  cf_bucket :: string
  cf_region :: string

record KVCacheConfig =
  kvc_block_size :: int
  kvc_key_prefix :: string

record RAGConfig =
  ragc_key_prefix :: string

record SemanticCacheConfig =
  semc_key_prefix :: string

record AgentObjectsConfig =
  workflows_prefix :: string
  steps_prefix :: string
  tools_prefix :: string
  plans_prefix :: string
  traces_prefix :: string

record ObjectsConfig =
  oc_kv_cache :: KVCacheConfig
  oc_rag :: RAGConfig
  oc_semantic_cache :: SemanticCacheConfig
  oc_agent :: AgentObjectsConfig

record L3Config =
  l3_storage :: StorageConfig
  l3_objects :: ObjectsConfig

definition default_config :: L3Config where
  "default_config = \<lparr>
     l3_storage = \<lparr>cf_backend = ''s3'', cf_endpoint_url = ''http://localhost:9000'',
       cf_access_key = ''minioadmin'', cf_secret_key = ''minioadmin'',
       cf_bucket = ''l3-llm-store'', cf_region = ''us-east-1''\<rparr>,
     l3_objects = \<lparr>
       oc_kv_cache = \<lparr>kvc_block_size = 16, kvc_key_prefix = ''kv/''\<rparr>,
       oc_rag = \<lparr>ragc_key_prefix = ''rag/''\<rparr>,
       oc_semantic_cache = \<lparr>semc_key_prefix = ''sem/''\<rparr>,
       oc_agent = \<lparr>workflows_prefix = ''agent/workflows/'', steps_prefix = ''agent/steps/'',
         tools_prefix = ''agent/tools/'', plans_prefix = ''agent/plans/'',
         traces_prefix = ''agent/traces/''\<rparr>\<rparr>\<rparr>"

text \<open>The key prefix of every object type.\<close>

fun type_prefix :: "L3Config \<Rightarrow> ObjectType \<Rightarrow> string" where
  "type_prefix c KV_CACHE = kvc_key_prefix (oc_kv_cache (l3_objects c))"
| "type_prefix c RAG = ragc_key_prefix (oc_rag (l3_objects c))"
| "type_prefix c SEMANTIC_CACHE = semc_key_prefix (oc_semantic_cache (l3_objects c))"
| "type_prefix c AGENT_WORKFLOW = workflows_prefix (oc_agent (l3_objects c))"
| "type_prefix c AGENT_STEP = steps_prefix (oc_agent (l3_objects c))"
| "type_prefix c TOOL_CALL_ARTIFACT = tools_prefix (oc_agent (l3_objects c))"
| "type_prefix c PLAN_CACHE = plans_prefix (oc_agent (l3_objects c))"
| "type_prefix c WORKFLOW_TRACE = traces_prefix (oc_agent (l3_objects c))"

text \<open>
  Two object types share no key when neither prefix extends the other.  The default
  configuration is of this kind; a configuration file can break it.
\<close>

definition prefixes_ok :: "L3Config \<Rightarrow> bool" where
  "prefixes_ok c \<longleftrightarrow>
     list_all (\<lambda>t. list_all (\<lambda>u. t = u \<or> \<not> starts_with (type_prefix c t) (type_prefix c u))
       all_object_types) all_object_types"

lemma default_prefixes_ok [simp]: "prefixes_ok default_config"
  by (simp add: prefixes_ok_def all_object_types_def default_config_def starts_with_def)

lemma all_object_types_complete [simp]: "t \<in> set all_object_types"
  by (cases t) (simp_all add: all_object_types_def)

lemma prefixes_okD:
  assumes "prefixes_ok c" and "type_prefix c t @ x = type_prefix c u @ y"
  shows "t = u \<and> x = y"
proof -
  have "t = u \<or> \<not> starts_with (type_prefix c t) (type_prefix c u)"
    and "u = t \<or> \<not> starts_with (type_prefix c u) (type_prefix c t)"
    using assms(1) by (simp_all add: prefixes_ok_def list_all_iff)
  moreover have "starts_with (type_prefix c t) (type_prefix c u) \<or> starts_with (type_prefix c u) (type_prefix c t)"
    using assms(2) unfolding starts_with_iff append_eq_append_conv2 by metis
  ultimately show ?thesis using assms(2) by auto
qed

end
