(* ===== verification/ObjectStore.thy ===== *)
theory ObjectStore
  imports Storage MetadataStore Codec
begin

text \<open>
  The unified object store of \<^verbatim>\<open>src/l3store/core/object_store.py\<close>: every object is one or two
  blobs under keys made from a prefix per type and the object's id, and the metadata store
  indexes what was written.  The state is the storage and the metadata; what the store was
  built with (backend, configuration, libraries) is the record \<open>StoreEnv\<close>.  A put also
  returns the object, which the code updates in place before it writes it.  Reads return
  touched copies and change nothing.  The contract of the store is in \<open>StoreSpec\<close>.
\<close>

section \<open>State\<close>

record ('s, 'h, 'a, 'b) StoreEnv =
  env_backend :: "('s, 'b) StorageBackend"
  env_config :: L3Config
  env_runtime :: "('h, 'a) Runtime"
  env_codec :: "('a, 'b) Codec"
  env_int32_bytes :: "int list \<Rightarrow> string res"

record ('s, 'h) UnifiedObjectStore =
  os_storage :: 's
  os_metadata :: "'h MetadataStore"

text \<open>Without a metadata store the constructor makes one with the default parameters.\<close>

definition store_init ::
    "('s, 'h, 'a, 'b) StoreEnv \<Rightarrow> 's \<Rightarrow> 'h MetadataStore option \<Rightarrow> ('s, 'h) UnifiedObjectStore res" where
  "store_init E s metadata =
     (case (case metadata of
              Some md \<Rightarrow> Inr md
            | None \<Rightarrow> metadata_init (env_runtime E) 100000 (1 / 100) None) of
        Inl e \<Rightarrow> Inl e
      | Inr md \<Rightarrow>
          (case be_ensure_bucket (env_backend E) s of
             (Inl e, _) \<Rightarrow> Inl e
           | (Inr _, s') \<Rightarrow> Inr \<lparr>os_storage = s', os_metadata = md\<rparr>))"

section \<open>Keys and pairs of blobs\<close>

definition meta_key :: "string \<Rightarrow> string \<Rightarrow> string" where
  "meta_key pfx oid = pfx @ oid @ ''.meta.json''"

definition data_key :: "string \<Rightarrow> string \<Rightarrow> string \<Rightarrow> string" where
  "data_key pfx oid data_ext = pfx @ oid @ ''.'' @ data_ext"

definition put_pair ::
    "('s, 'h, 'a, 'b) StoreEnv \<Rightarrow> string \<Rightarrow> 'b \<Rightarrow> string \<Rightarrow> 'b \<Rightarrow> 's \<Rightarrow> unit res \<times> 's" where
  "put_pair E mk mb dk db s =
     (case be_put (env_backend E) mk mb None s of
        (Inl e, s1) \<Rightarrow> (Inl e, s1)
      | (Inr _, s1) \<Rightarrow>
          (case be_put (env_backend E) dk db None s1 of
             (Inr _, s2) \<Rightarrow> (Inr (), s2)
           | (Inl e, s2) \<Rightarrow>
               (case be_delete (env_backend E) mk s2 of
                  (Inl e', s3) \<Rightarrow> (Inl e', s3)
                | (Inr _, s3) \<Rightarrow> (Inl e, s3))))"

definition get_pair ::
    "('s, 'h, 'a, 'b) StoreEnv \<Rightarrow> string \<Rightarrow> string \<Rightarrow> 's \<Rightarrow> ('b \<times> 'b) option res" where
  "get_pair E mk dk s =
     (case be_get (env_backend E) mk s of
        Inl e \<Rightarrow> Inl e
      | Inr None \<Rightarrow> Inr None
      | Inr (Some meta_data) \<Rightarrow>
          (case be_get (env_backend E) dk s of
             Inl e \<Rightarrow> Inl e
           | Inr None \<Rightarrow> Inr None
           | Inr (Some data) \<Rightarrow> Inr (Some (meta_data, data))))"

definition delete_pair ::
    "('s, 'h, 'a, 'b) StoreEnv \<Rightarrow> string \<Rightarrow> string \<Rightarrow> string \<Rightarrow> 's \<Rightarrow> bool res \<times> 's" where
  "delete_pair E pfx oid data_ext s =
     (case be_delete_many (env_backend E) [meta_key pfx oid, data_key pfx oid data_ext] s of
        (Inl e, s') \<Rightarrow> (Inl e, s')
      | (Inr n, s') \<Rightarrow> (Inr (n > 0), s'))"

definition put_meta_object ::
    "('s, 'h, 'a, 'b) StoreEnv \<Rightarrow> string \<Rightarrow> string \<Rightarrow> 'b \<Rightarrow> ObjectType
       \<Rightarrow> ('s, 'h) UnifiedObjectStore \<Rightarrow> string res \<times> ('s, 'h) UnifiedObjectStore" where
  "put_meta_object E pfx oid meta_bytes ty st =
     (case be_put (env_backend E) (meta_key pfx oid) meta_bytes None (os_storage st) of
        (Inl e, s') \<Rightarrow> (Inl e, st\<lparr>os_storage := s'\<rparr>)
      | (Inr _, s') \<Rightarrow>
          (Inr oid, st\<lparr>os_storage := s',
             os_metadata := on_object_added (env_runtime E) ty oid None (os_metadata st)\<rparr>))"

definition get_meta_object ::
    "('s, 'h, 'a, 'b) StoreEnv \<Rightarrow> string \<Rightarrow> string \<Rightarrow> ('b \<Rightarrow> 'o res) \<Rightarrow> ('o \<Rightarrow> 'o)
       \<Rightarrow> ('s, 'h) UnifiedObjectStore \<Rightarrow> 'o option res" where
  "get_meta_object E pfx oid deserialize touch_meta st =
     (if \<not> might_exist (env_runtime E) oid (os_metadata st) then Inr None
      else case be_get (env_backend E) (meta_key pfx oid) (os_storage st) of
             Inl e \<Rightarrow> Inl e
           | Inr None \<Rightarrow> Inr None
           | Inr (Some meta_data) \<Rightarrow>
               (case deserialize meta_data of
                  Inl e \<Rightarrow> Inl e
                | Inr obj \<Rightarrow> Inr (Some (touch_meta obj))))"

text \<open>What the three delete methods share once storage has answered.\<close>

definition after_delete ::
    "('s, 'h, 'a, 'b) StoreEnv \<Rightarrow> ObjectType \<Rightarrow> string \<Rightarrow> bool res \<times> 's
       \<Rightarrow> ('s, 'h) UnifiedObjectStore \<Rightarrow> bool res \<times> ('s, 'h) UnifiedObjectStore" where
  "after_delete E ty oid answer st =
     (case answer of
        (Inl e, s') \<Rightarrow> (Inl e, st\<lparr>os_storage := s'\<rparr>)
      | (Inr result, s') \<Rightarrow>
          if result
          then (case on_object_removed (env_runtime E) ty oid (os_metadata st) of
                  (Inl e, md') \<Rightarrow> (Inl e, st\<lparr>os_storage := s', os_metadata := md'\<rparr>)
                | (Inr _, md') \<Rightarrow> (Inr result, st\<lparr>os_storage := s', os_metadata := md'\<rparr>))
          else (Inr result, st\<lparr>os_storage := s'\<rparr>))"

definition delete_meta_object ::
    "('s, 'h, 'a, 'b) StoreEnv \<Rightarrow> string \<Rightarrow> string \<Rightarrow> ObjectType
       \<Rightarrow> ('s, 'h) UnifiedObjectStore \<Rightarrow> bool res \<times> ('s, 'h) UnifiedObjectStore" where
  "delete_meta_object E pfx oid ty st =
     after_delete E ty oid (be_delete (env_backend E) (meta_key pfx oid) (os_storage st)) st"

text \<open>The ids under a prefix: what precedes the first dot, without repetitions, sorted.\<close>

definition list_ids ::
    "('s, 'h, 'a, 'b) StoreEnv \<Rightarrow> string \<Rightarrow> ('s, 'h) UnifiedObjectStore \<Rightarrow> string list res" where
  "list_ids E pfx st =
     (case be_list_keys (env_backend E) pfx (os_storage st) of
        Inl e \<Rightarrow> Inl e
      | Inr keys \<Rightarrow>
          Inr (sort (remdups (filter (\<lambda>name. name \<noteq> [])
                (map (\<lambda>k. before_dot (remove_prefix k pfx)) keys)))))"

section \<open>KV-cache blocks\<close>

text \<open>A missing token hash is filled in; hashing may raise on tokens outside 32 bits.\<close>

definition fill_token_hash ::
    "('s, 'h, 'a, 'b) StoreEnv \<Rightarrow> KVCacheBlock \<Rightarrow> KVCacheBlock res" where
  "fill_token_hash E block =
     (if kv_token_ids block \<noteq> [] \<and> kv_token_hash block = []
      then case compute_token_hash (env_int32_bytes E) (rt_digests (env_runtime E)) (kv_token_ids block) of
             Inl e \<Rightarrow> Inl e
           | Inr h \<Rightarrow> Inr (block\<lparr>kv_token_hash := h\<rparr>)
      else Inr block)"

definition put_kv_block ::
    "('s, 'h, 'a, 'b) StoreEnv \<Rightarrow> KVCacheBlock \<Rightarrow> 'a \<Rightarrow> 'a \<Rightarrow> ('s, 'h) UnifiedObjectStore
       \<Rightarrow> string res \<times> KVCacheBlock \<times> ('s, 'h) UnifiedObjectStore" where
  "put_kv_block E block key_states value_states st =
     (let pfx = type_prefix (env_config E) KV_CACHE;
          obj_id = object_id (kv_meta block)
      in case fill_token_hash E block of
           Inl e \<Rightarrow> (Inl e, block, st)
         | Inr block1 \<Rightarrow>
             (let block2 = block1\<lparr>kv_meta := (kv_meta block1)\<lparr>size_bytes :=
                    int (nd_nbytes (rt_numpy (env_runtime E)) key_states
                         + nd_nbytes (rt_numpy (env_runtime E)) value_states)\<rparr>\<rparr>
              in case put_pair E
                        (meta_key pfx obj_id) (serialize_kv_block_meta (env_codec E) block2)
                        (data_key pfx obj_id ''data.npz'')
                        (serialize_kv_tensors (env_codec E) key_states value_states)
                        (os_storage st) of
                   (Inl e, s') \<Rightarrow> (Inl e, block2, st\<lparr>os_storage := s'\<rparr>)
                 | (Inr _, s') \<Rightarrow>
                     (Inr obj_id, block2, st\<lparr>os_storage := s',
                        os_metadata := on_object_added (env_runtime E) KV_CACHE obj_id
                          (if kv_token_ids block2 = [] then None else Some (kv_token_ids block2))
                          (os_metadata st)\<rparr>)))"

definition get_kv_block ::
    "('s, 'h, 'a, 'b) StoreEnv \<Rightarrow> rat \<Rightarrow> string \<Rightarrow> ('s, 'h) UnifiedObjectStore
       \<Rightarrow> (KVCacheBlock \<times> 'a \<times> 'a) option res" where
  "get_kv_block E now oid st =
     (if \<not> might_exist (env_runtime E) oid (os_metadata st) then Inr None
      else let pfx = type_prefix (env_config E) KV_CACHE
      in case get_pair E (meta_key pfx oid) (data_key pfx oid ''data.npz'') (os_storage st) of
           Inl e \<Rightarrow> Inl e
         | Inr None \<Rightarrow> Inr None
         | Inr (Some (meta_data, data)) \<Rightarrow>
             (case deserialize_kv_block_meta (env_codec E) meta_data of
                Inl e \<Rightarrow> Inl e
              | Inr block \<Rightarrow>
                  (case deserialize_kv_tensors (env_codec E) data of
                     Inl e \<Rightarrow> Inl e
                   | Inr (k, v) \<Rightarrow> Inr (Some (block\<lparr>kv_meta := touch now (kv_meta block)\<rparr>, k, v)))))"

definition delete_kv_block ::
    "('s, 'h, 'a, 'b) StoreEnv \<Rightarrow> string \<Rightarrow> ('s, 'h) UnifiedObjectStore
       \<Rightarrow> bool res \<times> ('s, 'h) UnifiedObjectStore" where
  "delete_kv_block E oid st =
     after_delete E KV_CACHE oid
       (delete_pair E (type_prefix (env_config E) KV_CACHE) oid ''data.npz'' (os_storage st)) st"

definition list_kv_blocks ::
    "('s, 'h, 'a, 'b) StoreEnv \<Rightarrow> ('s, 'h) UnifiedObjectStore \<Rightarrow> string list res" where
  "list_kv_blocks E st = list_ids E (type_prefix (env_config E) KV_CACHE) st"

definition find_kv_prefix_matches ::
    "('s, 'h, 'a, 'b) StoreEnv \<Rightarrow> int list \<Rightarrow> ('s, 'h) UnifiedObjectStore \<Rightarrow> string list" where
  "find_kv_prefix_matches E token_ids st =
     map match_object_id (find_prefix_matches (env_runtime E) token_ids (os_metadata st))"

definition find_kv_longest_prefix ::
    "('s, 'h, 'a, 'b) StoreEnv \<Rightarrow> int list \<Rightarrow> ('s, 'h) UnifiedObjectStore \<Rightarrow> string option" where
  "find_kv_longest_prefix E token_ids st =
     map_option match_object_id (find_longest_prefix (env_runtime E) token_ids (os_metadata st))"

section \<open>RAG objects\<close>

definition put_rag_object ::
    "('s, 'h, 'a, 'b) StoreEnv \<Rightarrow> RAGObject \<Rightarrow> 'a \<Rightarrow> ('s, 'h) UnifiedObjectStore
       \<Rightarrow> string res \<times> RAGObject \<times> ('s, 'h) UnifiedObjectStore" where
  "put_rag_object E obj embedding st =
     (let pfx = type_prefix (env_config E) RAG;
          obj_id = object_id (rg_meta obj)
      in case last_axis (rt_numpy (env_runtime E)) embedding of
           Inl e \<Rightarrow> (Inl e, obj, st)
         | Inr d \<Rightarrow>
             (let obj1 = obj\<lparr>rg_embedding_dim := d,
                    rg_meta := (rg_meta obj)\<lparr>size_bytes := int (nd_nbytes (rt_numpy (env_runtime E)) embedding)\<rparr>\<rparr>
              in case put_pair E
                        (meta_key pfx obj_id) (serialize_rag_meta (env_codec E) obj1)
                        (data_key pfx obj_id ''data.npy'') (serialize_embedding (env_codec E) embedding)
                        (os_storage st) of
                   (Inl e, s') \<Rightarrow> (Inl e, obj1, st\<lparr>os_storage := s'\<rparr>)
                 | (Inr _, s') \<Rightarrow>
                     (Inr obj_id, obj1, st\<lparr>os_storage := s',
                        os_metadata := on_object_added (env_runtime E) RAG obj_id None
                          (os_metadata st)\<rparr>)))"

definition get_rag_object ::
    "('s, 'h, 'a, 'b) StoreEnv \<Rightarrow> rat \<Rightarrow> string \<Rightarrow> ('s, 'h) UnifiedObjectStore
       \<Rightarrow> (RAGObject \<times> 'a) option res" where
  "get_rag_object E now oid st =
     (if \<not> might_exist (env_runtime E) oid (os_metadata st) then Inr None
      else let pfx = type_prefix (env_config E) RAG
      in case get_pair E (meta_key pfx oid) (data_key pfx oid ''data.npy'') (os_storage st) of
           Inl e \<Rightarrow> Inl e
         | Inr None \<Rightarrow> Inr None
         | Inr (Some (meta_data, data)) \<Rightarrow>
             (case deserialize_rag_meta (env_codec E) meta_data of
                Inl e \<Rightarrow> Inl e
              | Inr obj \<Rightarrow>
                  (case deserialize_embedding (env_codec E) data of
                     Inl e \<Rightarrow> Inl e
                   | Inr v \<Rightarrow> Inr (Some (obj\<lparr>rg_meta := touch now (rg_meta obj)\<rparr>, v)))))"

definition delete_rag_object ::
    "('s, 'h, 'a, 'b) StoreEnv \<Rightarrow> string \<Rightarrow> ('s, 'h) UnifiedObjectStore
       \<Rightarrow> bool res \<times> ('s, 'h) UnifiedObjectStore" where
  "delete_rag_object E oid st =
     after_delete E RAG oid
       (delete_pair E (type_prefix (env_config E) RAG) oid ''data.npy'' (os_storage st)) st"

definition list_rag_objects ::
    "('s, 'h, 'a, 'b) StoreEnv \<Rightarrow> ('s, 'h) UnifiedObjectStore \<Rightarrow> string list res" where
  "list_rag_objects E st = list_ids E (type_prefix (env_config E) RAG) st"

section \<open>Semantic cache entries\<close>

definition put_semantic_entry ::
    "('s, 'h, 'a, 'b) StoreEnv \<Rightarrow> SemanticCacheEntry \<Rightarrow> 'a \<Rightarrow> ('s, 'h) UnifiedObjectStore
       \<Rightarrow> string res \<times> SemanticCacheEntry \<times> ('s, 'h) UnifiedObjectStore" where
  "put_semantic_entry E obj embedding st =
     (let pfx = type_prefix (env_config E) SEMANTIC_CACHE;
          obj_id = object_id (se_meta obj)
      in case last_axis (rt_numpy (env_runtime E)) embedding of
           Inl e \<Rightarrow> (Inl e, obj, st)
         | Inr d \<Rightarrow>
             (let obj1 = obj\<lparr>se_embedding_dim := d,
                    se_meta := (se_meta obj)\<lparr>size_bytes := int (nd_nbytes (rt_numpy (env_runtime E)) embedding)\<rparr>\<rparr>
              in case put_pair E
                        (meta_key pfx obj_id) (serialize_semantic_entry (env_codec E) obj1)
                        (data_key pfx obj_id ''data.npy'') (serialize_embedding (env_codec E) embedding)
                        (os_storage st) of
                   (Inl e, s') \<Rightarrow> (Inl e, obj1, st\<lparr>os_storage := s'\<rparr>)
                 | (Inr _, s') \<Rightarrow>
                     (case on_semantic_entry_added (env_runtime E) obj_id embedding (os_metadata st) of
                        (Inl e, md') \<Rightarrow> (Inl e, obj1, st\<lparr>os_storage := s', os_metadata := md'\<rparr>)
                      | (Inr _, md') \<Rightarrow>
                          (Inr obj_id, obj1, st\<lparr>os_storage := s', os_metadata := md'\<rparr>))))"

definition get_semantic_entry ::
    "('s, 'h, 'a, 'b) StoreEnv \<Rightarrow> rat \<Rightarrow> string \<Rightarrow> ('s, 'h) UnifiedObjectStore
       \<Rightarrow> (SemanticCacheEntry \<times> 'a) option res" where
  "get_semantic_entry E now oid st =
     (if \<not> might_exist (env_runtime E) oid (os_metadata st) then Inr None
      else let pfx = type_prefix (env_config E) SEMANTIC_CACHE
      in case get_pair E (meta_key pfx oid) (data_key pfx oid ''data.npy'') (os_storage st) of
           Inl e \<Rightarrow> Inl e
         | Inr None \<Rightarrow> Inr None
         | Inr (Some (meta_data, data)) \<Rightarrow>
             (case deserialize_semantic_entry (env_codec E) meta_data of
                Inl e \<Rightarrow> Inl e
              | Inr obj \<Rightarrow>
                  (case deserialize_embedding (env_codec E) data of
                     Inl e \<Rightarrow> Inl e
                   | Inr v \<Rightarrow> Inr (Some (obj\<lparr>se_meta := touch now (se_meta obj)\<rparr>, v)))))"

definition delete_semantic_entry ::
    "('s, 'h, 'a, 'b) StoreEnv \<Rightarrow> string \<Rightarrow> ('s, 'h) UnifiedObjectStore
       \<Rightarrow> bool res \<times> ('s, 'h) UnifiedObjectStore" where
  "delete_semantic_entry E oid st =
     after_delete E SEMANTIC_CACHE oid
       (delete_pair E (type_prefix (env_config E) SEMANTIC_CACHE) oid ''data.npy'' (os_storage st)) st"

definition list_semantic_entries ::
    "('s, 'h, 'a, 'b) StoreEnv \<Rightarrow> ('s, 'h) UnifiedObjectStore \<Rightarrow> string list res" where
  "list_semantic_entries E st = list_ids E (type_prefix (env_config E) SEMANTIC_CACHE) st"

section \<open>Agent workflows\<close>

definition put_agent_workflow ::
    "('s, 'h, 'a, 'b) StoreEnv \<Rightarrow> AgentWorkflow \<Rightarrow> ('s, 'h) UnifiedObjectStore
       \<Rightarrow> string res \<times> AgentWorkflow \<times> ('s, 'h) UnifiedObjectStore" where
  "put_agent_workflow E obj st =
     (let obj1 = obj\<lparr>wf_meta := (wf_meta obj)\<lparr>object_id := wf_workflow_id obj\<rparr>\<rparr>
      in case put_meta_object E (type_prefix (env_config E) AGENT_WORKFLOW) (wf_workflow_id obj1)
                (serialize_agent_workflow (env_codec E) obj1) AGENT_WORKFLOW st of
           (r, st') \<Rightarrow> (r, obj1, st'))"

definition get_agent_workflow ::
    "('s, 'h, 'a, 'b) StoreEnv \<Rightarrow> rat \<Rightarrow> string \<Rightarrow> ('s, 'h) UnifiedObjectStore
       \<Rightarrow> AgentWorkflow option res" where
  "get_agent_workflow E now oid st =
     get_meta_object E (type_prefix (env_config E) AGENT_WORKFLOW) oid
       (deserialize_agent_workflow (env_codec E))
       (\<lambda>obj. obj\<lparr>wf_meta := touch now (wf_meta obj)\<rparr>) st"

definition delete_agent_workflow ::
    "('s, 'h, 'a, 'b) StoreEnv \<Rightarrow> string \<Rightarrow> ('s, 'h) UnifiedObjectStore
       \<Rightarrow> bool res \<times> ('s, 'h) UnifiedObjectStore" where
  "delete_agent_workflow E oid st =
     delete_meta_object E (type_prefix (env_config E) AGENT_WORKFLOW) oid AGENT_WORKFLOW st"

definition list_agent_workflows ::
    "('s, 'h, 'a, 'b) StoreEnv \<Rightarrow> ('s, 'h) UnifiedObjectStore \<Rightarrow> string list res" where
  "list_agent_workflows E st = list_ids E (type_prefix (env_config E) AGENT_WORKFLOW) st"

section \<open>Agent steps\<close>

definition put_agent_step ::
    "('s, 'h, 'a, 'b) StoreEnv \<Rightarrow> AgentStep \<Rightarrow> ('s, 'h) UnifiedObjectStore
       \<Rightarrow> string res \<times> AgentStep \<times> ('s, 'h) UnifiedObjectStore" where
  "put_agent_step E obj st =
     (let obj1 = obj\<lparr>st_meta := (st_meta obj)\<lparr>object_id := st_step_id obj\<rparr>\<rparr>
      in case put_meta_object E (type_prefix (env_config E) AGENT_STEP) (st_step_id obj1)
                (serialize_agent_step (env_codec E) obj1) AGENT_STEP st of
           (r, st') \<Rightarrow> (r, obj1, st'))"

definition get_agent_step ::
    "('s, 'h, 'a, 'b) StoreEnv \<Rightarrow> rat \<Rightarrow> string \<Rightarrow> ('s, 'h) UnifiedObjectStore
       \<Rightarrow> AgentStep option res" where
  "get_agent_step E now oid st =
     get_meta_object E (type_prefix (env_config E) AGENT_STEP) oid
       (deserialize_agent_step (env_codec E))
       (\<lambda>obj. obj\<lparr>st_meta := touch now (st_meta obj)\<rparr>) st"

definition delete_agent_step ::
    "('s, 'h, 'a, 'b) StoreEnv \<Rightarrow> string \<Rightarrow> ('s, 'h) UnifiedObjectStore
       \<Rightarrow> bool res \<times> ('s, 'h) UnifiedObjectStore" where
  "delete_agent_step E oid st =
     delete_meta_object E (type_prefix (env_config E) AGENT_STEP) oid AGENT_STEP st"

definition list_agent_steps ::
    "('s, 'h, 'a, 'b) StoreEnv \<Rightarrow> ('s, 'h) UnifiedObjectStore \<Rightarrow> string list res" where
  "list_agent_steps E st = list_ids E (type_prefix (env_config E) AGENT_STEP) st"

section \<open>Tool call artifacts\<close>

definition put_tool_artifact ::
    "('s, 'h, 'a, 'b) StoreEnv \<Rightarrow> ToolCallArtifact \<Rightarrow> ('s, 'h) UnifiedObjectStore
       \<Rightarrow> string res \<times> ToolCallArtifact \<times> ('s, 'h) UnifiedObjectStore" where
  "put_tool_artifact E obj st =
     (let obj1 = obj\<lparr>ta_meta := (ta_meta obj)\<lparr>
                object_id := ta_tool_call_id obj,
                m_tool_name := Some (ta_tool_name obj),
                m_tool_args_hash := Some (ta_tool_args_hash obj),
                valid_until := Some (ta_expires_at obj),
                m_scope := Some (ta_permission_scope obj)\<rparr>\<rparr>
      in case put_meta_object E (type_prefix (env_config E) TOOL_CALL_ARTIFACT) (ta_tool_call_id obj1)
                (serialize_tool_artifact (env_codec E) obj1) TOOL_CALL_ARTIFACT st of
           (r, st') \<Rightarrow> (r, obj1, st'))"

definition get_tool_artifact ::
    "('s, 'h, 'a, 'b) StoreEnv \<Rightarrow> rat \<Rightarrow> string \<Rightarrow> ('s, 'h) UnifiedObjectStore
       \<Rightarrow> ToolCallArtifact option res" where
  "get_tool_artifact E now oid st =
     get_meta_object E (type_prefix (env_config E) TOOL_CALL_ARTIFACT) oid
       (deserialize_tool_artifact (env_codec E))
       (\<lambda>obj. obj\<lparr>ta_meta := touch now (ta_meta obj)\<rparr>) st"

definition delete_tool_artifact ::
    "('s, 'h, 'a, 'b) StoreEnv \<Rightarrow> string \<Rightarrow> ('s, 'h) UnifiedObjectStore
       \<Rightarrow> bool res \<times> ('s, 'h) UnifiedObjectStore" where
  "delete_tool_artifact E oid st =
     delete_meta_object E (type_prefix (env_config E) TOOL_CALL_ARTIFACT) oid TOOL_CALL_ARTIFACT st"

definition list_tool_artifacts ::
    "('s, 'h, 'a, 'b) StoreEnv \<Rightarrow> ('s, 'h) UnifiedObjectStore \<Rightarrow> string list res" where
  "list_tool_artifacts E st = list_ids E (type_prefix (env_config E) TOOL_CALL_ARTIFACT) st"

section \<open>Plan cache entries\<close>

definition put_plan_cache_entry ::
    "('s, 'h, 'a, 'b) StoreEnv \<Rightarrow> PlanCacheEntry \<Rightarrow> 'a \<Rightarrow> ('s, 'h) UnifiedObjectStore
       \<Rightarrow> string res \<times> PlanCacheEntry \<times> ('s, 'h) UnifiedObjectStore" where
  "put_plan_cache_entry E obj embedding st =
     (let pfx = type_prefix (env_config E) PLAN_CACHE;
          obj_id = pl_plan_id obj;
          obj0 = obj\<lparr>pl_meta := (pl_meta obj)\<lparr>object_id := pl_plan_id obj,
                   m_plan_id := Some (pl_plan_id obj), m_scope := Some (pl_validity_scope obj)\<rparr>\<rparr>
      in case last_axis (rt_numpy (env_runtime E)) embedding of
           Inl e \<Rightarrow> (Inl e, obj0, st)
         | Inr d \<Rightarrow>
             (let obj1 = obj0\<lparr>pl_task_embedding_dim := d,
                    pl_meta := (pl_meta obj0)\<lparr>size_bytes := int (nd_nbytes (rt_numpy (env_runtime E)) embedding)\<rparr>\<rparr>
              in case put_pair E
                        (meta_key pfx obj_id) (serialize_plan_cache_entry (env_codec E) obj1)
                        (data_key pfx obj_id ''data.npy'') (serialize_plan_embedding (env_codec E) embedding)
                        (os_storage st) of
                   (Inl e, s') \<Rightarrow> (Inl e, obj1, st\<lparr>os_storage := s'\<rparr>)
                 | (Inr _, s') \<Rightarrow>
                     (Inr obj_id, obj1, st\<lparr>os_storage := s',
                        os_metadata := on_object_added (env_runtime E) PLAN_CACHE obj_id None
                          (os_metadata st)\<rparr>)))"

definition get_plan_cache_entry ::
    "('s, 'h, 'a, 'b) StoreEnv \<Rightarrow> rat \<Rightarrow> string \<Rightarrow> ('s, 'h) UnifiedObjectStore
       \<Rightarrow> (PlanCacheEntry \<times> 'a) option res" where
  "get_plan_cache_entry E now oid st =
     (if \<not> might_exist (env_runtime E) oid (os_metadata st) then Inr None
      else let pfx = type_prefix (env_config E) PLAN_CACHE
      in case get_pair E (meta_key pfx oid) (data_key pfx oid ''data.npy'') (os_storage st) of
           Inl e \<Rightarrow> Inl e
         | Inr None \<Rightarrow> Inr None
         | Inr (Some (meta_data, data)) \<Rightarrow>
             (case deserialize_plan_cache_entry (env_codec E) meta_data of
                Inl e \<Rightarrow> Inl e
              | Inr obj \<Rightarrow>
                  (case deserialize_plan_embedding (env_codec E) data of
                     Inl e \<Rightarrow> Inl e
                   | Inr v \<Rightarrow> Inr (Some (obj\<lparr>pl_meta := touch now (pl_meta obj)\<rparr>, v)))))"

definition delete_plan_cache_entry ::
    "('s, 'h, 'a, 'b) StoreEnv \<Rightarrow> string \<Rightarrow> ('s, 'h) UnifiedObjectStore
       \<Rightarrow> bool res \<times> ('s, 'h) UnifiedObjectStore" where
  "delete_plan_cache_entry E oid st =
     after_delete E PLAN_CACHE oid
       (delete_pair E (type_prefix (env_config E) PLAN_CACHE) oid ''data.npy'' (os_storage st)) st"

definition list_plan_cache_entries ::
    "('s, 'h, 'a, 'b) StoreEnv \<Rightarrow> ('s, 'h) UnifiedObjectStore \<Rightarrow> string list res" where
  "list_plan_cache_entries E st = list_ids E (type_prefix (env_config E) PLAN_CACHE) st"

section \<open>Workflow traces\<close>

definition put_workflow_trace ::
    "('s, 'h, 'a, 'b) StoreEnv \<Rightarrow> WorkflowTrace \<Rightarrow> ('s, 'h) UnifiedObjectStore
       \<Rightarrow> string res \<times> WorkflowTrace \<times> ('s, 'h) UnifiedObjectStore" where
  "put_workflow_trace E obj st =
     (let obj1 = obj\<lparr>tr_meta := (tr_meta obj)\<lparr>object_id := tr_workflow_id obj\<rparr>\<rparr>
      in case put_meta_object E (type_prefix (env_config E) WORKFLOW_TRACE) (tr_workflow_id obj1)
                (serialize_workflow_trace (env_codec E) obj1) WORKFLOW_TRACE st of
           (r, st') \<Rightarrow> (r, obj1, st'))"

definition get_workflow_trace ::
    "('s, 'h, 'a, 'b) StoreEnv \<Rightarrow> rat \<Rightarrow> string \<Rightarrow> ('s, 'h) UnifiedObjectStore
       \<Rightarrow> WorkflowTrace option res" where
  "get_workflow_trace E now oid st =
     get_meta_object E (type_prefix (env_config E) WORKFLOW_TRACE) oid
       (deserialize_workflow_trace (env_codec E))
       (\<lambda>obj. obj\<lparr>tr_meta := touch now (tr_meta obj)\<rparr>) st"

definition delete_workflow_trace ::
    "('s, 'h, 'a, 'b) StoreEnv \<Rightarrow> string \<Rightarrow> ('s, 'h) UnifiedObjectStore
       \<Rightarrow> bool res \<times> ('s, 'h) UnifiedObjectStore" where
  "delete_workflow_trace E oid st =
     delete_meta_object E (type_prefix (env_config E) WORKFLOW_TRACE) oid WORKFLOW_TRACE st"

definition list_workflow_traces ::
    "('s, 'h, 'a, 'b) StoreEnv \<Rightarrow> ('s, 'h) UnifiedObjectStore \<Rightarrow> string list res" where
  "list_workflow_traces E st = list_ids E (type_prefix (env_config E) WORKFLOW_TRACE) st"

section \<open>Prefetching\<close>

datatype 'a Loaded =
    Loaded_kv KVCacheBlock 'a 'a
  | Loaded_rag RAGObject 'a
  | Loaded_semantic SemanticCacheEntry 'a
  | Loaded_tool ToolCallArtifact
  | Loaded_plan PlanCacheEntry 'a

definition prefetch_one ::
    "('s, 'h, 'a, 'b) StoreEnv \<Rightarrow> rat \<Rightarrow> string \<Rightarrow> string option \<Rightarrow> ('s, 'h) UnifiedObjectStore
       \<Rightarrow> 'a Loaded option res" where
  "prefetch_one E now oid prefetch_type st =
     (if prefetch_type = Some ''kv_cache''
      then map_sum id (map_option (\<lambda>(b, k, v). Loaded_kv b k v)) (get_kv_block E now oid st)
      else if prefetch_type = Some ''rag''
      then map_sum id (map_option (\<lambda>(r, v). Loaded_rag r v)) (get_rag_object E now oid st)
      else if prefetch_type = Some ''semantic''
      then map_sum id (map_option (\<lambda>(r, v). Loaded_semantic r v)) (get_semantic_entry E now oid st)
      else if prefetch_type = Some ''tool_artifact''
      then map_sum id (map_option Loaded_tool) (get_tool_artifact E now oid st)
      else if prefetch_type = Some ''plan_cache''
      then map_sum id (map_option (\<lambda>(r, v). Loaded_plan r v)) (get_plan_cache_entry E now oid st)
      else Inr None)"

text \<open>A decision is its object id and prefetch type; ids seen before and empty ids are skipped.\<close>

fun prefetch_loop ::
    "('s, 'h, 'a, 'b) StoreEnv \<Rightarrow> rat \<Rightarrow> ('s, 'h) UnifiedObjectStore
       \<Rightarrow> (string option \<times> string option) list \<Rightarrow> string set \<Rightarrow> (string, 'a Loaded) dict
       \<Rightarrow> (string, 'a Loaded) dict res" where
  "prefetch_loop E now st [] seen results = Inr results"
| "prefetch_loop E now st ((object_ref, prefetch_type) # rest) seen results =
     (case object_ref of
        None \<Rightarrow> prefetch_loop E now st rest seen results
      | Some oid \<Rightarrow>
          if oid = [] \<or> oid \<in> seen then prefetch_loop E now st rest seen results
          else (case prefetch_one E now oid prefetch_type st of
                  Inl e \<Rightarrow> Inl e
                | Inr None \<Rightarrow> prefetch_loop E now st rest (insert oid seen) results
                | Inr (Some r) \<Rightarrow>
                    prefetch_loop E now st rest (insert oid seen) (dset results oid r)))"

definition prefetch_batch ::
    "('s, 'h, 'a, 'b) StoreEnv \<Rightarrow> rat \<Rightarrow> (string option \<times> string option) list
       \<Rightarrow> ('s, 'h) UnifiedObjectStore \<Rightarrow> (string, 'a Loaded) dict res" where
  "prefetch_batch E now decisions st = prefetch_loop E now st decisions {} []"

section \<open>Statistics\<close>

record StoreStats =
  kv_cache_blocks :: nat
  rag_objects :: nat
  semantic_cache_entries :: nat
  agent_workflows :: nat
  agent_steps :: nat
  tool_artifacts :: nat
  plan_cache_entries :: nat
  workflow_traces :: nat
  ss_metadata :: MetadataStats

definition store_stats ::
    "('s, 'h, 'a, 'b) StoreEnv \<Rightarrow> ('s, 'h) UnifiedObjectStore \<Rightarrow> StoreStats res" where
  "store_stats E st =
     (case list_kv_blocks E st of Inl e \<Rightarrow> Inl e | Inr kvs \<Rightarrow>
     (case list_rag_objects E st of Inl e \<Rightarrow> Inl e | Inr rags \<Rightarrow>
     (case list_semantic_entries E st of Inl e \<Rightarrow> Inl e | Inr sems \<Rightarrow>
     (case list_agent_workflows E st of Inl e \<Rightarrow> Inl e | Inr wfs \<Rightarrow>
     (case list_agent_steps E st of Inl e \<Rightarrow> Inl e | Inr steps \<Rightarrow>
     (case list_tool_artifacts E st of Inl e \<Rightarrow> Inl e | Inr tools \<Rightarrow>
     (case list_plan_cache_entries E st of Inl e \<Rightarrow> Inl e | Inr plans \<Rightarrow>
     (case list_workflow_traces E st of Inl e \<Rightarrow> Inl e | Inr traces \<Rightarrow>
        Inr \<lparr>kv_cache_blocks = length kvs, rag_objects = length rags,
             semantic_cache_entries = length sems, agent_workflows = length wfs,
             agent_steps = length steps, tool_artifacts = length tools,
             plan_cache_entries = length plans, workflow_traces = length traces,
             ss_metadata = metadata_stats (os_metadata st)\<rparr>))))))))"

end
