(* ===== verification/StoreSpec.thy ===== *)
theory StoreSpec
  imports ObjectStore
begin

text \<open>
  What the object store promises.  \<open>object_store\<close> assumes of the backend only the general
  contract of \<open>Storage\<close>, so that its lemmas hold for S3 too: which keys an operation may
  change, and what a read may answer.  \<open>exact_store\<close> assumes a backend whose failing calls change
  nothing: there every object whose blobs are stored is known to the Bloom filter, in every
  state reachable from an empty store.  \<open>total_store\<close> assumes a backend that does not raise,
  and there the store refines a map from type and id to what was put.
\<close>

section \<open>Keys\<close>

fun data_ext :: "ObjectType \<Rightarrow> string option" where
  "data_ext KV_CACHE = Some ''data.npz''"
| "data_ext RAG = Some ''data.npy''"
| "data_ext SEMANTIC_CACHE = Some ''data.npy''"
| "data_ext PLAN_CACHE = Some ''data.npy''"
| "data_ext AGENT_WORKFLOW = None"
| "data_ext AGENT_STEP = None"
| "data_ext TOOL_CALL_ARTIFACT = None"
| "data_ext WORKFLOW_TRACE = None"

definition object_meta_key :: "L3Config \<Rightarrow> ObjectType \<Rightarrow> string \<Rightarrow> string" where
  "object_meta_key c ty oid = meta_key (type_prefix c ty) oid"

text \<open>The key that is written last: the object is stored once it is there.\<close>

definition main_key :: "L3Config \<Rightarrow> ObjectType \<Rightarrow> string \<Rightarrow> string" where
  "main_key c ty oid =
     (case data_ext ty of
        None \<Rightarrow> meta_key (type_prefix c ty) oid
      | Some x \<Rightarrow> data_key (type_prefix c ty) oid x)"

definition object_keys :: "L3Config \<Rightarrow> ObjectType \<Rightarrow> string \<Rightarrow> string set" where
  "object_keys c ty oid = {object_meta_key c ty oid, main_key c ty oid}"

lemma suffix_inj: "x @ s = y @ s' \<Longrightarrow> s \<noteq> [] \<Longrightarrow> s' \<noteq> [] \<Longrightarrow> last s \<noteq> last s' \<Longrightarrow> False"
  by (metis last_appendR)

lemma meta_main_neq:
  "data_ext ty \<noteq> None \<Longrightarrow> meta_key (type_prefix c ty) oid \<noteq> main_key c ty oid'"
  by (cases ty) (auto simp: meta_key_def main_key_def data_key_def dest: suffix_inj [of _ "''.meta.json''"])

lemma object_key_form:
  "k \<in> object_keys c ty oid \<Longrightarrow>
     \<exists>s. k = type_prefix c ty @ oid @ s
       \<and> (s = ''.meta.json'' \<or> (\<exists>e. data_ext ty = Some e \<and> s = ''.'' @ e))"
  by (auto simp: object_keys_def object_meta_key_def main_key_def meta_key_def data_key_def
      split: option.splits)

lemma object_keys_disjoint:
  assumes "prefixes_ok c" and "k \<in> object_keys c ty oid" and "k \<in> object_keys c ty' oid'"
  shows "ty = ty' \<and> oid = oid'"
proof -
  obtain x where x: "k = type_prefix c ty @ oid @ x"
      "x = ''.meta.json'' \<or> (\<exists>e. data_ext ty = Some e \<and> x = ''.'' @ e)"
    using object_key_form [OF assms(2)] by blast
  obtain y where y: "k = type_prefix c ty' @ oid' @ y"
      "y = ''.meta.json'' \<or> (\<exists>e. data_ext ty' = Some e \<and> y = ''.'' @ e)"
    using object_key_form [OF assms(3)] by blast
  from prefixes_okD [OF assms(1)] x(1) y(1) have ty: "ty = ty'" and xy: "oid @ x = oid' @ y"
    by (metis append_assoc)+
  have "oid = oid'"
    using x(2) y(2) xy unfolding ty
    by (cases ty') (auto dest: suffix_inj suffix_inj [OF sym])
  with ty show ?thesis by simp
qed

section \<open>Operations as steps\<close>

inductive store_step ::
    "('s, 'h, 'a, 'b) StoreEnv \<Rightarrow> ObjectType \<Rightarrow> string \<Rightarrow> ('s, 'h) UnifiedObjectStore
       \<Rightarrow> ('s, 'h) UnifiedObjectStore \<Rightarrow> bool" for E where
  put_kv: "put_kv_block E kb k v st = (r, kb', st') \<Longrightarrow>
     store_step E KV_CACHE (object_id (kv_meta kb)) st st'"
| put_rag: "put_rag_object E rg v st = (r, rg', st') \<Longrightarrow>
     store_step E RAG (object_id (rg_meta rg)) st st'"
| put_semantic: "put_semantic_entry E se v st = (r, se', st') \<Longrightarrow>
     store_step E SEMANTIC_CACHE (object_id (se_meta se)) st st'"
| put_workflow: "put_agent_workflow E w st = (r, w', st') \<Longrightarrow>
     store_step E AGENT_WORKFLOW (wf_workflow_id w) st st'"
| put_step: "put_agent_step E sp st = (r, sp', st') \<Longrightarrow>
     store_step E AGENT_STEP (st_step_id sp) st st'"
| put_tool: "put_tool_artifact E ta st = (r, ta', st') \<Longrightarrow>
     store_step E TOOL_CALL_ARTIFACT (ta_tool_call_id ta) st st'"
| put_plan: "put_plan_cache_entry E pl v st = (r, pl', st') \<Longrightarrow>
     store_step E PLAN_CACHE (pl_plan_id pl) st st'"
| put_trace: "put_workflow_trace E tr st = (r, tr', st') \<Longrightarrow>
     store_step E WORKFLOW_TRACE (tr_workflow_id tr) st st'"
| del_kv: "delete_kv_block E oid st = (d, st') \<Longrightarrow> store_step E KV_CACHE oid st st'"
| del_rag: "delete_rag_object E oid st = (d, st') \<Longrightarrow> store_step E RAG oid st st'"
| del_semantic: "delete_semantic_entry E oid st = (d, st') \<Longrightarrow> store_step E SEMANTIC_CACHE oid st st'"
| del_workflow: "delete_agent_workflow E oid st = (d, st') \<Longrightarrow> store_step E AGENT_WORKFLOW oid st st'"
| del_step: "delete_agent_step E oid st = (d, st') \<Longrightarrow> store_step E AGENT_STEP oid st st'"
| del_tool: "delete_tool_artifact E oid st = (d, st') \<Longrightarrow> store_step E TOOL_CALL_ARTIFACT oid st st'"
| del_plan: "delete_plan_cache_entry E oid st = (d, st') \<Longrightarrow> store_step E PLAN_CACHE oid st st'"
| del_trace: "delete_workflow_trace E oid st = (d, st') \<Longrightarrow> store_step E WORKFLOW_TRACE oid st st'"

inductive store_reachable ::
    "('s, 'h, 'a, 'b) StoreEnv \<Rightarrow> ('s, 'h) UnifiedObjectStore \<Rightarrow> ('s, 'h) UnifiedObjectStore \<Rightarrow> bool"
  for E st0 where
  start: "store_reachable E st0 st0"
| step: "store_reachable E st0 st \<Longrightarrow> store_step E ty oid st st' \<Longrightarrow> store_reachable E st0 st'"

section \<open>Stored objects are indexed\<close>

text \<open>Every object whose last blob is stored passes the Bloom filter.\<close>

definition indexed ::
    "('s, 'h, 'a, 'b) StoreEnv \<Rightarrow> ('s \<Rightarrow> string \<Rightarrow> 'b option) \<Rightarrow> ('s, 'h) UnifiedObjectStore \<Rightarrow> bool" where
  "indexed E contents st \<longleftrightarrow> md_bloom_wf (os_metadata st) \<and>
     (\<forall>ty oid. contents (os_storage st) (main_key (env_config E) ty oid) \<noteq> None \<longrightarrow>
        might_exist (env_runtime E) oid (os_metadata st))"

text \<open>
  What an operation on one object may do: change that object's keys only, lose nothing from the
  filter, and, where a failing write changes nothing, store the last blob only of an object that the
  filter knows afterwards.
\<close>

definition confined ::
    "('s, 'h, 'a, 'b) StoreEnv \<Rightarrow> ('s \<Rightarrow> string \<Rightarrow> 'b option) \<Rightarrow> ObjectType \<Rightarrow> string
       \<Rightarrow> ('s, 'h) UnifiedObjectStore \<Rightarrow> ('s, 'h) UnifiedObjectStore \<Rightarrow> bool" where
  "confined E contents ty oid st st' \<longleftrightarrow>
     (\<forall>k. k \<notin> object_keys (env_config E) ty oid \<longrightarrow>
        contents (os_storage st') k = contents (os_storage st) k) \<and>
     (md_bloom_wf (os_metadata st) \<longrightarrow>
        md_grows (env_runtime E) (os_metadata st) (os_metadata st') \<and>
        (failures_clean (env_backend E) contents \<longrightarrow>
         contents (os_storage st') (main_key (env_config E) ty oid) \<noteq> None \<longrightarrow>
           contents (os_storage st) (main_key (env_config E) ty oid) \<noteq> None
           \<or> might_exist (env_runtime E) oid (os_metadata st')))"

text \<open>The metadata after an operation that indexed an object.\<close>

definition indexes :: "('h, 'a) Runtime \<Rightarrow> string \<Rightarrow> 'h MetadataStore \<Rightarrow> 'h MetadataStore \<Rightarrow> bool" where
  "indexes R oid md md' \<longleftrightarrow> (md_bloom_wf md \<longrightarrow> md_grows R md md' \<and> might_exist R oid md')"

lemma indexes_added [simp]: "indexes R oid md (on_object_added R ty oid ts md)"
  by (simp add: indexes_def on_object_added_grows)

lemma indexes_semantic [intro]:
  "on_semantic_entry_added R oid v md = (r, md') \<Longrightarrow> indexes R oid md md'"
  by (simp add: indexes_def on_semantic_entry_added_grows)

lemma confined_keep:
  assumes "\<And>k. k \<notin> object_keys (env_config E) ty oid \<Longrightarrow>
      contents (os_storage st') k = contents (os_storage st) k"
    and "failures_clean (env_backend E) contents \<Longrightarrow>
       contents (os_storage st') (main_key (env_config E) ty oid) \<noteq> None \<Longrightarrow>
       contents (os_storage st) (main_key (env_config E) ty oid) \<noteq> None"
    and "md_bloom_wf (os_metadata st) \<Longrightarrow> md_grows (env_runtime E) (os_metadata st) (os_metadata st')"
  shows "confined E contents ty oid st st'"
  using assms by (simp add: confined_def)

lemma confined_index:
  assumes "\<And>k. k \<notin> object_keys (env_config E) ty oid \<Longrightarrow>
      contents (os_storage st') k = contents (os_storage st) k"
    and "indexes (env_runtime E) oid (os_metadata st) (os_metadata st')"
  shows "confined E contents ty oid st st'"
  using assms by (simp add: confined_def indexes_def)

lemma indexed_confined:
  assumes "prefixes_ok (env_config E)" and "indexed E contents st"
    and "confined E contents ty oid st st'" and "failures_clean (env_backend E) contents"
  shows "indexed E contents st'"
proof -
  have wf: "md_bloom_wf (os_metadata st)" using assms(2) by (simp add: indexed_def)
  with assms(3) have grow: "md_grows (env_runtime E) (os_metadata st) (os_metadata st')"
    by (simp add: confined_def)
  show ?thesis
    unfolding indexed_def
  proof (intro conjI allI impI)
    show "md_bloom_wf (os_metadata st')" using grow by (simp add: md_grows_def)
    fix ty' oid'
    let ?k = "main_key (env_config E) ty' oid'"
    assume st': "contents (os_storage st') ?k \<noteq> None"
    have kept: "might_exist (env_runtime E) oid' (os_metadata st')"
      if "contents (os_storage st) ?k \<noteq> None"
      using that assms(2) grow by (auto simp: indexed_def md_grows_def)
    show "might_exist (env_runtime E) oid' (os_metadata st')"
    proof (cases "?k \<in> object_keys (env_config E) ty oid")
      case True
      have "?k \<in> object_keys (env_config E) ty' oid'" by (simp add: object_keys_def)
      from object_keys_disjoint [OF assms(1) True this] have "ty' = ty" "oid' = oid" by auto
      with assms(3,4) wf st' kept show ?thesis by (auto simp: confined_def)
    next
      case False
      with assms(3) have "contents (os_storage st') ?k = contents (os_storage st) ?k"
        by (simp add: confined_def)
      with st' kept show ?thesis by simp
    qed
  qed
qed

section \<open>The store over any backend\<close>

locale object_store = storage_backend "env_backend E" contents
  for E :: "('s, 'h, 'a, 'b) StoreEnv" and contents :: "'s \<Rightarrow> string \<Rightarrow> 'b option"
begin

lemma put_pair_ok:
  "put_pair E mk mb dk db s = (Inr (), s') \<Longrightarrow> contents s' = (contents s)(mk \<mapsto> mb, dk \<mapsto> db)"
  by (auto simp: put_pair_def dest!: put_ok split: prod.splits sum.splits)

text \<open>Whatever a put of two blobs does, each of its keys is as it was, gone, or holds what was put.\<close>

lemma put_step_key:
  assumes "be_put (env_backend E) mk mb m s = (out, s')"
  shows "contents s' k = contents s k \<or> (k = mk \<and> contents s' k = Some mb)"
  using put_any [OF assms] by (auto split: if_splits)

lemma delete_step_key:
  assumes "be_delete (env_backend E) mk s = (out, s')"
  shows "contents s' k = contents s k \<or> (k = mk \<and> contents s' k = None)"
  using deleted_any [OF assms] by (auto split: if_splits)

lemma put_pair_steps:
  assumes "put_pair E mk mb dk db s = (out, s')"
  obtains e where "be_put (env_backend E) mk mb None s = (Inl e, s')" and "out = Inl e"
  | s1 where "be_put (env_backend E) mk mb None s = (Inr (), s1)"
      and "be_put (env_backend E) dk db None s1 = (Inr (), s')" and "out = Inr ()"
  | s1 e2 s2 r3 where "be_put (env_backend E) mk mb None s = (Inr (), s1)"
      and "be_put (env_backend E) dk db None s1 = (Inl e2, s2)" and "be_delete (env_backend E) mk s2 = (r3, s')"
      and "out = Inl (case r3 of Inl e \<Rightarrow> e | Inr b \<Rightarrow> e2)"
proof -
  obtain r1 s1 where p1: "be_put (env_backend E) mk mb None s = (r1, s1)" by fastforce
  obtain r2 s2 where p2: "be_put (env_backend E) dk db None s1 = (r2, s2)" by fastforce
  obtain r3 s3 where p3: "be_delete (env_backend E) mk s2 = (r3, s3)" by fastforce
  note steps = assms [unfolded put_pair_def p1 p2 p3 prod.case]
  show ?thesis
  proof (cases r1)
    case (Inl e)
    with steps have "out = Inl e" "s' = s1" by simp_all
    then show ?thesis by (intro that(1) [of e]) (simp_all add: p1 Inl)
  next
    case r1: (Inr u)
    show ?thesis
    proof (cases r2)
      case (Inr w)
      with steps r1 have "out = Inr ()" "s' = s2" by (simp_all add: p2)
      then show ?thesis using p1 p2 r1 Inr by (intro that(2) [of s1]) simp_all
    next
      case (Inl e)
      have "s' = s3 \<and> out = Inl (case r3 of Inl x \<Rightarrow> x | Inr b \<Rightarrow> e)"
        using steps r1 Inl by (cases r3) (simp_all add: p2 p3)
      then show ?thesis using p1 p2 p3 r1 Inl by (intro that(3) [of s1 e s2 r3]) simp_all
    qed
  qed
qed

lemma put_pair_frame:
  assumes "put_pair E mk mb dk db s = (out, s')" and "k \<noteq> mk" and "k \<noteq> dk"
  shows "contents s' k = contents s k"
  using assms(1)
proof (cases rule: put_pair_steps)
  case (1 e)
  with put_step_key [OF 1(1), of k] assms(2) show ?thesis by simp
next
  case (2 s1)
  with put_step_key [OF 2(1), of k] put_step_key [OF 2(2), of k] assms(2,3) show ?thesis by auto
next
  case (3 s1 e2 s2 r3)
  with put_step_key [OF 3(1), of k] put_step_key [OF 3(2), of k] delete_step_key [OF 3(3), of k] assms(2,3)
  show ?thesis by auto
qed

lemma put_pair_key:
  assumes "put_pair E mk mb dk db s = (out, s')"
  shows "contents s' k = contents s k \<or> contents s' k = None \<or> (k = mk \<and> contents s' k = Some mb) \<or> (k = dk \<and> contents s' k = Some db)"
  using assms
proof (cases rule: put_pair_steps)
  case (1 e)
  with put_step_key [OF 1(1), of k] show ?thesis by auto
next
  case (2 s1)
  with put_step_key [OF 2(1), of k] put_step_key [OF 2(2), of k] show ?thesis by auto
next
  case (3 s1 e2 s2 r3)
  with put_step_key [OF 3(1), of k] put_step_key [OF 3(2), of k] delete_step_key [OF 3(3), of k] show ?thesis by auto
qed

lemma put_pair_err_main:
  assumes "put_pair E mk mb dk db s = (Inl e, s')" and "mk \<noteq> dk"
    and clean: "failures_clean (env_backend E) contents"
  shows "contents s' dk = contents s dk"
  using assms(1)
proof (cases rule: put_pair_steps)
  case (1 e')
  with put_step_key [OF 1(1), of dk] assms(2) show ?thesis by simp
next
  case (2 s1)
  then show ?thesis by simp
next
  case (3 s1 e2 s2 r3)
  then have "contents s2 = contents s1" using clean unfolding failures_clean_def by blast
  with put_step_key [OF 3(1), of dk] delete_step_key [OF 3(3), of dk] assms(2) show ?thesis by auto
qed

lemma get_pair_ok:
  "get_pair E mk dk s = Inr r \<Longrightarrow>
     r = (case contents s mk of None \<Rightarrow> None
          | Some m \<Rightarrow> map_option (\<lambda>d. (m, d)) (contents s dk))"
  by (auto simp: get_pair_def dest!: get_ok [THEN sym] split: sum.splits option.splits)

lemma delete_pair_frame:
  "delete_pair E pfx oid x s = (out, s') \<Longrightarrow>
     contents s' k = contents s k \<or> (k \<in> {meta_key pfx oid, data_key pfx oid x} \<and> contents s' k = None)"
  by (auto simp: delete_pair_def dest!: many_frame [where k = k] split: prod.splits sum.splits)

lemma after_delete_confined:
  assumes frame: "\<And>k. contents s' k = contents (os_storage st) k
      \<or> (k \<in> object_keys (env_config E) ty oid \<and> contents s' k = None)"
    and call: "after_delete E ty oid (out, s') st = (d, st')"
  shows "confined E contents ty oid st st'"
proof (rule confined_keep)
  obtain q md' where rm: "on_object_removed (env_runtime E) ty oid (os_metadata st) = (q, md')"
    by fastforce
  have st': "os_storage st' = s'" "os_metadata st' = os_metadata st \<or> os_metadata st' = md'"
    using call rm by (auto simp: after_delete_def split: sum.splits if_splits)
  show "contents (os_storage st') k = contents (os_storage st) k"
    if "k \<notin> object_keys (env_config E) ty oid" for k
    using frame [of k] that st' by auto
  show "contents (os_storage st) (main_key (env_config E) ty oid) \<noteq> None"
    if "contents (os_storage st') (main_key (env_config E) ty oid) \<noteq> None"
    using frame [of "main_key (env_config E) ty oid"] that st' by auto
  show "md_grows (env_runtime E) (os_metadata st) (os_metadata st')"
    if "md_bloom_wf (os_metadata st)"
    using st'(2) on_object_removed_grows [OF that rm] md_grows_refl [OF that] by auto
qed

lemma delete_pair_confined:
  assumes "data_ext ty = Some x"
    and "after_delete E ty oid (delete_pair E (type_prefix (env_config E) ty) oid x (os_storage st)) st = (d, st')"
  shows "confined E contents ty oid st st'"
proof -
  obtain out s' where del: "delete_pair E (type_prefix (env_config E) ty) oid x (os_storage st) = (out, s')"
    by fastforce
  have "contents s' k = contents (os_storage st) k
      \<or> (k \<in> object_keys (env_config E) ty oid \<and> contents s' k = None)" for k
    using delete_pair_frame [OF del, of k] assms(1)
    by (auto simp: object_keys_def object_meta_key_def main_key_def)
  then show ?thesis by (rule after_delete_confined [OF _ assms(2) [unfolded del]])
qed

lemma delete_meta_confined:
  assumes "delete_meta_object E (type_prefix (env_config E) ty) oid ty st = (d, st')"
  shows "confined E contents ty oid st st'"
proof -
  let ?mk = "meta_key (type_prefix (env_config E) ty) oid"
  obtain out s' where del: "be_delete (env_backend E) ?mk (os_storage st) = (out, s')" by fastforce
  have "contents s' k = contents (os_storage st) k
      \<or> (k \<in> object_keys (env_config E) ty oid \<and> contents s' k = None)" for k
    using delete_step_key [OF del, of k] by (auto simp: object_keys_def object_meta_key_def)
  then show ?thesis
    using assms unfolding delete_meta_object_def del by (rule after_delete_confined)
qed

lemma put_meta_confined:
  assumes call: "put_meta_object E (type_prefix (env_config E) ty) oid b ty st = (r, st')"
    and ty: "data_ext ty = None"
  shows "confined E contents ty oid st st'"
proof -
  let ?mk = "meta_key (type_prefix (env_config E) ty) oid"
  have key: "main_key (env_config E) ty oid = ?mk" using ty by (simp add: main_key_def)
  obtain out s' where put: "be_put (env_backend E) ?mk b None (os_storage st) = (out, s')" by fastforce
  show ?thesis
  proof (cases out)
    case (Inl e)
    have st': "st' = st\<lparr>os_storage := s'\<rparr>" using call put Inl by (simp add: put_meta_object_def)
    show ?thesis
    proof (rule confined_keep)
      show "contents (os_storage st') k = contents (os_storage st) k"
        if "k \<notin> object_keys (env_config E) ty oid" for k
        using put_step_key [OF put, of k] that key by (auto simp: object_keys_def st')
      assume "failures_clean (env_backend E) contents"
      with put Inl have "contents s' = contents (os_storage st)" unfolding failures_clean_def by blast
      then show "contents (os_storage st') (main_key (env_config E) ty oid) \<noteq> None \<Longrightarrow>
          contents (os_storage st) (main_key (env_config E) ty oid) \<noteq> None" by (simp add: st')
    qed (simp add: st' md_grows_refl)
  next
    case (Inr u)
    with put have s': "contents s' = (contents (os_storage st))(?mk \<mapsto> b)" using put_ok by simp
    have "os_storage st' = s'"
      "os_metadata st' = on_object_added (env_runtime E) ty oid None (os_metadata st)"
      using call put Inr by (auto simp: put_meta_object_def)
    then show ?thesis
      by (intro confined_index) (simp_all add: s' key object_keys_def)
  qed
qed

text \<open>A pair put: the outcome of the two blobs, then the indexing by the metadata store.\<close>

lemma put_pair_confined:
  assumes put: "put_pair E (meta_key (type_prefix (env_config E) ty) oid) mb (main_key (env_config E) ty oid) db
      (os_storage st) = (out, s')"
    and ty: "data_ext ty \<noteq> None"
    and st': "os_storage st' = s'"
    and md: "case out of Inl _ \<Rightarrow> os_metadata st' = os_metadata st
           | Inr _ \<Rightarrow> indexes (env_runtime E) oid (os_metadata st) (os_metadata st')"
  shows "confined E contents ty oid st st'"
proof -
  have frame: "contents s' k = contents (os_storage st) k"
    if "k \<notin> object_keys (env_config E) ty oid" for k
    using put_pair_frame [OF put] that by (auto simp: object_keys_def object_meta_key_def)
  show ?thesis
  proof (cases out)
    case (Inl e)
    have "contents s' (main_key (env_config E) ty oid) = contents (os_storage st) (main_key (env_config E) ty oid)"
      if "failures_clean (env_backend E) contents"
      using put_pair_err_main [OF put [unfolded Inl] meta_main_neq [OF ty] that] .
    then show ?thesis using md Inl by (intro confined_keep) (simp_all add: frame st' md_grows_refl)
  next
    case (Inr u)
    then show ?thesis using md by (intro confined_index) (simp_all add: frame st')
  qed
qed

lemma unchanged_confined: "confined E contents ty oid st st"
  by (simp add: confined_def md_grows_refl)

lemma put_kv_confined:
  assumes "put_kv_block E b k v st = (r, b', st')"
  shows "confined E contents KV_CACHE (object_id (kv_meta b)) st st'"
proof (cases "fill_token_hash E b")
  case (Inl e)
  with assms have "st' = st" by (simp add: put_kv_block_def)
  then show ?thesis by (simp add: unchanged_confined)
next
  case (Inr b1)
  let ?oid = "object_id (kv_meta b)" and ?c = "env_config E"
  let ?b2 = "b1\<lparr>kv_meta := (kv_meta b1)\<lparr>size_bytes := int (nd_nbytes (rt_numpy (env_runtime E)) k
      + nd_nbytes (rt_numpy (env_runtime E)) v)\<rparr>\<rparr>"
  obtain out s' where put: "put_pair E (meta_key (type_prefix ?c KV_CACHE) ?oid)
      (serialize_kv_block_meta (env_codec E) ?b2) (main_key ?c KV_CACHE ?oid)
      (serialize_kv_tensors (env_codec E) k v) (os_storage st) = (out, s')" by fastforce
  show ?thesis
    using assms Inr put
    by (intro put_pair_confined [OF put])
       (auto simp: put_kv_block_def Let_def main_key_def split: sum.splits)
qed

lemma put_rag_confined:
  assumes "put_rag_object E b v st = (r, b', st')"
  shows "confined E contents RAG (object_id (rg_meta b)) st st'"
proof (cases "last_axis (rt_numpy (env_runtime E)) v")
  case (Inl e)
  with assms have "st' = st" by (simp add: put_rag_object_def)
  then show ?thesis by (simp add: unchanged_confined)
next
  case (Inr d)
  let ?oid = "object_id (rg_meta b)" and ?c = "env_config E"
  let ?b2 = "b\<lparr>rg_embedding_dim := d, rg_meta := (rg_meta b)\<lparr>size_bytes :=
      int (nd_nbytes (rt_numpy (env_runtime E)) v)\<rparr>\<rparr>"
  obtain out s' where put: "put_pair E (meta_key (type_prefix ?c RAG) ?oid)
      (serialize_rag_meta (env_codec E) ?b2) (main_key ?c RAG ?oid)
      (serialize_embedding (env_codec E) v) (os_storage st) = (out, s')" by fastforce
  show ?thesis
    using assms Inr put
    by (intro put_pair_confined [OF put])
       (auto simp: put_rag_object_def Let_def main_key_def split: sum.splits)
qed

lemma put_plan_confined:
  assumes "put_plan_cache_entry E b v st = (r, b', st')"
  shows "confined E contents PLAN_CACHE (pl_plan_id b) st st'"
proof (cases "last_axis (rt_numpy (env_runtime E)) v")
  case (Inl e)
  with assms have "st' = st" by (simp add: put_plan_cache_entry_def Let_def)
  then show ?thesis by (simp add: unchanged_confined)
next
  case (Inr d)
  let ?oid = "pl_plan_id b" and ?c = "env_config E"
  let ?b2 = "b\<lparr>pl_task_embedding_dim := d, pl_meta := (pl_meta b)\<lparr>object_id := pl_plan_id b,
      m_plan_id := Some (pl_plan_id b), m_scope := Some (pl_validity_scope b),
      size_bytes := int (nd_nbytes (rt_numpy (env_runtime E)) v)\<rparr>\<rparr>"
  obtain out s' where put: "put_pair E (meta_key (type_prefix ?c PLAN_CACHE) ?oid)
      (serialize_plan_cache_entry (env_codec E) ?b2) (main_key ?c PLAN_CACHE ?oid)
      (serialize_plan_embedding (env_codec E) v) (os_storage st) = (out, s')" by fastforce
  show ?thesis
    using assms Inr put
    by (intro put_pair_confined [OF put])
       (auto simp: put_plan_cache_entry_def Let_def main_key_def split: sum.splits)
qed

lemma put_semantic_confined:
  assumes "put_semantic_entry E b v st = (r, b', st')"
  shows "confined E contents SEMANTIC_CACHE (object_id (se_meta b)) st st'"
proof (cases "last_axis (rt_numpy (env_runtime E)) v")
  case (Inl e)
  with assms have "st' = st" by (simp add: put_semantic_entry_def)
  then show ?thesis by (simp add: unchanged_confined)
next
  case (Inr d)
  let ?oid = "object_id (se_meta b)" and ?c = "env_config E"
  let ?b2 = "b\<lparr>se_embedding_dim := d, se_meta := (se_meta b)\<lparr>size_bytes :=
      int (nd_nbytes (rt_numpy (env_runtime E)) v)\<rparr>\<rparr>"
  obtain out s' where put: "put_pair E (meta_key (type_prefix ?c SEMANTIC_CACHE) ?oid)
      (serialize_semantic_entry (env_codec E) ?b2) (main_key ?c SEMANTIC_CACHE ?oid)
      (serialize_embedding (env_codec E) v) (os_storage st) = (out, s')" by fastforce
  obtain q md' where "on_semantic_entry_added (env_runtime E) ?oid v (os_metadata st) = (q, md')"
    by fastforce
  with put show ?thesis
    using assms Inr
    by (intro put_pair_confined [OF put])
       (auto simp: put_semantic_entry_def Let_def main_key_def split: sum.splits)
qed

lemmas put_confined = put_kv_confined put_rag_confined put_semantic_confined put_plan_confined

text \<open>Every operation is confined to its object.\<close>

lemma store_step_confined: "store_step E ty oid st st' \<Longrightarrow> confined E contents ty oid st st'"
proof (induction rule: store_step.cases)
qed (auto simp: put_agent_workflow_def put_agent_step_def put_tool_artifact_def put_workflow_trace_def
      delete_kv_block_def delete_rag_object_def delete_semantic_entry_def delete_agent_workflow_def
      delete_agent_step_def delete_tool_artifact_def delete_plan_cache_entry_def
      delete_workflow_trace_def Let_def
      intro: put_confined put_meta_confined delete_meta_confined delete_pair_confined
      split: prod.splits)

end

section \<open>The store over a backend whose failing calls change nothing\<close>

locale exact_store = exact_backend "env_backend E" contents
  for E :: "('s, 'h, 'a, 'b) StoreEnv" and contents :: "'s \<Rightarrow> string \<Rightarrow> 'b option"

sublocale exact_store \<subseteq> any: object_store E contents
  by unfold_locales

context exact_store
begin

text \<open>
  A put that raises has either changed nothing, or rolled the first blob back, or (when the
  deletion that rolls back raises too) left the first blob behind.
\<close>

lemma put_pair_err:
  assumes call: "put_pair E mk mb dk db s = (Inl e, s')"
  shows "contents s' = contents s \<or> contents s' = (contents s)(mk := None)
     \<or> (contents s' = (contents s)(mk \<mapsto> mb) \<and> (\<exists>s2. fst (be_delete (env_backend E) mk s2) = Inl e))"
  using call
proof (cases rule: any.put_pair_steps)
  case (1 e')
  then show ?thesis using put_err by auto
next
  case (2 s1)
  then show ?thesis by simp
next
  case (3 s1 e2 s2 r3)
  then have c2: "contents s2 = (contents s)(mk \<mapsto> mb)" using put_ok [OF 3(1)] put_err [OF 3(2)] by simp
  show ?thesis
  proof (cases r3)
    case (Inl e3)
    with 3 have "contents s' = contents s2" "fst (be_delete (env_backend E) mk s2) = Inl e"
      using delete_err by auto
    with c2 show ?thesis by auto
  next
    case (Inr b)
    with 3(3) have "contents s' = (contents s2)(mk := None)" by (simp add: delete_ok)
    with c2 show ?thesis by simp
  qed
qed

lemma reachable_indexed:
  assumes "prefixes_ok (env_config E)"
  shows "store_reachable E st0 st \<Longrightarrow> indexed E contents st0 \<Longrightarrow> indexed E contents st"
  by (induction rule: store_reachable.induct)
     (auto intro: indexed_confined [OF assms _ _ clean] any.store_step_confined)

end

section \<open>Refinement: a map from type and id to blobs\<close>

text \<open>What is stored of an object with two blobs, or of one with its metadata only.\<close>

definition stored_pair ::
    "('s \<Rightarrow> string \<Rightarrow> 'b option) \<Rightarrow> L3Config \<Rightarrow> ObjectType \<Rightarrow> string \<Rightarrow> 's \<Rightarrow> ('b \<times> 'b) option" where
  "stored_pair contents c ty oid s =
     (case contents s (object_meta_key c ty oid) of
        None \<Rightarrow> None
      | Some m \<Rightarrow> map_option (\<lambda>d. (m, d)) (contents s (main_key c ty oid)))"

definition stored_meta ::
    "('s \<Rightarrow> string \<Rightarrow> 'b option) \<Rightarrow> L3Config \<Rightarrow> ObjectType \<Rightarrow> string \<Rightarrow> 's \<Rightarrow> 'b option" where
  "stored_meta contents c ty oid s = contents s (object_meta_key c ty oid)"

text \<open>Reading blobs back into a touched object.\<close>

definition read_kv :: "('a, 'b) Codec \<Rightarrow> rat \<Rightarrow> 'b \<times> 'b \<Rightarrow> (KVCacheBlock \<times> 'a \<times> 'a) res" where
  "read_kv K now p =
     (case deserialize_kv_block_meta K (fst p) of
        Inl e \<Rightarrow> Inl e
      | Inr b \<Rightarrow> map_sum id (\<lambda>(k, v). (b\<lparr>kv_meta := touch now (kv_meta b)\<rparr>, k, v))
                  (deserialize_kv_tensors K (snd p)))"

definition read_array_pair ::
    "('a, 'b) Codec \<Rightarrow> ('b \<Rightarrow> 'o res) \<Rightarrow> ('o \<Rightarrow> 'o) \<Rightarrow> 'b \<times> 'b \<Rightarrow> ('o \<times> 'a) res" where
  "read_array_pair K load touch_it p =
     (case load (fst p) of
        Inl e \<Rightarrow> Inl e
      | Inr x \<Rightarrow> map_sum id (\<lambda>v. (touch_it x, v)) (deserialize_embedding K (snd p)))"

text \<open>An absent object reads as \<open>None\<close>, a present one as its value or the reader's exception.\<close>

definition lookup :: "('p \<Rightarrow> 'o res) \<Rightarrow> 'p option \<Rightarrow> 'o option res" where
  "lookup rd x = (case x of None \<Rightarrow> Inr None | Some p \<Rightarrow> map_sum id Some (rd p))"

lemma lookup_simps [simp]:
  "lookup rd None = Inr None"
  "lookup rd (Some p) = map_sum id Some (rd p)"
  by (simp_all add: lookup_def)

lemma main_key_None: "data_ext ty = None \<Longrightarrow> main_key c ty oid = object_meta_key c ty oid"
  by (simp add: main_key_def object_meta_key_def)

lemma indexed_main:
  "indexed E contents st \<Longrightarrow> \<not> might_exist (env_runtime E) oid (os_metadata st) \<Longrightarrow>
     contents (os_storage st) (main_key (env_config E) ty oid) = None"
  unfolding indexed_def by blast

locale total_store = total_backend "env_backend E" contents
  for E :: "('s, 'h, 'a, 'b) StoreEnv" and contents :: "'s \<Rightarrow> string \<Rightarrow> 'b option"

sublocale total_store \<subseteq> objs: object_store E contents
  by unfold_locales

sublocale total_store \<subseteq> exact: exact_store E contents
  by unfold_locales

context total_store
begin

abbreviation (input) "pair_of ty oid st \<equiv> stored_pair contents (env_config E) ty oid (os_storage st)"
abbreviation (input) "meta_of ty oid st \<equiv> stored_meta contents (env_config E) ty oid (os_storage st)"

lemma get_pair_eq:
  "get_pair E (object_meta_key (env_config E) ty oid) (main_key (env_config E) ty oid) s
     = Inr (stored_pair contents (env_config E) ty oid s)"
  by (simp add: get_pair_def get_eq stored_pair_def split: option.split)

lemma indexed_pair:
  "indexed E contents st \<Longrightarrow> \<not> might_exist (env_runtime E) oid (os_metadata st) \<Longrightarrow> pair_of ty oid st = None"
  by (simp add: indexed_main stored_pair_def split: option.split)

lemma indexed_meta:
  "indexed E contents st \<Longrightarrow> \<not> might_exist (env_runtime E) oid (os_metadata st) \<Longrightarrow>
     data_ext ty = None \<Longrightarrow> meta_of ty oid st = None"
  by (simp add: indexed_main stored_meta_def flip: main_key_None)

lemma get_kv_refines:
  assumes "might_exist (env_runtime E) oid (os_metadata st) \<or> pair_of KV_CACHE oid st = None"
  shows "get_kv_block E now oid st = lookup (read_kv (env_codec E) now) (pair_of KV_CACHE oid st)"
  using assms get_pair_eq [of KV_CACHE oid "os_storage st"]
  by (auto simp: get_kv_block_def object_meta_key_def main_key_def read_kv_def Let_def
      split: option.splits sum.splits prod.splits)

lemma get_rag_refines:
  assumes "might_exist (env_runtime E) oid (os_metadata st) \<or> pair_of RAG oid st = None"
  shows "get_rag_object E now oid st =
    lookup (read_array_pair (env_codec E) (deserialize_rag_meta (env_codec E))
      (\<lambda>x. x\<lparr>rg_meta := touch now (rg_meta x)\<rparr>)) (pair_of RAG oid st)"
  using assms get_pair_eq [of RAG oid "os_storage st"]
  by (auto simp: get_rag_object_def object_meta_key_def main_key_def read_array_pair_def Let_def
      split: option.splits sum.splits prod.splits)

lemma get_semantic_refines:
  assumes "might_exist (env_runtime E) oid (os_metadata st) \<or> pair_of SEMANTIC_CACHE oid st = None"
  shows "get_semantic_entry E now oid st =
    lookup (read_array_pair (env_codec E) (deserialize_semantic_entry (env_codec E))
      (\<lambda>x. x\<lparr>se_meta := touch now (se_meta x)\<rparr>)) (pair_of SEMANTIC_CACHE oid st)"
  using assms get_pair_eq [of SEMANTIC_CACHE oid "os_storage st"]
  by (auto simp: get_semantic_entry_def object_meta_key_def main_key_def read_array_pair_def Let_def
      split: option.splits sum.splits prod.splits)

lemma get_plan_refines:
  assumes "might_exist (env_runtime E) oid (os_metadata st) \<or> pair_of PLAN_CACHE oid st = None"
  shows "get_plan_cache_entry E now oid st =
    lookup (read_array_pair (env_codec E) (deserialize_plan_cache_entry (env_codec E))
      (\<lambda>x. x\<lparr>pl_meta := touch now (pl_meta x)\<rparr>)) (pair_of PLAN_CACHE oid st)"
  using assms get_pair_eq [of PLAN_CACHE oid "os_storage st"]
  by (auto simp: get_plan_cache_entry_def object_meta_key_def main_key_def read_array_pair_def Let_def
      deserialize_plan_embedding_def split: option.splits sum.splits prod.splits)

lemma get_meta_refines:
  assumes "might_exist (env_runtime E) oid (os_metadata st) \<or> meta_of ty oid st = None"
  shows "get_meta_object E (type_prefix (env_config E) ty) oid load touch_it st =
    lookup (\<lambda>b. map_sum id touch_it (load b)) (meta_of ty oid st)"
  using assms
  by (auto simp: get_meta_object_def get_eq stored_meta_def object_meta_key_def
      split: option.splits sum.splits)

lemmas get_refines = get_kv_refines get_rag_refines get_semantic_refines get_plan_refines

text \<open>In an indexed state the filter does not matter: every read is a lookup.\<close>

lemma indexed_known:
  assumes "indexed E contents st"
  shows "might_exist (env_runtime E) oid (os_metadata st) \<or> pair_of ty oid st = None"
    and "data_ext ty = None \<Longrightarrow>
      might_exist (env_runtime E) oid (os_metadata st) \<or> meta_of ty oid st = None"
  by (cases "might_exist (env_runtime E) oid (os_metadata st)";
      simp add: indexed_pair [OF assms] indexed_meta [OF assms])+

lemmas get_refines_indexed =
  get_kv_refines [OF indexed_known(1)] get_rag_refines [OF indexed_known(1)]
  get_semantic_refines [OF indexed_known(1)] get_plan_refines [OF indexed_known(1)]
  get_meta_refines [OF indexed_known(2)]

section \<open>Frame\<close>

lemma step_frame:
  assumes "prefixes_ok (env_config E)" and "store_step E ty oid st st'" and "(ty', oid') \<noteq> (ty, oid)"
  shows "pair_of ty' oid' st' = pair_of ty' oid' st \<and> meta_of ty' oid' st' = meta_of ty' oid' st"
proof -
  have "k \<notin> object_keys (env_config E) ty oid" if "k \<in> object_keys (env_config E) ty' oid'" for k
    using object_keys_disjoint [OF assms(1) that] assms(3) by auto
  then have same: "contents (os_storage st') k = contents (os_storage st) k"
    if "k \<in> object_keys (env_config E) ty' oid'" for k
    using objs.store_step_confined [OF assms(2)] that by (auto simp: confined_def)
  have "object_meta_key (env_config E) ty' oid' \<in> object_keys (env_config E) ty' oid'"
    and "main_key (env_config E) ty' oid' \<in> object_keys (env_config E) ty' oid'"
    by (simp_all add: object_keys_def)
  from this [THEN same] show ?thesis by (simp add: stored_pair_def stored_meta_def split: option.split)
qed

end

text \<open>Two states agree on an object when every read of it gives the same answer.\<close>

fun same_view ::
    "('s, 'h, 'a, 'b) StoreEnv \<Rightarrow> rat \<Rightarrow> ObjectType \<Rightarrow> string \<Rightarrow> ('s, 'h) UnifiedObjectStore
       \<Rightarrow> ('s, 'h) UnifiedObjectStore \<Rightarrow> bool" where
  "same_view E now KV_CACHE oid st st' = (get_kv_block E now oid st' = get_kv_block E now oid st)"
| "same_view E now RAG oid st st' = (get_rag_object E now oid st' = get_rag_object E now oid st)"
| "same_view E now SEMANTIC_CACHE oid st st' =
     (get_semantic_entry E now oid st' = get_semantic_entry E now oid st)"
| "same_view E now AGENT_WORKFLOW oid st st' =
     (get_agent_workflow E now oid st' = get_agent_workflow E now oid st)"
| "same_view E now AGENT_STEP oid st st' = (get_agent_step E now oid st' = get_agent_step E now oid st)"
| "same_view E now TOOL_CALL_ARTIFACT oid st st' =
     (get_tool_artifact E now oid st' = get_tool_artifact E now oid st)"
| "same_view E now PLAN_CACHE oid st st' =
     (get_plan_cache_entry E now oid st' = get_plan_cache_entry E now oid st)"
| "same_view E now WORKFLOW_TRACE oid st st' =
     (get_workflow_trace E now oid st' = get_workflow_trace E now oid st)"

lemmas get_meta_defs =
  get_agent_workflow_def get_agent_step_def get_tool_artifact_def get_workflow_trace_def

lemmas put_meta_defs =
  put_agent_workflow_def put_agent_step_def put_tool_artifact_def put_workflow_trace_def

lemmas delete_defs =
  delete_kv_block_def delete_rag_object_def delete_semantic_entry_def delete_plan_cache_entry_def
  delete_agent_workflow_def delete_agent_step_def delete_tool_artifact_def delete_workflow_trace_def

context total_store
begin

lemma step_same_view:
  assumes ok: "prefixes_ok (env_config E)" and idx: "indexed E contents st"
    and step: "store_step E ty oid st st'" and other: "(ty', oid') \<noteq> (ty, oid)"
  shows "same_view E now ty' oid' st st'"
proof -
  have idx': "indexed E contents st'"
    using indexed_confined [OF ok idx objs.store_step_confined [OF step] clean] .
  note eq = step_frame [OF ok step other]
  show ?thesis
    using eq
    by (cases ty') (simp_all add: get_refines_indexed get_meta_defs idx idx' del: type_prefix.simps)
qed

section \<open>Reading back what was put\<close>

lemma put_pair_stored:
  assumes "put_pair E (meta_key (type_prefix (env_config E) ty) oid) mb (main_key (env_config E) ty oid) db s
      = (Inr (), s')" and "data_ext ty \<noteq> None"
  shows "stored_pair contents (env_config E) ty oid s' = Some (mb, db)"
  using objs.put_pair_ok [OF assms(1)] meta_main_neq [OF assms(2)]
  by (simp add: stored_pair_def object_meta_key_def)

lemma put_get_kv:
  assumes K: "codec_ok (env_codec E)" and wf: "md_bloom_wf (os_metadata st)"
    and put: "put_kv_block E b k v st = (Inr i, b', st')"
  shows "get_kv_block E now i st' = Inr (Some (b'\<lparr>kv_meta := touch now (kv_meta b')\<rparr>, k, v))"
proof -
  from put obtain s' where pair: "put_pair E (meta_key (type_prefix (env_config E) KV_CACHE) i)
      (serialize_kv_block_meta (env_codec E) b') (main_key (env_config E) KV_CACHE i)
      (serialize_kv_tensors (env_codec E) k v) (os_storage st) = (Inr (), s')"
    and st': "os_storage st' = s'" "indexes (env_runtime E) i (os_metadata st) (os_metadata st')"
    by (auto simp: put_kv_block_def Let_def main_key_def split: sum.splits prod.splits)
  have "might_exist (env_runtime E) i (os_metadata st')" using st'(2) wf by (simp add: indexes_def)
  with put_pair_stored [OF pair] st'(1) show ?thesis
    by (simp add: get_kv_refines read_kv_def codec_okD [OF K])
qed

lemma put_get_semantic:
  assumes K: "codec_ok (env_codec E)" and wf: "md_bloom_wf (os_metadata st)"
    and put: "put_semantic_entry E e v st = (Inr i, e', st')"
  shows "get_semantic_entry E now i st' = Inr (Some (e'\<lparr>se_meta := touch now (se_meta e')\<rparr>, v))"
proof -
  from put obtain s' where pair: "put_pair E (meta_key (type_prefix (env_config E) SEMANTIC_CACHE) i)
      (serialize_semantic_entry (env_codec E) e') (main_key (env_config E) SEMANTIC_CACHE i)
      (serialize_embedding (env_codec E) v) (os_storage st) = (Inr (), s')"
    and st': "os_storage st' = s'" "indexes (env_runtime E) i (os_metadata st) (os_metadata st')"
    by (auto simp: put_semantic_entry_def Let_def main_key_def split: sum.splits prod.splits dest: indexes_semantic)
  have "might_exist (env_runtime E) i (os_metadata st')" using st'(2) wf by (simp add: indexes_def)
  with put_pair_stored [OF pair] st'(1) show ?thesis
    by (simp add: get_semantic_refines read_array_pair_def codec_okD [OF K])
qed

lemma put_get_rag:
  assumes K: "codec_ok (env_codec E)" and wf: "md_bloom_wf (os_metadata st)"
    and put: "put_rag_object E e v st = (Inr i, e', st')"
  shows "get_rag_object E now i st' = Inr (Some (e'\<lparr>rg_meta := touch now (rg_meta e')\<rparr>, v))"
proof -
  from put obtain s' where pair: "put_pair E (meta_key (type_prefix (env_config E) RAG) i)
      (serialize_rag_meta (env_codec E) e') (main_key (env_config E) RAG i)
      (serialize_embedding (env_codec E) v) (os_storage st) = (Inr (), s')"
    and st': "os_storage st' = s'" "indexes (env_runtime E) i (os_metadata st) (os_metadata st')"
    by (auto simp: put_rag_object_def Let_def main_key_def split: sum.splits prod.splits)
  have "might_exist (env_runtime E) i (os_metadata st')" using st'(2) wf by (simp add: indexes_def)
  with put_pair_stored [OF pair] st'(1) show ?thesis
    by (simp add: get_rag_refines read_array_pair_def codec_okD [OF K])
qed

text \<open>A plan is validated when it is read, not when it is put.\<close>

lemma put_get_plan:
  assumes K: "codec_ok (env_codec E)" and wf: "md_bloom_wf (os_metadata st)"
    and put: "put_plan_cache_entry E e v st = (Inr i, e', st')"
  shows "get_plan_cache_entry E now i st' =
    map_sum id (\<lambda>x. Some (x\<lparr>pl_meta := touch now (pl_meta x)\<rparr>, v)) (validate_plan_entry e')"
proof -
  from put obtain s' where pair: "put_pair E (meta_key (type_prefix (env_config E) PLAN_CACHE) i)
      (serialize_plan_cache_entry (env_codec E) e') (main_key (env_config E) PLAN_CACHE i)
      (serialize_plan_embedding (env_codec E) v) (os_storage st) = (Inr (), s')"
    and st': "os_storage st' = s'" "indexes (env_runtime E) i (os_metadata st) (os_metadata st')"
    by (auto simp: put_plan_cache_entry_def Let_def main_key_def split: sum.splits prod.splits)
  have "might_exist (env_runtime E) i (os_metadata st')" using st'(2) wf by (simp add: indexes_def)
  with put_pair_stored [OF pair] st'(1) show ?thesis
    by (cases "validate_plan_entry e'")
       (simp_all add: get_plan_refines read_array_pair_def codec_okD [OF K] serialize_plan_embedding_def)
qed

text \<open>A put of an object without data blob, as the four classes share it.\<close>

lemma put_meta_stored:
  assumes "put_meta_object E (type_prefix (env_config E) ty) oid b ty st = (Inr i, st')"
    and "md_bloom_wf (os_metadata st)"
  shows "i = oid \<and> meta_of ty oid st' = Some b \<and> might_exist (env_runtime E) oid (os_metadata st')"
proof -
  obtain out s' where put: "be_put (env_backend E) (meta_key (type_prefix (env_config E) ty) oid) b None
      (os_storage st) = (out, s')" by fastforce
  show ?thesis
  proof (cases out)
    case (Inl e)
    with assms(1) put show ?thesis by (simp add: put_meta_object_def)
  next
    case (Inr u)
    with put have "contents s' = (contents (os_storage st))(meta_key (type_prefix (env_config E) ty) oid \<mapsto> b)"
      using put_ok by simp
    with assms put Inr show ?thesis
      by (auto simp: put_meta_object_def stored_meta_def object_meta_key_def on_object_added_grows)
  qed
qed

lemma put_get_meta:
  assumes "put_meta_object E (type_prefix (env_config E) ty) oid b ty st = (Inr i, st')"
    and "md_bloom_wf (os_metadata st)"
  shows "get_meta_object E (type_prefix (env_config E) ty) i load touch_it st' =
    map_sum id (\<lambda>x. Some (touch_it x)) (load b)"
  using put_meta_stored [OF assms] by (cases "load b") (simp_all add: get_meta_refines)

section \<open>Deleting\<close>

lemma delete_pair_eq:
  "\<exists>s'. delete_pair E pfx oid x s =
       (Inr (contents s (meta_key pfx oid) \<noteq> None \<or> contents s (data_key pfx oid x) \<noteq> None), s')
     \<and> contents s' = (contents s)(meta_key pfx oid := None, data_key pfx oid x := None)"
proof -
  let ?ks = "[meta_key pfx oid, data_key pfx oid x]"
  obtain s' where s': "be_delete_many (env_backend E) ?ks s =
      (Inr (int (card {k \<in> set ?ks. contents s k \<noteq> None})), s')"
    and c: "contents s' = (\<lambda>k. if k \<in> set ?ks then None else contents s k)"
    using many_eq [of ?ks s] by blast
  have "(0 < card {k \<in> set ?ks. contents s k \<noteq> None}) \<longleftrightarrow>
      (contents s (meta_key pfx oid) \<noteq> None \<or> contents s (data_key pfx oid x) \<noteq> None)"
    by (auto simp: card_gt_0_iff)
  with s' c show ?thesis by (auto simp: delete_pair_def)
qed

lemma delete_pair_gone:
  assumes "after_delete E ty oid (delete_pair E (type_prefix (env_config E) ty) oid x (os_storage st)) st = (d, st')"
  shows "pair_of ty oid st' = None"
proof -
  obtain r s' where del: "delete_pair E (type_prefix (env_config E) ty) oid x (os_storage st) = (r, s')"
    and c: "contents s' (meta_key (type_prefix (env_config E) ty) oid) = None"
    using delete_pair_eq [of "type_prefix (env_config E) ty" oid x "os_storage st"] by auto
  have "os_storage st' = s'"
    using assms unfolding del
    by (auto simp: after_delete_def split: sum.splits if_splits prod.splits)
  with c show ?thesis by (simp add: stored_pair_def object_meta_key_def)
qed

lemma delete_meta_gone:
  assumes "delete_meta_object E (type_prefix (env_config E) ty) oid ty st = (d, st')"
  shows "meta_of ty oid st' = None"
proof -
  obtain r s' where del: "be_delete (env_backend E) (meta_key (type_prefix (env_config E) ty) oid) (os_storage st) = (r, s')"
    and c: "contents s' (meta_key (type_prefix (env_config E) ty) oid) = None"
    using delete_eq [of "meta_key (type_prefix (env_config E) ty) oid" "os_storage st"] by auto
  have "os_storage st' = s'"
    using assms unfolding del delete_meta_object_def
    by (auto simp: after_delete_def split: sum.splits if_splits prod.splits)
  with c show ?thesis by (simp add: stored_meta_def object_meta_key_def)
qed

text \<open>Deleting a KV block answers whether any of its blobs was there, and it is gone.\<close>

lemma delete_kv_spec:
  "\<exists>st'. delete_kv_block E oid st =
      (Inr (\<exists>k \<in> object_keys (env_config E) KV_CACHE oid. contents (os_storage st) k \<noteq> None), st')
    \<and> get_kv_block E now oid st' = Inr None"
proof -
  let ?p = "type_prefix (env_config E) KV_CACHE"
  obtain d st' where call: "delete_kv_block E oid st = (d, st')" by fastforce
  then have gone: "pair_of KV_CACHE oid st' = None"
    unfolding delete_kv_block_def by (rule delete_pair_gone)
  have "d = Inr (\<exists>k \<in> object_keys (env_config E) KV_CACHE oid. contents (os_storage st) k \<noteq> None)"
    using call delete_pair_eq [of ?p oid "''data.npz''" "os_storage st"]
    by (auto simp: delete_kv_block_def after_delete_def on_object_removed_def object_keys_def
        object_meta_key_def main_key_def split: if_splits)
  with call get_kv_refines [of oid st'] gone show ?thesis by simp
qed

lemma delete_semantic_gone:
  "delete_semantic_entry E oid st = (d, st') \<Longrightarrow> get_semantic_entry E now oid st' = Inr None"
  unfolding delete_semantic_entry_def using delete_pair_gone [of SEMANTIC_CACHE oid _ st d st']
  by (simp add: get_semantic_refines)

lemma delete_plan_gone:
  "delete_plan_cache_entry E oid st = (d, st') \<Longrightarrow> get_plan_cache_entry E now oid st' = Inr None"
  unfolding delete_plan_cache_entry_def using delete_pair_gone [of PLAN_CACHE oid _ st d st']
  by (simp add: get_plan_refines)

lemma delete_rag_gone:
  "delete_rag_object E oid st = (d, st') \<Longrightarrow> get_rag_object E now oid st' = Inr None"
  unfolding delete_rag_object_def using delete_pair_gone [of RAG oid _ st d st']
  by (simp add: get_rag_refines)

lemma delete_meta_get:
  "delete_meta_object E (type_prefix (env_config E) ty) oid ty st = (d, st') \<Longrightarrow>
     get_meta_object E (type_prefix (env_config E) ty) oid load touch_it st' = Inr None"
  using delete_meta_gone [of ty oid st d st'] by (simp add: get_meta_refines)

end

section \<open>Listing\<close>

lemma before_dot_dot: "before_dot (a @ ''.'' @ b) = before_dot a"
  unfolding before_dot_def by (induction a) auto

text \<open>Nothing but blobs of objects is stored.\<close>

definition only_objects ::
    "('s, 'h, 'a, 'b) StoreEnv \<Rightarrow> ('s \<Rightarrow> string \<Rightarrow> 'b option) \<Rightarrow> ('s, 'h) UnifiedObjectStore \<Rightarrow> bool" where
  "only_objects E contents st \<longleftrightarrow>
     (\<forall>k. contents (os_storage st) k \<noteq> None \<longrightarrow> (\<exists>ty oid. k \<in> object_keys (env_config E) ty oid))"

lemma only_objects_confined:
  assumes "only_objects E contents st" and "confined E contents ty oid st st'"
  shows "only_objects E contents st'"
  using assms unfolding only_objects_def confined_def by metis

lemma object_key_suffix:
  assumes "k \<in> object_keys c ty oid"
  shows "\<exists>e. k = type_prefix c ty @ oid @ ''.'' @ e"
  using object_key_form [OF assms] by force

context object_store
begin

lemma list_ids_spec:
  assumes "list_ids E pfx st = Inr ids"
  shows "sorted ids \<and> distinct ids \<and>
    set ids = {before_dot r | r. contents (os_storage st) (pfx @ r) \<noteq> None} - {[]}"
proof -
  from assms obtain keys where keys: "be_list_keys (env_backend E) pfx (os_storage st) = Inr keys"
    and ids: "ids = sort (remdups (filter (\<lambda>name. name \<noteq> [])
                (map (\<lambda>k. before_dot (remove_prefix k pfx)) keys)))"
    by (auto simp: list_ids_def split: sum.splits)
  have "set keys = (\<lambda>r. pfx @ r) ` {r. contents (os_storage st) (pfx @ r) \<noteq> None}"
    using list_ok [OF keys] by (auto simp: starts_with_iff)
  then have "set (map (\<lambda>k. before_dot (remove_prefix k pfx)) keys)
      = {before_dot r | r. contents (os_storage st) (pfx @ r) \<noteq> None}"
    by (simp only: set_map image_image remove_prefix_append) blast
  then show ?thesis unfolding ids by auto
qed

text \<open>The ids listed for a type are those of the stored objects, up to their first dot.\<close>

lemma list_objects:
  assumes c: "prefixes_ok (env_config E)" and only: "only_objects E contents st"
    and call: "list_ids E (type_prefix (env_config E) ty) st = Inr ids"
  shows "sorted ids \<and> distinct ids \<and> set ids =
    {before_dot oid | oid. \<exists>k \<in> object_keys (env_config E) ty oid. contents (os_storage st) k \<noteq> None} - {[]}"
proof -
  let ?p = "type_prefix (env_config E) ty"
  have eq: "(\<exists>oid. x = before_dot oid \<and> (\<exists>k \<in> object_keys (env_config E) ty oid. contents (os_storage st) k \<noteq> None))
    \<longleftrightarrow> (\<exists>r. x = before_dot r \<and> contents (os_storage st) (?p @ r) \<noteq> None)" (is "?L \<longleftrightarrow> ?R") for x
  proof
    assume ?L
    then obtain oid k where k: "x = before_dot oid" "k \<in> object_keys (env_config E) ty oid"
      "contents (os_storage st) k \<noteq> None" by blast
    obtain e where "k = ?p @ oid @ ''.'' @ e" using object_key_suffix [OF k(2)] by blast
    with k before_dot_dot [of oid e] show ?R
      by (intro exI [of _ "oid @ ''.'' @ e"]) simp
  next
    assume ?R
    then obtain r where r: "x = before_dot r" "contents (os_storage st) (?p @ r) \<noteq> None" by blast
    with only obtain ty' oid where k: "?p @ r \<in> object_keys (env_config E) ty' oid"
      unfolding only_objects_def by blast
    obtain e where "?p @ r = type_prefix (env_config E) ty' @ oid @ ''.'' @ e"
      using object_key_suffix [OF k] by blast
    from prefixes_okD [OF c this] have "ty' = ty" "r = oid @ ''.'' @ e" by auto
    with r k before_dot_dot [of oid e] show ?L by blast
  qed
  show ?thesis using list_ids_spec [OF call] unfolding eq .
qed

end

section \<open>Prefetching\<close>

text \<open>
  A batch holds, for every requested id, what \<open>prefetch_one\<close> returns for the first decision
  that names it.
\<close>

lemma prefetch_loop_spec:
  assumes "prefetch_loop E now st ds seen results = Inr rs"
    and "dwf results" and "set (dkeys results) \<subseteq> seen"
  shows "dwf rs \<and> (\<forall>oid v. dget rs oid = Some v \<longleftrightarrow>
     (if oid \<in> seen then dget results oid = Some v
      else oid \<noteq> [] \<and> (\<exists>t. map_of ds (Some oid) = Some t
             \<and> prefetch_one E now oid t st = Inr (Some v))))"
  using assms
proof (induction ds arbitrary: seen results)
  case Nil
  have "dget results oid \<noteq> Some v" if "oid \<notin> seen" for oid v
    using Nil.prems(3) that dget_Some_key by fast
  with Nil.prems show ?case by (simp del: map_of_eq_Some_iff Some_eq_map_of_iff)
next
  case (Cons d ds)
  obtain ref t where d: "d = (ref, t)" by (cases d)
  show ?case
  proof (cases "ref = None \<or> the ref = [] \<or> the ref \<in> seen")
    case True
    then have "prefetch_loop E now st ds seen results = Inr rs"
      using Cons.prems(1) d by (auto split: option.splits)
    from Cons.IH [OF this Cons.prems(2,3)] True d show ?thesis by auto
  next
    case False
    then obtain oid where oid: "ref = Some oid" "oid \<noteq> []" "oid \<notin> seen" by auto
    have old: "dget results oid = None" using oid(3) Cons.prems(3) by (auto simp: map_of_eq_None_iff)
    obtain q where q: "prefetch_one E now oid t st = Inr q"
      using Cons.prems(1) d oid by (auto split: sum.splits)
    let ?res = "case q of None \<Rightarrow> results | Some v \<Rightarrow> dset results oid v"
    have run: "prefetch_loop E now st ds (insert oid seen) ?res = Inr rs"
      using Cons.prems(1) d oid q by (auto split: option.splits)
    have "dwf ?res" "set (dkeys ?res) \<subseteq> insert oid seen"
      using Cons.prems(2,3) by (auto split: option.splits)
    note IH = Cons.IH [OF run this]
    have "dget ?res k = (if k = oid then q else dget results k)" for k
      using old by (cases q) (auto simp: dict_simps)
    with IH d oid q show ?thesis by (simp del: map_of_eq_Some_iff Some_eq_map_of_iff)
  qed
qed

lemma prefetch_loop_raises:
  "prefetch_loop E now st ds seen results = Inl e \<Longrightarrow>
     \<exists>oid t. (Some oid, t) \<in> set ds \<and> prefetch_one E now oid t st = Inl e"
proof (induction ds arbitrary: seen results)
  case Nil
  then show ?case by simp
next
  case (Cons d ds)
  then show ?case
    by (cases d) (fastforce split: option.splits if_splits sum.splits)
qed

section \<open>The memory backend is a store of this kind\<close>

interpretation mem_store: total_store "E\<lparr>env_backend := memory_backend blen\<rparr>" memory_contents
  for E :: "('b MemoryBackend, 'h, 'a, 'b) StoreEnv" and blen :: "'b \<Rightarrow> nat"
  by (simp add: total_store_def mem.total_backend_axioms)

interpretation mem_objs: object_store "E\<lparr>env_backend := memory_backend blen\<rparr>" memory_contents
  for E :: "('b MemoryBackend, 'h, 'a, 'b) StoreEnv" and blen :: "'b \<Rightarrow> nat"
  by (simp add: object_store_def mem.storage_backend_axioms)

end
