(* ===== verification/StoreProps.thy ===== *)
theory StoreProps
  imports StoreSpec S3
begin

text \<open>
  The properties of the object store and of its backends.  They are stated for every backend of
  the contract they need, with the codec of \<open>Codec\<close> where what was written is read back, and are
  applied to the memory backend, and to a bucket that refuses writes, with the concrete codec
  \<open>blob_codec\<close>.
\<close>

section \<open>Reachable stores\<close>

text \<open>A store that starts on a backend without objects.\<close>

definition fresh_store :: "('s \<Rightarrow> string \<Rightarrow> 'b option) \<Rightarrow> ('s, 'h) UnifiedObjectStore \<Rightarrow> bool" where
  "fresh_store contents st \<longleftrightarrow> md_bloom_wf (os_metadata st) \<and> contents (os_storage st) = Map.empty"

lemma fresh_indexed: "fresh_store contents st \<Longrightarrow> indexed E contents st \<and> only_objects E contents st"
  by (simp add: fresh_store_def indexed_def only_objects_def)

lemma removed_unindexed:
  "ty \<noteq> KV_CACHE \<Longrightarrow> ty \<noteq> SEMANTIC_CACHE \<Longrightarrow> on_object_removed R ty oid md = (Inr (), md)"
  by (simp add: on_object_removed_def split: option.split)

lemma kv_keys_apart: "main_key c KV_CACHE i \<noteq> object_meta_key c KV_CACHE i"
  using meta_main_neq [of KV_CACHE c i i] by (simp add: object_meta_key_def)

context object_store
begin

lemma reachable_bloom_wf:
  "store_reachable E st0 st \<Longrightarrow> md_bloom_wf (os_metadata st0) \<Longrightarrow> md_bloom_wf (os_metadata st)"
proof (induction rule: store_reachable.induct)
  case (step st ty oid st')
  with store_step_confined [OF step(2)] show ?case by (simp add: confined_def md_grows_def)
qed

lemma reachable_only_objects:
  "store_reachable E st0 st \<Longrightarrow> only_objects E contents st0 \<Longrightarrow> only_objects E contents st"
  by (induction rule: store_reachable.induct) (auto intro: only_objects_confined store_step_confined)

lemma absent_pair_get:
  assumes "contents s (object_meta_key (env_config E) ty oid) = None \<or> contents s (main_key (env_config E) ty oid) = None"
    and "get_pair E (object_meta_key (env_config E) ty oid) (main_key (env_config E) ty oid) s = Inr r"
  shows "r = None"
  using get_pair_ok [OF assms(2)] assms(1) by (auto split: option.splits)

lemma absent_kv_get:
  assumes "contents (os_storage st) (object_meta_key (env_config E) KV_CACHE oid) = None
      \<or> contents (os_storage st) (main_key (env_config E) KV_CACHE oid) = None"
    and "get_kv_block E now oid st = Inr r"
  shows "r = None"
  using assms(2) absent_pair_get [OF assms(1)]
  by (auto simp: get_kv_block_def object_meta_key_def main_key_def Let_def split: if_splits sum.splits option.splits prod.splits)

text \<open>What a put of a KV block does once its tokens are hashed.\<close>

lemma put_kv_pair:
  assumes "put_kv_block E b k v st = (Inl e, b', st')" and "fill_token_hash E b = Inr b1"
  obtains mb where "put_pair E (object_meta_key (env_config E) KV_CACHE (object_id (kv_meta b))) mb
      (main_key (env_config E) KV_CACHE (object_id (kv_meta b))) (serialize_kv_tensors (env_codec E) k v)
      (os_storage st) = (Inl e, os_storage st')" and "os_metadata st' = os_metadata st"
proof -
  let ?p = "type_prefix (env_config E) KV_CACHE" and ?i = "object_id (kv_meta b)"
  let ?b2 = "b1\<lparr>kv_meta := (kv_meta b1)\<lparr>size_bytes :=
      int (nd_nbytes (rt_numpy (env_runtime E)) k + nd_nbytes (rt_numpy (env_runtime E)) v)\<rparr>\<rparr>"
  obtain out s' where pair: "put_pair E (meta_key ?p ?i) (serialize_kv_block_meta (env_codec E) ?b2)
      (data_key ?p ?i ''data.npz'') (serialize_kv_tensors (env_codec E) k v) (os_storage st) = (out, s')" by fastforce
  with assms have out: "out = Inl e" and st': "os_storage st' = s'" "os_metadata st' = os_metadata st"
    by (auto simp: put_kv_block_def Let_def split: sum.splits)
  have "object_meta_key (env_config E) KV_CACHE ?i = meta_key ?p ?i" "main_key (env_config E) KV_CACHE ?i = data_key ?p ?i ''data.npz''"
    by (simp_all add: object_meta_key_def main_key_def)
  with pair out st' show ?thesis by (intro that [of "serialize_kv_block_meta (env_codec E) ?b2"]) (simp_all del: type_prefix.simps)
qed

text \<open>A put of a KV block that raises touches neither the index nor another object.\<close>

lemma failed_put_kv_frame:
  assumes put: "put_kv_block E b k v st = (Inl e, b', st')"
  shows "os_metadata st' = os_metadata st \<and> (\<forall>key. key \<notin> object_keys (env_config E) KV_CACHE (object_id (kv_meta b)) \<longrightarrow>
      contents (os_storage st') key = contents (os_storage st) key)"
proof (cases "fill_token_hash E b")
  case (Inl e1)
  with put show ?thesis by (simp add: put_kv_block_def)
next
  case (Inr b1)
  from put_kv_pair [OF put Inr] show ?thesis by (metis put_pair_frame insertCI object_keys_def)
qed

text \<open>Where the deletion that rolls back does not raise, a read of an absent block still finds nothing.\<close>

lemma failed_put_kv_read:
  assumes put: "put_kv_block E b k v st = (Inl e, b', st')"
    and absent: "\<forall>key \<in> object_keys (env_config E) KV_CACHE (object_id (kv_meta b)). contents (os_storage st) key = None"
    and undo: "\<forall>mk s err. fst (be_delete (env_backend E) mk s) \<noteq> Inl err"
    and get: "get_kv_block E now (object_id (kv_meta b)) st' = Inr r"
  shows "r = None"
proof (rule absent_kv_get [OF _ get], cases "fill_token_hash E b")
  let ?mk = "object_meta_key (env_config E) KV_CACHE (object_id (kv_meta b))"
  let ?dk = "main_key (env_config E) KV_CACHE (object_id (kv_meta b))"
  case (Inl e1)
  with put absent show "contents (os_storage st') ?mk = None \<or> contents (os_storage st') ?dk = None"
    by (simp add: put_kv_block_def object_keys_def)
next
  let ?mk = "object_meta_key (env_config E) KV_CACHE (object_id (kv_meta b))"
  let ?dk = "main_key (env_config E) KV_CACHE (object_id (kv_meta b))"
  case (Inr b1)
  from put_kv_pair [OF put Inr] obtain mb where
    "put_pair E ?mk mb ?dk (serialize_kv_tensors (env_codec E) k v) (os_storage st) = (Inl e, os_storage st')" by blast
  then show "contents (os_storage st') ?mk = None \<or> contents (os_storage st') ?dk = None"
  proof (cases rule: put_pair_steps)
    case (1 e')
    with put_step_key [OF 1(1), of ?dk] absent kv_keys_apart [of "env_config E" "object_id (kv_meta b)"]
    show ?thesis by (auto simp: object_keys_def)
  next
    case (3 s1 e2 s2 r3)
    moreover from this undo obtain x where "r3 = Inr x" by (metis fst_conv sum.exhaust)
    ultimately show ?thesis using deleted_ok [of ?mk s2 x "os_storage st'"] by simp
  qed simp
qed

end

context exact_store
begin

text \<open>A put that raises changes nothing, or has deleted the metadata that was there before it.\<close>

lemma failed_put_kv_any:
  assumes put: "put_kv_block E b k v st = (Inl e, b', st')"
  shows "(\<forall>mk s1 err. fst (be_delete (env_backend E) mk s1) \<noteq> Inl err) \<longrightarrow> contents (os_storage st') = contents (os_storage st)
      \<or> contents (os_storage st') = (contents (os_storage st))(object_meta_key (env_config E) KV_CACHE (object_id (kv_meta b)) := None)"
proof (cases "fill_token_hash E b")
  case (Inl e1)
  with put show ?thesis by (simp add: put_kv_block_def)
next
  case (Inr b1)
  from any.put_kv_pair [OF put Inr] show ?thesis by (metis put_pair_err)
qed

text \<open>A put of a KV block that raises leaves an absent block absent.\<close>

lemma failed_put_kv_absent:
  assumes put: "put_kv_block E b k v st = (Inl e, b', st')"
    and absent: "\<forall>key \<in> object_keys (env_config E) KV_CACHE (object_id (kv_meta b)). contents (os_storage st) key = None"
  shows "(\<forall>now r. get_kv_block E now (object_id (kv_meta b)) st' = Inr r \<longrightarrow> r = None)
    \<and> ((\<forall>mk s1 err. fst (be_delete (env_backend E) mk s1) \<noteq> Inl err) \<longrightarrow> contents (os_storage st') = contents (os_storage st))"
proof (cases "fill_token_hash E b")
  case (Inl e')
  with put absent have "os_storage st' = os_storage st" by (simp add: put_kv_block_def)
  with absent any.absent_kv_get [of st' "object_id (kv_meta b)"] show ?thesis by (auto simp: object_keys_def)
next
  case (Inr b1)
  let ?mk = "object_meta_key (env_config E) KV_CACHE (object_id (kv_meta b))"
  let ?dk = "main_key (env_config E) KV_CACHE (object_id (kv_meta b))"
  from any.put_kv_pair [OF put Inr] obtain mb where
    pair: "put_pair E ?mk mb ?dk (serialize_kv_tensors (env_codec E) k v) (os_storage st) = (Inl e, os_storage st')" by blast
  have "contents (os_storage st') ?dk = None"
    using any.put_pair_err_main [OF pair kv_keys_apart [symmetric] clean] absent by (simp add: object_keys_def)
  then have "\<forall>now r. get_kv_block E now (object_id (kv_meta b)) st' = Inr r \<longrightarrow> r = None"
    using any.absent_kv_get by blast
  moreover have "(contents (os_storage st))(?mk := None) = contents (os_storage st)"
    using absent by (auto simp: object_keys_def)
  ultimately show ?thesis using put_pair_err [OF pair] by auto
qed

end

context s3_service
begin

lemma keeps_contract: "storage_backend (s3_backend C bucket blen py_str) objs"
  by (rule s3_store.storage_backend_axioms)

end

context clean_s3_service
begin

lemma keeps_exact_contract: "exact_backend (s3_backend C bucket blen py_str) objs"
  by (rule clean_store.exact_backend_axioms)

end

context total_store
begin

lemma put_pair_total:
  "\<exists>s'. put_pair E mk mb dk db s = (Inr (), s')"
proof -
  obtain s1 where s1: "be_put (env_backend E) mk mb None s = (Inr (), s1)" using put_total by blast
  obtain s2 where "be_put (env_backend E) dk db None s1 = (Inr (), s2)" using put_total by blast
  with s1 show ?thesis by (simp add: put_pair_def)
qed

lemma put_kv_total:
  assumes "fill_token_hash E b = Inr b1"
  shows "\<exists>st'. put_kv_block E b k v st = (Inr (object_id (kv_meta b)), b1\<lparr>kv_meta := (kv_meta b1)\<lparr>size_bytes :=
      int (nd_nbytes (rt_numpy (env_runtime E)) k + nd_nbytes (rt_numpy (env_runtime E)) v)\<rparr>\<rparr>, st')"
proof -
  let ?p = "type_prefix (env_config E) KV_CACHE" and ?i = "object_id (kv_meta b)"
  let ?b2 = "b1\<lparr>kv_meta := (kv_meta b1)\<lparr>size_bytes :=
      int (nd_nbytes (rt_numpy (env_runtime E)) k + nd_nbytes (rt_numpy (env_runtime E)) v)\<rparr>\<rparr>"
  obtain s' where "put_pair E (meta_key ?p ?i) (serialize_kv_block_meta (env_codec E) ?b2)
      (data_key ?p ?i ''data.npz'') (serialize_kv_tensors (env_codec E) k v) (os_storage st) = (Inr (), s')"
    using put_pair_total by blast
  with assms show ?thesis by (simp add: put_kv_block_def Let_def)
qed

lemma put_meta_total:
  "\<exists>st'. put_meta_object E pfx oid bytes ty st = (Inr oid, st')"
proof -
  obtain s' where "be_put (env_backend E) (meta_key pfx oid) bytes None (os_storage st) = (Inr (), s')"
    using put_total by blast
  then show ?thesis by (simp add: put_meta_object_def)
qed

text \<open>A deletion of an object with two blobs answers whether one of them was there.\<close>

lemma delete_pair_answer:
  assumes "after_delete E ty oid (delete_pair E pfx oid x (os_storage st)) st = (Inr d, st')"
  shows "d = (contents (os_storage st) (meta_key pfx oid) \<noteq> None \<or> contents (os_storage st) (data_key pfx oid x) \<noteq> None)"
  using assms delete_pair_eq [of pfx oid x "os_storage st"]
  by (auto simp: after_delete_def split: if_splits prod.splits sum.splits)

text \<open>An object without data blob reads back as its dump constructed again.\<close>

lemma put_meta_get:
  assumes "md_bloom_wf (os_metadata st)"
  shows "\<exists>st'. put_meta_object E (type_prefix (env_config E) ty) oid b ty st = (Inr oid, st')
    \<and> get_meta_object E (type_prefix (env_config E) ty) oid load touch_it st' =
        map_sum id (\<lambda>x. Some (touch_it x)) (load b)"
proof -
  obtain st' where put: "put_meta_object E (type_prefix (env_config E) ty) oid b ty st = (Inr oid, st')"
    using put_meta_total by blast
  from put_get_meta [OF put assms] put show ?thesis by blast
qed

lemma put_rag_total:
  assumes "last_axis (rt_numpy (env_runtime E)) v = Inr d"
  shows "\<exists>r' st'. put_rag_object E r v st = (Inr (object_id (rg_meta r)), r', st') \<and> rg_embedding_dim r' = d"
proof -
  let ?p = "type_prefix (env_config E) RAG" and ?i = "object_id (rg_meta r)"
  let ?r1 = "r\<lparr>rg_embedding_dim := d, rg_meta := (rg_meta r)\<lparr>size_bytes :=
      int (nd_nbytes (rt_numpy (env_runtime E)) v)\<rparr>\<rparr>"
  obtain s' where "put_pair E (meta_key ?p ?i) (serialize_rag_meta (env_codec E) ?r1)
      (data_key ?p ?i ''data.npy'') (serialize_embedding (env_codec E) v) (os_storage st) = (Inr (), s')"
    using put_pair_total by blast
  with assms show ?thesis by (simp add: put_rag_object_def Let_def)
qed

lemma put_plan_total:
  assumes "last_axis (rt_numpy (env_runtime E)) v = Inr d"
  shows "\<exists>p' st'. put_plan_cache_entry E p v st = (Inr (pl_plan_id p), p', st')
    \<and> pl_task_embedding_dim p' = d \<and> pl_plan_template p' = pl_plan_template p"
proof -
  let ?p = "type_prefix (env_config E) PLAN_CACHE" and ?i = "pl_plan_id p"
  let ?p1 = "p\<lparr>pl_task_embedding_dim := d, pl_meta := (pl_meta p)\<lparr>object_id := pl_plan_id p,
      m_plan_id := Some (pl_plan_id p), m_scope := Some (pl_validity_scope p),
      size_bytes := int (nd_nbytes (rt_numpy (env_runtime E)) v)\<rparr>\<rparr>"
  obtain s' where "put_pair E (meta_key ?p ?i) (serialize_plan_cache_entry (env_codec E) ?p1)
      (data_key ?p ?i ''data.npy'') (serialize_plan_embedding (env_codec E) v) (os_storage st) = (Inr (), s')"
    using put_pair_total by blast
  with assms show ?thesis by (simp add: put_plan_cache_entry_def Let_def)
qed

text \<open>A semantic entry is stored before it is indexed: it can be read also when indexing raised.\<close>

lemma put_semantic_total:
  assumes K: "codec_ok (env_codec E)" and wf: "md_bloom_wf (os_metadata st)"
    and axis: "last_axis (rt_numpy (env_runtime E)) v = Inr d"
  shows "\<exists>e' st'. put_semantic_entry E e v st =
      (map_sum id (\<lambda>_. object_id (se_meta e))
         (fst (on_semantic_entry_added (env_runtime E) (object_id (se_meta e)) v (os_metadata st))), e', st')
    \<and> se_embedding_dim e' = d
    \<and> get_semantic_entry E now (object_id (se_meta e)) st' =
        Inr (Some (e'\<lparr>se_meta := touch now (se_meta e')\<rparr>, v))"
proof -
  let ?p = "type_prefix (env_config E) SEMANTIC_CACHE" and ?i = "object_id (se_meta e)"
  let ?e1 = "e\<lparr>se_embedding_dim := d, se_meta := (se_meta e)\<lparr>size_bytes :=
      int (nd_nbytes (rt_numpy (env_runtime E)) v)\<rparr>\<rparr>"
  obtain q md' where q: "on_semantic_entry_added (env_runtime E) ?i v (os_metadata st) = (q, md')" by fastforce
  obtain s' where pair: "put_pair E (meta_key ?p ?i) (serialize_semantic_entry (env_codec E) ?e1)
      (data_key ?p ?i ''data.npy'') (serialize_embedding (env_codec E) v) (os_storage st) = (Inr (), s')"
    using put_pair_total by blast
  let ?st' = "st\<lparr>os_storage := s', os_metadata := md'\<rparr>"
  have put: "put_semantic_entry E e v st = (map_sum id (\<lambda>_. ?i) q, ?e1, ?st')"
    using axis pair q by (cases q) (simp_all add: put_semantic_entry_def Let_def)
  have "might_exist (env_runtime E) ?i md'" using indexes_semantic [OF q] wf by (simp add: indexes_def)
  moreover have "stored_pair contents (env_config E) SEMANTIC_CACHE ?i s' =
      Some (serialize_semantic_entry (env_codec E) ?e1, serialize_embedding (env_codec E) v)"
    using pair by (intro put_pair_stored) (simp_all add: main_key_def)
  ultimately have "get_semantic_entry E now ?i ?st' = Inr (Some (?e1\<lparr>se_meta := touch now (se_meta ?e1)\<rparr>, v))"
    by (simp add: get_semantic_refines read_array_pair_def codec_okD [OF K])
  with put show ?thesis unfolding q by (intro exI [of _ ?e1] exI [of _ ?st']) simp
qed

end

text \<open>A reachable state of a store on a backend that does not raise.\<close>

lemma total_objects: "total_store E contents \<Longrightarrow> object_store E contents"
  by (simp add: total_store_def object_store_def total_backend_def counting_backend_def exact_backend_def)

lemma reachable_wf:
  assumes "object_store E contents" and "fresh_store contents st0" and "store_reachable E st0 st"
  shows "md_bloom_wf (os_metadata st)"
  using object_store.reachable_bloom_wf [OF assms(1,3)] assms(2) by (simp add: fresh_store_def)

lemma total_exact: "total_store E contents \<Longrightarrow> exact_store E contents"
  by (simp add: total_store_def exact_store_def total_backend_def counting_backend_def)

lemma exact_objects: "exact_store E contents \<Longrightarrow> object_store E contents"
  by (simp add: object_store_def exact_store_def exact_backend_def)

lemma reachable_is_indexed:
  assumes "exact_store E contents" and "fresh_store contents st0" and "store_reachable E st0 st"
    and "prefixes_ok (env_config E)"
  shows "indexed E contents st"
  using exact_store.reachable_indexed [OF assms(1,4,3)] fresh_indexed [OF assms(2)] by blast

lemma reachable_objects_only:
  assumes "object_store E contents" and "fresh_store contents st0" and "store_reachable E st0 st"
  shows "only_objects E contents st"
  using object_store.reachable_only_objects [OF assms(1,3)] fresh_indexed [OF assms(2)] by blast

section \<open>The contract of the managers\<close>

text \<open>
  The contract of the store that its managers rely on: a backend that does not raise, a codec that
  restores what it wrote, and types with prefixes of their own.
\<close>

locale codec_store = total_store +
  assumes codec: "codec_ok (env_codec E)" and prefixes: "prefixes_ok (env_config E)"

text \<open>The memory backend with a faithful codec is such a store.\<close>

interpretation mem_codec: codec_store
  "E\<lparr>env_backend := memory_backend blen, env_codec := blob_codec, env_config := default_config\<rparr>" memory_contents
  for E :: "('a blob MemoryBackend, 'h, 'a, 'a blob) StoreEnv" and blen :: "'a blob \<Rightarrow> nat"
  by (simp add: codec_store_def codec_store_axioms_def total_store_def mem.total_backend_axioms)

section \<open>Examples\<close>

definition sample_env ::
    "(rat list blob MemoryBackend, (nat \<times> rat list) list, rat list, rat list blob) StoreEnv" where
  "sample_env = \<lparr>env_backend = memory_backend (\<lambda>b. 1), env_config = default_config,
     env_runtime = sample_runtime, env_codec = blob_codec, env_int32_bytes = (\<lambda>ids. Inr (concat (map int_str ids)))\<rparr>"

definition sample_store :: "(rat list blob MemoryBackend, (nat \<times> rat list) list) UnifiedObjectStore" where
  "sample_store = \<lparr>os_storage = memory_init, os_metadata = empty_metadata\<rparr>"

lemma sample_env_simps [simp]:
  "env_config sample_env = default_config" "env_codec sample_env = blob_codec"
  "env_runtime sample_env = sample_runtime" "env_backend sample_env = memory_backend (\<lambda>b. 1)"
  by (simp_all add: sample_env_def)

lemma sample_total: "total_store sample_env memory_contents"
  by (simp add: total_store_def mem.total_backend_axioms)

lemma sample_objects: "object_store sample_env memory_contents"
  by (simp add: object_store_def mem.storage_backend_axioms)

lemma sample_fresh: "fresh_store memory_contents sample_store"
  by (simp add: fresh_store_def sample_store_def memory_contents_def memory_init_def empty_metadata_wf)

lemma sample_codec_store: "codec_store sample_env memory_contents"
  by (simp add: codec_store_def codec_store_axioms_def sample_total)

text \<open>A store that holds one KV block.\<close>

definition sample_filled :: "(rat list blob MemoryBackend, (nat \<times> rat list) list) UnifiedObjectStore" where
  "sample_filled = snd (snd (put_kv_block sample_env (sample_block ''blk'' [1, 2]) [1] [2] sample_store))"

lemma sample_put_step: "store_step sample_env KV_CACHE ''blk'' sample_store sample_filled"
proof -
  obtain r b' where "put_kv_block sample_env (sample_block ''blk'' [1, 2]) [1] [2] sample_store = (r, b', sample_filled)"
    unfolding sample_filled_def by (metis prod.collapse)
  from store_step.put_kv [OF this] show ?thesis by simp
qed

lemma sample_filled_reachable: "store_reachable sample_env sample_store sample_filled"
  by (rule store_reachable.step [OF store_reachable.start sample_put_step])

definition sample_rag :: "string \<Rightarrow> RAGObject" where
  "sample_rag oid = \<lparr>rg_meta = new_meta oid 0 RAG, rg_document_id = ''d'', rg_chunk_index = 0, rg_chunk_text = ''text'',
     rg_embedding_dim = 0, rg_source = ''src'', rg_page_number = None\<rparr>"

definition sample_workflow :: "string \<Rightarrow> AgentWorkflow" where
  "sample_workflow w = \<lparr>wf_meta = new_meta w 0 AGENT_WORKFLOW, wf_workflow_id = w, wf_session_id = ''s'',
     wf_workflow_type = REACT, wf_created_at = 0, wf_status = CREATED, wf_agent_ids = [], wf_step_ids = []\<rparr>"

definition sample_plan :: "string \<Rightarrow> PlanCacheEntry" where
  "sample_plan p = \<lparr>pl_meta = new_meta p 0 PLAN_CACHE, pl_plan_id = p, pl_task_embedding_dim = 0,
     pl_plan_template = ''plan'', pl_required_tools = [''search''], pl_constraints = [], pl_success_count = 0,
     pl_failure_count = 0, pl_last_validated_at = None, pl_validity_scope = SESSION\<rparr>"

definition sample_entry :: "string \<Rightarrow> SemanticCacheEntry" where
  "sample_entry e = \<lparr>se_meta = new_meta e 0 SEMANTIC_CACHE, se_prompt_text = ''prompt'', se_response_text = ''response'',
     se_model_name = ''model'', se_embedding_dim = 0, se_reuse_count = 0, se_similarity_threshold = 9 / 10\<rparr>"

definition sample_step :: "string \<Rightarrow> string \<Rightarrow> AgentStep" where
  "sample_step s w = \<lparr>st_meta = new_meta s 0 AGENT_STEP, st_step_id = s, st_workflow_id = w, st_agent_id = ''a'',
     st_turn_id = 0, st_parent_step_id = None, st_input_prompt_hash = ''h'', st_output_hash = [], st_tool_call_id = None,
     st_kv_block_ids = [], st_rag_object_ids = [], st_semantic_entry_ids = [], st_timestamp_start = 0,
     st_timestamp_end = None\<rparr>"

definition sample_tool :: "string \<Rightarrow> ToolCallArtifact" where
  "sample_tool t = \<lparr>ta_meta = new_meta t 0 TOOL_CALL_ARTIFACT, ta_tool_call_id = t, ta_tool_name = ''search'',
     ta_tool_args_hash = ''h'', ta_tool_output_hash = ''o'', ta_tool_output_payload = [], ta_ttl = 10,
     ta_source_version = ''v1'', ta_permission_scope = SESSION, ta_created_at = 0, ta_expires_at = 10\<rparr>"

definition sample_trace :: "string \<Rightarrow> WorkflowTrace" where
  "sample_trace w = \<lparr>tr_meta = new_meta w 0 WORKFLOW_TRACE, tr_workflow_id = w, tr_ordered_steps = [],
     tr_tool_latencies = [], tr_prompt_lengths = [], tr_shared_prefix_ratio = 0, tr_branching_factor = 1,
     tr_cache_events = []\<rparr>"

text \<open>A store on a bucket with room for one blob.\<close>

definition quota_env ::
    "(rat list blob Bucket, (nat \<times> rat list) list, rat list, rat list blob) StoreEnv" where
  "quota_env = \<lparr>env_backend = s3_backend bucket_client ''b'' (\<lambda>b. 1) (\<lambda>j. []), env_config = default_config,
     env_runtime = sample_runtime, env_codec = blob_codec, env_int32_bytes = (\<lambda>ids. Inr (concat (map int_str ids)))\<rparr>"

definition quota_store :: "(rat list blob Bucket, (nat \<times> rat list) list) UnifiedObjectStore" where
  "quota_store = \<lparr>os_storage = \<lparr>bk_objects = [], bk_quota = 1\<rparr>, os_metadata = empty_metadata\<rparr>"

lemma quota_exact: "exact_store quota_env bucket_contents"
  by (simp add: exact_store_def quota_env_def bucket.clean_store.exact_backend_axioms)

lemma quota_objects: "object_store quota_env bucket_contents"
  by (rule exact_objects [OF quota_exact])

lemma quota_put:
  "\<exists>b' st'. put_kv_block quota_env (sample_block ''blk'' [1, 2]) [1] [2] quota_store
     = (Inl (LibError ''ClientError QuotaExceeded''), b', st')"
  by (simp add: quota_env_def quota_store_def put_kv_block_def fill_token_hash_def sample_block_def put_pair_def
      s3_put_def bucket_client_def Let_def s3_delete_def s3_exists_def meta_key_def data_key_def default_config_def
      dmem_def new_meta_def)

text \<open>Any operation on another object.\<close>

definition steps_elsewhere ::
    "('s, 'h, 'a, 'b) StoreEnv \<Rightarrow> ObjectType \<Rightarrow> string \<Rightarrow> ('s, 'h) UnifiedObjectStore \<Rightarrow> ('s, 'h) UnifiedObjectStore \<Rightarrow> bool" where
  "steps_elsewhere E ty oid st st' \<longleftrightarrow> (\<exists>ty' oid'. (ty', oid') \<noteq> (ty, oid) \<and> store_step E ty' oid' st st')"

text \<open>The store holds this block: both blobs are there and the filter knows the id.\<close>

definition holds_kv ::
    "('s, 'h, 'a, 'b) StoreEnv \<Rightarrow> ('s \<Rightarrow> string \<Rightarrow> 'b option) \<Rightarrow> string \<Rightarrow> KVCacheBlock \<Rightarrow> 'a \<Rightarrow> 'a \<Rightarrow> ('s, 'h) UnifiedObjectStore \<Rightarrow> bool" where
  "holds_kv E contents oid b k v st \<longleftrightarrow>
     contents (os_storage st) (object_meta_key (env_config E) KV_CACHE oid) = Some (serialize_kv_block_meta (env_codec E) b)
     \<and> contents (os_storage st) (main_key (env_config E) KV_CACHE oid) = Some (serialize_kv_tensors (env_codec E) k v)
     \<and> md_bloom_wf (os_metadata st) \<and> might_exist (env_runtime E) oid (os_metadata st)"

context object_store
begin

lemma put_kv_holds:
  assumes put: "put_kv_block E b k v st = (Inr i, b', st')" and fill: "fill_token_hash E b = Inr b1" and wf: "md_bloom_wf (os_metadata st)"
  shows "i = object_id (kv_meta b)"
    and "b' = b1\<lparr>kv_meta := (kv_meta b1)\<lparr>size_bytes :=
      int (nd_nbytes (rt_numpy (env_runtime E)) k + nd_nbytes (rt_numpy (env_runtime E)) v)\<rparr>\<rparr>"
    and "holds_kv E contents i b' k v st'"
proof -
  let ?p = "type_prefix (env_config E) KV_CACHE" and ?i = "object_id (kv_meta b)"
  let ?b2 = "b1\<lparr>kv_meta := (kv_meta b1)\<lparr>size_bytes :=
      int (nd_nbytes (rt_numpy (env_runtime E)) k + nd_nbytes (rt_numpy (env_runtime E)) v)\<rparr>\<rparr>"
  let ?ts = "if kv_token_ids ?b2 = [] then None else Some (kv_token_ids ?b2)"
  obtain out s' where pair: "put_pair E (meta_key ?p ?i) (serialize_kv_block_meta (env_codec E) ?b2)
      (data_key ?p ?i ''data.npz'') (serialize_kv_tensors (env_codec E) k v) (os_storage st) = (out, s')" by fastforce
  with put fill have out: "out = Inr ()" and i: "i = ?i" and b': "b' = ?b2"
    and st': "os_storage st' = s'" "os_metadata st' = on_object_added (env_runtime E) KV_CACHE ?i ?ts (os_metadata st)"
    by (auto simp: put_kv_block_def Let_def split: sum.splits)
  from put_pair_ok [OF pair [unfolded out]] meta_main_neq [of KV_CACHE "env_config E" ?i ?i]
  have "contents s' (meta_key ?p ?i) = Some (serialize_kv_block_meta (env_codec E) ?b2)"
    "contents s' (main_key (env_config E) KV_CACHE ?i) = Some (serialize_kv_tensors (env_codec E) k v)"
    by (auto simp: main_key_def)
  then show "holds_kv E contents i b' k v st'"
    using on_object_added_grows [OF wf, of "env_runtime E" KV_CACHE ?i ?ts]
    by (simp add: holds_kv_def i b' st' object_meta_key_def md_grows_def)
  show "i = ?i" and "b' = ?b2" by (fact i, fact b')
qed

lemma holds_later:
  assumes pre: "prefixes_ok (env_config E)" and run: "(steps_elsewhere E KV_CACHE oid)\<^sup>*\<^sup>* st st'" and "holds_kv E contents oid b k v st"
  shows "holds_kv E contents oid b k v st'"
  using run
proof (induction rule: rtranclp_induct)
  case base
  with assms(3) show ?case by simp
next
  case (step st1 st2)
  then obtain ty' oid' where other: "(ty', oid') \<noteq> (KV_CACHE, oid)" "store_step E ty' oid' st1 st2" by (auto simp: steps_elsewhere_def)
  have "contents (os_storage st2) key = contents (os_storage st1) key" if "key \<in> object_keys (env_config E) KV_CACHE oid" for key
    using store_step_confined [OF other(2)] object_keys_disjoint [OF pre that, of ty' oid'] other(1) by (auto simp: confined_def)
  with step.IH store_step_confined [OF other(2)] show ?case
    by (simp add: holds_kv_def confined_def object_keys_def md_grows_def)
qed

lemma holds_get:
  assumes K: "codec_ok (env_codec E)" and "holds_kv E contents oid b k v st"
  shows "get_kv_block E now oid st = Inr (Some (b\<lparr>kv_meta := touch now (kv_meta b)\<rparr>, k, v))
    \<or> (\<exists>key e. be_get (env_backend E) key (os_storage st) = Inl e \<and> get_kv_block E now oid st = Inl e)"
proof -
  let ?p = "get_pair E (object_meta_key (env_config E) KV_CACHE oid) (main_key (env_config E) KV_CACHE oid) (os_storage st)"
  have get: "get_kv_block E now oid st = (case ?p of Inl e \<Rightarrow> Inl e | Inr q \<Rightarrow> lookup (read_kv (env_codec E) now) q)"
    using assms(2) by (auto simp: get_kv_block_def holds_kv_def object_meta_key_def main_key_def read_kv_def Let_def
        split: sum.split option.split prod.split)
  show ?thesis
  proof (cases ?p)
    case (Inl e)
    then have "\<exists>key. be_get (env_backend E) key (os_storage st) = Inl e"
      by (auto simp: get_pair_def split: sum.splits option.splits)
    with get Inl show ?thesis by auto
  next
    case (Inr q)
    from get_pair_ok [OF this] assms(2) have "q = Some (serialize_kv_block_meta (env_codec E) b, serialize_kv_tensors (env_codec E) k v)"
      by (simp add: holds_kv_def)
    with get Inr show ?thesis by (simp add: read_kv_def codec_okD [OF K])
  qed
qed

end

section \<open>Reads over a backend that may raise\<close>

text \<open>A read that ended in an exception of the backend, and reads that agree unless one of them did.\<close>

definition backend_failed :: "('s, 'h, 'a, 'b) StoreEnv \<Rightarrow> ('s, 'h) UnifiedObjectStore \<Rightarrow> 'o option res \<Rightarrow> bool" where
  "backend_failed E st r \<longleftrightarrow> (\<exists>key e. be_get (env_backend E) key (os_storage st) = Inl e \<and> r = Inl e)"

definition agree ::
    "('s, 'h, 'a, 'b) StoreEnv \<Rightarrow> ('s, 'h) UnifiedObjectStore \<Rightarrow> ('s, 'h) UnifiedObjectStore
       \<Rightarrow> (('s, 'h) UnifiedObjectStore \<Rightarrow> 'o option res) \<Rightarrow> bool" where
  "agree E st st' rd \<longleftrightarrow> rd st' = rd st \<or> backend_failed E st (rd st) \<or> backend_failed E st' (rd st')"

fun same_unless_raised ::
    "('s, 'h, 'a, 'b) StoreEnv \<Rightarrow> rat \<Rightarrow> ObjectType \<Rightarrow> string \<Rightarrow> ('s, 'h) UnifiedObjectStore
       \<Rightarrow> ('s, 'h) UnifiedObjectStore \<Rightarrow> bool" where
  "same_unless_raised E now KV_CACHE oid st st' = agree E st st' (get_kv_block E now oid)"
| "same_unless_raised E now RAG oid st st' = agree E st st' (get_rag_object E now oid)"
| "same_unless_raised E now SEMANTIC_CACHE oid st st' = agree E st st' (get_semantic_entry E now oid)"
| "same_unless_raised E now AGENT_WORKFLOW oid st st' = agree E st st' (get_agent_workflow E now oid)"
| "same_unless_raised E now AGENT_STEP oid st st' = agree E st st' (get_agent_step E now oid)"
| "same_unless_raised E now TOOL_CALL_ARTIFACT oid st st' = agree E st st' (get_tool_artifact E now oid)"
| "same_unless_raised E now PLAN_CACHE oid st st' = agree E st st' (get_plan_cache_entry E now oid)"
| "same_unless_raised E now WORKFLOW_TRACE oid st st' = agree E st st' (get_workflow_trace E now oid)"

text \<open>What a read answers: what is stored, when the filter knows the id.\<close>

definition settles ::
    "('s, 'h, 'a, 'b) StoreEnv \<Rightarrow> string \<Rightarrow> ('s, 'h) UnifiedObjectStore \<Rightarrow> ('p \<Rightarrow> 'o res) \<Rightarrow> 'p option \<Rightarrow> 'o option res \<Rightarrow> bool" where
  "settles E oid st rd p r \<longleftrightarrow>
     r = (if might_exist (env_runtime E) oid (os_metadata st) then lookup rd p else Inr None) \<or> backend_failed E st r"

lemma settles_agree:
  assumes "settles E oid st rd p (f st)" and "settles E oid st' rd p' (f st')" and "p' = p"
    and "might_exist (env_runtime E) oid (os_metadata st) \<or> p = None"
    and "might_exist (env_runtime E) oid (os_metadata st') \<or> p = None"
  shows "agree E st st' f"
  using assms by (auto simp: settles_def agree_def split: if_splits)

context object_store
begin

lemma get_pair_settles:
  assumes "r = (if \<not> might_exist (env_runtime E) oid (os_metadata st) then Inr None
      else case get_pair E (object_meta_key (env_config E) ty oid) (main_key (env_config E) ty oid) (os_storage st) of
        Inl e \<Rightarrow> Inl e | Inr q \<Rightarrow> lookup rd q)"
  shows "settles E oid st rd (stored_pair contents (env_config E) ty oid (os_storage st)) r"
proof (cases "get_pair E (object_meta_key (env_config E) ty oid) (main_key (env_config E) ty oid) (os_storage st)")
  case (Inl e)
  then have "\<exists>key. be_get (env_backend E) key (os_storage st) = Inl e"
    by (auto simp: get_pair_def split: sum.splits option.splits)
  with assms Inl show ?thesis by (auto simp: settles_def backend_failed_def)
next
  case (Inr q)
  from get_pair_ok [OF this] assms Inr show ?thesis by (simp add: settles_def stored_pair_def)
qed

lemma get_kv_settles:
  "settles E oid st (read_kv (env_codec E) now) (stored_pair contents (env_config E) KV_CACHE oid (os_storage st)) (get_kv_block E now oid st)"
  by (rule get_pair_settles)
     (auto simp: get_kv_block_def object_meta_key_def main_key_def read_kv_def Let_def split: sum.split option.split prod.split)

lemma get_rag_settles:
  "settles E oid st (read_array_pair (env_codec E) (deserialize_rag_meta (env_codec E)) (\<lambda>x. x\<lparr>rg_meta := touch now (rg_meta x)\<rparr>))
     (stored_pair contents (env_config E) RAG oid (os_storage st)) (get_rag_object E now oid st)"
  by (rule get_pair_settles)
     (auto simp: get_rag_object_def object_meta_key_def main_key_def read_array_pair_def Let_def split: sum.split option.split prod.split)

lemma get_semantic_settles:
  "settles E oid st (read_array_pair (env_codec E) (deserialize_semantic_entry (env_codec E)) (\<lambda>x. x\<lparr>se_meta := touch now (se_meta x)\<rparr>))
     (stored_pair contents (env_config E) SEMANTIC_CACHE oid (os_storage st)) (get_semantic_entry E now oid st)"
  by (rule get_pair_settles)
     (auto simp: get_semantic_entry_def object_meta_key_def main_key_def read_array_pair_def Let_def split: sum.split option.split prod.split)

lemma get_plan_settles:
  "settles E oid st (read_array_pair (env_codec E) (deserialize_plan_cache_entry (env_codec E)) (\<lambda>x. x\<lparr>pl_meta := touch now (pl_meta x)\<rparr>))
     (stored_pair contents (env_config E) PLAN_CACHE oid (os_storage st)) (get_plan_cache_entry E now oid st)"
  by (rule get_pair_settles)
     (auto simp: get_plan_cache_entry_def object_meta_key_def main_key_def read_array_pair_def deserialize_plan_embedding_def Let_def
       split: sum.split option.split prod.split)

lemma get_meta_settles:
  "settles E oid st (\<lambda>b. map_sum id touch_it (load b)) (stored_meta contents (env_config E) ty oid (os_storage st))
     (get_meta_object E (type_prefix (env_config E) ty) oid load touch_it st)"
  using get_ok [of "object_meta_key (env_config E) ty oid" "os_storage st"]
  by (auto simp: settles_def backend_failed_def get_meta_object_def stored_meta_def object_meta_key_def
      split: sum.splits option.splits)

lemma get_meta_agree:
  assumes "stored_meta contents (env_config E) ty oid (os_storage st') = stored_meta contents (env_config E) ty oid (os_storage st)"
    and "might_exist (env_runtime E) oid (os_metadata st) \<or> stored_meta contents (env_config E) ty oid (os_storage st) = None"
    and "might_exist (env_runtime E) oid (os_metadata st') \<or> stored_meta contents (env_config E) ty oid (os_storage st) = None"
  shows "agree E st st' (get_meta_object E (type_prefix (env_config E) ty) oid load touch_it)"
  by (rule settles_agree [OF get_meta_settles get_meta_settles assms])

text \<open>An operation on another object leaves what is stored of this one, so reads of it agree.\<close>

lemma stored_apart:
  assumes "prefixes_ok (env_config E)" and "store_step E ty oid st st'" and "(ty', oid') \<noteq> (ty, oid)"
  shows "stored_pair contents (env_config E) ty' oid' (os_storage st') = stored_pair contents (env_config E) ty' oid' (os_storage st)"
    and "stored_meta contents (env_config E) ty' oid' (os_storage st') = stored_meta contents (env_config E) ty' oid' (os_storage st)"
proof -
  have same: "contents (os_storage st') k = contents (os_storage st) k" if "k \<in> object_keys (env_config E) ty' oid'" for k
    using store_step_confined [OF assms(2)] object_keys_disjoint [OF assms(1) that, of ty oid] assms(3) by (auto simp: confined_def)
  show "stored_pair contents (env_config E) ty' oid' (os_storage st') = stored_pair contents (env_config E) ty' oid' (os_storage st)"
    and "stored_meta contents (env_config E) ty' oid' (os_storage st') = stored_meta contents (env_config E) ty' oid' (os_storage st)"
    by (simp_all add: stored_pair_def stored_meta_def same object_keys_def split: option.split)
qed

lemma indexed_absent:
  assumes "indexed E contents st" and "\<not> might_exist (env_runtime E) oid (os_metadata st)"
  shows "stored_pair contents (env_config E) ty oid (os_storage st) = None"
    and "data_ext ty = None \<Longrightarrow> stored_meta contents (env_config E) ty oid (os_storage st) = None"
  using indexed_main [OF assms, of ty] main_key_None [of ty "env_config E" oid]
  by (simp_all add: stored_pair_def stored_meta_def split: option.split)

lemma step_reads_agree:
  assumes ok: "prefixes_ok (env_config E)" and step: "store_step E ty oid st st'" and other: "(ty', oid') \<noteq> (ty, oid)"
    and wf: "md_bloom_wf (os_metadata st)"
    and known: "might_exist (env_runtime E) oid' (os_metadata st) \<or> exact_store E contents"
    and idx: "exact_store E contents \<Longrightarrow> indexed E contents st"
  shows "same_unless_raised E now ty' oid' st st'"
proof -
  have conf: "confined E contents ty oid st st'" by (rule store_step_confined [OF step])
  with wf have grow: "md_grows (env_runtime E) (os_metadata st) (os_metadata st')" by (simp add: confined_def)
  have idx': "indexed E contents st'" if "exact_store E contents"
    by (rule indexed_confined [OF ok idx [OF that] conf exact_backend.clean [OF that [unfolded exact_store_def]]])
  let ?P = "\<lambda>st. stored_pair contents (env_config E) ty' oid' (os_storage st)"
  let ?M = "\<lambda>st. stored_meta contents (env_config E) ty' oid' (os_storage st)"
  let ?K = "\<lambda>st. might_exist (env_runtime E) oid' (os_metadata st)"
  note same = stored_apart [OF ok step other]
  have p: "?K st \<or> ?P st = None" "?K st' \<or> ?P st = None"
    using known grow indexed_absent(1) [OF idx, of oid' ty'] indexed_absent(1) [OF idx', of oid' ty'] same
    unfolding md_grows_def by metis+
  have m: "?K st \<or> ?M st = None" "?K st' \<or> ?M st = None" if "data_ext ty' = None"
    using known grow indexed_absent(2) [OF idx, of oid' ty'] indexed_absent(2) [OF idx', of oid' ty'] same that
    unfolding md_grows_def by metis+
  have kv: "agree E st st' (get_kv_block E now oid')" if "ty' = KV_CACHE"
    by (rule settles_agree [where f = "get_kv_block E now oid'", OF get_kv_settles get_kv_settles]) (use same(1) p that in simp_all)
  have rag: "agree E st st' (get_rag_object E now oid')" if "ty' = RAG"
    by (rule settles_agree [where f = "get_rag_object E now oid'", OF get_rag_settles get_rag_settles]) (use same(1) p that in simp_all)
  have semantic: "agree E st st' (get_semantic_entry E now oid')" if "ty' = SEMANTIC_CACHE"
    by (rule settles_agree [where f = "get_semantic_entry E now oid'", OF get_semantic_settles get_semantic_settles]) (use same(1) p that in simp_all)
  have plan: "agree E st st' (get_plan_cache_entry E now oid')" if "ty' = PLAN_CACHE"
    by (rule settles_agree [where f = "get_plan_cache_entry E now oid'", OF get_plan_settles get_plan_settles]) (use same(1) p that in simp_all)
  show ?thesis
  proof (cases ty')
    case AGENT_WORKFLOW
    with get_meta_agree [OF same(2) m] show ?thesis by (simp add: get_meta_defs [abs_def] del: type_prefix.simps)
  next
    case AGENT_STEP
    with get_meta_agree [OF same(2) m] show ?thesis by (simp add: get_meta_defs [abs_def] del: type_prefix.simps)
  next
    case TOOL_CALL_ARTIFACT
    with get_meta_agree [OF same(2) m] show ?thesis by (simp add: get_meta_defs [abs_def] del: type_prefix.simps)
  next
    case WORKFLOW_TRACE
    with get_meta_agree [OF same(2) m] show ?thesis by (simp add: get_meta_defs [abs_def] del: type_prefix.simps)
  qed (use kv rag semantic plan in simp_all)
qed

end

section \<open>Deletions over any backend\<close>

fun delete_of ::
    "('s, 'h, 'a, 'b) StoreEnv \<Rightarrow> ObjectType \<Rightarrow> string \<Rightarrow> ('s, 'h) UnifiedObjectStore \<Rightarrow> bool res \<times> ('s, 'h) UnifiedObjectStore" where
  "delete_of E KV_CACHE oid st = delete_kv_block E oid st"
| "delete_of E RAG oid st = delete_rag_object E oid st"
| "delete_of E SEMANTIC_CACHE oid st = delete_semantic_entry E oid st"
| "delete_of E AGENT_WORKFLOW oid st = delete_agent_workflow E oid st"
| "delete_of E AGENT_STEP oid st = delete_agent_step E oid st"
| "delete_of E TOOL_CALL_ARTIFACT oid st = delete_tool_artifact E oid st"
| "delete_of E PLAN_CACHE oid st = delete_plan_cache_entry E oid st"
| "delete_of E WORKFLOW_TRACE oid st = delete_workflow_trace E oid st"

text \<open>A read finds nothing, or raises what the backend raises.\<close>

definition finds_nothing :: "('s, 'h, 'a, 'b) StoreEnv \<Rightarrow> ('s, 'h) UnifiedObjectStore \<Rightarrow> 'o option res \<Rightarrow> bool" where
  "finds_nothing E st r \<longleftrightarrow> r = Inr None \<or> backend_failed E st r"

fun reads_nothing ::
    "('s, 'h, 'a, 'b) StoreEnv \<Rightarrow> rat \<Rightarrow> ObjectType \<Rightarrow> string \<Rightarrow> ('s, 'h) UnifiedObjectStore \<Rightarrow> bool" where
  "reads_nothing E now KV_CACHE oid st = finds_nothing E st (get_kv_block E now oid st)"
| "reads_nothing E now RAG oid st = finds_nothing E st (get_rag_object E now oid st)"
| "reads_nothing E now SEMANTIC_CACHE oid st = finds_nothing E st (get_semantic_entry E now oid st)"
| "reads_nothing E now AGENT_WORKFLOW oid st = finds_nothing E st (get_agent_workflow E now oid st)"
| "reads_nothing E now AGENT_STEP oid st = finds_nothing E st (get_agent_step E now oid st)"
| "reads_nothing E now TOOL_CALL_ARTIFACT oid st = finds_nothing E st (get_tool_artifact E now oid st)"
| "reads_nothing E now PLAN_CACHE oid st = finds_nothing E st (get_plan_cache_entry E now oid st)"
| "reads_nothing E now WORKFLOW_TRACE oid st = finds_nothing E st (get_workflow_trace E now oid st)"

lemma settles_nothing: "settles E oid st rd None r \<Longrightarrow> finds_nothing E st r"
  by (auto simp: settles_def finds_nothing_def)

lemma after_delete_storage: "after_delete E ty oid (out, s') st = (r, st') \<Longrightarrow> os_storage st' = s'"
  by (auto simp: after_delete_def split: sum.splits if_splits prod.splits)

lemma after_delete_answer: "after_delete E ty oid (out, s') st = (Inr d, st') \<Longrightarrow> out = Inr d"
  by (auto simp: after_delete_def split: sum.splits if_splits prod.splits)

context object_store
begin

text \<open>A bulk deletion of two keys that counts at least one has left at most one.\<close>

lemma delete_pair_half:
  assumes "data_ext ty = Some x"
    and "after_delete E ty oid (delete_pair E (type_prefix (env_config E) ty) oid x (os_storage st)) st = (Inr True, st')"
  shows "stored_pair contents (env_config E) ty oid (os_storage st') = None"
proof -
  let ?mk = "object_meta_key (env_config E) ty oid" and ?dk = "main_key (env_config E) ty oid"
  obtain r s' where many: "be_delete_many (env_backend E) [?mk, ?dk] (os_storage st) = (r, s')" by fastforce
  have pair: "delete_pair E (type_prefix (env_config E) ty) oid x (os_storage st) = (map_sum id (\<lambda>n. 0 < n) r, s')"
    using many assms(1) by (cases r) (simp_all add: delete_pair_def object_meta_key_def main_key_def)
  from after_delete_answer [OF assms(2) [unfolded pair]] obtain n where n: "r = Inr n" "0 < n" by (cases r) auto
  have st': "os_storage st' = s'" by (rule after_delete_storage [OF assms(2) [unfolded pair]])
  have neq: "?dk \<noteq> ?mk" using meta_main_neq [of ty "env_config E" oid oid] assms(1) by (simp add: object_meta_key_def)
  have "contents s' ?mk = None \<or> contents s' ?dk = None"
  proof (rule ccontr)
    assume "\<not> ?thesis"
    then have "{k \<in> set [?mk, ?dk]. contents s' k \<noteq> None} = {?mk, ?dk}" by auto
    then have "card {k \<in> set [?mk, ?dk]. contents s' k \<noteq> None} = 2" using neq by simp
    with many_left [OF many [unfolded n(1)]] n(2) show False by simp
  qed
  then show ?thesis by (auto simp: stored_pair_def st' split: option.split)
qed

lemma delete_meta_none:
  assumes "delete_meta_object E (type_prefix (env_config E) ty) oid ty st = (Inr d, st')"
  shows "stored_meta contents (env_config E) ty oid (os_storage st') = None"
proof -
  let ?mk = "meta_key (type_prefix (env_config E) ty) oid"
  obtain r s' where del: "be_delete (env_backend E) ?mk (os_storage st) = (r, s')" by fastforce
  note call = assms [unfolded delete_meta_object_def del]
  from deleted_ok [OF del [unfolded after_delete_answer [OF call]]] after_delete_storage [OF call]
  show ?thesis by (simp add: stored_meta_def object_meta_key_def)
qed

lemma delete_meta_nothing:
  "delete_meta_object E (type_prefix (env_config E) ty) oid ty st = (Inr d, st') \<Longrightarrow>
     finds_nothing E st' (get_meta_object E (type_prefix (env_config E) ty) oid load touch_it st')"
  by (rule settles_nothing) (subst delete_meta_none [symmetric], assumption, rule get_meta_settles)

lemma delete_of_none:
  assumes "delete_of E ty oid st = (Inr d, st')" and "d \<or> data_ext ty = None"
  shows "reads_nothing E now ty oid st'"
proof (cases ty)
  case KV_CACHE
  with assms delete_pair_half [of KV_CACHE "''data.npz''" oid st st'] get_kv_settles [of oid st' now]
  show ?thesis by (auto simp: delete_kv_block_def dest: settles_nothing simp del: type_prefix.simps)
next
  case RAG
  with assms delete_pair_half [of RAG "''data.npy''" oid st st'] get_rag_settles [of oid st' now]
  show ?thesis by (auto simp: delete_rag_object_def dest: settles_nothing simp del: type_prefix.simps)
next
  case SEMANTIC_CACHE
  with assms delete_pair_half [of SEMANTIC_CACHE "''data.npy''" oid st st'] get_semantic_settles [of oid st' now]
  show ?thesis by (auto simp: delete_semantic_entry_def dest: settles_nothing simp del: type_prefix.simps)
next
  case PLAN_CACHE
  with assms delete_pair_half [of PLAN_CACHE "''data.npy''" oid st st'] get_plan_settles [of oid st' now]
  show ?thesis by (auto simp: delete_plan_cache_entry_def dest: settles_nothing simp del: type_prefix.simps)
qed (use assms(1) in \<open>simp_all add: get_meta_defs delete_defs delete_meta_nothing del: type_prefix.simps\<close>)

end

text \<open>What the bulk deletion of the S3 backend makes of the answer to its only request.\<close>

lemma s3_delete_two:
  assumes "delete_objects C bucket [mk, dk] c = (Inr errs, c')"
  shows "s3_delete_many C bucket [mk, dk] c = (Inr (2 - int (length errs)), c')"
  using assms by (simp add: s3_delete_many_def s3_delete_batches.simps batch_size_def)

section \<open>Properties\<close>

text \<open>C2: Over any backend, when a put of a KV block answers, it answers the block's id, and a read of the block, after any later operations on other objects,
  gives the same tensors and the block as it was completed (hash and size), touched once, or raises what the backend
  raises.  On a backend that never raises and whose bulk deletion counts the keys that were stored, the put of a block whose tokens can be hashed does answer and the read does give the block.\<close>

theorem kv_put_get:
  assumes "object_store E contents" and "codec_ok (env_codec E)" and "prefixes_ok (env_config E)"
    and "fresh_store contents st0" and "store_reachable E st0 st" and "fill_token_hash E b = Inr b1"
  shows "(\<forall>i b' st' st2. put_kv_block E b k v st = (Inr i, b', st') \<longrightarrow> (steps_elsewhere E KV_CACHE i)\<^sup>*\<^sup>* st' st2 \<longrightarrow>
      i = object_id (kv_meta b)
      \<and> size_bytes (kv_meta b') = int (nd_nbytes (rt_numpy (env_runtime E)) k + nd_nbytes (rt_numpy (env_runtime E)) v)
      \<and> kv_token_ids b' = kv_token_ids b1 \<and> kv_token_hash b' = kv_token_hash b1
      \<and> (get_kv_block E now i st2 = Inr (Some (b'\<lparr>kv_meta := touch now (kv_meta b')\<rparr>, k, v))
         \<or> (\<exists>key e. be_get (env_backend E) key (os_storage st2) = Inl e \<and> get_kv_block E now i st2 = Inl e)))
    \<and> (total_store E contents \<longrightarrow> (\<exists>b' st'. put_kv_block E b k v st = (Inr (object_id (kv_meta b)), b', st')
      \<and> get_kv_block E now (object_id (kv_meta b)) st' = Inr (Some (b'\<lparr>kv_meta := touch now (kv_meta b')\<rparr>, k, v))))"
proof (intro conjI allI impI)
  have wf: "md_bloom_wf (os_metadata st)" by (rule reachable_wf [OF assms(1,4,5)])
  fix i b' st' st2
  assume put: "put_kv_block E b k v st = (Inr i, b', st')" and later: "(steps_elsewhere E KV_CACHE i)\<^sup>*\<^sup>* st' st2"
  note holds = object_store.put_kv_holds [OF assms(1) put assms(6) wf]
  show "i = object_id (kv_meta b)"
    and "size_bytes (kv_meta b') = int (nd_nbytes (rt_numpy (env_runtime E)) k + nd_nbytes (rt_numpy (env_runtime E)) v)"
    and "kv_token_ids b' = kv_token_ids b1" and "kv_token_hash b' = kv_token_hash b1"
    by (simp_all add: holds)
  from object_store.holds_later [OF assms(1,3) later holds(3)]
  show "get_kv_block E now i st2 = Inr (Some (b'\<lparr>kv_meta := touch now (kv_meta b')\<rparr>, k, v))
      \<or> (\<exists>key e. be_get (env_backend E) key (os_storage st2) = Inl e \<and> get_kv_block E now i st2 = Inl e)"
    by (rule object_store.holds_get [OF assms(1,2)])
next
  assume total: "total_store E contents"
  have wf: "md_bloom_wf (os_metadata st)" by (rule reachable_wf [OF assms(1,4,5)])
  obtain b' st' where put: "put_kv_block E b k v st = (Inr (object_id (kv_meta b)), b', st')"
    using total_store.put_kv_total [OF total assms(6)] by blast
  with total_store.put_get_kv [OF total assms(2) wf put]
  show "\<exists>b' st'. put_kv_block E b k v st = (Inr (object_id (kv_meta b)), b', st')
      \<and> get_kv_block E now (object_id (kv_meta b)) st' = Inr (Some (b'\<lparr>kv_meta := touch now (kv_meta b')\<rparr>, k, v))"
    by blast
qed

lemma kv_put_get_witness:
  "\<exists>b' st'. put_kv_block sample_env (sample_block ''new'' [3, 4]) [5] [6] sample_filled = (Inr ''new'', b', st')
     \<and> size_bytes (kv_meta b') = 8
     \<and> get_kv_block sample_env 7 ''new'' st' = Inr (Some (b'\<lparr>kv_meta := touch 7 (kv_meta b')\<rparr>, [5], [6]))"
proof -
  have fill: "fill_token_hash sample_env (sample_block ''new'' [3, 4]) = Inr (sample_block ''new'' [3, 4])"
    by (simp add: fill_token_hash_def sample_block_def)
  have id: "object_id (kv_meta (sample_block ''new'' [3, 4])) = ''new''" by (simp add: sample_block_def new_meta_def)
  note both = kv_put_get [OF sample_objects _ _ sample_fresh sample_filled_reachable fill, where k = "[5]" and v = "[6]" and now = 7]
  from both obtain b' st' where put: "put_kv_block sample_env (sample_block ''new'' [3, 4]) [5] [6] sample_filled = (Inr ''new'', b', st')"
    and get: "get_kv_block sample_env 7 ''new'' st' = Inr (Some (b'\<lparr>kv_meta := touch 7 (kv_meta b')\<rparr>, [5], [6]))"
    using sample_total unfolding id by auto
  have "int (nd_nbytes (rt_numpy (env_runtime sample_env)) [5] + nd_nbytes (rt_numpy (env_runtime sample_env)) [6]) = 8"
    by (simp add: sample_runtime_def sample_numpy_def)
  with both put have "size_bytes (kv_meta b') = 8" by fastforce
  with put get show ?thesis by blast
qed

text \<open>Putting a RAG object, a plan or a semantic entry with an embedding that has an axis stores it, and
  reading it back gives the same embedding and the object as it was completed.  A plan is validated when it
  is read.  A semantic entry is stored even when the index then refuses its embedding, and only then does the put raise.\<close>

theorem embedded_put_get:
  assumes "total_store E contents" and "codec_ok (env_codec E)"
    and "fresh_store contents st0" and "store_reachable E st0 st"
    and "last_axis (rt_numpy (env_runtime E)) v = Inr d"
  shows "(\<exists>r' st'. put_rag_object E r v st = (Inr (object_id (rg_meta r)), r', st') \<and> rg_embedding_dim r' = d
      \<and> get_rag_object E now (object_id (rg_meta r)) st' = Inr (Some (r'\<lparr>rg_meta := touch now (rg_meta r')\<rparr>, v)))
    \<and> (\<exists>p' st'. put_plan_cache_entry E p v st = (Inr (pl_plan_id p), p', st') \<and> pl_task_embedding_dim p' = d
      \<and> get_plan_cache_entry E now (pl_plan_id p) st' =
          map_sum id (\<lambda>x. Some (x\<lparr>pl_meta := touch now (pl_meta x)\<rparr>, v)) (validate_plan_entry p'))
    \<and> (\<exists>e' st'. put_semantic_entry E e v st =
        (map_sum id (\<lambda>_. object_id (se_meta e))
           (fst (on_semantic_entry_added (env_runtime E) (object_id (se_meta e)) v (os_metadata st))), e', st')
      \<and> se_embedding_dim e' = d
      \<and> get_semantic_entry E now (object_id (se_meta e)) st' = Inr (Some (e'\<lparr>se_meta := touch now (se_meta e')\<rparr>, v)))"
    (is "?R \<and> ?P \<and> ?S")
proof (intro conjI)
  have wf: "md_bloom_wf (os_metadata st)" by (rule reachable_wf [OF total_objects [OF assms(1)] assms(3,4)])
  show ?R
    using total_store.put_rag_total [OF assms(1,5), of r st] total_store.put_get_rag [OF assms(1,2) wf] by blast
  show ?P
    using total_store.put_plan_total [OF assms(1,5), of p st] total_store.put_get_plan [OF assms(1,2) wf] by blast
  show ?S by (rule total_store.put_semantic_total [OF assms(1,2) wf assms(5)])
qed

text \<open>Putting a workflow, a step, a tool artifact or a trace succeeds; reading it back gives the object as it
  was completed, touched, or the error of the validator that the reading runs.\<close>

theorem metadata_put_get:
  assumes "total_store E contents" and "codec_ok (env_codec E)"
    and "fresh_store contents st0" and "store_reachable E st0 st"
  shows "(\<exists>w' st'. put_agent_workflow E w st = (Inr (wf_workflow_id w), w', st')
      \<and> get_agent_workflow E now (wf_workflow_id w) st' = Inr (Some (w'\<lparr>wf_meta := touch now (wf_meta w')\<rparr>)))
    \<and> (\<exists>s' st'. put_agent_step E s st = (Inr (st_step_id s), s', st')
      \<and> get_agent_step E now (st_step_id s) st' =
          map_sum id (\<lambda>x. Some (x\<lparr>st_meta := touch now (st_meta x)\<rparr>)) (validate_timestamps s'))
    \<and> (\<exists>a' st'. put_tool_artifact E a st = (Inr (ta_tool_call_id a), a', st')
      \<and> valid_until (ta_meta a') = Some (ta_expires_at a)
      \<and> get_tool_artifact E now (ta_tool_call_id a) st' =
          map_sum id (\<lambda>x. Some (x\<lparr>ta_meta := touch now (ta_meta x)\<rparr>)) (validate_tool_artifact a'))
    \<and> (\<exists>t' st'. put_workflow_trace E t st = (Inr (tr_workflow_id t), t', st')
      \<and> get_workflow_trace E now (tr_workflow_id t) st' =
          map_sum id (\<lambda>x. Some (x\<lparr>tr_meta := touch now (tr_meta x)\<rparr>)) (validate_trace t'))"
    (is "?W \<and> ?S \<and> ?A \<and> ?T")
proof (intro conjI)
  have wf: "md_bloom_wf (os_metadata st)" by (rule reachable_wf [OF total_objects [OF assms(1)] assms(3,4)])
  note stored = total_store.put_meta_get [OF assms(1) wf]
  let ?K = "env_codec E"
  show ?W
    using stored [of AGENT_WORKFLOW "wf_workflow_id w"
        "serialize_agent_workflow ?K (w\<lparr>wf_meta := (wf_meta w)\<lparr>object_id := wf_workflow_id w\<rparr>\<rparr>)"
        "deserialize_agent_workflow ?K" "\<lambda>x. x\<lparr>wf_meta := touch now (wf_meta x)\<rparr>"]
    by (auto simp: put_agent_workflow_def get_agent_workflow_def codec_okD [OF assms(2)])
  show ?S
    using stored [of AGENT_STEP "st_step_id s"
        "serialize_agent_step ?K (s\<lparr>st_meta := (st_meta s)\<lparr>object_id := st_step_id s\<rparr>\<rparr>)"
        "deserialize_agent_step ?K" "\<lambda>x. x\<lparr>st_meta := touch now (st_meta x)\<rparr>"]
    by (auto simp: put_agent_step_def get_agent_step_def codec_okD [OF assms(2)])
  show ?A
    using stored [of TOOL_CALL_ARTIFACT "ta_tool_call_id a"
        "serialize_tool_artifact ?K (a\<lparr>ta_meta := (ta_meta a)\<lparr>object_id := ta_tool_call_id a,
           m_tool_name := Some (ta_tool_name a), m_tool_args_hash := Some (ta_tool_args_hash a),
           valid_until := Some (ta_expires_at a), m_scope := Some (ta_permission_scope a)\<rparr>\<rparr>)"
        "deserialize_tool_artifact ?K" "\<lambda>x. x\<lparr>ta_meta := touch now (ta_meta x)\<rparr>"]
    by (auto simp: put_tool_artifact_def get_tool_artifact_def codec_okD [OF assms(2)])
  show ?T
    using stored [of WORKFLOW_TRACE "tr_workflow_id t"
        "serialize_workflow_trace ?K (t\<lparr>tr_meta := (tr_meta t)\<lparr>object_id := tr_workflow_id t\<rparr>\<rparr>)"
        "deserialize_workflow_trace ?K" "\<lambda>x. x\<lparr>tr_meta := touch now (tr_meta x)\<rparr>"]
    by (auto simp: put_workflow_trace_def get_workflow_trace_def codec_okD [OF assms(2)])
qed

text \<open>C11: On a backend that never raises and whose bulk deletion counts the keys that were stored, what is put of the other seven types is read back: a RAG object, a plan or a semantic entry with the same embedding when it has an
  axis, and a workflow, a step, a tool artifact or a trace, each as it was completed and touched, or the error of the
  validator that reading runs.  A semantic entry is stored even when the index then refuses its embedding, and only then does the put raise.\<close>

theorem objects_put_get:
  assumes "total_store E contents" and "codec_ok (env_codec E)"
    and "fresh_store contents st0" and "store_reachable E st0 st"
  shows "(last_axis (rt_numpy (env_runtime E)) v = Inr d \<longrightarrow>
      (\<exists>r' st'. put_rag_object E r v st = (Inr (object_id (rg_meta r)), r', st') \<and> rg_embedding_dim r' = d
        \<and> get_rag_object E now (object_id (rg_meta r)) st' = Inr (Some (r'\<lparr>rg_meta := touch now (rg_meta r')\<rparr>, v)))
      \<and> (\<exists>p' st'. put_plan_cache_entry E p v st = (Inr (pl_plan_id p), p', st') \<and> pl_task_embedding_dim p' = d
        \<and> get_plan_cache_entry E now (pl_plan_id p) st' =
            map_sum id (\<lambda>x. Some (x\<lparr>pl_meta := touch now (pl_meta x)\<rparr>, v)) (validate_plan_entry p'))
      \<and> (\<exists>e' st'. put_semantic_entry E e v st =
          (map_sum id (\<lambda>_. object_id (se_meta e))
             (fst (on_semantic_entry_added (env_runtime E) (object_id (se_meta e)) v (os_metadata st))), e', st')
        \<and> se_embedding_dim e' = d
        \<and> get_semantic_entry E now (object_id (se_meta e)) st' = Inr (Some (e'\<lparr>se_meta := touch now (se_meta e')\<rparr>, v))))
    \<and> (\<exists>w' st'. put_agent_workflow E w st = (Inr (wf_workflow_id w), w', st')
      \<and> get_agent_workflow E now (wf_workflow_id w) st' = Inr (Some (w'\<lparr>wf_meta := touch now (wf_meta w')\<rparr>)))
    \<and> (\<exists>s' st'. put_agent_step E s st = (Inr (st_step_id s), s', st')
      \<and> get_agent_step E now (st_step_id s) st' =
          map_sum id (\<lambda>x. Some (x\<lparr>st_meta := touch now (st_meta x)\<rparr>)) (validate_timestamps s'))
    \<and> (\<exists>a' st'. put_tool_artifact E a st = (Inr (ta_tool_call_id a), a', st')
      \<and> valid_until (ta_meta a') = Some (ta_expires_at a)
      \<and> get_tool_artifact E now (ta_tool_call_id a) st' =
          map_sum id (\<lambda>x. Some (x\<lparr>ta_meta := touch now (ta_meta x)\<rparr>)) (validate_tool_artifact a'))
    \<and> (\<exists>t' st'. put_workflow_trace E t st = (Inr (tr_workflow_id t), t', st')
      \<and> get_workflow_trace E now (tr_workflow_id t) st' =
          map_sum id (\<lambda>x. Some (x\<lparr>tr_meta := touch now (tr_meta x)\<rparr>)) (validate_trace t'))"
  by (rule conjI, rule impI, rule embedded_put_get [OF assms]) (assumption, rule metadata_put_get [OF assms])

lemma objects_put_get_witness:
  "(\<exists>r' st'. put_rag_object sample_env (sample_rag ''doc'') [1, 2] sample_filled = (Inr ''doc'', r', st')
     \<and> rg_embedding_dim r' = 2
     \<and> get_rag_object sample_env 7 ''doc'' st' = Inr (Some (r'\<lparr>rg_meta := touch 7 (rg_meta r')\<rparr>, [1, 2])))
   \<and> (\<exists>w' st'. put_agent_workflow sample_env (sample_workflow ''wf'') sample_filled = (Inr ''wf'', w', st')
     \<and> get_agent_workflow sample_env 7 ''wf'' st' = Inr (Some (w'\<lparr>wf_meta := touch 7 (wf_meta w')\<rparr>)))"
proof -
  have axis: "last_axis (rt_numpy (env_runtime sample_env)) [1, 2] = Inr 2"
    by (simp add: last_axis_def sample_runtime_def sample_numpy_def)
  have id: "object_id (rg_meta (sample_rag ''doc'')) = ''doc''" "wf_workflow_id (sample_workflow ''wf'') = ''wf''"
    by (simp_all add: sample_rag_def new_meta_def sample_workflow_def)
  show ?thesis
    using objects_put_get [OF sample_total _ sample_fresh sample_filled_reachable, of "[1, 2]" 2 "sample_rag ''doc''" 7 "sample_plan ''p''"
        "sample_entry ''e''" "sample_workflow ''wf''" "sample_step ''s'' ''wf''" "sample_tool ''t''" "sample_trace ''wf''"] axis
    unfolding id by simp
qed

text \<open>C3: Over any backend, S3 included, an operation on one object, whether it is a put or a deletion, succeeds or raises halfway, changes no
  blob of another object.  A read of another object then answers as before, unless one of the two reads raises what the backend raises:
  when the filter already knew the other id, or when failing calls of the backend change nothing.  On a backend that never raises every read of
  another object answers as before.\<close>

theorem operations_confined:
  assumes "object_store E contents" and "prefixes_ok (env_config E)"
    and "fresh_store contents st0" and "store_reachable E st0 st"
    and "store_step E ty oid st st'" and "(ty', oid') \<noteq> (ty, oid)"
  shows "(\<forall>key. key \<notin> object_keys (env_config E) ty oid \<longrightarrow> contents (os_storage st') key = contents (os_storage st) key)
    \<and> (might_exist (env_runtime E) oid' (os_metadata st) \<or> exact_store E contents \<longrightarrow> same_unless_raised E now ty' oid' st st')
    \<and> (total_store E contents \<longrightarrow> same_view E now ty' oid' st st')"
proof (intro conjI impI allI)
  show "contents (os_storage st') key = contents (os_storage st) key" if "key \<notin> object_keys (env_config E) ty oid" for key
    using object_store.store_step_confined [OF assms(1,5)] that by (simp add: confined_def)
  have wf: "md_bloom_wf (os_metadata st)" by (rule reachable_wf [OF assms(1,3,4)])
  show "same_unless_raised E now ty' oid' st st'" if "might_exist (env_runtime E) oid' (os_metadata st) \<or> exact_store E contents"
  proof (rule object_store.step_reads_agree [OF assms(1,2,5,6) wf that])
    show "indexed E contents st" if "exact_store E contents" by (rule reachable_is_indexed [OF that assms(3,4,2)])
  qed
  show "same_view E now ty' oid' st st'" if "total_store E contents"
    by (rule total_store.step_same_view [OF that assms(2) reachable_is_indexed [OF total_exact [OF that] assms(3,4,2)] assms(5,6)])
qed

lemma operations_confined_witness:
  "get_rag_object sample_env 7 ''blk'' sample_filled = get_rag_object sample_env 7 ''blk'' sample_store"
  using operations_confined [OF sample_objects _ sample_fresh store_reachable.start sample_put_step,
      of RAG "''blk''" 7] sample_total by simp

text \<open>C12: On a backend that never raises and whose bulk deletion counts the keys that were stored, every read of a reachable store is the
  lookup of what is stored: the Bloom filter in front of it never hides an object.\<close>

theorem reads_refine_map:
  assumes "total_store E contents" and "prefixes_ok (env_config E)"
    and "fresh_store contents st0" and "store_reachable E st0 st"
  shows "get_kv_block E now oid st =
      lookup (read_kv (env_codec E) now) (stored_pair contents (env_config E) KV_CACHE oid (os_storage st))
    \<and> get_rag_object E now oid st =
      lookup (read_array_pair (env_codec E) (deserialize_rag_meta (env_codec E)) (\<lambda>x. x\<lparr>rg_meta := touch now (rg_meta x)\<rparr>))
        (stored_pair contents (env_config E) RAG oid (os_storage st))
    \<and> get_semantic_entry E now oid st =
      lookup (read_array_pair (env_codec E) (deserialize_semantic_entry (env_codec E)) (\<lambda>x. x\<lparr>se_meta := touch now (se_meta x)\<rparr>))
        (stored_pair contents (env_config E) SEMANTIC_CACHE oid (os_storage st))
    \<and> get_plan_cache_entry E now oid st =
      lookup (read_array_pair (env_codec E) (deserialize_plan_cache_entry (env_codec E)) (\<lambda>x. x\<lparr>pl_meta := touch now (pl_meta x)\<rparr>))
        (stored_pair contents (env_config E) PLAN_CACHE oid (os_storage st))
    \<and> get_agent_workflow E now oid st =
      lookup (\<lambda>b. map_sum id (\<lambda>x. x\<lparr>wf_meta := touch now (wf_meta x)\<rparr>) (deserialize_agent_workflow (env_codec E) b))
        (stored_meta contents (env_config E) AGENT_WORKFLOW oid (os_storage st))
    \<and> get_agent_step E now oid st =
      lookup (\<lambda>b. map_sum id (\<lambda>x. x\<lparr>st_meta := touch now (st_meta x)\<rparr>) (deserialize_agent_step (env_codec E) b))
        (stored_meta contents (env_config E) AGENT_STEP oid (os_storage st))
    \<and> get_tool_artifact E now oid st =
      lookup (\<lambda>b. map_sum id (\<lambda>x. x\<lparr>ta_meta := touch now (ta_meta x)\<rparr>) (deserialize_tool_artifact (env_codec E) b))
        (stored_meta contents (env_config E) TOOL_CALL_ARTIFACT oid (os_storage st))
    \<and> get_workflow_trace E now oid st =
      lookup (\<lambda>b. map_sum id (\<lambda>x. x\<lparr>tr_meta := touch now (tr_meta x)\<rparr>) (deserialize_workflow_trace (env_codec E) b))
        (stored_meta contents (env_config E) WORKFLOW_TRACE oid (os_storage st))"
proof -
  have idx: "indexed E contents st" by (rule reachable_is_indexed [OF total_exact [OF assms(1)] assms(3,4,2)])
  show ?thesis
    unfolding get_meta_defs by (simp add: total_store.get_refines_indexed [OF assms(1)] idx del: type_prefix.simps)
qed

lemma reads_refine_map_witness:
  "get_kv_block sample_env 7 ''other'' sample_filled =
     lookup (read_kv blob_codec 7) (stored_pair memory_contents default_config KV_CACHE ''other'' (os_storage sample_filled))"
  using reads_refine_map [OF sample_total _ sample_fresh sample_filled_reachable, of 7 "''other''"] by simp

text \<open>C13: Over any backend, S3 included, once a deletion has answered that the object is gone (or, for a type without data blob, has answered at
  all) a read of it finds nothing, unless it raises what the backend raises.  On a backend that never raises and whose bulk deletion counts the
  keys that were stored, as the in-memory backend does and S3 does not, deleting a KV block answers whether any blob of it was there, and after
  the deletion of an object of any of the eight types reading it answers that it is absent.\<close>

theorem delete_removes:
  assumes "object_store E contents"
  shows "(\<forall>ty d st'. delete_of E ty oid st = (Inr d, st') \<and> (d \<or> data_ext ty = None) \<longrightarrow> reads_nothing E now ty oid st')
    \<and> (total_store E contents \<longrightarrow> (\<exists>st'. delete_kv_block E oid st =
        (Inr (\<exists>k \<in> object_keys (env_config E) KV_CACHE oid. contents (os_storage st) k \<noteq> None), st')
      \<and> get_kv_block E now oid st' = Inr None)
    \<and> get_rag_object E now oid (snd (delete_rag_object E oid st)) = Inr None
    \<and> get_semantic_entry E now oid (snd (delete_semantic_entry E oid st)) = Inr None
    \<and> get_plan_cache_entry E now oid (snd (delete_plan_cache_entry E oid st)) = Inr None
    \<and> get_agent_workflow E now oid (snd (delete_agent_workflow E oid st)) = Inr None
    \<and> get_agent_step E now oid (snd (delete_agent_step E oid st)) = Inr None
    \<and> get_tool_artifact E now oid (snd (delete_tool_artifact E oid st)) = Inr None
    \<and> get_workflow_trace E now oid (snd (delete_workflow_trace E oid st)) = Inr None)"
proof (intro conjI impI allI)
  show "reads_nothing E now ty oid st'" if "delete_of E ty oid st = (Inr d, st') \<and> (d \<or> data_ext ty = None)" for ty d st'
    using object_store.delete_of_none [OF assms, of ty oid st d st'] that by blast
qed (unfold get_meta_defs delete_agent_workflow_def delete_agent_step_def delete_tool_artifact_def delete_workflow_trace_def,
    (erule total_store.delete_kv_spec total_store.delete_rag_gone [OF _ prod.collapse [symmetric]]
      total_store.delete_semantic_gone [OF _ prod.collapse [symmetric]] total_store.delete_plan_gone [OF _ prod.collapse [symmetric]]
      total_store.delete_meta_get [OF _ prod.collapse [symmetric]])+)

lemma delete_removes_witness:
  "\<exists>st'. delete_kv_block sample_env ''blk'' sample_filled =
      (Inr (\<exists>k \<in> object_keys default_config KV_CACHE ''blk''. memory_contents (os_storage sample_filled) k \<noteq> None), st')
    \<and> get_kv_block sample_env 7 ''blk'' st' = Inr None"
  using delete_removes [OF sample_objects, of "''blk''" sample_filled 7] sample_total by simp

text \<open>C4: On any backend, S3 included, a put of a KV block that raises leaves the index and every other object unchanged, and a read of a
  block that was not stored, if it returns, still answers that there is none, unless the deletion that rolls back raises.  On a backend whose
  failing calls change nothing, a block that was not stored stays absent in any case, and unless that deletion raises nothing in the storage
  has changed; of a block that was stored the roll-back may delete the metadata: it is then as it was, or lost.\<close>

theorem failed_put_rolls_back:
  assumes "object_store E contents" and "put_kv_block E b k v st = (Inl e, b', st')"
  shows "os_metadata st' = os_metadata st
    \<and> (\<forall>key. key \<notin> object_keys (env_config E) KV_CACHE (object_id (kv_meta b)) \<longrightarrow> contents (os_storage st') key = contents (os_storage st) key)
    \<and> ((\<forall>key \<in> object_keys (env_config E) KV_CACHE (object_id (kv_meta b)). contents (os_storage st) key = None)
         \<and> (\<forall>mk s err. fst (be_delete (env_backend E) mk s) \<noteq> Inl err) \<longrightarrow>
        (\<forall>now r. get_kv_block E now (object_id (kv_meta b)) st' = Inr r \<longrightarrow> r = None))
    \<and> (exact_store E contents \<longrightarrow>
       ((\<forall>key \<in> object_keys (env_config E) KV_CACHE (object_id (kv_meta b)). contents (os_storage st) key = None) \<longrightarrow>
          (\<forall>now r. get_kv_block E now (object_id (kv_meta b)) st' = Inr r \<longrightarrow> r = None)
          \<and> ((\<forall>mk s err. fst (be_delete (env_backend E) mk s) \<noteq> Inl err) \<longrightarrow> contents (os_storage st') = contents (os_storage st)))
       \<and> ((\<forall>mk s err. fst (be_delete (env_backend E) mk s) \<noteq> Inl err) \<longrightarrow> contents (os_storage st') = contents (os_storage st)
        \<or> contents (os_storage st') = (contents (os_storage st))(object_meta_key (env_config E) KV_CACHE (object_id (kv_meta b)) := None)))"
  using object_store.failed_put_kv_frame [OF assms] object_store.failed_put_kv_read [OF assms]
    exact_store.failed_put_kv_absent [OF _ assms(2)] exact_store.failed_put_kv_any [OF _ assms(2)]
  by blast

lemma failed_put_rolls_back_witness:
  "\<exists>b' st'. put_kv_block quota_env (sample_block ''blk'' [1, 2]) [1] [2] quota_store
      = (Inl (LibError ''ClientError QuotaExceeded''), b', st')
    \<and> bucket_contents (os_storage st') = Map.empty \<and> os_metadata st' = empty_metadata"
proof -
  obtain b' st' where put: "put_kv_block quota_env (sample_block ''blk'' [1, 2]) [1] [2] quota_store
      = (Inl (LibError ''ClientError QuotaExceeded''), b', st')" using quota_put by blast
  have empty: "bucket_contents (os_storage quota_store) = Map.empty" "os_metadata quota_store = empty_metadata"
    by (simp_all add: quota_store_def bucket_contents_def)
  have total: "\<forall>mk s err. fst (be_delete (env_backend quota_env) mk s) \<noteq> Inl err"
    by (simp add: quota_env_def s3_delete_def s3_exists_def bucket_client_def)
  from failed_put_rolls_back [OF quota_objects put] quota_exact total empty put show ?thesis by simp
qed

text \<open>C14: On any backend, listing a reachable store gives the ids of the objects of that type that are stored, each once and
  sorted; an id with a dot in it is listed up to the dot.\<close>

theorem list_reports_stored:
  assumes "object_store E contents" and "prefixes_ok (env_config E)"
    and "fresh_store contents st0" and "store_reachable E st0 st"
    and "list_ids E (type_prefix (env_config E) ty) st = Inr ids"
  shows "sorted ids \<and> distinct ids \<and> set ids =
    {before_dot oid | oid. \<exists>k \<in> object_keys (env_config E) ty oid. contents (os_storage st) k \<noteq> None} - {[]}"
  by (rule object_store.list_objects [OF assms(1,2) reachable_objects_only [OF assms(1,3,4)] assms(5)])

lemma list_reports_stored_witness:
  "\<exists>ids. list_kv_blocks sample_env sample_filled = Inr ids \<and> sorted ids \<and> distinct ids"
proof -
  obtain ids where ids: "list_ids sample_env (type_prefix (env_config sample_env) KV_CACHE) sample_filled = Inr ids"
    by (simp add: list_ids_def memory_list_keys_def)
  from list_reports_stored [OF sample_objects _ sample_fresh sample_filled_reachable ids] ids
  show ?thesis by (simp add: list_kv_blocks_def)
qed

text \<open>A prefetch batch that returns holds exactly, for every non-empty id the decisions name, what loading it under the
  type of the first decision that names it gives; ids whose loading finds nothing are left out.\<close>

theorem prefetch_batch_exact:
  assumes "prefetch_batch E now decisions st = Inr results"
  shows "dwf results \<and> (\<forall>oid v. dget results oid = Some v \<longleftrightarrow>
    oid \<noteq> [] \<and> (\<exists>t. map_of decisions (Some oid) = Some t \<and> prefetch_one E now oid t st = Inr (Some v)))"
  using prefetch_loop_spec [OF assms [unfolded prefetch_batch_def]]
  by (simp del: map_of_eq_Some_iff Some_eq_map_of_iff)

lemma prefetch_batch_exact_witness:
  "\<exists>results. prefetch_batch sample_env 7 [(Some ''x'', Some ''kv_cache''), (None, None), (Some ''x'', Some ''rag'')] sample_store
     = Inr results \<and> dwf results"
proof -
  have "get_kv_block sample_env 7 ''x'' sample_store = Inr None"
    by (simp add: get_kv_block_def sample_store_def Let_def get_pair_def memory_get_def memory_init_def)
  then have "prefetch_batch sample_env 7 [(Some ''x'', Some ''kv_cache''), (None, None), (Some ''x'', Some ''rag'')] sample_store
      = Inr []" by (simp add: prefetch_batch_def prefetch_one_def)
  from prefetch_batch_exact [OF this] this show ?thesis by blast
qed

text \<open>C15: Where the service behaves as documented, the S3 backend keeps the general contract of a storage backend: a call that returns has the effect
  of the map operation, a call that raises was carried out or not and touches no other key, and a bulk deletion does not count a key that is
  still stored.  What it counts are the keys it was asked to delete less those the service reported, stored before or not, so that deleting a KV
  block answers whether fewer than two errors were reported: without errors True, also for a block that was never there.  A HEAD request that
  fails with any error of the client, forbidden or throttled, is answered as the absence of the object, and a deletion then answers False.
  The exact contract holds of a service whose failing calls change nothing and whose HEAD fails only for missing objects.\<close>

theorem s3_backend_contract:
  fixes C :: "('c, 'b) S3Client"
  assumes "s3_service C bucket objs"
  shows "storage_backend (s3_backend C bucket blen py_str) objs
    \<and> (\<forall>ks c n c'. (\<forall>ks c errs c'. delete_objects C bucket ks c = (Inr errs, c') \<longrightarrow> errs = [])
          \<and> s3_delete_many C bucket ks c = (Inr n, c') \<longrightarrow> n = int (length ks))
    \<and> (\<forall>(E :: ('c, 'h, 'a, 'b) StoreEnv) oid st errs c'. env_backend E = s3_backend C bucket blen py_str
          \<and> delete_objects C bucket [object_meta_key (env_config E) KV_CACHE oid, main_key (env_config E) KV_CACHE oid] (os_storage st) = (Inr errs, c')
          \<longrightarrow> fst (delete_kv_block E oid st) = Inr (length errs < 2))
    \<and> (\<forall>k c code. head_object C bucket k c = Inl (ClientError code) \<longrightarrow> s3_exists C bucket k c = Inr False
          \<and> (\<forall>c'. delete_object C bucket k c = (Inr (), c') \<longrightarrow> s3_delete C bucket k c = (Inr False, c')))
    \<and> (clean_s3_service C bucket objs \<longrightarrow> exact_backend (s3_backend C bucket blen py_str) objs)"
proof (intro conjI allI impI)
  show "storage_backend (s3_backend C bucket blen py_str) objs" by (rule s3_service.keeps_contract [OF assms])
next
  fix ks c n c'
  assume run: "(\<forall>ks c errs c'. delete_objects C bucket ks c = (Inr errs, c') \<longrightarrow> errs = []) \<and> s3_delete_many C bucket ks c = (Inr n, c')"
  then show "n = int (length ks)"
    using s3_service.batches_count [OF assms, of ks 0 c n c'] by (cases "ks = []") (auto simp: s3_delete_many_def)
next
  fix E :: "('c, 'h, 'a, 'b) StoreEnv" and oid errs c' and st :: "('c, 'h) UnifiedObjectStore"
  assume "env_backend E = s3_backend C bucket blen py_str
    \<and> delete_objects C bucket [object_meta_key (env_config E) KV_CACHE oid, main_key (env_config E) KV_CACHE oid] (os_storage st) = (Inr errs, c')"
  then have "delete_pair E (type_prefix (env_config E) KV_CACHE) oid ''data.npz'' (os_storage st) = (Inr (length errs < 2), c')"
    by (auto simp: delete_pair_def s3_delete_two object_meta_key_def main_key_def)
  then show "fst (delete_kv_block E oid st) = Inr (length errs < 2)"
    by (simp add: delete_kv_block_def after_delete_def on_object_removed_def del: type_prefix.simps)
next
  fix k c code
  assume head: "head_object C bucket k c = Inl (ClientError code)"
  then show exists: "s3_exists C bucket k c = Inr False" by (simp add: s3_exists_def)
  show "s3_delete C bucket k c = (Inr False, c')" if "delete_object C bucket k c = (Inr (), c')" for c'
    using exists that by (simp add: s3_delete_def)
next
  assume "clean_s3_service C bucket objs"
  then show "exact_backend (s3_backend C bucket blen py_str) objs" by (rule clean_s3_service.keeps_exact_contract)
qed

lemma s3_backend_contract_witness:
  "(\<exists>c'. s3_delete_many bucket_client ''b'' [''x'', ''y''] \<lparr>bk_objects = [(''k'', 5 :: nat)], bk_quota = 1\<rparr> = (Inr 2, c'))
   \<and> fst (delete_kv_block quota_env ''never'' quota_store) = Inr True
   \<and> s3_exists troubled_client ''b'' ''k'' \<lparr>bk_objects = [(''k'', 5 :: nat)], bk_quota = 1\<rparr> = Inr False"
proof (intro conjI)
  let ?c = "\<lparr>bk_objects = [(''k'', 5 :: nat)], bk_quota = 1\<rparr>"
  obtain n c' where run: "s3_delete_many bucket_client ''b'' [''x'', ''y''] ?c = (Inr n, c')"
    by (auto simp: s3_delete_many_def bucket_client_def batch_size_def s3_delete_batches.simps)
  have "\<forall>ks c errs c'. delete_objects bucket_client ''b'' ks (c :: nat Bucket) = (Inr errs, c') \<longrightarrow> errs = []"
    by (simp add: bucket_client_def)
  with run have "n = int (length [''x'', ''y''])"
    by (intro s3_backend_contract [OF bucket.s3_service_axioms [of "''b''"], THEN conjunct2, THEN conjunct1, rule_format]) blast
  then have "n = 2" by simp
  with run show "\<exists>c'. s3_delete_many bucket_client ''b'' [''x'', ''y''] ?c = (Inr 2, c')" by blast
  show "s3_exists troubled_client ''b'' ''k'' ?c = Inr False"
    using s3_backend_contract [OF troubled.s3_service_axioms [of "''b''"], THEN conjunct2, THEN conjunct2, THEN conjunct2,
      THEN conjunct1, rule_format, of "''k''" ?c "''403''"] by simp
  let ?ks = "[object_meta_key (env_config quota_env) KV_CACHE ''never'', main_key (env_config quota_env) KV_CACHE ''never'']"
  obtain c2 where deleted: "delete_objects bucket_client ''b'' ?ks (os_storage quota_store) = (Inr [], c2)"
    by (simp add: bucket_client_def)
  have backend: "env_backend quota_env = s3_backend bucket_client ''b'' (\<lambda>b. 1) (\<lambda>j. [])" by (simp add: quota_env_def)
  from s3_backend_contract [OF bucket.s3_service_axioms [of "''b''"], of "\<lambda>b. 1" "\<lambda>j. []", THEN conjunct2, THEN conjunct2,
      THEN conjunct1, rule_format, OF conjI [OF backend deleted]]
  show "fst (delete_kv_block quota_env ''never'' quota_store) = Inr True" by simp
qed

end
