(* ===== verification/StepGraph.thy ===== *)
theory StepGraph
  imports Types
begin

text \<open>
  The graph of agent steps of \<^verbatim>\<open>src/l3store/metadata/agent_step_graph.py\<close>: steps in the order they
  were announced, per workflow and per agent, with parent and child links.  Operations that
  raise return the exception and leave the graph as it was.  Every graph built by the operations
  is a forest in announcement order (\<open>graph_wf\<close>), from which the predictions get their meaning:
  a predicted step is pending, belongs to the workflow and comes after the current one.
\<close>

section \<open>The graph\<close>

record AgentStepNode =
  sn_workflow_id :: string
  sn_step_id :: string
  sn_agent_id :: string
  sn_parent_step_id :: "string option"
  sn_completed :: bool
  sn_child_step_ids :: "string list"
  sn_turn_id :: int

record AgentStepGraph =
  sg_workflow_steps :: "(string, string list) dict"
  sg_steps :: "(string, AgentStepNode) dict"
  sg_agent_steps :: "(string, string list) dict"

definition graph_init :: AgentStepGraph where
  "graph_init = \<lparr>sg_workflow_steps = [], sg_steps = [], sg_agent_steps = []\<rparr>"

definition add_workflow :: "string \<Rightarrow> AgentStepGraph \<Rightarrow> AgentStepGraph" where
  "add_workflow wid g =
     (if dmem (sg_workflow_steps g) wid then g
      else g\<lparr>sg_workflow_steps := dset (sg_workflow_steps g) wid []\<rparr>)"

definition add_workflow_object :: "AgentWorkflow \<Rightarrow> AgentStepGraph \<Rightarrow> AgentStepGraph" where
  "add_workflow_object w g = add_workflow (wf_workflow_id w) g"

definition require_step :: "string \<Rightarrow> AgentStepGraph \<Rightarrow> AgentStepNode res" where
  "require_step sid g =
     (case dget (sg_steps g) sid of
        None \<Rightarrow> Inl (ValueError (''unknown step_id: '' @ sid))
      | Some n \<Rightarrow> Inr n)"

text \<open>Appending a child to the node of its parent, when there is a parent.\<close>

definition link_parent ::
    "string \<Rightarrow> string option \<Rightarrow> (string, AgentStepNode) dict \<Rightarrow> (string, AgentStepNode) dict" where
  "link_parent sid parent steps =
     (case parent of
        None \<Rightarrow> steps
      | Some p \<Rightarrow>
          (case dget steps p of
             None \<Rightarrow> steps
           | Some n \<Rightarrow> dset steps p (n\<lparr>sn_child_step_ids := sn_child_step_ids n @ [sid]\<rparr>)))"

definition add_step ::
    "string \<Rightarrow> string \<Rightarrow> string \<Rightarrow> string option \<Rightarrow> int \<Rightarrow> AgentStepGraph
       \<Rightarrow> unit res \<times> AgentStepGraph" where
  "add_step wid sid aid parent turn g =
     (if dmem (sg_steps g) sid then (Inl (ValueError (''step already exists: '' @ sid)), g)
      else if (case parent of None \<Rightarrow> False | Some p \<Rightarrow> \<not> dmem (sg_steps g) p)
      then (Inl (ValueError (''unknown parent_step_id: '' @ the parent)), g)
      else if (case Option.bind parent (dget (sg_steps g)) of
                 None \<Rightarrow> False | Some n \<Rightarrow> sn_workflow_id n \<noteq> wid)
      then (Inl (ValueError ''parent step belongs to a different workflow''), g)
      else
        (let g1 = add_workflow wid g;
             new = \<lparr>sn_workflow_id = wid, sn_step_id = sid, sn_agent_id = aid,
                    sn_parent_step_id = parent, sn_completed = False, sn_child_step_ids = [],
                    sn_turn_id = turn\<rparr>
         in (Inr (), g1\<lparr>
               sg_steps := link_parent sid parent (dset (sg_steps g1) sid new),
               sg_workflow_steps := dappend (sg_workflow_steps g1) wid sid,
               sg_agent_steps := dappend (sg_agent_steps g1) aid sid\<rparr>)))"

definition mark_step_completed :: "string \<Rightarrow> AgentStepGraph \<Rightarrow> unit res \<times> AgentStepGraph" where
  "mark_step_completed sid g =
     (case require_step sid g of
        Inl e \<Rightarrow> (Inl e, g)
      | Inr n \<Rightarrow> (Inr (), g\<lparr>sg_steps := dset (sg_steps g) sid (n\<lparr>sn_completed := True\<rparr>)\<rparr>))"

definition add_step_object :: "AgentStep \<Rightarrow> AgentStepGraph \<Rightarrow> unit res \<times> AgentStepGraph" where
  "add_step_object s g =
     (case add_step (st_workflow_id s) (st_step_id s) (st_agent_id s) (st_parent_step_id s)
             (st_turn_id s) g of
        (Inl e, g') \<Rightarrow> (Inl e, g')
      | (Inr _, g') \<Rightarrow>
          if st_timestamp_end s = None then (Inr (), g') else mark_step_completed (st_step_id s) g')"

text \<open>The pending steps of a list; a step without a node would be a \<open>KeyError\<close>.\<close>

fun pending_of :: "(string, AgentStepNode) dict \<Rightarrow> string list \<Rightarrow> string list res" where
  "pending_of steps [] = Inr []"
| "pending_of steps (i # ids) =
     (case dget steps i of
        None \<Rightarrow> Inl (KeyError i)
      | Some n \<Rightarrow>
          (case pending_of steps ids of
             Inl e \<Rightarrow> Inl e
           | Inr rest \<Rightarrow> Inr (if sn_completed n then rest else i # rest)))"

definition future_uncompleted_steps :: "string \<Rightarrow> string \<Rightarrow> AgentStepGraph \<Rightarrow> string list res" where
  "future_uncompleted_steps wid current g =
     (let ids = dlist (sg_workflow_steps g) wid
      in if current \<in> set ids
         then pending_of (sg_steps g) (tl (dropWhile (\<lambda>i. i \<noteq> current) ids))
         else Inl (ValueError (''unknown step in workflow: '' @ current)))"

definition predict_next_steps ::
    "string \<Rightarrow> string \<Rightarrow> int \<Rightarrow> AgentStepGraph \<Rightarrow> string list res" where
  "predict_next_steps wid current_id top_k g =
     (if top_k \<le> 0 then Inr []
      else case require_step current_id g of
             Inl e \<Rightarrow> Inl e
           | Inr current \<Rightarrow>
               if sn_workflow_id current \<noteq> wid
               then Inl (ValueError ''current_step_id belongs to a different workflow'')
               else (case pending_of (sg_steps g) (sn_child_step_ids current) of
                       Inl e \<Rightarrow> Inl e
                     | Inr candidates \<Rightarrow>
                         (case (if candidates = [] then future_uncompleted_steps wid current_id g
                                else Inr candidates) of
                            Inl e \<Rightarrow> Inl e
                          | Inr cs \<Rightarrow> Inr (take (nat top_k) cs))))"

text \<open>The distance of the first of the steps that the agent executes, counted from \<open>d\<close>.\<close>

fun agent_distance ::
    "(string, AgentStepNode) dict \<Rightarrow> string \<Rightarrow> nat \<Rightarrow> string list \<Rightarrow> nat option res" where
  "agent_distance steps aid d [] = Inr None"
| "agent_distance steps aid d (i # ids) =
     (case dget steps i of
        None \<Rightarrow> Inl (KeyError i)
      | Some n \<Rightarrow> if sn_agent_id n = aid then Inr (Some d) else agent_distance steps aid (d + 1) ids)"

definition steps_to_execution :: "string \<Rightarrow> string \<Rightarrow> AgentStepGraph \<Rightarrow> nat option res" where
  "steps_to_execution aid current_id g =
     (case require_step current_id g of
        Inl e \<Rightarrow> Inl e
      | Inr current \<Rightarrow>
          (case future_uncompleted_steps (sn_workflow_id current) current_id g of
             Inl e \<Rightarrow> Inl e
           | Inr future \<Rightarrow> agent_distance (sg_steps g) aid 1 future))"

definition workflow_steps :: "string \<Rightarrow> AgentStepGraph \<Rightarrow> string list" where
  "workflow_steps wid g = dlist (sg_workflow_steps g) wid"

definition agent_steps_of :: "string \<Rightarrow> AgentStepGraph \<Rightarrow> string list" where
  "agent_steps_of aid g = dlist (sg_agent_steps g) aid"

definition get_step :: "string \<Rightarrow> AgentStepGraph \<Rightarrow> AgentStepNode option" where
  "get_step sid g = dget (sg_steps g) sid"

definition has_workflow :: "string \<Rightarrow> AgentStepGraph \<Rightarrow> bool" where
  "has_workflow wid g = dmem (sg_workflow_steps g) wid"

record GraphStats =
  gs_workflows :: nat
  gs_steps :: nat
  gs_agents :: nat
  gs_completed_steps :: nat
  gs_pending_steps :: int

definition graph_stats :: "AgentStepGraph \<Rightarrow> GraphStats" where
  "graph_stats g =
     (let completed = length (filter (\<lambda>(_, n). sn_completed n) (sg_steps g))
      in \<lparr>gs_workflows = length (sg_workflow_steps g), gs_steps = length (sg_steps g),
          gs_agents = length (sg_agent_steps g), gs_completed_steps = completed,
          gs_pending_steps = int (length (sg_steps g)) - int completed\<rparr>)"

definition graph_len :: "AgentStepGraph \<Rightarrow> nat" where
  "graph_len g = length (sg_steps g)"

definition graph_contains :: "string \<Rightarrow> AgentStepGraph \<Rightarrow> bool" where
  "graph_contains sid g = dmem (sg_steps g) sid"

section \<open>Well-formed graphs\<close>

text \<open>
  The lists of a workflow and of an agent hold exactly their steps, once each; a parent is a
  step of the same workflow that was announced before its child, and children know their
  parents and are known by them.
\<close>

definition listed ::
    "(string, AgentStepNode) dict \<Rightarrow> (AgentStepNode \<Rightarrow> string) \<Rightarrow> (string, string list) dict \<Rightarrow> bool" where
  "listed steps owner byo \<longleftrightarrow>
     (\<forall>o1. distinct (dlist byo o1) \<and>
        (\<forall>i. i \<in> set (dlist byo o1) \<longleftrightarrow> (\<exists>n. dget steps i = Some n \<and> owner n = o1)))"

definition before :: "'x list \<Rightarrow> 'x \<Rightarrow> 'x \<Rightarrow> bool" where
  "before xs a b \<longleftrightarrow> (\<exists>us vs. xs = us @ a # vs \<and> b \<in> set vs)"

definition linked :: "(string, AgentStepNode) dict \<Rightarrow> bool" where
  "linked steps \<longleftrightarrow>
     (\<forall>p n. dget steps p = Some n \<longrightarrow> distinct (sn_child_step_ids n) \<and>
        (\<forall>c. c \<in> set (sn_child_step_ids n) \<longleftrightarrow>
           (\<exists>m. dget steps c = Some m \<and> sn_parent_step_id m = Some p)))"

definition graph_wf :: "AgentStepGraph \<Rightarrow> bool" where
  "graph_wf g \<longleftrightarrow> dwf (sg_steps g)
     \<and> listed (sg_steps g) sn_workflow_id (sg_workflow_steps g)
     \<and> listed (sg_steps g) sn_agent_id (sg_agent_steps g)
     \<and> linked (sg_steps g)
     \<and> (\<forall>i n p. dget (sg_steps g) i = Some n \<longrightarrow> sn_parent_step_id n = Some p \<longrightarrow>
          before (workflow_steps (sn_workflow_id n) g) p i)"

lemma graph_wf_init [simp]: "graph_wf graph_init"
  by (simp add: graph_wf_def graph_init_def listed_def linked_def)

lemma graph_wfD:
  assumes "graph_wf g"
  shows "dwf (sg_steps g)"
    and "listed (sg_steps g) sn_workflow_id (sg_workflow_steps g)"
    and "listed (sg_steps g) sn_agent_id (sg_agent_steps g)"
    and "linked (sg_steps g)"
    and "dget (sg_steps g) i = Some n \<Longrightarrow> sn_parent_step_id n = Some p \<Longrightarrow>
       before (workflow_steps (sn_workflow_id n) g) p i"
  using assms unfolding graph_wf_def by blast+

lemma workflow_steps_wf:
  assumes "graph_wf g"
  shows "distinct (workflow_steps wid g)"
    and "i \<in> set (workflow_steps wid g) \<longleftrightarrow> (\<exists>n. dget (sg_steps g) i = Some n \<and> sn_workflow_id n = wid)"
  using graph_wfD(2) [OF assms] unfolding workflow_steps_def listed_def by blast+

lemma agent_steps_wf:
  assumes "graph_wf g"
  shows "distinct (agent_steps_of aid g)"
    and "i \<in> set (agent_steps_of aid g) \<longleftrightarrow> (\<exists>n. dget (sg_steps g) i = Some n \<and> sn_agent_id n = aid)"
  using graph_wfD(3) [OF assms] unfolding agent_steps_of_def listed_def by blast+

section \<open>Operations keep the graph well-formed\<close>

lemma add_workflow_dlist [simp]: "dlist (sg_workflow_steps (add_workflow wid g)) w = dlist (sg_workflow_steps g) w"
  by (simp add: add_workflow_def dmem_def dlist_None)

lemma add_workflow_steps [simp]:
  "sg_steps (add_workflow wid g) = sg_steps g"
  "sg_agent_steps (add_workflow wid g) = sg_agent_steps g"
  "workflow_steps w (add_workflow wid g) = workflow_steps w g"
  by (simp_all add: add_workflow_def workflow_steps_def dmem_def dlist_None)

lemma add_workflow_wf: "graph_wf g \<Longrightarrow> graph_wf (add_workflow wid g)"
  unfolding graph_wf_def listed_def by simp

lemma listed_append:
  assumes "listed steps owner byo" and "dget steps sid = None" and "owner new = o1"
  shows "listed (dset steps sid new) owner (dappend byo o1 sid)"
proof -
  have "sid \<notin> set (dlist byo o2)" for o2
    using assms(1,2) unfolding listed_def by simp
  with assms show ?thesis unfolding listed_def by (simp add: dget_dset)
qed

text \<open>The parts of a node that the lists and links look at.\<close>

lemma listed_cong:
  assumes "listed steps owner byo"
    and "\<And>i. map_option owner (dget steps' i) = map_option owner (dget steps i)"
  shows "listed steps' owner byo"
proof -
  have "(\<exists>n. dget steps' i = Some n \<and> owner n = o1) \<longleftrightarrow> (\<exists>n. dget steps i = Some n \<and> owner n = o1)" for i o1
    using assms(2) [of i] by (cases "dget steps i"; cases "dget steps' i") auto
  with assms(1) show ?thesis unfolding listed_def by simp
qed

lemma link_parent_owner:
  assumes "\<And>n cs. owner (n\<lparr>sn_child_step_ids := cs\<rparr>) = owner n"
  shows "map_option owner (dget (link_parent sid parent steps) i) = map_option owner (dget steps i)"
  using assms by (simp add: link_parent_def dict_simps split: option.split)

lemma dwf_link_parent [simp, intro]: "dwf steps \<Longrightarrow> dwf (link_parent sid parent steps)"
  by (auto simp: link_parent_def split: option.splits)

text \<open>A node after a child was linked to its parent.\<close>

lemma dget_link_parent:
  "dget (link_parent sid parent steps) i =
     (if parent = Some i
      then map_option (\<lambda>n. n\<lparr>sn_child_step_ids := sn_child_step_ids n @ [sid]\<rparr>) (dget steps i)
      else dget steps i)"
  by (auto simp: link_parent_def dict_simps split: option.split)

lemma linked_add:
  assumes lk: "linked steps" and new: "dget steps sid = None"
    and par: "parent \<noteq> Some sid"
    and orphan: "\<And>c m. dget steps c = Some m \<Longrightarrow> sn_parent_step_id m \<noteq> Some sid"
    and node: "sn_parent_step_id n = parent" "sn_child_step_ids n = []"
  shows "linked (link_parent sid parent (dset steps sid n))"
  unfolding linked_def
proof (intro allI impI)
  fix p m
  let ?steps' = "link_parent sid parent (dset steps sid n)"
  assume m: "dget ?steps' p = Some m"
  have kids: "(\<exists>q. dget ?steps' c = Some q \<and> sn_parent_step_id q = Some p)
      \<longleftrightarrow> (if c = sid then parent = Some p else \<exists>q. dget steps c = Some q \<and> sn_parent_step_id q = Some p)" for c
    using par node by (auto simp: dget_link_parent dget_dset)
  show "distinct (sn_child_step_ids m) \<and>
     (\<forall>c. c \<in> set (sn_child_step_ids m) \<longleftrightarrow>
        (\<exists>q. dget ?steps' c = Some q \<and> sn_parent_step_id q = Some p))"
  proof (cases "p = sid")
    case True
    with m par node have "sn_child_step_ids m = []" by (simp add: dget_link_parent dget_dset)
    with kids orphan par True show ?thesis by auto
  next
    case False
    from m False obtain m0 where m0: "dget steps p = Some m0"
      and cs: "sn_child_step_ids m = (if parent = Some p then sn_child_step_ids m0 @ [sid] else sn_child_step_ids m0)"
      by (auto simp: dget_link_parent dget_dset split: if_splits)
    from lk m0 have d: "distinct (sn_child_step_ids m0)"
      and old: "\<And>c. c \<in> set (sn_child_step_ids m0) \<longleftrightarrow> (\<exists>q. dget steps c = Some q \<and> sn_parent_step_id q = Some p)"
      unfolding linked_def by blast+
    have "sid \<notin> set (sn_child_step_ids m0)" using old new by simp
    with d old kids cs show ?thesis by auto
  qed
qed

lemma before_append: "before xs a b \<Longrightarrow> before (xs @ ys) a b"
  unfolding before_def by force

lemma before_last: "a \<in> set xs \<Longrightarrow> before (xs @ [b]) a b"
proof -
  assume "a \<in> set xs"
  then obtain us vs where "xs = us @ a # vs" by (auto dest: split_list)
  then have "xs @ [b] = us @ a # (vs @ [b]) \<and> b \<in> set (vs @ [b])" by simp
  then show ?thesis unfolding before_def by blast
qed

lemma before_mem: "before xs a b \<Longrightarrow> a \<in> set xs \<and> b \<in> set xs"
  by (auto simp: before_def)

text \<open>The graph after a step was added, opened once.\<close>

definition new_step :: "string \<Rightarrow> string \<Rightarrow> string \<Rightarrow> string option \<Rightarrow> int \<Rightarrow> AgentStepNode" where
  "new_step wid sid aid parent turn = \<lparr>sn_workflow_id = wid, sn_step_id = sid, sn_agent_id = aid,
     sn_parent_step_id = parent, sn_completed = False, sn_child_step_ids = [], sn_turn_id = turn\<rparr>"

lemma add_step_ok:
  assumes "add_step wid sid aid parent turn g = (Inr (), g')"
  shows "dget (sg_steps g) sid = None"
    and "parent = Some p \<Longrightarrow> \<exists>n. dget (sg_steps g) p = Some n \<and> sn_workflow_id n = wid"
    and "sg_steps g' = link_parent sid parent (dset (sg_steps g) sid (new_step wid sid aid parent turn))"
    and "dlist (sg_workflow_steps g') w =
       (if w = wid then dlist (sg_workflow_steps g) w @ [sid] else dlist (sg_workflow_steps g) w)"
    and "sg_agent_steps g' = dappend (sg_agent_steps g) aid sid"
  using assms
  by (auto simp: add_step_def Let_def dmem_def new_step_def split: if_splits option.splits
      simp del: map_of_eq_Some_iff Some_eq_map_of_iff)

lemma add_step_err: "add_step wid sid aid parent turn g = (Inl e, g') \<Longrightarrow> g' = g"
  by (auto simp: add_step_def Let_def split: if_splits)

lemma add_step_wf:
  assumes wf: "graph_wf g" and call: "add_step wid sid aid parent turn g = (Inr (), g')"
  shows "graph_wf g'"
proof -
  note ok = add_step_ok [OF call]
  let ?mid = "dset (sg_steps g) sid (new_step wid sid aid parent turn)"
  have orphan: "sn_parent_step_id m \<noteq> Some sid" if c: "dget (sg_steps g) c = Some m" for c m
  proof
    assume "sn_parent_step_id m = Some sid"
    with c have "before (workflow_steps (sn_workflow_id m) g) sid c" by (rule graph_wfD(5) [OF wf])
    then have "sid \<in> set (workflow_steps (sn_workflow_id m) g)" using before_mem by fast
    with workflow_steps_wf(2) [OF wf] ok(1) show False by simp
  qed
  have par: "parent \<noteq> Some sid" using ok(1,2) by (metis option.distinct(1))
  have owner: "map_option f (dget (sg_steps g') i) = map_option f (dget ?mid i)"
    if "\<And>n cs. f (n\<lparr>sn_child_step_ids := cs\<rparr>) = f n" for f :: "AgentStepNode \<Rightarrow> 'z" and i
    unfolding ok(3) by (rule link_parent_owner) (rule that)
  have agents: "listed ?mid sn_agent_id (sg_agent_steps g')"
    unfolding ok(5) by (rule listed_append [OF graph_wfD(3) [OF wf] ok(1)]) (simp add: new_step_def)
  have wfs: "listed ?mid sn_workflow_id (dappend (sg_workflow_steps g) wid sid)"
    by (rule listed_append [OF graph_wfD(2) [OF wf] ok(1)]) (simp add: new_step_def)
  have "dlist (sg_workflow_steps g') w = dlist (dappend (sg_workflow_steps g) wid sid) w" for w
    unfolding ok(4) by simp
  then have wfs: "listed ?mid sn_workflow_id (sg_workflow_steps g')"
    using wfs unfolding listed_def by presburger
  have parents: "before (workflow_steps (sn_workflow_id n) g') p i"
    if n: "dget (sg_steps g') i = Some n" and p: "sn_parent_step_id n = Some p" for i n p
  proof -
    from n have eqs: "map_option sn_workflow_id (dget ?mid i) = Some (sn_workflow_id n)"
      "map_option sn_parent_step_id (dget ?mid i) = Some (Some p)"
      using owner [of sn_workflow_id i] owner [of sn_parent_step_id i] p by simp_all
    show ?thesis
    proof (cases "i = sid")
      case True
      with eqs have w: "sn_workflow_id n = wid" and "parent = Some p"
        by (simp_all add: dget_dset new_step_def)
      from ok(2) [OF this(2)] obtain q where "dget (sg_steps g) p = Some q" "sn_workflow_id q = wid" by blast
      then have "p \<in> set (workflow_steps wid g)" using workflow_steps_wf(2) [OF wf] by blast
      from before_last [OF this, of sid] show ?thesis
        using True w by (simp add: workflow_steps_def ok(4))
    next
      case False
      with eqs obtain m where "dget (sg_steps g) i = Some m" "sn_workflow_id m = sn_workflow_id n"
        "sn_parent_step_id m = Some p" by (auto simp: dget_dset)
      with graph_wfD(5) [OF wf] have "before (workflow_steps (sn_workflow_id n) g) p i" by metis
      then show ?thesis by (auto simp: workflow_steps_def ok(4) intro: before_append)
    qed
  qed
  show ?thesis
    unfolding graph_wf_def
  proof (intro conjI allI impI)
    show "dwf (sg_steps g')" unfolding ok(3) using graph_wfD(1) [OF wf] by auto
    show "listed (sg_steps g') sn_workflow_id (sg_workflow_steps g')"
      by (rule listed_cong [OF wfs owner]) simp
    show "listed (sg_steps g') sn_agent_id (sg_agent_steps g')"
      by (rule listed_cong [OF agents owner]) simp
    show "linked (sg_steps g')"
      unfolding ok(3) by (rule linked_add [OF graph_wfD(4) [OF wf] ok(1) par orphan])
        (simp_all add: new_step_def)
  qed (rule parents)
qed

lemma mark_ok:
  "mark_step_completed sid g = (r, g') \<Longrightarrow>
     g' = g \<or> (\<exists>n. dget (sg_steps g) sid = Some n
       \<and> g' = g\<lparr>sg_steps := dset (sg_steps g) sid (n\<lparr>sn_completed := True\<rparr>)\<rparr>)"
  by (auto simp: mark_step_completed_def require_step_def split: option.splits
      simp del: map_of_eq_Some_iff Some_eq_map_of_iff)

lemma mark_wf:
  assumes wf: "graph_wf g" and call: "mark_step_completed sid g = (r, g')"
  shows "graph_wf g'"
proof (cases "g' = g")
  case True
  with wf show ?thesis by simp
next
  case False
  with mark_ok [OF call] obtain n where n: "dget (sg_steps g) sid = Some n"
    and g': "g' = g\<lparr>sg_steps := dset (sg_steps g) sid (n\<lparr>sn_completed := True\<rparr>)\<rparr>" by blast
  let ?steps' = "dset (sg_steps g) sid (n\<lparr>sn_completed := True\<rparr>)"
  have view: "map_option f (dget ?steps' i) = map_option f (dget (sg_steps g) i)"
    if "f (n\<lparr>sn_completed := True\<rparr>) = f n" for f :: "AgentStepNode \<Rightarrow> 'z" and i
    using that n by (simp add: dget_dset del: map_of_eq_Some_iff Some_eq_map_of_iff)
  have same: "\<exists>m0. dget (sg_steps g) i = Some m0 \<and> sn_parent_step_id m0 = sn_parent_step_id m
      \<and> sn_workflow_id m0 = sn_workflow_id m \<and> sn_child_step_ids m0 = sn_child_step_ids m"
    if "dget ?steps' i = Some m" for i m
    using that n by (auto simp: dget_dset split: if_splits simp del: map_of_eq_Some_iff Some_eq_map_of_iff)
  have kids: "(\<exists>m. dget ?steps' c = Some m \<and> sn_parent_step_id m = q)
      \<longleftrightarrow> (\<exists>m. dget (sg_steps g) c = Some m \<and> sn_parent_step_id m = q)" for c q
    using view [of sn_parent_step_id c] by (cases "dget (sg_steps g) c"; cases "dget ?steps' c") auto
  show ?thesis
    unfolding graph_wf_def g'
  proof (intro conjI allI impI)
    show "dwf (sg_steps (g\<lparr>sg_steps := ?steps'\<rparr>))" using graph_wfD(1) [OF wf] by auto
    show "listed (sg_steps (g\<lparr>sg_steps := ?steps'\<rparr>)) sn_workflow_id (sg_workflow_steps (g\<lparr>sg_steps := ?steps'\<rparr>))"
      using listed_cong [OF graph_wfD(2) [OF wf] view] by simp
    show "listed (sg_steps (g\<lparr>sg_steps := ?steps'\<rparr>)) sn_agent_id (sg_agent_steps (g\<lparr>sg_steps := ?steps'\<rparr>))"
      using listed_cong [OF graph_wfD(3) [OF wf] view] by simp
    have "linked ?steps'"
      unfolding linked_def kids
    proof (intro allI impI)
      fix p m
      assume "dget ?steps' p = Some m"
      from same [OF this] obtain m0 where "dget (sg_steps g) p = Some m0"
        and "sn_child_step_ids m0 = sn_child_step_ids m" by blast
      with graph_wfD(4) [OF wf] show "distinct (sn_child_step_ids m) \<and> (\<forall>c. (c \<in> set (sn_child_step_ids m)) =
          (\<exists>q. dget (sg_steps g) c = Some q \<and> sn_parent_step_id q = Some p))"
        unfolding linked_def by metis
    qed
    then show "linked (sg_steps (g\<lparr>sg_steps := ?steps'\<rparr>))" by simp
    fix i m p
    assume "dget (sg_steps (g\<lparr>sg_steps := ?steps'\<rparr>)) i = Some m" and p: "sn_parent_step_id m = Some p"
    then have "dget ?steps' i = Some m" by simp
    from same [OF this] p graph_wfD(5) [OF wf, of i _ p]
    show "before (workflow_steps (sn_workflow_id m) (g\<lparr>sg_steps := ?steps'\<rparr>)) p i"
      by (auto simp: workflow_steps_def)
  qed
qed

section \<open>Reachable graphs\<close>

inductive graph_step :: "AgentStepGraph \<Rightarrow> AgentStepGraph \<Rightarrow> bool" where
  "graph_step g (add_workflow wid g)"
| "add_step wid sid aid parent turn g = (r, g') \<Longrightarrow> graph_step g g'"
| "add_step_object s g = (r, g') \<Longrightarrow> graph_step g g'"
| "mark_step_completed sid g = (r, g') \<Longrightarrow> graph_step g g'"

inductive graph_reachable :: "AgentStepGraph \<Rightarrow> bool" where
  "graph_reachable graph_init"
| "graph_reachable g \<Longrightarrow> graph_step g g' \<Longrightarrow> graph_reachable g'"

lemma add_step_wf_any:
  assumes "graph_wf g" and "add_step wid sid aid parent turn g = (r, g')"
  shows "graph_wf g'"
proof (cases r)
  case (Inl e)
  with assms(2) have "g' = g" by (auto dest: add_step_err)
  with assms(1) show ?thesis by simp
next
  case (Inr u)
  with assms add_step_wf show ?thesis by simp
qed

lemma graph_step_wf: "graph_step g g' \<Longrightarrow> graph_wf g \<Longrightarrow> graph_wf g'"
proof (induction rule: graph_step.induct)
  case (3 s g r g')
  then show ?case
    by (auto simp: add_step_object_def split: prod.splits sum.splits if_splits
        dest: add_step_wf_any mark_wf)
qed (auto intro: add_workflow_wf add_step_wf_any mark_wf)

lemma reachable_graph_wf: "graph_reachable g \<Longrightarrow> graph_wf g"
  by (induction rule: graph_reachable.induct) (auto intro: graph_step_wf)

section \<open>What the predictions mean\<close>

definition pending :: "AgentStepGraph \<Rightarrow> string \<Rightarrow> bool" where
  "pending g i = (case dget (sg_steps g) i of None \<Rightarrow> False | Some n \<Rightarrow> \<not> sn_completed n)"

definition agent_of :: "AgentStepGraph \<Rightarrow> string \<Rightarrow> string option" where
  "agent_of g i = map_option sn_agent_id (dget (sg_steps g) i)"

text \<open>The pending steps announced after a step, in order.\<close>

definition future :: "AgentStepGraph \<Rightarrow> string \<Rightarrow> string \<Rightarrow> string list" where
  "future g wid i = filter (pending g) (tl (dropWhile (\<lambda>j. j \<noteq> i) (workflow_steps wid g)))"

lemma pending_of_known:
  "\<forall>i \<in> set ids. dget (sg_steps g) i \<noteq> None \<Longrightarrow> pending_of (sg_steps g) ids = Inr (filter (pending g) ids)"
  by (induction ids) (auto simp: pending_def simp del: map_of_eq_Some_iff Some_eq_map_of_iff)

lemma after_first: "a \<notin> set us \<Longrightarrow> tl (dropWhile (\<lambda>j. j \<noteq> a) (us @ a # vs)) = vs"
  by (subst dropWhile_append2) auto

lemma after_iff_before:
  assumes "distinct xs"
  shows "b \<in> set (tl (dropWhile (\<lambda>j. j \<noteq> a) xs)) \<longleftrightarrow> before xs a b"
proof (cases "a \<in> set xs")
  case True
  then obtain us vs where xs: "xs = us @ a # vs" by (auto dest: split_list)
  with assms have a: "a \<notin> set us" "a \<notin> set vs" by auto
  have "set vs = set vs'" if "us @ a # vs = us' @ a # vs'" for us' vs'
  proof -
    from assms xs that have "a \<notin> set us'" by auto
    from after_first [OF this, of vs'] after_first [OF a(1), of vs] that show ?thesis by simp
  qed
  then have "before xs a b \<longleftrightarrow> b \<in> set vs" unfolding before_def xs by blast
  with after_first [OF a(1)] show ?thesis unfolding xs by simp
next
  case False
  then have none: "dropWhile (\<lambda>j. j \<noteq> a) xs = []" by auto
  have "\<not> before xs a b" using False before_mem by fast
  then show ?thesis unfolding none by simp
qed

lemma set_after_subset: "set (tl (dropWhile P xs)) \<subseteq> set xs"
proof -
  have "set (tl ys) \<subseteq> set ys" for ys :: "'a list" by (cases ys) auto
  then show ?thesis by (blast dest: set_dropWhileD)
qed

lemma future_iff:
  assumes "graph_wf g"
  shows "j \<in> set (future g wid i) \<longleftrightarrow> pending g j \<and> before (workflow_steps wid g) i j"
  by (auto simp: future_def after_iff_before workflow_steps_wf(1) [OF assms])

lemma future_distinct:
  assumes "graph_wf g"
  shows "distinct (future g wid i)"
  using workflow_steps_wf(1) [OF assms, of wid]
  by (simp add: future_def distinct_tl distinct_dropWhile)

lemma future_uncompleted_eq:
  assumes wf: "graph_wf g" and i: "i \<in> set (workflow_steps wid g)"
  shows "future_uncompleted_steps wid i g = Inr (future g wid i)"
proof -
  have "dget (sg_steps g) j \<noteq> None" if "j \<in> set (tl (dropWhile (\<lambda>j. j \<noteq> i) (workflow_steps wid g)))" for j
  proof -
    have "j \<in> set (workflow_steps wid g)" using that set_after_subset by fast
    with workflow_steps_wf(2) [OF wf] show ?thesis by auto
  qed
  then show ?thesis using i pending_of_known [of _ g]
    by (simp add: future_uncompleted_steps_def future_def workflow_steps_def)
qed

text \<open>
  A prediction consists of pending steps of the workflow after the current one, without
  repetition and at most \<open>top_k\<close>; it is empty only when nothing is pending there; and while the
  current step has a pending child, only its children are predicted.
\<close>

definition good_prediction :: "AgentStepGraph \<Rightarrow> string \<Rightarrow> AgentStepNode \<Rightarrow> int \<Rightarrow> string list \<Rightarrow> bool" where
  "good_prediction g i n top_k ps \<longleftrightarrow>
     distinct ps \<and> int (length ps) \<le> top_k
     \<and> set ps \<subseteq> {j. pending g j \<and> before (workflow_steps (sn_workflow_id n) g) i j}
     \<and> (ps = [] \<longleftrightarrow> (\<forall>j. \<not> (pending g j \<and> before (workflow_steps (sn_workflow_id n) g) i j)))
     \<and> ((\<exists>c \<in> set (sn_child_step_ids n). pending g c) \<longrightarrow> set ps \<subseteq> set (sn_child_step_ids n))"

lemma child_before:
  assumes wf: "graph_wf g" and n: "dget (sg_steps g) i = Some n" and c: "c \<in> set (sn_child_step_ids n)"
  shows "dget (sg_steps g) c \<noteq> None \<and> before (workflow_steps (sn_workflow_id n) g) i c"
proof -
  from graph_wfD(4) [OF wf] n c obtain m where m: "dget (sg_steps g) c = Some m" "sn_parent_step_id m = Some i"
    unfolding linked_def by blast
  from graph_wfD(5) [OF wf m] have b: "before (workflow_steps (sn_workflow_id m) g) i c" .
  then have "i \<in> set (workflow_steps (sn_workflow_id m) g)" using before_mem by fast
  with workflow_steps_wf(2) [OF wf] n have "sn_workflow_id n = sn_workflow_id m" by auto
  with b m show ?thesis by simp
qed

lemma predict_good:
  assumes wf: "graph_wf g" and n: "dget (sg_steps g) i = Some n" and k: "0 < top_k"
  shows "\<exists>ps. predict_next_steps (sn_workflow_id n) i top_k g = Inr ps \<and> good_prediction g i n top_k ps"
proof -
  let ?wid = "sn_workflow_id n"
  let ?kids = "filter (pending g) (sn_child_step_ids n)"
  let ?cs = "if ?kids = [] then future g ?wid i else ?kids"
  have i: "i \<in> set (workflow_steps ?wid g)" using workflow_steps_wf(2) [OF wf] n by blast
  have kids: "pending_of (sg_steps g) (sn_child_step_ids n) = Inr ?kids"
    using child_before [OF wf n] pending_of_known by blast
  have run: "predict_next_steps ?wid i top_k g = Inr (take (nat top_k) ?cs)"
    using k n kids future_uncompleted_eq [OF wf i]
    by (simp add: predict_next_steps_def require_step_def del: map_of_eq_Some_iff Some_eq_map_of_iff)
  have kb: "\<forall>c \<in> set ?kids. pending g c \<and> before (workflow_steps ?wid g) i c"
    using child_before [OF wf n] by simp
  have "distinct (sn_child_step_ids n)" using graph_wfD(4) [OF wf] n unfolding linked_def by blast
  then have d: "distinct ?cs" using future_distinct [OF wf] by simp
  have sub: "set ?cs \<subseteq> {j. pending g j \<and> before (workflow_steps ?wid g) i j}"
    using kb future_iff [OF wf] by auto
  have empty: "?cs = [] \<longleftrightarrow> (\<forall>j. \<not> (pending g j \<and> before (workflow_steps ?wid g) i j))"
  proof (cases "?kids = []")
    case True
    then have "?cs = []  \<longleftrightarrow> set (future g ?wid i) = {}" by simp
    also have "\<dots> \<longleftrightarrow> (\<forall>j. j \<notin> set (future g ?wid i))" by (rule all_not_in_conv [symmetric])
    also have "\<dots> \<longleftrightarrow> (\<forall>j. \<not> (pending g j \<and> before (workflow_steps ?wid g) i j))"
      unfolding future_iff [OF wf] ..
    finally show ?thesis .
  next
    case False
    then have "hd ?kids \<in> set ?kids" by (rule hd_in_set)
    with kb False show ?thesis by auto
  qed
  have child: "set ?cs \<subseteq> set (sn_child_step_ids n)" if "\<exists>c \<in> set (sn_child_step_ids n). pending g c"
  proof -
    from that have "?kids \<noteq> []" by (auto simp: filter_empty_conv)
    then show ?thesis by auto
  qed
  have "good_prediction g i n top_k (take (nat top_k) ?cs)"
    unfolding good_prediction_def
  proof (intro conjI impI)
    show "distinct (take (nat top_k) ?cs)" by (rule distinct_take [OF d])
    show "int (length (take (nat top_k) ?cs)) \<le> top_k" using k by simp
    show "set (take (nat top_k) ?cs) \<subseteq> {j. pending g j \<and> before (workflow_steps ?wid g) i j}"
      using sub set_take_subset by fast
    show "(take (nat top_k) ?cs = []) = (\<forall>j. \<not> (pending g j \<and> before (workflow_steps ?wid g) i j))"
      using empty k by (simp only: take_eq_Nil) simp
    show "set (take (nat top_k) ?cs) \<subseteq> set (sn_child_step_ids n)"
      if "\<exists>c \<in> set (sn_child_step_ids n). pending g c"
      using child [OF that] set_take_subset by fast
  qed
  with run show ?thesis by blast
qed

text \<open>The distance to an agent is the position of its first pending step after the current one.\<close>

lemma agent_distance_spec:
  assumes "\<forall>i \<in> set ids. dget (sg_steps g) i \<noteq> None"
  shows "\<exists>r. agent_distance (sg_steps g) aid d ids = Inr r \<and>
    (case r of
       None \<Rightarrow> \<forall>i \<in> set ids. agent_of g i \<noteq> Some aid
     | Some k \<Rightarrow> d \<le> k \<and> k < d + length ids \<and> agent_of g (ids ! (k - d)) = Some aid
         \<and> (\<forall>j < k - d. agent_of g (ids ! j) \<noteq> Some aid))"
  using assms
proof (induction ids arbitrary: d)
  case Nil
  then show ?case by simp
next
  case (Cons i ids)
  then obtain n where n: "dget (sg_steps g) i = Some n" by auto
  show ?case
  proof (cases "sn_agent_id n = aid")
    case True
    with n show ?thesis by (simp add: agent_of_def del: map_of_eq_Some_iff Some_eq_map_of_iff)
  next
    case False
    from Cons.IH [of "d + 1"] Cons.prems obtain r where
      r: "agent_distance (sg_steps g) aid (d + 1) ids = Inr r" and
      spec: "case r of None \<Rightarrow> \<forall>i \<in> set ids. agent_of g i \<noteq> Some aid
        | Some k \<Rightarrow> d + 1 \<le> k \<and> k < d + 1 + length ids \<and> agent_of g (ids ! (k - (d + 1))) = Some aid
           \<and> (\<forall>j < k - (d + 1). agent_of g (ids ! j) \<noteq> Some aid)"
      by auto
    have i: "agent_of g i \<noteq> Some aid"
      using n False by (simp add: agent_of_def del: map_of_eq_Some_iff Some_eq_map_of_iff)
    show ?thesis
    proof (cases r)
      case None
      with n False r spec i show ?thesis by (simp del: map_of_eq_Some_iff Some_eq_map_of_iff)
    next
      case (Some k)
      with spec have k: "d + 1 \<le> k" "k < d + 1 + length ids"
        "agent_of g (ids ! (k - (d + 1))) = Some aid"
        "\<And>j. j < k - (d + 1) \<Longrightarrow> agent_of g (ids ! j) \<noteq> Some aid" by auto
      have "k - d = Suc (k - (d + 1))" using k(1) by simp
      then have "agent_of g ((i # ids) ! (k - d)) = Some aid"
        and "\<forall>j < k - d. agent_of g ((i # ids) ! j) \<noteq> Some aid"
        using k(3,4) i by (auto simp: less_Suc_eq_0_disj)
      with n False r Some k show ?thesis by (simp del: map_of_eq_Some_iff Some_eq_map_of_iff)
    qed
  qed
qed

lemma steps_to_execution_spec:
  assumes wf: "graph_wf g" and n: "dget (sg_steps g) i = Some n"
  shows "\<exists>r. steps_to_execution aid i g = Inr r \<and>
    (case r of
       None \<Rightarrow> \<forall>j \<in> set (future g (sn_workflow_id n) i). agent_of g j \<noteq> Some aid
     | Some d \<Rightarrow> 1 \<le> d \<and> d \<le> length (future g (sn_workflow_id n) i)
         \<and> agent_of g (future g (sn_workflow_id n) i ! (d - 1)) = Some aid
         \<and> (\<forall>j < d - 1. agent_of g (future g (sn_workflow_id n) i ! j) \<noteq> Some aid))"
proof -
  let ?f = "future g (sn_workflow_id n) i"
  have i: "i \<in> set (workflow_steps (sn_workflow_id n) g)" using workflow_steps_wf(2) [OF wf] n by blast
  have "\<forall>j \<in> set ?f. dget (sg_steps g) j \<noteq> None"
    using future_iff [OF wf] by (auto simp: pending_def split: option.splits)
  from agent_distance_spec [OF this, of aid 1] obtain r where
    "agent_distance (sg_steps g) aid 1 ?f = Inr r" and
    "case r of None \<Rightarrow> \<forall>j \<in> set ?f. agent_of g j \<noteq> Some aid
      | Some k \<Rightarrow> 1 \<le> k \<and> k < 1 + length ?f \<and> agent_of g (?f ! (k - 1)) = Some aid
          \<and> (\<forall>j < k - 1. agent_of g (?f ! j) \<noteq> Some aid)" by blast
  with n future_uncompleted_eq [OF wf i] show ?thesis
    by (auto simp: steps_to_execution_def require_step_def split: option.splits
        simp del: map_of_eq_Some_iff Some_eq_map_of_iff)
qed

section \<open>Properties\<close>

text \<open>A small workflow, for the examples.\<close>

definition sample_graph :: AgentStepGraph where
  "sample_graph = snd (add_step ''w'' ''s3'' ''a1'' (Some ''s1'') 2
     (snd (add_step ''w'' ''s2'' ''a2'' (Some ''s1'') 1
     (snd (add_step ''w'' ''s1'' ''a1'' None 0 graph_init)))))"

lemma sample_graph_reachable: "graph_reachable sample_graph"
  unfolding sample_graph_def by (metis graph_reachable.intros graph_step.intros(2) prod.collapse)

text \<open>C19: In every graph that can be built, a workflow lists exactly its steps, once each, and so does an
  agent; and the parent of a step is a step of the same workflow that was announced earlier and lists
  the step among its children.\<close>

theorem graph_invariant:
  assumes "graph_reachable g"
  shows "distinct (workflow_steps wid g) \<and> distinct (agent_steps_of aid g)
    \<and> (i \<in> set (workflow_steps wid g) \<longleftrightarrow> (\<exists>n. get_step i g = Some n \<and> sn_workflow_id n = wid))
    \<and> (i \<in> set (agent_steps_of aid g) \<longleftrightarrow> (\<exists>n. get_step i g = Some n \<and> sn_agent_id n = aid))
    \<and> (\<forall>n p. get_step i g = Some n \<longrightarrow> sn_parent_step_id n = Some p \<longrightarrow>
         before (workflow_steps (sn_workflow_id n) g) p i \<and>
         (\<exists>m. get_step p g = Some m \<and> sn_workflow_id m = sn_workflow_id n \<and> i \<in> set (sn_child_step_ids m)))"
proof -
  have wf: "graph_wf g" by (rule reachable_graph_wf [OF assms])
  have parent: "before (workflow_steps (sn_workflow_id n) g) p i \<and>
      (\<exists>m. get_step p g = Some m \<and> sn_workflow_id m = sn_workflow_id n \<and> i \<in> set (sn_child_step_ids m))"
    if n: "get_step i g = Some n" and p: "sn_parent_step_id n = Some p" for n p
  proof -
    have b: "before (workflow_steps (sn_workflow_id n) g) p i"
      using graph_wfD(5) [OF wf] n p unfolding get_step_def by blast
    then have "p \<in> set (workflow_steps (sn_workflow_id n) g)" using before_mem by fast
    with workflow_steps_wf(2) [OF wf] obtain m where m: "dget (sg_steps g) p = Some m"
      "sn_workflow_id m = sn_workflow_id n" by blast
    with graph_wfD(4) [OF wf] n p have "i \<in> set (sn_child_step_ids m)"
      unfolding linked_def get_step_def by blast
    with b m show ?thesis unfolding get_step_def by blast
  qed
  show ?thesis
    using workflow_steps_wf [OF wf] agent_steps_wf [OF wf] parent unfolding get_step_def by blast
qed

lemma graph_invariant_witness:
  "''s2'' \<in> set (workflow_steps ''w'' sample_graph) \<and>
   (\<exists>m. get_step ''s1'' sample_graph = Some m \<and> ''s2'' \<in> set (sn_child_step_ids m))"
proof -
  obtain n where n: "get_step ''s2'' sample_graph = Some n" "sn_workflow_id n = ''w''"
      "sn_parent_step_id n = Some ''s1''"
    by (simp add: sample_graph_def get_step_def add_step_def add_workflow_def link_parent_def
        graph_init_def dmem_def dict_simps Let_def)
  from graph_invariant [OF sample_graph_reachable, of "''w''" "''a2''" "''s2''"] n show ?thesis by blast
qed

text \<open>C20: Announcing a step either succeeds or leaves the graph as it was, and it fails exactly when the step
  is known already, or its parent is unknown or belongs to another workflow.\<close>

theorem add_step_total:
  assumes "add_step wid sid aid parent turn g = (r, g')"
  shows "(is_ok r \<longleftrightarrow> get_step sid g = None \<and>
      (\<forall>p. parent = Some p \<longrightarrow> (\<exists>n. get_step p g = Some n \<and> sn_workflow_id n = wid)))
    \<and> (\<not> is_ok r \<longrightarrow> g' = g)
    \<and> (is_ok r \<longrightarrow> workflow_steps wid g' = workflow_steps wid g @ [sid]
         \<and> map_option sn_agent_id (get_step sid g') = Some aid \<and> get_step sid g = None)"
proof (cases r)
  case (Inl e)
  with assms have "g' = g" by (auto dest: add_step_err)
  moreover have "\<not> (get_step sid g = None \<and>
      (\<forall>p. parent = Some p \<longrightarrow> (\<exists>n. get_step p g = Some n \<and> sn_workflow_id n = wid)))"
    using assms Inl
    by (auto simp: add_step_def Let_def dmem_def get_step_def split: if_splits option.splits
        simp del: map_of_eq_Some_iff Some_eq_map_of_iff)
  ultimately show ?thesis using Inl by simp
next
  case (Inr u)
  with assms have call: "add_step wid sid aid parent turn g = (Inr (), g')" by simp
  note ok = add_step_ok [OF call]
  have "map_option sn_agent_id (dget (sg_steps g') sid) = Some aid"
    unfolding ok(3) by (subst link_parent_owner) (simp_all add: dict_simps new_step_def)
  moreover have "workflow_steps wid g' = workflow_steps wid g @ [sid]"
    unfolding workflow_steps_def ok(4) by simp
  ultimately show ?thesis using Inr ok(1,2) unfolding get_step_def by simp
qed

lemma add_step_total_witness:
  "\<exists>r g'. add_step ''v'' ''s4'' ''a1'' (Some ''s1'') 3 sample_graph = (r, g') \<and> \<not> is_ok r \<and> g' = sample_graph"
proof -
  obtain r g' where call: "add_step ''v'' ''s4'' ''a1'' (Some ''s1'') 3 sample_graph = (r, g')" by fastforce
  have "map_option sn_workflow_id (get_step ''s1'' sample_graph) = Some ''w''"
    by (simp add: sample_graph_def get_step_def add_step_def add_workflow_def link_parent_def
        graph_init_def dmem_def dict_simps Let_def)
  then have "\<not> is_ok r" using add_step_total [OF call] by auto
  with add_step_total [OF call] call show ?thesis by blast
qed

text \<open>C21: Predicting the next steps never fails for a known step: the answer holds at most \<^verbatim>\<open>top_k\<close> different
  steps, all pending, of the same workflow and announced after the current one; it is empty only when
  there is no such step; and while the current step has a pending child it holds only its children.\<close>

theorem prediction_sound:
  assumes "graph_reachable g" and "get_step i g = Some n" and "0 < top_k"
  shows "\<exists>ps. predict_next_steps (sn_workflow_id n) i top_k g = Inr ps \<and>
    distinct ps \<and> int (length ps) \<le> top_k
    \<and> set ps \<subseteq> {j. pending g j \<and> before (workflow_steps (sn_workflow_id n) g) i j}
    \<and> (ps = [] \<longleftrightarrow> (\<forall>j. \<not> (pending g j \<and> before (workflow_steps (sn_workflow_id n) g) i j)))
    \<and> ((\<exists>c \<in> set (sn_child_step_ids n). pending g c) \<longrightarrow> set ps \<subseteq> set (sn_child_step_ids n))"
  using predict_good [OF reachable_graph_wf [OF assms(1)] assms(2) [unfolded get_step_def] assms(3)]
  unfolding good_prediction_def .

lemma prediction_sound_witness:
  "\<exists>n ps. get_step ''s1'' sample_graph = Some n \<and> predict_next_steps (sn_workflow_id n) ''s1'' 1 sample_graph = Inr ps
     \<and> length ps \<le> 1 \<and> set ps \<subseteq> {j. pending sample_graph j}"
proof -
  obtain n where n: "get_step ''s1'' sample_graph = Some n"
    by (simp add: sample_graph_def get_step_def add_step_def add_workflow_def link_parent_def
        graph_init_def dmem_def dict_simps Let_def)
  obtain ps where "predict_next_steps (sn_workflow_id n) ''s1'' 1 sample_graph = Inr ps"
      "int (length ps) \<le> 1" "set ps \<subseteq> {j. pending sample_graph j}"
    using prediction_sound [OF sample_graph_reachable n, of 1] by auto
  with n show ?thesis by auto
qed

text \<open>The distance to an agent is the position, counted from one, of its first pending step after the
  current one, and is absent exactly when it has none there.\<close>

theorem steps_to_execution_exact:
  assumes "graph_reachable g" and "get_step i g = Some n"
  shows "\<exists>r. steps_to_execution aid i g = Inr r \<and>
    (case r of
       None \<Rightarrow> \<forall>j \<in> set (future g (sn_workflow_id n) i). agent_of g j \<noteq> Some aid
     | Some d \<Rightarrow> 1 \<le> d \<and> d \<le> length (future g (sn_workflow_id n) i)
         \<and> agent_of g (future g (sn_workflow_id n) i ! (d - 1)) = Some aid
         \<and> (\<forall>j < d - 1. agent_of g (future g (sn_workflow_id n) i ! j) \<noteq> Some aid))"
  by (rule steps_to_execution_spec [OF reachable_graph_wf [OF assms(1)] assms(2) [unfolded get_step_def]])

lemma steps_to_execution_exact_witness:
  "\<exists>n r. get_step ''s1'' sample_graph = Some n \<and> steps_to_execution ''a3'' ''s1'' sample_graph = Inr r \<and>
     (r = None \<longrightarrow> (\<forall>j \<in> set (future sample_graph (sn_workflow_id n) ''s1''). agent_of sample_graph j \<noteq> Some ''a3''))"
proof -
  obtain n where n: "get_step ''s1'' sample_graph = Some n"
    by (simp add: sample_graph_def get_step_def add_step_def add_workflow_def link_parent_def
        graph_init_def dmem_def dict_simps Let_def)
  from steps_to_execution_exact [OF sample_graph_reachable n, of "''a3''"] n show ?thesis
    by (fastforce split: option.splits)
qed

end
