(* ===== verification/Eviction.thy ===== *)
theory Eviction
  imports StepGraph
begin

text \<open>
  The eviction policies of \<^verbatim>\<open>src/l3store/policies\<close>: \<^verbatim>\<open>base.py\<close> (the interface), \<^verbatim>\<open>eviction/lru.py\<close>,
  \<^verbatim>\<open>eviction/prefix_reuse.py\<close>, \<^verbatim>\<open>eviction/workflow_aware.py\<close> and the registry \<^verbatim>\<open>registry.py\<close>.
  The locale \<open>eviction_policy\<close> is the contract of the abstract class; the three policies are
  interpretations of it.  For each policy the lemmas say which candidate is the victim.

  Reads of the clock are arguments: one time per call, or, where a policy reads the clock while
  it scores each candidate, a function from the position of the candidate to the time.
\<close>

section \<open>The interface\<close>

record EvictionDecision =
  ed_object_id :: string
  ed_priority :: rat

abbreviation block_id :: "KVCacheBlock \<Rightarrow> string" where
  "block_id b \<equiv> object_id (kv_meta b)"

locale eviction_policy =
  fixes accessed :: "rat \<Rightarrow> KVCacheBlock \<Rightarrow> 'st \<Rightarrow> 'st"
    and added :: "rat \<Rightarrow> KVCacheBlock \<Rightarrow> 'st \<Rightarrow> 'st"
    and select_victim :: "'clock \<Rightarrow> KVCacheBlock list \<Rightarrow> 'st \<Rightarrow> EvictionDecision option res"
    and evicted :: "string \<Rightarrow> 'st \<Rightarrow> 'st"
    and tracked :: "'st \<Rightarrow> string set"
  assumes select_empty: "select_victim clock [] st = Inr None"
    and select_member: "select_victim clock cs st = Inr d \<Longrightarrow> cs \<noteq> [] \<Longrightarrow>
          \<exists>v. d = Some v \<and> ed_object_id v \<in> block_id ` set cs"
    and accessed_tracked: "tracked (accessed now b st) = insert (block_id b) (tracked st)"
    and added_tracked: "tracked (added now b st) = insert (block_id b) (tracked st)"
    and evicted_tracked: "tracked (evicted oid st) = tracked st - {oid}"
begin

text \<open>A decision is made exactly when there is a candidate, and it names one.\<close>

lemma decision_iff: "select_victim clock cs st = Inr d \<Longrightarrow> d = None \<longleftrightarrow> cs = []"
  using select_empty select_member by (cases "cs = []") fastforce+

lemma victim_is_candidate:
  assumes "select_victim clock cs st = Inr (Some v)"
  shows "\<exists>b \<in> set cs. block_id b = ed_object_id v"
proof (cases "cs = []")
  case True
  with assms select_empty show ?thesis by simp
next
  case False
  with select_member [OF assms] show ?thesis by auto
qed

text \<open>Evicting the victim makes the policy forget it and nothing else.\<close>

lemma evict_victim:
  "select_victim clock cs st = Inr (Some v) \<Longrightarrow>
     ed_object_id v \<notin> tracked (evicted (ed_object_id v) st)
     \<and> tracked st \<subseteq> insert (ed_object_id v) (tracked (evicted (ed_object_id v) st))"
  by (auto simp: evicted_tracked)

end

section \<open>Least recently used\<close>

record LRUEviction =
  lru_access_order :: "(string, rat) dict"

definition lru_init :: LRUEviction where
  "lru_init = \<lparr>lru_access_order = []\<rparr>"

definition lru_accessed :: "rat \<Rightarrow> KVCacheBlock \<Rightarrow> LRUEviction \<Rightarrow> LRUEviction" where
  "lru_accessed now b st =
     (let oid = block_id b;
          order1 = (if dmem (lru_access_order st) oid then move_to_end (lru_access_order st) oid
                    else lru_access_order st)
      in st\<lparr>lru_access_order := dset order1 oid now\<rparr>)"

definition lru_added :: "rat \<Rightarrow> KVCacheBlock \<Rightarrow> LRUEviction \<Rightarrow> LRUEviction" where
  "lru_added now b st = st\<lparr>lru_access_order := dset (lru_access_order st) (block_id b) now\<rparr>"

definition lru_select_victim :: "KVCacheBlock list \<Rightarrow> LRUEviction \<Rightarrow> EvictionDecision option" where
  "lru_select_victim candidates st =
     (case candidates of
        [] \<Rightarrow> None
      | first # _ \<Rightarrow>
          (case List.find (\<lambda>(oid, _). oid \<in> set (map block_id candidates)) (lru_access_order st) of
             Some (oid, timestamp) \<Rightarrow> Some \<lparr>ed_object_id = oid, ed_priority = timestamp\<rparr>
           | None \<Rightarrow> Some \<lparr>ed_object_id = block_id first, ed_priority = 0\<rparr>))"

definition lru_evicted :: "string \<Rightarrow> LRUEviction \<Rightarrow> LRUEviction" where
  "lru_evicted oid st = st\<lparr>lru_access_order := dpop (lru_access_order st) oid\<rparr>"

definition lru_tracked :: "LRUEviction \<Rightarrow> string set" where
  "lru_tracked st = set (dkeys (lru_access_order st))"

lemma find_pair_key: "List.find (\<lambda>(k, _). P k) d = Some (k, v) \<Longrightarrow> P k \<and> (k, v) \<in> set d"
  by (induction d) (auto split: if_splits)

interpretation lru: eviction_policy lru_accessed lru_added "\<lambda>(_ :: rat) cs st. Inr (lru_select_victim cs st)"
    lru_evicted lru_tracked
proof
  fix cs st d and clock :: rat
  assume "(Inr (lru_select_victim cs st) :: EvictionDecision option res) = Inr d" "cs \<noteq> []"
  then show "\<exists>v. d = Some v \<and> ed_object_id v \<in> block_id ` set cs"
    by (auto simp: lru_select_victim_def split: list.splits option.splits dest!: find_pair_key)
next
  fix now b st
  show "lru_tracked (lru_accessed now b st) = insert (block_id b) (lru_tracked st)"
    using move_to_end_keys [of "lru_access_order st" "block_id b"]
    by (simp add: lru_tracked_def lru_accessed_def Let_def)
qed (simp_all add: lru_select_victim_def lru_tracked_def lru_added_def lru_evicted_def)

text \<open>
  The order of the dictionary is the order of last use: an access moves the block to the end,
  an eviction removes it.  The abstract policy is a list of ids, oldest first.
\<close>

definition lru_recency :: "LRUEviction \<Rightarrow> string list" where
  "lru_recency st = dkeys (lru_access_order st)"

lemma lru_recency_access:
  "lru_recency (lru_accessed now b st) = removeAll (block_id b) (lru_recency st) @ [block_id b]"
proof (cases "block_id b \<in> set (dkeys (lru_access_order st))")
  case True
  then have "block_id b \<in> set (dkeys (move_to_end (lru_access_order st) (block_id b)))"
    by (simp add: move_to_end_keys del: set_map)
  with True show ?thesis
    unfolding lru_recency_def lru_accessed_def Let_def dmem_iff
    by (simp add: dkeys_dset_present dkeys_move_to_end del: set_map)
next
  case False
  then show ?thesis
    unfolding lru_recency_def lru_accessed_def Let_def dmem_iff
    by (simp add: dkeys_dset_absent removeAll_id del: set_map)
qed

lemma lru_recency_evict: "lru_recency (lru_evicted oid st) = removeAll oid (lru_recency st)"
  by (simp add: lru_recency_def lru_evicted_def dkeys_dpop)

text \<open>Adding a block the policy already knows keeps its old place in the order.\<close>

lemma lru_recency_added:
  "lru_recency (lru_added now b st) =
     (if block_id b \<in> set (lru_recency st) then lru_recency st else lru_recency st @ [block_id b])"
  by (simp add: lru_recency_def lru_added_def dkeys_dset_present dkeys_dset_absent del: set_map)

text \<open>After a history of accesses the order is that of the last occurrences.\<close>

lemma remdups_snoc: "remdups (xs @ [x]) = removeAll x (remdups xs) @ [x]"
proof (induction xs)
  case Nil
  then show ?case by simp
next
  case (Cons y xs)
  show ?case
  proof (cases "y = x \<or> y \<in> set xs")
    case True
    then show ?thesis using Cons by (auto simp: removeAll_id)
  next
    case False
    then have "x \<noteq> y" "y \<notin> set (xs @ [x])" by auto
    then show ?thesis using Cons False by simp
  qed
qed

lemma lru_history:
  "lru_recency (foldl (\<lambda>st (now, b). lru_accessed now b st) lru_init events)
     = remdups (map (\<lambda>(_, b). block_id b) events)"
proof (induction events rule: rev_induct)
  case Nil
  then show ?case by (simp add: lru_recency_def lru_init_def)
next
  case (snoc e events)
  then show ?case by (cases e) (simp add: lru_recency_access remdups_snoc)
qed

lemma find_fst: "List.find (\<lambda>(k, _). P k) d = Some (k, v) \<Longrightarrow> List.find P (map fst d) = Some k"
  by (induction d) (auto split: if_splits)

lemma find_fst_None: "List.find (\<lambda>(k, _). P k) d = None \<longleftrightarrow> List.find P (map fst d) = None"
  by (induction d) auto

text \<open>The victim is the least recently used of the candidates the policy knows.\<close>

lemma lru_victim_spec:
  assumes "lru_select_victim cs st = Some v"
  shows "if \<exists>c \<in> set cs. block_id c \<in> set (lru_recency st)
         then List.find (\<lambda>i. i \<in> block_id ` set cs) (lru_recency st) = Some (ed_object_id v)
         else ed_object_id v = block_id (hd cs)"
proof -
  obtain c rest where cs: "cs = c # rest"
    using assms by (cases cs) (auto simp: lru_select_victim_def)
  let ?P = "\<lambda>i. i \<in> block_id ` set cs"
  show ?thesis
  proof (cases "List.find (\<lambda>(oid, _). ?P oid) (lru_access_order st)")
    case None
    then have "List.find ?P (lru_recency st) = None" unfolding lru_recency_def by (simp add: find_fst_None)
    then have "\<not> (\<exists>i \<in> set (lru_recency st). ?P i)" by (auto simp: find_None_iff)
    moreover have "ed_object_id v = block_id (hd cs)"
      using assms None cs by (auto simp: lru_select_victim_def)
    ultimately show ?thesis by auto
  next
    case (Some p)
    obtain k t where p: "p = (k, t)" by fastforce
    from find_fst [OF Some [unfolded p]] have f: "List.find ?P (lru_recency st) = Some k"
      by (simp add: lru_recency_def)
    then have "\<exists>c \<in> set cs. block_id c \<in> set (lru_recency st)" 
      by (auto simp: find_Some_iff) (metis nth_mem)
    moreover have "ed_object_id v = k" using assms Some p cs by (auto simp: lru_select_victim_def)
    ultimately show ?thesis using f by simp
  qed
qed

section \<open>Prefix reuse\<close>

text \<open>
  The first candidate of least score.  \<^verbatim>\<open>scored.sort(key=...)\<close> is stable and the code takes the
  first element.
\<close>

definition lowest :: "(string \<times> rat) list \<Rightarrow> EvictionDecision" where
  "lowest scored =
     (let (victim_id, victim_score) = hd (sort_key snd scored)
      in \<lparr>ed_object_id = victim_id, ed_priority = - victim_score\<rparr>)"

lemma lowest_spec:
  assumes "scored \<noteq> []"
  shows "(ed_object_id (lowest scored), - ed_priority (lowest scored)) \<in> set scored
    \<and> (\<forall>(i, s) \<in> set scored. - ed_priority (lowest scored) \<le> s)"
  using hd_sort_key_min [OF assms, of snd]
  by (auto simp: lowest_def Let_def split: prod.splits)

record PrefixReuseEviction =
  pr_decay :: rat
  pr_w_recency :: rat
  pr_w_frequency :: rat
  pr_w_shared :: rat
  pr_access_times :: "(string, rat) dict"
  pr_access_counts :: "(string, int) dict"
  pr_max_shared :: nat

definition prefix_reuse_init :: "rat \<Rightarrow> rat \<Rightarrow> rat \<Rightarrow> rat \<Rightarrow> PrefixReuseEviction" where
  "prefix_reuse_init decay recency_weight frequency_weight shared_weight =
     \<lparr>pr_decay = decay, pr_w_recency = recency_weight, pr_w_frequency = frequency_weight,
      pr_w_shared = shared_weight, pr_access_times = [], pr_access_counts = [], pr_max_shared = 1\<rparr>"

definition prefix_reuse_accessed ::
    "rat \<Rightarrow> KVCacheBlock \<Rightarrow> PrefixReuseEviction \<Rightarrow> PrefixReuseEviction" where
  "prefix_reuse_accessed now b st =
     (let oid = block_id b;
          count = (case dget (pr_access_counts st) oid of None \<Rightarrow> 0 | Some n \<Rightarrow> n);
          shared_count = length (kv_shared_by_sessions b)
      in st\<lparr>pr_access_times := dset (pr_access_times st) oid now,
            pr_access_counts := dset (pr_access_counts st) oid (count + 1),
            pr_max_shared := (if pr_max_shared st < shared_count then shared_count
                              else pr_max_shared st)\<rparr>)"

definition prefix_reuse_added ::
    "rat \<Rightarrow> KVCacheBlock \<Rightarrow> PrefixReuseEviction \<Rightarrow> PrefixReuseEviction" where
  "prefix_reuse_added now b st =
     st\<lparr>pr_access_times := dset (pr_access_times st) (block_id b) now,
        pr_access_counts := dset (pr_access_counts st) (block_id b) 1\<rparr>"

text \<open>Python's division raises on a zero divisor, which a clock that goes back can produce.\<close>

definition py_div :: "rat \<Rightarrow> rat \<Rightarrow> rat res" where
  "py_div a b = (if b = 0 then Inl ZeroDivisionError else Inr (a / b))"

definition prefix_reuse_shared :: "PrefixReuseEviction \<Rightarrow> KVCacheBlock \<Rightarrow> rat" where
  "prefix_reuse_shared st b =
     of_nat (length (kv_shared_by_sessions b)) / of_nat (max 1 (pr_max_shared st))"

definition prefix_reuse_score :: "rat \<Rightarrow> PrefixReuseEviction \<Rightarrow> KVCacheBlock \<Rightarrow> rat res" where
  "prefix_reuse_score now st b =
     (let oid = block_id b;
          last_access = (case dget (pr_access_times st) oid of None \<Rightarrow> 0 | Some t \<Rightarrow> t);
          freq = (case dget (pr_access_counts st) oid of None \<Rightarrow> 1 | Some n \<Rightarrow> n);
          frequency = min 1 (of_int freq / 10)
      in case py_div 1 (1 + (now - last_access)) of
           Inl e \<Rightarrow> Inl e
         | Inr recency \<Rightarrow>
             Inr (pr_w_recency st * recency + pr_w_frequency st * frequency
                  + pr_w_shared st * prefix_reuse_shared st b))"

definition prefix_reuse_select_victim ::
    "rat \<Rightarrow> KVCacheBlock list \<Rightarrow> PrefixReuseEviction \<Rightarrow> EvictionDecision option res" where
  "prefix_reuse_select_victim now candidates st =
     (if candidates = [] then Inr None
      else case map_res (\<lambda>b. map_sum id (\<lambda>s. (block_id b, s)) (prefix_reuse_score now st b)) candidates of
             Inl e \<Rightarrow> Inl e
           | Inr scored \<Rightarrow> Inr (Some (lowest scored)))"

definition prefix_reuse_evicted :: "string \<Rightarrow> PrefixReuseEviction \<Rightarrow> PrefixReuseEviction" where
  "prefix_reuse_evicted oid st =
     st\<lparr>pr_access_times := dpop (pr_access_times st) oid,
        pr_access_counts := dpop (pr_access_counts st) oid\<rparr>"

definition prefix_reuse_tracked :: "PrefixReuseEviction \<Rightarrow> string set" where
  "prefix_reuse_tracked st = set (dkeys (pr_access_times st))"

text \<open>What both scoring policies share.\<close>

lemma scored_victim:
  assumes "map_res (\<lambda>x. map_sum id (\<lambda>s. (key x, s)) (score x)) xs = Inr scored" and "xs \<noteq> []"
  shows "\<exists>x \<in> set xs. ed_object_id (lowest scored) = key x
           \<and> score x = Inr (- ed_priority (lowest scored))
           \<and> (\<forall>y \<in> set xs. \<exists>s. score y = Inr s \<and> - ed_priority (lowest scored) \<le> s)"
proof -
  have "scored \<noteq> []" using map_res_length [OF assms(1)] assms(2) by auto
  note low = lowest_spec [OF this]
  from low map_res_mem [OF assms(1)] obtain x where x: "x \<in> set xs"
    "map_sum id (\<lambda>s. (key x, s)) (score x) = Inr (ed_object_id (lowest scored), - ed_priority (lowest scored))"
    by blast
  have "\<exists>s. score y = Inr s \<and> - ed_priority (lowest scored) \<le> s" if "y \<in> set xs" for y
    using map_res_mem2 [OF assms(1) that] low by (cases "score y") auto
  moreover have "ed_object_id (lowest scored) = key x" "score x = Inr (- ed_priority (lowest scored))"
    using x(2) by (cases "score x"; simp)+
  ultimately show ?thesis using x(1) by blast
qed

lemma prefix_reuse_victim_spec:
  assumes "prefix_reuse_select_victim now cs st = Inr (Some v)"
  shows "\<exists>b \<in> set cs. ed_object_id v = block_id b \<and> prefix_reuse_score now st b = Inr (- ed_priority v)
     \<and> (\<forall>c \<in> set cs. \<exists>s. prefix_reuse_score now st c = Inr s \<and> - ed_priority v \<le> s)"
  using assms scored_victim [of block_id "prefix_reuse_score now st" cs]
  by (auto simp: prefix_reuse_select_victim_def split: if_splits sum.splits)

interpretation prefix_reuse: eviction_policy prefix_reuse_accessed prefix_reuse_added
    prefix_reuse_select_victim prefix_reuse_evicted prefix_reuse_tracked
proof
  fix now cs st d
  assume "prefix_reuse_select_victim now cs st = Inr d" "cs \<noteq> []"
  then show "\<exists>v. d = Some v \<and> ed_object_id v \<in> block_id ` set cs"
    using prefix_reuse_victim_spec [of now cs st]
    by (auto simp: prefix_reuse_select_victim_def split: sum.splits)
qed (simp_all add: prefix_reuse_select_victim_def prefix_reuse_tracked_def prefix_reuse_accessed_def
    prefix_reuse_added_def prefix_reuse_evicted_def Let_def)

text \<open>With a clock that does not run backwards no score raises.\<close>

lemma prefix_reuse_total:
  assumes "0 \<le> now" and "\<forall>t \<in> set (map snd (pr_access_times st)). t \<le> now"
  shows "\<exists>d. prefix_reuse_select_victim now cs st = Inr d"
proof -
  have "\<exists>s. prefix_reuse_score now st b = Inr s" for b
  proof -
    let ?last = "case dget (pr_access_times st) (block_id b) of None \<Rightarrow> 0 | Some t \<Rightarrow> t"
    have "?last \<le> now"
      using assms by (force split: option.splits dest: map_of_SomeD)
    then have "1 + (now - ?last) \<noteq> 0" by linarith
    then show ?thesis by (simp add: prefix_reuse_score_def Let_def py_div_def)
  qed
  then have "map_res (\<lambda>b. map_sum id (\<lambda>s. (block_id b, s)) (prefix_reuse_score now st b)) cs
      = Inr (map (\<lambda>b. (block_id b, projr (prefix_reuse_score now st b))) cs)"
    by (intro map_res_Inr) (metis id_apply map_sum.simps(2) sum.sel(2))
  then show ?thesis by (auto simp: prefix_reuse_select_victim_def)
qed

section \<open>Workflow awareness\<close>

record WorkflowAwareEviction =
  wa_current_step_id :: "string option"
  wa_w_recency :: rat
  wa_w_frequency :: rat
  wa_w_shared :: rat
  wa_w_prefix :: rat
  wa_w_workflow :: rat
  wa_w_size :: rat
  wa_w_reload :: rat
  wa_size_normalizer :: rat
  wa_reload_cost_normalizer :: rat
  wa_access_times :: "(string, rat) dict"
  wa_access_counts :: "(string, int) dict"
  wa_max_shared :: nat

definition validate_weight :: "string \<Rightarrow> rat \<Rightarrow> unit res" where
  "validate_weight nm v =
     (if v < 0 then Inl (ValueError (nm @ '' must be non-negative'')) else Inr ())"

text \<open>The constructor, given the weights in the order of its parameters.\<close>

definition workflow_aware_init ::
    "string option \<Rightarrow> rat \<Rightarrow> rat \<Rightarrow> rat \<Rightarrow> rat \<Rightarrow> rat \<Rightarrow> rat \<Rightarrow> rat \<Rightarrow> int \<Rightarrow> rat
       \<Rightarrow> WorkflowAwareEviction res" where
  "workflow_aware_init step wr wfq ws wp ww wz wl size_normalizer_bytes reload_cost_normalizer_ms =
     (case map_res (\<lambda>(nm, w). validate_weight nm w)
             [(''recency_weight'', wr), (''frequency_weight'', wfq), (''shared_weight'', ws),
              (''prefix_weight'', wp), (''workflow_weight'', ww), (''size_weight'', wz),
              (''reload_weight'', wl)] of
        Inl e \<Rightarrow> Inl e
      | Inr _ \<Rightarrow>
          if size_normalizer_bytes \<le> 0
          then Inl (ValueError ''size_normalizer_bytes must be positive'')
          else if reload_cost_normalizer_ms \<le> 0
          then Inl (ValueError ''reload_cost_normalizer_ms must be positive'')
          else Inr \<lparr>wa_current_step_id = step, wa_w_recency = wr, wa_w_frequency = wfq,
                 wa_w_shared = ws, wa_w_prefix = wp, wa_w_workflow = ww, wa_w_size = wz,
                 wa_w_reload = wl, wa_size_normalizer = of_int size_normalizer_bytes,
                 wa_reload_cost_normalizer = reload_cost_normalizer_ms,
                 wa_access_times = [], wa_access_counts = [], wa_max_shared = 1\<rparr>)"

definition set_current_step :: "string option \<Rightarrow> WorkflowAwareEviction \<Rightarrow> WorkflowAwareEviction" where
  "set_current_step step st = st\<lparr>wa_current_step_id := step\<rparr>"

definition track_shared :: "KVCacheBlock \<Rightarrow> WorkflowAwareEviction \<Rightarrow> WorkflowAwareEviction" where
  "track_shared b st =
     st\<lparr>wa_max_shared := max (wa_max_shared st) (length (kv_shared_by_sessions b))\<rparr>"

definition workflow_aware_accessed ::
    "rat \<Rightarrow> KVCacheBlock \<Rightarrow> WorkflowAwareEviction \<Rightarrow> WorkflowAwareEviction" where
  "workflow_aware_accessed now b st =
     (let oid = block_id b;
          count = (case dget (wa_access_counts st) oid of None \<Rightarrow> 0 | Some n \<Rightarrow> n)
      in track_shared b (st\<lparr>wa_access_times := dset (wa_access_times st) oid now,
            wa_access_counts := dset (wa_access_counts st) oid (count + 1)\<rparr>))"

definition workflow_aware_added ::
    "rat \<Rightarrow> KVCacheBlock \<Rightarrow> WorkflowAwareEviction \<Rightarrow> WorkflowAwareEviction" where
  "workflow_aware_added now b st =
     track_shared b (st\<lparr>wa_access_times := dset (wa_access_times st) (block_id b) now,
        wa_access_counts := dset (wa_access_counts st) (block_id b) 1\<rparr>)"

definition clamp01 :: "rat \<Rightarrow> rat" where
  "clamp01 v = max 0 (min 1 v)"

text \<open>
  The graph is shared with its owner: the operations get its current value, \<open>None\<close> when the
  policy was built without one.  Only a \<open>ValueError\<close> of the graph is caught.
\<close>

definition workflow_next_use_score ::
    "AgentStepGraph option \<Rightarrow> WorkflowAwareEviction \<Rightarrow> KVCacheBlock \<Rightarrow> rat res" where
  "workflow_next_use_score graph st b =
     (case expected_next_use_step (kv_meta b) of
        Some n \<Rightarrow> Inr (if n < 0 then 0 else 1 / (1 + of_int n))
      | None \<Rightarrow>
          (case (graph, wa_current_step_id st, m_agent_id (kv_meta b)) of
             (Some g, Some step, Some agent) \<Rightarrow>
               (case steps_to_execution agent step g of
                  Inl (ValueError _) \<Rightarrow> Inr 0
                | Inl e \<Rightarrow> Inl e
                | Inr None \<Rightarrow> Inr 0
                | Inr (Some n) \<Rightarrow> Inr (1 / (1 + of_nat n)))
           | _ \<Rightarrow> Inr 0))"

definition recency_score :: "rat \<Rightarrow> WorkflowAwareEviction \<Rightarrow> string \<Rightarrow> rat" where
  "recency_score now st oid =
     (case dget (wa_access_times st) oid of
        None \<Rightarrow> 0
      | Some last_access \<Rightarrow> 1 / (1 + max 0 (now - last_access)))"

text \<open>
  \<^verbatim>\<open>min(1.0, cost / normalizer)\<close> of an infinite cost or of NaN is \<^verbatim>\<open>1.0\<close>, as NaN compares to
  nothing.
\<close>

definition reload_cost_penalty :: "WorkflowAwareEviction \<Rightarrow> KVCacheBlock \<Rightarrow> rat" where
  "reload_cost_penalty st b =
     (let reload_cost =
        (case predicted_tool_latency_ms (kv_meta b) of
           Some c \<Rightarrow> Some (Finite c)
         | None \<Rightarrow>
             (case dget (tags (kv_meta b)) ''reload_cost_ms'' of
                None \<Rightarrow> None
              | Some raw \<Rightarrow> (case py_float raw of Inl _ \<Rightarrow> None | Inr x \<Rightarrow> Some x)))
      in case reload_cost of
           None \<Rightarrow> 0
         | Some (Finite c) \<Rightarrow> if c \<le> 0 then 0 else min 1 (c / wa_reload_cost_normalizer st)
         | Some NegInf \<Rightarrow> 0
         | Some PosInf \<Rightarrow> 1
         | Some NaN \<Rightarrow> 1)"

record ScoreComponents =
  sc_score :: rat
  sc_recency :: rat
  sc_frequency :: rat
  sc_shared_sessions :: rat
  sc_prefix_reuse :: rat
  sc_workflow_next_use :: rat
  sc_size_penalty :: rat
  sc_reload_cost_penalty :: rat

definition score_components ::
    "AgentStepGraph option \<Rightarrow> rat \<Rightarrow> WorkflowAwareEviction \<Rightarrow> KVCacheBlock \<Rightarrow> ScoreComponents res" where
  "score_components graph now st b =
     (let oid = block_id b;
          recency = recency_score now st oid;
          count = (case dget (wa_access_counts st) oid of None \<Rightarrow> 1 | Some n \<Rightarrow> n);
          frequency = min 1 (of_int count / 10);
          shared = of_nat (length (kv_shared_by_sessions b)) / of_nat (max 1 (wa_max_shared st));
          pfx = clamp01 (reuse_score (kv_meta b))
      in case workflow_next_use_score graph st b of
           Inl e \<Rightarrow> Inl e
         | Inr workflow \<Rightarrow>
             (let size_penalty = min 1 (of_int (size_bytes (kv_meta b)) / wa_size_normalizer st);
                  reload_penalty = reload_cost_penalty st b;
                  score = wa_w_recency st * recency + wa_w_frequency st * frequency
                    + wa_w_shared st * shared + wa_w_prefix st * pfx
                    + wa_w_workflow st * workflow
                    - wa_w_size st * size_penalty - wa_w_reload st * reload_penalty
              in Inr \<lparr>sc_score = score, sc_recency = recency, sc_frequency = frequency,
                      sc_shared_sessions = shared, sc_prefix_reuse = pfx,
                      sc_workflow_next_use = workflow, sc_size_penalty = size_penalty,
                      sc_reload_cost_penalty = reload_penalty\<rparr>))"

definition score_block ::
    "AgentStepGraph option \<Rightarrow> rat \<Rightarrow> WorkflowAwareEviction \<Rightarrow> KVCacheBlock \<Rightarrow> rat res" where
  "score_block graph now st b = map_sum id sc_score (score_components graph now st b)"

text \<open>\<open>clock i\<close> is the time when the candidate at position \<open>i\<close> is scored.\<close>

definition workflow_aware_select_victim ::
    "AgentStepGraph option \<Rightarrow> (nat \<Rightarrow> rat) \<Rightarrow> KVCacheBlock list \<Rightarrow> WorkflowAwareEviction
       \<Rightarrow> EvictionDecision option res" where
  "workflow_aware_select_victim graph clock candidates st =
     (if candidates = [] then Inr None
      else case map_res (\<lambda>(i, b). map_sum id (\<lambda>s. (block_id b, s)) (score_block graph (clock i) st b))
                  (enumerate 0 candidates) of
             Inl e \<Rightarrow> Inl e
           | Inr scored \<Rightarrow> Inr (Some (lowest scored)))"

definition workflow_aware_evicted :: "string \<Rightarrow> WorkflowAwareEviction \<Rightarrow> WorkflowAwareEviction" where
  "workflow_aware_evicted oid st =
     st\<lparr>wa_access_times := dpop (wa_access_times st) oid,
        wa_access_counts := dpop (wa_access_counts st) oid\<rparr>"

definition workflow_aware_tracked :: "WorkflowAwareEviction \<Rightarrow> string set" where
  "workflow_aware_tracked st = set (dkeys (wa_access_times st))"

lemma workflow_aware_victim_spec:
  assumes "workflow_aware_select_victim graph clock cs st = Inr (Some v)"
  shows "\<exists>i < length cs. ed_object_id v = block_id (cs ! i)
     \<and> score_block graph (clock i) st (cs ! i) = Inr (- ed_priority v)
     \<and> (\<forall>j < length cs. \<exists>s. score_block graph (clock j) st (cs ! j) = Inr s \<and> - ed_priority v \<le> s)"
proof -
  let ?score = "\<lambda>x. score_block graph (clock (fst x)) st (snd x)"
  have eq: "(\<lambda>(i, b). map_sum id (\<lambda>s. (block_id b, s)) (score_block graph (clock i) st b))
      = (\<lambda>x. map_sum id (\<lambda>s. (block_id (snd x), s)) (?score x))" by (simp add: fun_eq_iff)
  from assms obtain scored where scored: "cs \<noteq> []" "v = lowest scored"
    "map_res (\<lambda>x. map_sum id (\<lambda>s. (block_id (snd x), s)) (?score x)) (enumerate 0 cs) = Inr scored"
    unfolding workflow_aware_select_victim_def eq by (auto split: if_splits sum.splits)
  from scored(1) have "enumerate 0 cs \<noteq> []" by (simp add: enumerate_eq_zip)
  from scored_victim [OF scored(3) this] obtain x where x: "x \<in> set (enumerate 0 cs)"
    "ed_object_id v = block_id (snd x)" "?score x = Inr (- ed_priority v)"
    "\<forall>y \<in> set (enumerate 0 cs). \<exists>s. ?score y = Inr s \<and> - ed_priority v \<le> s"
    unfolding scored(2) by blast
  have all: "(j, cs ! j) \<in> set (enumerate 0 cs)" if "j < length cs" for j
    using that by (simp add: in_set_enumerate_eq)
  from x(1) have "fst x < length cs" "snd x = cs ! fst x" by (auto simp: in_set_enumerate_eq)
  then have i: "fst x < length cs" "cs ! fst x = snd x" by simp_all
  have "\<exists>s. score_block graph (clock j) st (cs ! j) = Inr s \<and> - ed_priority v \<le> s" if "j < length cs" for j
    using bspec [OF x(4) all [OF that]] by simp
  with i x(2,3) show ?thesis by (intro exI [of _ "fst x"]) simp
qed

interpretation workflow_aware: eviction_policy workflow_aware_accessed workflow_aware_added
    "workflow_aware_select_victim graph" workflow_aware_evicted workflow_aware_tracked for graph
proof
  fix clock cs st d
  assume sel: "workflow_aware_select_victim graph clock cs st = Inr d" and "cs \<noteq> []"
  then obtain v where d: "d = Some v"
    by (auto simp: workflow_aware_select_victim_def split: sum.splits)
  with workflow_aware_victim_spec [OF sel [unfolded d]]
  show "\<exists>v. d = Some v \<and> ed_object_id v \<in> block_id ` set cs" by fastforce
qed (simp_all add: workflow_aware_select_victim_def workflow_aware_tracked_def track_shared_def
    workflow_aware_accessed_def workflow_aware_added_def workflow_aware_evicted_def Let_def)

subsection \<open>Bounds of the score\<close>

definition workflow_aware_wf :: "WorkflowAwareEviction \<Rightarrow> bool" where
  "workflow_aware_wf st \<longleftrightarrow>
     0 \<le> wa_w_recency st \<and> 0 \<le> wa_w_frequency st \<and> 0 \<le> wa_w_shared st \<and> 0 \<le> wa_w_prefix st
     \<and> 0 \<le> wa_w_workflow st \<and> 0 \<le> wa_w_size st \<and> 0 \<le> wa_w_reload st
     \<and> 0 < wa_size_normalizer st \<and> 0 < wa_reload_cost_normalizer st
     \<and> 1 \<le> wa_max_shared st \<and> (\<forall>n \<in> snd ` set (wa_access_counts st). 0 \<le> n)"

lemma workflow_aware_init_wf:
  "workflow_aware_init step wr wfq ws wp ww wz wl sz rl = Inr st \<Longrightarrow> workflow_aware_wf st"
  by (auto simp: workflow_aware_init_def workflow_aware_wf_def validate_weight_def split: if_splits sum.splits)

lemma counts_dset:
  "\<forall>n \<in> snd ` set d. 0 \<le> (n :: int) \<Longrightarrow> 0 \<le> v \<Longrightarrow> \<forall>n \<in> snd ` set (dset d k v). 0 \<le> n"
  using set_dset_subset [of k v d] by auto

lemma dget_nonneg:
  assumes "\<forall>n \<in> snd ` set d. 0 \<le> (n :: int)" and "0 \<le> x"
  shows "0 \<le> (case dget d k of None \<Rightarrow> x | Some n \<Rightarrow> n)"
proof (cases "dget d k")
  case None
  with assms(2) show ?thesis by simp
next
  case (Some n)
  then have "(k, n) \<in> set d" by (rule map_of_SomeD)
  with assms(1) Some show ?thesis by force
qed

lemma workflow_aware_wf_steps:
  assumes "workflow_aware_wf st"
  shows "workflow_aware_wf (workflow_aware_accessed now b st)"
    and "workflow_aware_wf (workflow_aware_added now b st)"
    and "workflow_aware_wf (workflow_aware_evicted oid st)"
    and "workflow_aware_wf (set_current_step step st)"
proof -
  let ?n = "case dget (wa_access_counts st) (block_id b) of None \<Rightarrow> 0 | Some n \<Rightarrow> n"
  have nn: "\<forall>n \<in> snd ` set (wa_access_counts st). 0 \<le> n" using assms by (simp add: workflow_aware_wf_def)
  have "0 \<le> ?n + 1" using dget_nonneg [OF nn, of 0 "block_id b"] by simp
  from counts_dset [OF nn this, of "block_id b"]
  show "workflow_aware_wf (workflow_aware_accessed now b st)"
    using assms by (simp add: workflow_aware_wf_def workflow_aware_accessed_def track_shared_def Let_def le_max_iff_disj)
  show "workflow_aware_wf (workflow_aware_added now b st)"
    using assms counts_dset [of "wa_access_counts st" 1 "block_id b"]
    by (simp add: workflow_aware_wf_def workflow_aware_added_def track_shared_def le_max_iff_disj)
  show "workflow_aware_wf (workflow_aware_evicted oid st)"
    using assms set_dpop_subset [of oid "wa_access_counts st"]
    by (auto simp: workflow_aware_wf_def workflow_aware_evicted_def)
  show "workflow_aware_wf (set_current_step step st)"
    using assms by (simp add: workflow_aware_wf_def set_current_step_def)
qed

definition unit_interval :: "rat \<Rightarrow> bool" where
  "unit_interval x \<longleftrightarrow> 0 \<le> x \<and> x \<le> 1"

lemma recency_unit: "unit_interval (recency_score now st oid)"
  by (auto simp: unit_interval_def recency_score_def divide_le_eq split: option.splits)

lemma clamp_unit: "unit_interval (clamp01 v)"
  by (simp add: unit_interval_def clamp01_def)

lemma next_use_unit:
  "workflow_next_use_score graph st b = Inr w \<Longrightarrow> unit_interval w"
  by (auto simp: workflow_next_use_score_def unit_interval_def divide_le_eq add_pos_nonneg
      split: option.splits sum.splits pyerr.splits if_splits)

lemma reload_unit:
  assumes "workflow_aware_wf st"
  shows "unit_interval (reload_cost_penalty st b)"
  using assms
  by (simp add: reload_cost_penalty_def unit_interval_def workflow_aware_wf_def Let_def
      split: option.split sum.split pyfloat.split)

text \<open>
  Every component lies between 0 and 1 (the share needs that the block's sessions were tracked),
  and so the score lies between the negated penalties and the sum of the other weights.
\<close>

lemma score_bounds:
  assumes wf: "workflow_aware_wf st" and sc: "score_components graph now st b = Inr c"
    and shared: "length (kv_shared_by_sessions b) \<le> wa_max_shared st"
    and size: "0 \<le> size_bytes (kv_meta b)"
  shows "unit_interval (sc_recency c)" and "unit_interval (sc_frequency c)"
    and "unit_interval (sc_shared_sessions c)" and "unit_interval (sc_prefix_reuse c)"
    and "unit_interval (sc_workflow_next_use c)" and "unit_interval (sc_size_penalty c)"
    and "unit_interval (sc_reload_cost_penalty c)"
    and "- wa_w_size st - wa_w_reload st \<le> sc_score c"
    and "sc_score c \<le> wa_w_recency st + wa_w_frequency st + wa_w_shared st + wa_w_prefix st + wa_w_workflow st"
proof -
  let ?n = "case dget (wa_access_counts st) (block_id b) of None \<Rightarrow> 1 | Some n \<Rightarrow> n"
  have n: "0 \<le> ?n"
    using wf by (intro dget_nonneg) (simp_all add: workflow_aware_wf_def)
  from sc obtain w where w: "workflow_next_use_score graph st b = Inr w"
    by (auto simp: score_components_def Let_def split: sum.splits)
  from sc w have c: "sc_recency c = recency_score now st (block_id b)"
    "sc_frequency c = min 1 (of_int ?n / 10)"
    "sc_shared_sessions c = of_nat (length (kv_shared_by_sessions b)) / of_nat (max 1 (wa_max_shared st))"
    "sc_prefix_reuse c = clamp01 (reuse_score (kv_meta b))"
    "sc_workflow_next_use c = w"
    "sc_size_penalty c = min 1 (of_int (size_bytes (kv_meta b)) / wa_size_normalizer st)"
    "sc_reload_cost_penalty c = reload_cost_penalty st b"
    "sc_score c = wa_w_recency st * sc_recency c + wa_w_frequency st * sc_frequency c
       + wa_w_shared st * sc_shared_sessions c + wa_w_prefix st * sc_prefix_reuse c
       + wa_w_workflow st * sc_workflow_next_use c
       - wa_w_size st * sc_size_penalty c - wa_w_reload st * sc_reload_cost_penalty c"
    by (auto simp: score_components_def Let_def)
  show u1: "unit_interval (sc_recency c)" unfolding c by (rule recency_unit)
  show u2: "unit_interval (sc_frequency c)" unfolding c using n by (simp add: unit_interval_def)
  show u3: "unit_interval (sc_shared_sessions c)"
    unfolding c using shared wf by (simp add: unit_interval_def workflow_aware_wf_def max_def divide_le_eq)
  show u4: "unit_interval (sc_prefix_reuse c)" unfolding c by (rule clamp_unit)
  show u5: "unit_interval (sc_workflow_next_use c)" unfolding c by (rule next_use_unit [OF w])
  show u6: "unit_interval (sc_size_penalty c)"
    unfolding c using size wf by (simp add: unit_interval_def workflow_aware_wf_def)
  show u7: "unit_interval (sc_reload_cost_penalty c)" unfolding c by (rule reload_unit [OF wf])
  have prod: "0 \<le> a * x \<and> a * x \<le> a" if "0 \<le> a" "unit_interval x" for a x :: rat
    using that mult_left_le [of x a] by (simp add: unit_interval_def)
  note us = u1 u2 u3 u4 u5 u6 u7
  have "0 \<le> wa_w_recency st" "0 \<le> wa_w_frequency st" "0 \<le> wa_w_shared st" "0 \<le> wa_w_prefix st"
    "0 \<le> wa_w_workflow st" "0 \<le> wa_w_size st" "0 \<le> wa_w_reload st"
    using wf by (simp_all add: workflow_aware_wf_def)
  note ps = this [THEN prod]
  show "- wa_w_size st - wa_w_reload st \<le> sc_score c"
    unfolding c(8) using ps(1) [OF u1] ps(2) [OF u2] ps(3) [OF u3] ps(4) [OF u4] ps(5) [OF u5]
      ps(6) [OF u6] ps(7) [OF u7] by linarith
  show "sc_score c \<le> wa_w_recency st + wa_w_frequency st + wa_w_shared st + wa_w_prefix st + wa_w_workflow st"
    unfolding c(8) using ps(1) [OF u1] ps(2) [OF u2] ps(3) [OF u3] ps(4) [OF u4] ps(5) [OF u5]
      ps(6) [OF u6] ps(7) [OF u7] by linarith
qed

text \<open>On a well-formed graph scoring never raises: the only exception of the graph is caught.\<close>

lemma next_use_total:
  assumes "\<And>g. graph = Some g \<Longrightarrow> graph_wf g"
  shows "\<exists>w. workflow_next_use_score graph st b = Inr w"
proof (cases "expected_next_use_step (kv_meta b) = None \<and> graph \<noteq> None
    \<and> wa_current_step_id st \<noteq> None \<and> m_agent_id (kv_meta b) \<noteq> None")
  case False
  then show ?thesis by (auto simp: workflow_next_use_score_def split: option.splits)
next
  case True
  then obtain g step agent where eqs: "graph = Some g" "wa_current_step_id st = Some step"
    "m_agent_id (kv_meta b) = Some agent" by auto
  show ?thesis
  proof (cases "dget (sg_steps g) step")
    case None
    with True eqs show ?thesis
      by (simp add: workflow_next_use_score_def steps_to_execution_def require_step_def)
  next
    case (Some n)
    from steps_to_execution_spec [OF assms [OF eqs(1)] Some, of agent]
    obtain r where "steps_to_execution agent step g = Inr r" by blast
    with True eqs show ?thesis by (auto simp: workflow_next_use_score_def split: option.splits)
  qed
qed

lemma workflow_aware_total:
  assumes "\<And>g. graph = Some g \<Longrightarrow> graph_wf g"
  shows "\<exists>d. workflow_aware_select_victim graph clock cs st = Inr d"
proof -
  have "\<exists>s. score_block graph now st b = Inr s" for now b
  proof -
    obtain w where "workflow_next_use_score graph st b = Inr w" using next_use_total assms by blast
    then show ?thesis by (simp add: score_block_def score_components_def Let_def)
  qed
  then have "map_res (\<lambda>(i, b). map_sum id (\<lambda>s. (block_id b, s)) (score_block graph (clock i) st b)) (enumerate 0 cs)
      = Inr (map (\<lambda>(i, b). (block_id b, projr (score_block graph (clock i) st b))) (enumerate 0 cs))"
    by (intro map_res_Inr) (auto, metis id_apply map_sum.simps(2) sum.sel(2))
  then show ?thesis by (auto simp: workflow_aware_select_victim_def)
qed

section \<open>The registry\<close>

text \<open>\<open>'c\<close> are the policy classes; the built-in ones are registered at import.\<close>

definition register_eviction_policy ::
    "string \<Rightarrow> 'c \<Rightarrow> (string, 'c) dict \<Rightarrow> (string, 'c) dict" where
  "register_eviction_policy nm cls reg = dset reg nm cls"

definition get_eviction_policy :: "string \<Rightarrow> (string, 'c) dict \<Rightarrow> 'c res" where
  "get_eviction_policy nm reg =
     (case dget reg nm of
        None \<Rightarrow> Inl (ValueError (''Unknown eviction policy: '' @ nm))
      | Some cls \<Rightarrow> Inr cls)"

definition list_eviction_policies :: "(string, 'c) dict \<Rightarrow> string list" where
  "list_eviction_policies reg = dkeys reg"

datatype BuiltinPolicy = LRUEvictionClass | PrefixReuseEvictionClass | WorkflowAwareEvictionClass

definition builtin_policies :: "(string, BuiltinPolicy) dict" where
  "builtin_policies =
     register_eviction_policy ''workflow_aware'' WorkflowAwareEvictionClass
       (register_eviction_policy ''prefix_reuse'' PrefixReuseEvictionClass
         (register_eviction_policy ''lru'' LRUEvictionClass []))"

lemma registry_get:
  "get_eviction_policy nm (register_eviction_policy nm' cls reg) =
     (if nm = nm' then Inr cls else get_eviction_policy nm reg)"
  by (simp add: get_eviction_policy_def register_eviction_policy_def dict_simps)

lemma registry_listed:
  "is_ok (get_eviction_policy nm reg) \<longleftrightarrow> nm \<in> set (list_eviction_policies reg)"
  using dmem_iff [of reg nm]
  by (auto simp: get_eviction_policy_def list_eviction_policies_def dmem_def split: option.splits)

section \<open>Properties\<close>

text \<open>C22: After any history of accesses the LRU victim is the candidate whose last access is the oldest; when
  no candidate was ever accessed it is the first candidate.\<close>

theorem lru_evicts_least_recent:
  assumes "cs \<noteq> []"
  shows "\<exists>v. lru_select_victim cs (foldl (\<lambda>st (now, b). lru_accessed now b st) lru_init events) = Some v \<and>
    (let recency = remdups (map (\<lambda>(_, b). block_id b) events)
     in if \<exists>c \<in> set cs. block_id c \<in> set recency
        then List.find (\<lambda>i. i \<in> block_id ` set cs) recency = Some (ed_object_id v)
        else ed_object_id v = block_id (hd cs))"
proof -
  let ?st = "foldl (\<lambda>st (now, b). lru_accessed now b st) lru_init events"
  obtain v where v: "lru_select_victim cs ?st = Some v"
    using lru.select_member [of cs ?st] assms by blast
  from lru_victim_spec [OF v] v show ?thesis unfolding lru_history Let_def by blast
qed

lemma lru_evicts_least_recent_witness:
  "\<exists>v. lru_select_victim [sample_block ''a'' [], sample_block ''b'' []]
      (foldl (\<lambda>st (now, b). lru_accessed now b st) lru_init
         [(1, sample_block ''a'' []), (2, sample_block ''b'' []), (3, sample_block ''a'' [])]) = Some v
     \<and> ed_object_id v = ''b''"
  using lru_evicts_least_recent [of "[sample_block ''a'' [], sample_block ''b'' []]"
      "[(1, sample_block ''a'' []), (2, sample_block ''b'' []), (3, sample_block ''a'' [])]"]
  by (auto simp: Let_def)

text \<open>With a clock that is not behind the recorded accesses, the prefix-reuse policy always answers for a
  non-empty list of candidates, and the answer is a candidate of least reuse score, its priority the
  negated score.\<close>

theorem prefix_reuse_evicts_lowest:
  assumes "cs \<noteq> []" and "0 \<le> now" and "\<forall>t \<in> set (map snd (pr_access_times st)). t \<le> now"
  shows "\<exists>v. prefix_reuse_select_victim now cs st = Inr (Some v) \<and>
    (\<exists>b \<in> set cs. ed_object_id v = block_id b \<and> prefix_reuse_score now st b = Inr (- ed_priority v)) \<and>
    (\<forall>c \<in> set cs. \<exists>s. prefix_reuse_score now st c = Inr s \<and> - ed_priority v \<le> s)"
proof -
  obtain d where d: "prefix_reuse_select_victim now cs st = Inr d"
    using prefix_reuse_total [OF assms(2,3)] by blast
  from prefix_reuse.select_member [OF d assms(1)] obtain v where "d = Some v" by blast
  with d prefix_reuse_victim_spec [of now cs st v] show ?thesis by blast
qed

definition sample_prefix_reuse :: PrefixReuseEviction where
  "sample_prefix_reuse = prefix_reuse_accessed 5 (sample_block ''a'' [])
     (prefix_reuse_init (95 / 100) (3 / 10) (3 / 10) (4 / 10))"

lemma prefix_reuse_evicts_lowest_witness:
  "\<exists>v. prefix_reuse_select_victim 9 [sample_block ''a'' [], sample_block ''b'' []] sample_prefix_reuse = Inr (Some v)
     \<and> ed_object_id v \<in> {''a'', ''b''}"
proof -
  have "\<forall>t \<in> set (map snd (pr_access_times sample_prefix_reuse)). t \<le> 9"
    by (simp add: sample_prefix_reuse_def prefix_reuse_accessed_def prefix_reuse_init_def Let_def)
  from prefix_reuse_evicts_lowest [OF _ _ this, of "[sample_block ''a'' [], sample_block ''b'' []]"]
  show ?thesis by auto
qed

inductive workflow_aware_reachable :: "WorkflowAwareEviction \<Rightarrow> bool" where
  "workflow_aware_init step wr wfq ws wp ww wz wl sz rl = Inr st \<Longrightarrow> workflow_aware_reachable st"
| "workflow_aware_reachable st \<Longrightarrow> workflow_aware_reachable (workflow_aware_accessed now b st)"
| "workflow_aware_reachable st \<Longrightarrow> workflow_aware_reachable (workflow_aware_added now b st)"
| "workflow_aware_reachable st \<Longrightarrow> workflow_aware_reachable (workflow_aware_evicted oid st)"
| "workflow_aware_reachable st \<Longrightarrow> workflow_aware_reachable (set_current_step step st)"

lemma workflow_aware_reachable_wf: "workflow_aware_reachable st \<Longrightarrow> workflow_aware_wf st"
  by (induction rule: workflow_aware_reachable.induct)
    (auto intro: workflow_aware_init_wf workflow_aware_wf_steps)

definition sample_workflow_aware :: WorkflowAwareEviction where
  "sample_workflow_aware = workflow_aware_accessed 3 (sample_block ''a'' [])
     \<lparr>wa_current_step_id = Some ''s1'', wa_w_recency = 1, wa_w_frequency = 1, wa_w_shared = 1, wa_w_prefix = 1,
      wa_w_workflow = 1, wa_w_size = 1, wa_w_reload = 1, wa_size_normalizer = 1024,
      wa_reload_cost_normalizer = 100, wa_access_times = [], wa_access_counts = [], wa_max_shared = 1\<rparr>"

lemma sample_workflow_aware_reachable: "workflow_aware_reachable sample_workflow_aware"
  unfolding sample_workflow_aware_def
  by (rule workflow_aware_reachable.intros(2), rule workflow_aware_reachable.intros(1)
      [of "Some ''s1''" 1 1 1 1 1 1 1 1024 100])
    (simp add: workflow_aware_init_def validate_weight_def)

text \<open>The workflow-aware policy answers for every non-empty list of candidates, on any graph that can be
  built or without one, and the answer is a candidate of least retention score.\<close>

theorem workflow_aware_evicts_lowest:
  assumes "cs \<noteq> []" and "\<And>g. graph = Some g \<Longrightarrow> graph_reachable g"
  shows "\<exists>v. workflow_aware_select_victim graph clock cs st = Inr (Some v) \<and>
    (\<exists>i < length cs. ed_object_id v = block_id (cs ! i) \<and>
       score_block graph (clock i) st (cs ! i) = Inr (- ed_priority v)) \<and>
    (\<forall>j < length cs. \<exists>s. score_block graph (clock j) st (cs ! j) = Inr s \<and> - ed_priority v \<le> s)"
proof -
  obtain d where d: "workflow_aware_select_victim graph clock cs st = Inr d"
    using workflow_aware_total [of graph clock cs st] assms(2) reachable_graph_wf by blast
  from workflow_aware.select_member [OF d assms(1)] obtain v where "d = Some v" by blast
  with d workflow_aware_victim_spec [of graph clock cs st v] show ?thesis by blast
qed

lemma workflow_aware_evicts_lowest_witness:
  "\<exists>v. workflow_aware_select_victim (Some sample_graph) (\<lambda>i. 4)
      [sample_block ''a'' [], sample_block ''b'' []] sample_workflow_aware = Inr (Some v)
    \<and> (\<exists>s. score_block (Some sample_graph) 4 sample_workflow_aware (sample_block ''b'' []) = Inr s \<and> - ed_priority v \<le> s)"
proof -
  have g: "graph_reachable g" if "Some sample_graph = Some g" for g
    using that sample_graph_reachable by simp
  from workflow_aware_evicts_lowest [OF _ g, of "[sample_block ''a'' [], sample_block ''b'' []]"
      "Some sample_graph" "\<lambda>i. 4" sample_workflow_aware] show ?thesis by force
qed

text \<open>In every state of the policy the seven components of a retention score lie between 0 and 1, and the
  score between the negated penalty weights and the sum of the reward weights, for a block of
  non-negative size whose sessions have been tracked.\<close>

theorem retention_score_bounds:
  assumes "workflow_aware_reachable st" and "score_components graph now st b = Inr c"
    and "length (kv_shared_by_sessions b) \<le> wa_max_shared st" and "0 \<le> size_bytes (kv_meta b)"
  shows "list_all unit_interval [sc_recency c, sc_frequency c, sc_shared_sessions c, sc_prefix_reuse c,
      sc_workflow_next_use c, sc_size_penalty c, sc_reload_cost_penalty c]
    \<and> - wa_w_size st - wa_w_reload st \<le> sc_score c
    \<and> sc_score c \<le> wa_w_recency st + wa_w_frequency st + wa_w_shared st + wa_w_prefix st + wa_w_workflow st"
  using score_bounds [OF workflow_aware_reachable_wf [OF assms(1)] assms(2-4)] by simp

lemma retention_score_bounds_witness:
  "\<exists>c. score_components None 5 sample_workflow_aware (sample_block ''a'' []) = Inr c
     \<and> -2 \<le> sc_score c \<and> sc_score c \<le> 5"
proof -
  obtain c where c: "score_components None 5 sample_workflow_aware (sample_block ''a'' []) = Inr c"
    by (simp add: score_components_def workflow_next_use_score_def sample_block_def new_meta_def Let_def)
  have shape: "wa_w_size sample_workflow_aware = 1" "wa_w_reload sample_workflow_aware = 1"
    "wa_w_recency sample_workflow_aware = 1" "wa_w_frequency sample_workflow_aware = 1"
    "wa_w_shared sample_workflow_aware = 1" "wa_w_prefix sample_workflow_aware = 1"
    "wa_w_workflow sample_workflow_aware = 1"
    by (simp_all add: sample_workflow_aware_def workflow_aware_accessed_def track_shared_def Let_def)
  from retention_score_bounds [OF sample_workflow_aware_reachable c] c show ?thesis
    unfolding shape by simp
qed

text \<open>The registry returns the class registered last under a name, raises exactly for names that are not
  listed, and the built-in policies are registered.\<close>

theorem registry_lookup:
  "get_eviction_policy nm (register_eviction_policy nm' cls reg) =
      (if nm = nm' then Inr cls else get_eviction_policy nm reg)
   \<and> (is_ok (get_eviction_policy nm reg) \<longleftrightarrow> nm \<in> set (list_eviction_policies reg))
   \<and> (nm \<in> set (list_eviction_policies builtin_policies) \<longleftrightarrow> nm \<in> {''lru'', ''prefix_reuse'', ''workflow_aware''})"
proof (intro conjI)
  show "nm \<in> set (list_eviction_policies builtin_policies) \<longleftrightarrow> nm \<in> {''lru'', ''prefix_reuse'', ''workflow_aware''}"
    by (auto simp: list_eviction_policies_def builtin_policies_def register_eviction_policy_def)
qed (rule registry_get, rule registry_listed)

end
