(* ===== verification/Embeddings.thy ===== *)
theory Embeddings
  imports Prelude "HOL-Library.While_Combinator"
begin

text \<open>
  \<^verbatim>\<open>src/l3store/embeddings\<close>: the interface of an embedding service (\<^verbatim>\<open>base.py\<close>), the service over
  sentence-transformers (\<^verbatim>\<open>sentence_transformer.py\<close>) and the LRU cache in front of a service
  (\<^verbatim>\<open>cache.py\<close>).  A service is a record of operations over a state \<open>'e\<close>, since the cache is one
  of them.  The model itself and numpy's array functions are parameters.  The cache never
  exceeds its size, keeps the most recently used texts, and is transparent: an answer is what
  the backend gives for a text of the same key.
\<close>

section \<open>The interface\<close>

record ('e, 'a) EmbeddingService =
  em_embed :: "string \<Rightarrow> 'e \<Rightarrow> 'a res \<times> 'e"
  em_embed_batch :: "string list \<Rightarrow> 'e \<Rightarrow> 'a res \<times> 'e"
  em_dimension :: "'e \<Rightarrow> int"
  em_similarity :: "'a \<Rightarrow> 'a \<Rightarrow> 'e \<Rightarrow> rat res"

text \<open>
  What the services use of numpy: conversion to \<^verbatim>\<open>float32\<close>, \<^verbatim>\<open>np.empty((0, dim))\<close>, \<^verbatim>\<open>np.stack\<close>,
  \<^verbatim>\<open>np.dot\<close> and \<^verbatim>\<open>np.linalg.norm\<close>.
\<close>

record 'a ArrayLib =
  al_float32 :: "'a \<Rightarrow> 'a"
  al_empty :: "int \<Rightarrow> 'a"
  al_stack :: "'a list \<Rightarrow> 'a res"
  al_dot :: "'a \<Rightarrow> 'a \<Rightarrow> rat res"
  al_norm :: "'a \<Rightarrow> rat"

section \<open>Sentence transformers\<close>

text \<open>The loaded model: its dimension and its \<^verbatim>\<open>encode\<close>, given \<^verbatim>\<open>normalize_embeddings\<close>.\<close>

record 'a SentenceModel =
  sm_dimension :: int
  sm_encode :: "bool \<Rightarrow> string \<Rightarrow> 'a res"
  sm_encode_batch :: "bool \<Rightarrow> string list \<Rightarrow> 'a res"

record SentenceTransformerService =
  sts_normalize :: bool
  sts_dim :: int

definition sts_init :: "'a SentenceModel \<Rightarrow> bool \<Rightarrow> SentenceTransformerService" where
  "sts_init M unit_length = \<lparr>sts_normalize = unit_length, sts_dim = sm_dimension M\<rparr>"

definition sts_embed ::
    "'a ArrayLib \<Rightarrow> 'a SentenceModel \<Rightarrow> string \<Rightarrow> SentenceTransformerService \<Rightarrow> 'a res" where
  "sts_embed A M txt s = map_sum id (al_float32 A) (sm_encode M (sts_normalize s) txt)"

definition sts_embed_batch ::
    "'a ArrayLib \<Rightarrow> 'a SentenceModel \<Rightarrow> string list \<Rightarrow> SentenceTransformerService \<Rightarrow> 'a res" where
  "sts_embed_batch A M texts s =
     (if texts = [] then Inr (al_empty A (sts_dim s))
      else map_sum id (al_float32 A) (sm_encode_batch M (sts_normalize s) texts))"

definition sts_similarity ::
    "'a ArrayLib \<Rightarrow> 'a \<Rightarrow> 'a \<Rightarrow> SentenceTransformerService \<Rightarrow> rat res" where
  "sts_similarity A x y s =
     (if sts_normalize s then al_dot A x y
      else if al_norm A x = 0 \<or> al_norm A y = 0 then Inr 0
      else map_sum id (\<lambda>d. d / (al_norm A x * al_norm A y)) (al_dot A x y))"

definition sentence_transformer ::
    "'a ArrayLib \<Rightarrow> 'a SentenceModel \<Rightarrow> (SentenceTransformerService, 'a) EmbeddingService" where
  "sentence_transformer A M = \<lparr>
     em_embed = (\<lambda>t s. (sts_embed A M t s, s)),
     em_embed_batch = (\<lambda>ts s. (sts_embed_batch A M ts s, s)),
     em_dimension = sts_dim,
     em_similarity = sts_similarity A\<rparr>"

section \<open>The cache\<close>

record ('e, 'a) CachedEmbeddingService =
  ce_backend :: 'e
  ce_max_cache_size :: int
  ce_cache :: "(string, 'a) dict"

definition cached_init :: "'e \<Rightarrow> int \<Rightarrow> ('e, 'a) CachedEmbeddingService res" where
  "cached_init backend max_cache_size =
     (if max_cache_size \<le> 0 then Inl (ValueError ''max_cache_size must be positive'')
      else Inr \<lparr>ce_backend = backend, ce_max_cache_size = max_cache_size, ce_cache = []\<rparr>)"

definition cache_key :: "Digests \<Rightarrow> string \<Rightarrow> string" where
  "cache_key D txt = sha16 D txt"

text \<open>\<^verbatim>\<open>while len(cache) > max: popitem(last=False)\<close>.\<close>

fun evict_if_needed :: "int \<Rightarrow> (string, 'a) dict \<Rightarrow> (string, 'a) dict" where
  "evict_if_needed m [] = []"
| "evict_if_needed m (p # d) = (if m < int (length (p # d)) then evict_if_needed m d else p # d)"

definition cached_embed ::
    "Digests \<Rightarrow> 'a ArrayLib \<Rightarrow> ('e, 'a) EmbeddingService \<Rightarrow> string
       \<Rightarrow> ('e, 'a) CachedEmbeddingService \<Rightarrow> 'a res \<times> ('e, 'a) CachedEmbeddingService" where
  "cached_embed D A S txt c =
     (let key = cache_key D txt
      in case dget (ce_cache c) key of
           Some cached \<Rightarrow> (Inr cached, c\<lparr>ce_cache := move_to_end (ce_cache c) key\<rparr>)
         | None \<Rightarrow>
             (case em_embed S txt (ce_backend c) of
                (Inl e, b') \<Rightarrow> (Inl e, c\<lparr>ce_backend := b'\<rparr>)
              | (Inr v, b') \<Rightarrow>
                  (let embedding = al_float32 A v
                   in (Inr embedding, c\<lparr>ce_backend := b',
                         ce_cache := evict_if_needed (ce_max_cache_size c)
                           (dset (ce_cache c) key embedding)\<rparr>))))"

fun cached_embed_all ::
    "Digests \<Rightarrow> 'a ArrayLib \<Rightarrow> ('e, 'a) EmbeddingService \<Rightarrow> string list
       \<Rightarrow> ('e, 'a) CachedEmbeddingService \<Rightarrow> 'a list res \<times> ('e, 'a) CachedEmbeddingService" where
  "cached_embed_all D A S [] c = (Inr [], c)"
| "cached_embed_all D A S (t # ts) c =
     (case cached_embed D A S t c of
        (Inl e, c') \<Rightarrow> (Inl e, c')
      | (Inr v, c') \<Rightarrow>
          (case cached_embed_all D A S ts c' of
             (Inl e, c'') \<Rightarrow> (Inl e, c'')
           | (Inr vs, c'') \<Rightarrow> (Inr (v # vs), c'')))"

definition cached_embed_batch ::
    "Digests \<Rightarrow> 'a ArrayLib \<Rightarrow> ('e, 'a) EmbeddingService \<Rightarrow> string list
       \<Rightarrow> ('e, 'a) CachedEmbeddingService \<Rightarrow> 'a res \<times> ('e, 'a) CachedEmbeddingService" where
  "cached_embed_batch D A S texts c =
     (if texts = [] then (Inr (al_empty A (em_dimension S (ce_backend c))), c)
      else case cached_embed_all D A S texts c of
             (Inl e, c') \<Rightarrow> (Inl e, c')
           | (Inr vs, c') \<Rightarrow> (map_sum id (al_float32 A) (al_stack A vs), c'))"

definition cached_dimension :: "('e, 'a) EmbeddingService \<Rightarrow> ('e, 'a) CachedEmbeddingService \<Rightarrow> int" where
  "cached_dimension S c = em_dimension S (ce_backend c)"

definition cached_similarity ::
    "('e, 'a) EmbeddingService \<Rightarrow> 'a \<Rightarrow> 'a \<Rightarrow> ('e, 'a) CachedEmbeddingService \<Rightarrow> rat res" where
  "cached_similarity S x y c = em_similarity S x y (ce_backend c)"

definition cache_stats :: "('e, 'a) CachedEmbeddingService \<Rightarrow> nat \<times> int" where
  "cache_stats c = (length (ce_cache c), ce_max_cache_size c)"

definition clear_cache :: "('e, 'a) CachedEmbeddingService \<Rightarrow> ('e, 'a) CachedEmbeddingService" where
  "clear_cache c = c\<lparr>ce_cache := []\<rparr>"

definition cached_service ::
    "Digests \<Rightarrow> 'a ArrayLib \<Rightarrow> ('e, 'a) EmbeddingService
       \<Rightarrow> (('e, 'a) CachedEmbeddingService, 'a) EmbeddingService" where
  "cached_service D A S = \<lparr>
     em_embed = cached_embed D A S, em_embed_batch = cached_embed_batch D A S,
     em_dimension = cached_dimension S, em_similarity = cached_similarity S\<rparr>"

section \<open>The contract of a service: what it answers for a text\<close>

text \<open>
  \<open>answers s t v\<close>: from the state \<open>s\<close> on, \<open>v\<close> is an answer the service may give for \<open>t\<close>.
\<close>

locale embedding_service =
  fixes embed :: "string \<Rightarrow> 'e \<Rightarrow> 'a res \<times> 'e"
    and answers :: "string \<Rightarrow> 'a \<Rightarrow> bool"
    and good :: "'e \<Rightarrow> bool"
  assumes embed_wf: "good s \<Longrightarrow> embed t s = (r, s') \<Longrightarrow> good s'"
    and embed_answers: "good s \<Longrightarrow> embed t s = (Inr v, s') \<Longrightarrow> answers t v"

text \<open>A cached answer is a converted answer of the backend for a text of the same key.\<close>

definition cached_answers :: "Digests \<Rightarrow> 'a ArrayLib \<Rightarrow> (string \<Rightarrow> 'a \<Rightarrow> bool) \<Rightarrow> string \<Rightarrow> 'a \<Rightarrow> bool" where
  "cached_answers D A answers t v \<longleftrightarrow>
     (\<exists>t' v'. cache_key D t' = cache_key D t \<and> answers t' v' \<and> v = al_float32 A v')"

definition cached_wf ::
    "Digests \<Rightarrow> 'a ArrayLib \<Rightarrow> (string \<Rightarrow> 'a \<Rightarrow> bool) \<Rightarrow> ('e \<Rightarrow> bool)
       \<Rightarrow> ('e, 'a) CachedEmbeddingService \<Rightarrow> bool" where
  "cached_wf D A answers good c \<longleftrightarrow> good (ce_backend c) \<and> dwf (ce_cache c)
     \<and> 0 < ce_max_cache_size c \<and> int (length (ce_cache c)) \<le> ce_max_cache_size c
     \<and> (\<forall>k v. dget (ce_cache c) k = Some v \<longrightarrow>
          (\<exists>t v'. cache_key D t = k \<and> answers t v' \<and> v = al_float32 A v'))"

lemma evict_suffix: "\<exists>us. d = us @ evict_if_needed m d"
  by (induction d) (auto, metis append_Cons append_Nil)

lemma evict_length: "0 \<le> m \<Longrightarrow> int (length (evict_if_needed m d)) \<le> m"
  by (induction d) auto

lemma evict_fits: "int (length d) \<le> m \<Longrightarrow> evict_if_needed m d = d"
  by (cases d) auto

lemma evict_drop: "0 \<le> m \<Longrightarrow> evict_if_needed m d = drop (length d - nat m) d"
proof (induction d)
  case Nil
  then show ?case by simp
next
  case (Cons p d)
  then show ?case by (auto simp: Suc_diff_le nat_le_iff)
qed

lemma dwf_suffix: "dwf (us @ d) \<Longrightarrow> dwf d"
  by simp

lemma dget_suffix: "dwf (us @ d) \<Longrightarrow> dget d k = Some v \<Longrightarrow> dget (us @ d) k = Some v"
  by (metis UnCI dget_in_set dwf_suffix set_append)

text \<open>What a miss leaves in the cache is what was there and the new entry.\<close>

lemma evict_dset:
  assumes "dwf d" and "dget (evict_if_needed m (dset d k v)) k' = Some w"
  shows "dget d k' = Some w \<or> (k' = k \<and> w = v)"
proof -
  obtain us where us: "dset d k v = us @ evict_if_needed m (dset d k v)" using evict_suffix by blast
  have "dwf (us @ evict_if_needed m (dset d k v))" using assms(1) dwf_dset us by metis
  from dget_suffix [OF this assms(2)] have "dget (dset d k v) k' = Some w" using us by simp
  then show ?thesis by (simp add: dget_dset split: if_splits)
qed

lemma cached_wfD:
  assumes "cached_wf D A answers good c"
  shows "good (ce_backend c)" and "dwf (ce_cache c)" and "0 < ce_max_cache_size c"
    and "int (length (ce_cache c)) \<le> ce_max_cache_size c"
    and "dget (ce_cache c) k = Some v \<Longrightarrow> \<exists>t v'. cache_key D t = k \<and> answers t v' \<and> v = al_float32 A v'"
  using assms unfolding cached_wf_def by blast+

lemma cached_init_wf: "cached_init b m = Inr c \<Longrightarrow> good b \<Longrightarrow> cached_wf D A answers good c"
  by (auto simp: cached_init_def cached_wf_def split: if_splits)

lemma clear_cache_wf: "cached_wf D A answers good c \<Longrightarrow> cached_wf D A answers good (clear_cache c)"
  by (simp add: cached_wf_def clear_cache_def)

context embedding_service
begin

lemma cached_embed_step:
  assumes S: "em_embed S = embed" and c: "cached_wf D A answers good c"
    and call: "cached_embed D A S t c = (r, c')"
  shows "cached_wf D A answers good c' \<and> (\<forall>v. r = Inr v \<longrightarrow> cached_answers D A answers t v)"
proof (cases "dget (ce_cache c) (cache_key D t)")
  case (Some v)
  with call have r: "r = Inr v" "c' = c\<lparr>ce_cache := move_to_end (ce_cache c) (cache_key D t)\<rparr>"
    by (simp_all add: cached_embed_def)
  have "cached_wf D A answers good c'"
    using cached_wfD [OF c] move_to_end_wf [of "ce_cache c" "cache_key D t"]
      move_to_end_length [of "ce_cache c" "cache_key D t"]
    by (simp add: cached_wf_def r move_to_end_get del: map_of_eq_Some_iff Some_eq_map_of_iff)
  with cached_wfD(5) [OF c Some] r show ?thesis by (auto simp: cached_answers_def)
next
  case None
  obtain q b' where e: "em_embed S t (ce_backend c) = (q, b')" by fastforce
  with S have e': "embed t (ce_backend c) = (q, b')" by simp
  have good': "good b'" using embed_wf [OF cached_wfD(1) [OF c] e'] .
  show ?thesis
  proof (cases q)
    case (Inl err)
    with call None e have "r = Inl err" "c' = c\<lparr>ce_backend := b'\<rparr>" by (simp_all add: cached_embed_def)
    with c good' show ?thesis by (simp add: cached_wf_def)
  next
    case (Inr v)
    let ?w = "al_float32 A v" and ?k = "cache_key D t" and ?m = "ce_max_cache_size c"
    from call None e Inr have r: "r = Inr ?w"
      and c': "c' = c\<lparr>ce_backend := b', ce_cache := evict_if_needed ?m (dset (ce_cache c) ?k ?w)\<rparr>"
      by (simp_all add: cached_embed_def Let_def)
    have ans: "answers t v" using embed_answers [OF cached_wfD(1) [OF c]] e' Inr by simp
    have "dwf (evict_if_needed ?m (dset (ce_cache c) ?k ?w))"
      using evict_suffix dwf_suffix dwf_dset cached_wfD(2) [OF c] by metis
    moreover have "int (length (evict_if_needed ?m (dset (ce_cache c) ?k ?w))) \<le> ?m"
      using evict_length cached_wfD(3) [OF c] by (metis less_imp_le)
    moreover have "\<exists>t v'. cache_key D t = k \<and> answers t v' \<and> u = al_float32 A v'"
      if "dget (evict_if_needed ?m (dset (ce_cache c) ?k ?w)) k = Some u" for k u
      using evict_dset [OF cached_wfD(2) [OF c] that] cached_wfD(5) [OF c] ans by blast
    ultimately have "cached_wf D A answers good c'"
      using good' cached_wfD(3) [OF c] unfolding c' cached_wf_def by simp
    with ans r show ?thesis by (auto simp: cached_answers_def)
  qed
qed

end

text \<open>The sentence-transformer service answers what its model encodes.\<close>

definition sts_answers :: "'a ArrayLib \<Rightarrow> 'a SentenceModel \<Rightarrow> bool \<Rightarrow> string \<Rightarrow> 'a \<Rightarrow> bool" where
  "sts_answers A M unit_length t v \<longleftrightarrow> (\<exists>v'. sm_encode M unit_length t = Inr v' \<and> v = al_float32 A v')"

interpretation sts: embedding_service "em_embed (sentence_transformer A M)" "sts_answers A M n"
    "\<lambda>s. sts_normalize s = n" for A M n
  by unfold_locales (auto simp: sentence_transformer_def sts_embed_def sts_answers_def map_sum_def
      split: sum.splits)

text \<open>The cache in front of a service is a service again, in particular before this one.\<close>

interpretation cached_sts: embedding_service "cached_embed D A (sentence_transformer A M)"
    "cached_answers D A (sts_answers A M n)"
    "cached_wf D A (sts_answers A M n) (\<lambda>s. sts_normalize s = n)" for D A M n
  by unfold_locales (use sts.cached_embed_step [OF refl] in blast)+

text \<open>When texts of the same key are equal, the cache does not change answers.\<close>

lemma cached_answers_exact:
  "(\<And>t'. cache_key D t' = cache_key D t \<Longrightarrow> t' = t) \<Longrightarrow> cached_answers D A answers t v \<Longrightarrow>
     \<exists>v'. answers t v' \<and> v = al_float32 A v'"
  by (auto simp: cached_answers_def)

text \<open>A hit moves the key to the end of the order, which is the last to be evicted.\<close>

lemma cached_hit_order:
  assumes "dget (ce_cache c) (cache_key D t) = Some v"
  shows "fst (cached_embed D A S t c) = Inr v"
    and "dkeys (ce_cache (snd (cached_embed D A S t c)))
       = removeAll (cache_key D t) (dkeys (ce_cache c)) @ [cache_key D t]"
  using assms dkeys_move_to_end [OF dget_Some_key [OF assms]]
  by (simp_all add: cached_embed_def del: map_of_eq_Some_iff Some_eq_map_of_iff set_map)

lemma cached_miss_order:
  assumes "dget (ce_cache c) (cache_key D t) = None" and "cached_embed D A S t c = (Inr v, c')"
    and "0 < ce_max_cache_size c"
  shows "dkeys (ce_cache c') = (let ks = dkeys (ce_cache c) @ [cache_key D t]
           in drop (length ks - nat (ce_max_cache_size c)) ks)"
proof -
  from assms(1,2) have c': "ce_cache c' = evict_if_needed (ce_max_cache_size c)
      (dset (ce_cache c) (cache_key D t) v)"
    by (auto simp: cached_embed_def Let_def split: prod.splits sum.splits)
  have "cache_key D t \<notin> set (dkeys (ce_cache c))"
    using assms(1) dmem_iff [of "ce_cache c" "cache_key D t"] by (simp add: dmem_def)
  note ks = dkeys_dset_absent [OF this, of v]
  have "length (dset (ce_cache c) (cache_key D t) v) = length (dkeys (ce_cache c) @ [cache_key D t])"
    using ks by (metis length_map)
  then show ?thesis
    using assms(3) by (simp add: c' evict_drop drop_map [symmetric] ks Let_def)
qed

section \<open>Properties\<close>

text \<open>The cache after a sequence of embeddings, over sentence transformers.\<close>

definition embed_texts ::
    "Digests \<Rightarrow> 'a ArrayLib \<Rightarrow> 'a SentenceModel \<Rightarrow> string list
       \<Rightarrow> (SentenceTransformerService, 'a) CachedEmbeddingService
       \<Rightarrow> (SentenceTransformerService, 'a) CachedEmbeddingService" where
  "embed_texts D A M texts c = fold (\<lambda>t c. snd (cached_embed D A (sentence_transformer A M) t c)) texts c"

lemma embed_texts_wf:
  assumes "cached_init b m = Inr c"
  shows "cached_wf D A (sts_answers A M (sts_normalize b)) (\<lambda>s. sts_normalize s = sts_normalize b)
      (embed_texts D A M texts c) \<and> ce_max_cache_size (embed_texts D A M texts c) = m"
proof (induction texts rule: rev_induct)
  case Nil
  show ?case using assms cached_init_wf [OF assms]
    by (auto simp: embed_texts_def cached_init_def split: if_splits)
next
  case (snoc t texts)
  let ?c = "embed_texts D A M texts c"
  obtain r c' where e: "cached_embed D A (sentence_transformer A M) t ?c = (r, c')" by fastforce
  have "ce_max_cache_size c' = ce_max_cache_size ?c"
    using e by (auto simp: cached_embed_def Let_def split: option.splits prod.splits sum.splits)
  moreover have "embed_texts D A M (texts @ [t]) c = c'" using e by (simp add: embed_texts_def)
  ultimately show ?case using snoc cached_sts.embed_wf [OF _ e] by metis
qed

text \<open>The cache never holds more than its capacity, and it is transparent: whatever was embedded before, a
  text whose key no other text shares gets exactly the answer, or the exception, of the service
  behind the cache.\<close>

theorem cache_transparent:
  assumes init: "cached_init b m = Inr c"
    and key: "\<And>t'. cache_key D t' = cache_key D t \<Longrightarrow> t' = t"
    and float32: "\<And>x. al_float32 A (al_float32 A x) = al_float32 A x"
  shows "fst (cached_embed D A (sentence_transformer A M) t (embed_texts D A M texts c)) = sts_embed A M t b
    \<and> int (fst (cache_stats (embed_texts D A M texts c))) \<le> m"
proof -
  let ?c = "embed_texts D A M texts c" and ?n = "sts_normalize b"
  have wf: "cached_wf D A (sts_answers A M ?n) (\<lambda>s. sts_normalize s = ?n) ?c"
    and m: "ce_max_cache_size ?c = m" using embed_texts_wf [OF init] by blast+
  have n: "sts_normalize (ce_backend ?c) = ?n" using cached_wfD(1) [OF wf] .
  have "fst (cached_embed D A (sentence_transformer A M) t ?c) = sts_embed A M t b"
  proof (cases "dget (ce_cache ?c) (cache_key D t)")
    case (Some v)
    from cached_wfD(5) [OF wf Some] key obtain v' where "sts_answers A M ?n t v'" "v = al_float32 A v'" by blast
    then have "sts_embed A M t b = Inr v" by (auto simp: sts_answers_def sts_embed_def float32)
    then show ?thesis using cached_hit_order(1) [OF Some] by simp
  next
    case None
    have "sts_embed A M t (ce_backend ?c) = sts_embed A M t b" by (simp add: sts_embed_def n)
    with None show ?thesis
      by (cases "sts_embed A M t b")
         (auto simp: cached_embed_def sentence_transformer_def Let_def sts_embed_def float32 map_sum_def
            split: sum.splits)
  qed
  then show ?thesis using cached_wfD(4) [OF wf] m by (simp add: cache_stats_def)
qed

text \<open>A model on lists of numbers, for the examples; arrays are lists, already of 32 bits.\<close>

definition sample_arrays :: "rat list ArrayLib" where
  "sample_arrays = \<lparr>al_float32 = id, al_empty = (\<lambda>n. []), al_stack = (\<lambda>vs. Inr (concat vs)),
     al_dot = (\<lambda>x y. Inr (sum_list (map (\<lambda>(a, b). a * b) (zip x y)))), al_norm = (\<lambda>x. sum_list (map abs x))\<rparr>"

definition sample_model :: "rat list SentenceModel" where
  "sample_model = \<lparr>sm_dimension = 1, sm_encode = (\<lambda>n t. if t = [] then Inl (ValueError ''empty'') else Inr [of_nat (length t)]),
     sm_encode_batch = (\<lambda>n ts. Inr (map (of_nat \<circ> length) ts))\<rparr>"

text \<open>Digests under which two texts have the same key only if they are equal.\<close>

definition identity_key :: "string \<Rightarrow> bool" where
  "identity_key t \<longleftrightarrow> (\<forall>t'. cache_key sample_digests t' = cache_key sample_digests t \<longrightarrow> t' = t)"

lemma hex_encode_Nil: "hex_encode s = [] \<longleftrightarrow> s = []"
  by (cases s) (simp_all add: hex_encode_def Let_def)

lemma utf8_encode_Nil: "utf8_encode s = [] \<longleftrightarrow> s = []"
  by (cases s) (simp_all add: utf8_encode_def utf8_char_def Let_def)

lemma identity_key_empty: "identity_key []"
  unfolding identity_key_def cache_key_def sha16_def sample_digests_def
  by (simp add: hex_encode_Nil utf8_encode_Nil hex_encode_def [of "[]"] utf8_encode_def [of "[]"])

lemma cache_transparent_witness:
  "\<exists>c. cached_init (sts_init sample_model True) 2 = Inr c \<and>
     fst (cached_embed sample_digests sample_arrays (sentence_transformer sample_arrays sample_model) []
        (embed_texts sample_digests sample_arrays sample_model [''a'', ''bb'', ''ccc''] c)) = Inl (ValueError ''empty'') \<and>
     fst (cache_stats (embed_texts sample_digests sample_arrays sample_model [''a'', ''bb'', ''ccc''] c)) \<le> 2"
proof -
  obtain c :: "(SentenceTransformerService, rat list) CachedEmbeddingService"
    where c: "cached_init (sts_init sample_model True) 2 = Inr c" by (simp add: cached_init_def)
  have key: "t' = []" if "cache_key sample_digests t' = cache_key sample_digests []" for t'
    using that identity_key_empty unfolding identity_key_def by blast
  have f: "al_float32 sample_arrays (al_float32 sample_arrays x) = al_float32 sample_arrays x" for x
    by (simp add: sample_arrays_def)
  have "sts_embed sample_arrays sample_model [] (sts_init sample_model True) = Inl (ValueError ''empty'')"
    by (simp add: sts_embed_def sample_model_def)
  with cache_transparent [OF c key f, where M = sample_model and texts = "[''a'', ''bb'', ''ccc'']"] c show ?thesis by auto
qed

section \<open>The order of eviction\<close>

definition last_distinct :: "nat \<Rightarrow> 'k list \<Rightarrow> 'k list" where
  "last_distinct m xs = (let ks = remdups xs in drop (length ks - m) ks)"

lemma remdups_append_one: "remdups (xs @ [x]) = removeAll x (remdups xs) @ [x]"
  by (induction xs) (auto simp: removeAll_filter_not_eq filter_id_conv)

lemma drop_removeAll:
  assumes "distinct ks" and "k \<in> set (drop n ks)"
  shows "drop n (removeAll k ks) = removeAll k (drop n ks)"
proof -
  have ks: "ks = take n ks @ drop n ks" by simp
  with assms have "k \<notin> set (take n ks)" by (metis disjoint_iff distinct_append)
  then have "removeAll k ks = take n ks @ removeAll k (drop n ks)" by (metis ks removeAll_append removeAll_id)
  moreover have "n \<le> length ks" using assms(2) by (cases "n \<le> length ks") simp_all
  ultimately show ?thesis by simp
qed

lemma last_distinct_hit:
  assumes "k \<in> set (last_distinct m xs)"
  shows "last_distinct m (xs @ [k]) = removeAll k (last_distinct m xs) @ [k]"
proof -
  let ?ks = "remdups xs"
  have k: "k \<in> set (drop (length ?ks - m) ?ks)" using assms by (simp add: last_distinct_def Let_def)
  then have "k \<in> set ?ks" by (rule in_set_dropD)
  then have len: "length (removeAll k ?ks) + 1 = length ?ks"
    using length_removeAll_distinct [of ?ks k] by (simp add: Suc_leI length_pos_if_in_set)
  have "length ?ks - m < length ?ks" using k by (cases "length ?ks - m < length ?ks") simp_all
  with len have "length ?ks - m \<le> length (removeAll k ?ks)" by linarith
  with len drop_removeAll [OF distinct_remdups k] show ?thesis
    by (simp add: last_distinct_def remdups_append_one Let_def)
qed

lemma last_distinct_miss:
  assumes "k \<notin> set (last_distinct m xs)" and "0 < m"
  shows "last_distinct m (xs @ [k]) =
    (let ks = last_distinct m xs @ [k] in drop (length ks - m) ks)"
proof (cases "k \<in> set xs")
  case False
  then have "last_distinct m (xs @ [k]) = drop (Suc (length (remdups xs)) - m) (remdups xs @ [k])"
    by (simp add: last_distinct_def remdups_append_one removeAll_id Let_def)
  then show ?thesis
    using assms(2)
    by (cases "m \<le> length (remdups xs)") (simp_all add: last_distinct_def Let_def Suc_diff_le)
next
  case True
  let ?ks = "remdups xs" and ?n = "length (remdups xs) - m"
  have k: "k \<notin> set (drop ?n ?ks)" using assms(1) by (simp add: last_distinct_def Let_def)
  have ks: "?ks = take ?n ?ks @ drop ?n ?ks" by simp
  then have kt: "k \<in> set (take ?n ?ks)" using True k by (metis UnE set_append set_remdups)
  then have n: "0 < ?n" by (cases "?n = 0") simp_all
  have "removeAll k ?ks = removeAll k (take ?n ?ks) @ drop ?n ?ks"
    by (metis k ks removeAll_append removeAll_id)
  moreover have "length (removeAll k (take ?n ?ks)) = ?n - 1"
    using length_removeAll_distinct [of "take ?n ?ks" k] kt by simp
  moreover have "length (removeAll k ?ks) + 1 = length ?ks"
    using length_removeAll_distinct [of ?ks k] True by (simp add: Suc_leI length_pos_if_in_set)
  ultimately have "last_distinct m (xs @ [k]) = drop 1 (drop ?n ?ks) @ [k]"
    using n assms(2) by (simp add: last_distinct_def remdups_append_one Let_def)
  then show ?thesis using n assms(2) by (simp add: last_distinct_def Let_def)
qed

lemma distinct_last_distinct: "distinct (last_distinct m xs)"
  by (simp add: last_distinct_def Let_def)

text \<open>C23: When no embedding raises, the cache holds exactly the keys of the most recent distinct texts, as
  many as its capacity allows, in the order of last use: it evicts least recently used texts first.\<close>

theorem cache_keeps_most_recent:
  assumes init: "cached_init b m = Inr c"
    and ok: "\<And>t. t \<in> set texts \<Longrightarrow> is_ok (sm_encode M (sts_normalize b) t)"
  shows "dkeys (ce_cache (embed_texts D A M texts c)) = last_distinct (nat m) (map (cache_key D) texts)"
  using ok
proof (induction texts rule: rev_induct)
  case Nil
  show ?case using init by (auto simp: embed_texts_def cached_init_def last_distinct_def split: if_splits)
next
  case (snoc t texts)
  let ?c = "embed_texts D A M texts c" and ?k = "cache_key D t"
  have IH: "dkeys (ce_cache ?c) = last_distinct (nat m) (map (cache_key D) texts)" using snoc by simp
  have next_c: "embed_texts D A M (texts @ [t]) c = snd (cached_embed D A (sentence_transformer A M) t ?c)"
    by (simp add: embed_texts_def)
  show ?case
  proof (cases "dget (ce_cache ?c) ?k")
    case (Some v)
    have "?k \<in> set (last_distinct (nat m) (map (cache_key D) texts))"
      using dget_Some_key [OF Some] unfolding IH .
    from last_distinct_hit [OF this] cached_hit_order(2) [OF Some, of A "sentence_transformer A M"]
    show ?thesis unfolding next_c IH by (simp del: set_map)
  next
    case None
    then have k: "?k \<notin> set (last_distinct (nat m) (map (cache_key D) texts))"
      using dmem_iff [of "ce_cache ?c" ?k] unfolding IH [symmetric] by (simp add: dmem_def)
    have m: "0 < m" "ce_max_cache_size ?c = m" and n: "sts_normalize (ce_backend ?c) = sts_normalize b"
      using init embed_texts_wf [OF init, of D A M texts] cached_wfD(1)
      by (fastforce simp: cached_init_def split: if_splits)+
    obtain v' where "sm_encode M (sts_normalize b) t = Inr v'" using snoc.prems [of t] by (auto elim: is_okE)
    then obtain v c' where call: "cached_embed D A (sentence_transformer A M) t ?c = (Inr v, c')"
      using None n by (simp add: cached_embed_def sentence_transformer_def sts_embed_def Let_def)
    from cached_miss_order [OF None call] m last_distinct_miss [OF k] show ?thesis
      unfolding next_c IH call by simp
  qed
qed

lemma cache_keeps_most_recent_witness:
  "\<exists>c. cached_init (sts_init sample_model True) 2 = Inr c \<and>
     dkeys (ce_cache (embed_texts sample_digests sample_arrays sample_model [''a'', ''b'', ''a'', ''c''] c)) =
       map (cache_key sample_digests) [''a'', ''c'']"
proof -
  obtain c :: "(SentenceTransformerService, rat list) CachedEmbeddingService"
    where c: "cached_init (sts_init sample_model True) 2 = Inr c" by (simp add: cached_init_def)
  have ok: "is_ok (sm_encode sample_model (sts_normalize (sts_init sample_model True)) t)"
    if "t \<in> set [''a'', ''b'', ''a'', ''c'']" for t
    using that by (auto simp: sample_model_def)
  have "last_distinct (nat 2) (map (cache_key sample_digests) [''a'', ''b'', ''a'', ''c'']) =
      map (cache_key sample_digests) [''a'', ''c'']" by code_simp
  moreover have "dkeys (ce_cache (embed_texts sample_digests sample_arrays sample_model [''a'', ''b'', ''a'', ''c''] c)) =
      last_distinct (nat 2) (map (cache_key sample_digests) [''a'', ''b'', ''a'', ''c''])"
    by (rule cache_keeps_most_recent [OF c]) (rule ok)
  ultimately show ?thesis using c by metis
qed

text \<open>C40: The loop of the eviction ends for every capacity that the constructor accepts: run as a while loop that drops the
  oldest item, it never pops from an empty cache and returns exactly the most recent items, as many as fit.\<close>

theorem eviction_loop_terminates:
  assumes "cached_init b m = Inr c"
  shows "while_option (\<lambda>d. m < int (length d)) tl d = Some (evict_if_needed m d)
    \<and> (m < int (length d) \<longrightarrow> d \<noteq> [])
    \<and> evict_if_needed m d = drop (length d - nat m) d \<and> int (length (evict_if_needed m d)) \<le> m"
proof -
  have m: "0 < m" using assms by (simp add: cached_init_def split: if_splits)
  have "while_option (\<lambda>d. m < int (length d)) tl d = Some (evict_if_needed m d)"
  proof (induction d)
    case Nil
    show ?case using m by (subst while_option_unfold) simp
  next
    case (Cons p d)
    then show ?case by (subst while_option_unfold) simp
  qed
  with m evict_drop [of m d] evict_length [of m d] show ?thesis by auto
qed

lemma eviction_loop_terminates_witness:
  "while_option (\<lambda>d. (2 :: int) < int (length d)) tl [(''a'', 1 :: nat), (''b'', 2), (''c'', 3)] = Some [(''b'', 2), (''c'', 3)]"
proof -
  have "cached_init () 2 = Inr \<lparr>ce_backend = (), ce_max_cache_size = 2, ce_cache = [] :: (string, nat) dict\<rparr>"
    by (simp add: cached_init_def)
  have "evict_if_needed 2 [(''a'', 1 :: nat), (''b'', 2), (''c'', 3)] = [(''b'', 2), (''c'', 3)]" by simp
  with eviction_loop_terminates [OF \<open>cached_init () 2 = _\<close>, of "[(''a'', 1 :: nat), (''b'', 2), (''c'', 3)]"]
  show ?thesis by metis
qed

end
