(* ===== verification/Prefetch.thy ===== *)
theory Prefetch
  imports MetadataStore StepGraph Embeddings
begin

text \<open>
  The prefetch policies of \<^verbatim>\<open>src/l3store/policies/prefetch\<close>: \<^verbatim>\<open>base.py\<close>, \<^verbatim>\<open>session_prefetch.py\<close>,
  \<^verbatim>\<open>semantic_prefetch.py\<close>, \<^verbatim>\<open>agent_prefetch.py\<close> and \<^verbatim>\<open>adaptive.py\<close>.  The locale
  \<open>prefetch_policy\<close> is what the callers rely on: the decisions come in order of falling priority
  and there are at most as many as the policy is configured for.  The adaptive policy wraps any
  policy of that kind and is one itself; its depth stays within its bounds in every history.
\<close>

section \<open>The interface\<close>

record 'a RequestContext =
  rc_prompt :: string
  rc_session_id :: string
  rc_model_name :: string
  rc_prompt_embedding :: "'a option"

record PrefetchDecision =
  pd_object_id :: string
  pd_priority :: rat
  pd_prefetch_type :: string

definition falling :: "PrefetchDecision list \<Rightarrow> bool" where
  "falling ds \<longleftrightarrow> sorted_wrt (\<lambda>a b. pd_priority b \<le> pd_priority a) ds"

lemma falling_sort [simp]: "falling (sort_desc pd_priority ds)"
  unfolding falling_def by (rule sorted_sort_desc)

lemma falling_take: "falling ds \<Longrightarrow> falling (take n ds)"
  unfolding falling_def by (rule sorted_wrt_take)

locale prefetch_policy =
  fixes predict :: "'a RequestContext \<Rightarrow> 'm \<Rightarrow> 'p \<Rightarrow> PrefetchDecision list res \<times> 'p"
    and limit :: "'p \<Rightarrow> nat"
    and good :: "'p \<Rightarrow> bool"
  assumes predict_good: "good p \<Longrightarrow> predict req md p = (r, p') \<Longrightarrow> good p' \<and> limit p' = limit p"
    and predict_falling: "good p \<Longrightarrow> predict req md p = (Inr ds, p') \<Longrightarrow> falling ds"
    and predict_limit: "good p \<Longrightarrow> predict req md p = (Inr ds, p') \<Longrightarrow> length ds \<le> limit p"

section \<open>The best decision for each key\<close>

text \<open>Both the session and the agent policy keep, per key, the first decision of highest priority.\<close>

definition keep_best ::
    "'k \<times> PrefetchDecision \<Rightarrow> ('k, PrefetchDecision) dict \<Rightarrow> ('k, PrefetchDecision) dict" where
  "keep_best kd best =
     (case kd of (key, decision) \<Rightarrow>
        (case dget best key of
           None \<Rightarrow> dset best key decision
         | Some current \<Rightarrow>
             if pd_priority decision > pd_priority current then dset best key decision else best))"

lemma keep_best_wf: "dwf best \<Longrightarrow> dwf (fold keep_best kds best)"
  by (induction kds arbitrary: best) (auto simp: keep_best_def split: option.splits)

lemma keep_best_get:
  "dget (keep_best (k, d) best) k' =
     (if k' = k then Some (case dget best k of None \<Rightarrow> d
        | Some c \<Rightarrow> if pd_priority d > pd_priority c then d else c)
      else dget best k')"
  by (auto simp: keep_best_def dict_simps split: option.splits)

text \<open>
  After the loop a key has a decision exactly when one was offered, its decision is one of those
  offered, and none offered has a higher priority.
\<close>

lemma keep_best_spec:
  fixes kds :: "('k \<times> PrefetchDecision) list"
  shows "(dget (fold keep_best kds []) k = None \<longleftrightarrow> k \<notin> fst ` set kds)
    \<and> (\<forall>d. dget (fold keep_best kds []) k = Some d \<longrightarrow> (k, d) \<in> set kds
         \<and> (\<forall>e. (k, e) \<in> set kds \<longrightarrow> pd_priority e \<le> pd_priority d))"
proof (induction kds rule: rev_induct)
  case Nil
  then show ?case by simp
next
  case (snoc kd kds)
  obtain j e where kd: "kd = (j, e)" by fastforce
  show ?case
  proof (cases "dget (fold keep_best kds []) k")
    case None
    with snoc kd show ?thesis
      by (force simp: keep_best_get simp del: map_of_eq_Some_iff Some_eq_map_of_iff)
  next
    case (Some c)
    with snoc kd show ?thesis
      by (force simp: keep_best_get simp del: map_of_eq_Some_iff Some_eq_map_of_iff)
  qed
qed

lemma keep_best_values:
  "d \<in> snd ` set (fold keep_best kds []) \<Longrightarrow>
     \<exists>k. (k, d) \<in> set kds \<and> (\<forall>e. (k, e) \<in> set kds \<longrightarrow> pd_priority e \<le> pd_priority d)"
proof -
  assume "d \<in> snd ` set (fold keep_best kds [])"
  then obtain k where "(k, d) \<in> set (fold keep_best kds [])" by auto
  moreover have "dwf (fold keep_best kds [])" by (rule keep_best_wf) simp
  ultimately have "dget (fold keep_best kds []) k = Some d" by simp
  with keep_best_spec [of kds k] show ?thesis by blast
qed

section \<open>Session prefetch\<close>

record SessionPrefetchPolicy =
  sp_history_size :: int
  sp_top_k :: int
  sp_session_histories :: "(string, int list list) dict"

definition session_prefetch_init :: "int \<Rightarrow> int \<Rightarrow> SessionPrefetchPolicy res" where
  "session_prefetch_init session_history_size top_k =
     (if session_history_size \<le> 0 then Inl (ValueError ''session_history_size must be positive'')
      else if top_k \<le> 0 then Inl (ValueError ''top_k must be positive'')
      else Inr \<lparr>sp_history_size = session_history_size, sp_top_k = top_k, sp_session_histories = []\<rparr>)"

text \<open>Appending to a \<^verbatim>\<open>deque(maxlen=n)\<close> drops elements at the other end.\<close>

definition deque_append :: "nat \<Rightarrow> 'x \<Rightarrow> 'x list \<Rightarrow> 'x list" where
  "deque_append n x xs = drop (length xs + 1 - n) (xs @ [x])"

definition on_request_completed ::
    "string \<Rightarrow> int list \<Rightarrow> SessionPrefetchPolicy \<Rightarrow> SessionPrefetchPolicy" where
  "on_request_completed session_id token_ids p =
     (if token_ids = [] then p
      else p\<lparr>sp_session_histories := dset (sp_session_histories p) session_id
             (deque_append (nat (sp_history_size p)) token_ids
               (dlist (sp_session_histories p) session_id))\<rparr>)"

definition session_offers ::
    "('h, 'a) Runtime \<Rightarrow> int list list \<Rightarrow> 'h MetadataStore \<Rightarrow> (string \<times> PrefetchDecision) list" where
  "session_offers R history md =
     concat (map (\<lambda>token_ids.
         map (\<lambda>m. (match_object_id m, \<lparr>pd_object_id = match_object_id m,
                    pd_priority = of_nat (matched_length m), pd_prefetch_type = ''kv_cache''\<rparr>))
           (find_prefix_matches R token_ids md))
       (rev history))"

definition session_predict ::
    "('h, 'a) Runtime \<Rightarrow> 'a RequestContext \<Rightarrow> 'h MetadataStore \<Rightarrow> SessionPrefetchPolicy
       \<Rightarrow> PrefetchDecision list res \<times> SessionPrefetchPolicy" where
  "session_predict R req md p =
     (let history = dlist (sp_session_histories p) (rc_session_id req)
      in if history = [] then (Inr [], p)
         else (Inr (take (nat (sp_top_k p))
                  (sort_desc pd_priority
                    (map snd (fold keep_best (session_offers R history md) [])))), p))"

interpretation session: prefetch_policy "session_predict R" "\<lambda>p. nat (sp_top_k p)" "\<lambda>p. True"
  for R :: "('h, 'a) Runtime"
  by unfold_locales
     (auto simp: session_predict_def Let_def falling_take split: if_splits, simp add: falling_def)

text \<open>A session keeps at most the configured number of turns, the most recent ones.\<close>

definition session_wf :: "SessionPrefetchPolicy \<Rightarrow> bool" where
  "session_wf p \<longleftrightarrow> 0 < sp_history_size p \<and> 0 < sp_top_k p
     \<and> (\<forall>s. int (length (dlist (sp_session_histories p) s)) \<le> sp_history_size p
          \<and> [] \<notin> set (dlist (sp_session_histories p) s))"

lemma session_init_wf: "session_prefetch_init n k = Inr p \<Longrightarrow> session_wf p"
  by (auto simp: session_prefetch_init_def session_wf_def split: if_splits)

lemma session_completed_wf: "session_wf p \<Longrightarrow> session_wf (on_request_completed s ts p)"
proof -
  assume wf: "session_wf p"
  have "[] \<notin> set (deque_append n ts xs)" if "[] \<notin> set xs" "ts \<noteq> []" for n and xs :: "int list list"
    using that by (auto simp: deque_append_def dest!: in_set_dropD)
  moreover have "int (length (deque_append (nat (sp_history_size p)) ts xs)) \<le> sp_history_size p"
    for xs :: "int list list"
  proof -
    have "0 < nat (sp_history_size p)" using wf by (simp add: session_wf_def)
    then have "length (deque_append (nat (sp_history_size p)) ts xs) \<le> nat (sp_history_size p)"
      by (simp add: deque_append_def)
    then show ?thesis using wf by (simp add: session_wf_def le_nat_iff)
  qed
  ultimately show ?thesis
    using wf by (auto simp: session_wf_def on_request_completed_def)
qed

text \<open>
  Every decision is an indexed block whose tokens start a recent turn of the session; its
  priority is the longest such match.
\<close>

lemma session_predict_spec:
  assumes en: "enumerates (rt_set_order R)" and md: "pt_wf (md_prefix_tree md)"
    and call: "session_predict R req md p = (Inr ds, p')" and d: "d \<in> set ds"
  shows "pd_prefetch_type d = ''kv_cache'' \<and>
    (\<exists>turn \<in> set (dlist (sp_session_histories p) (rc_session_id req)). \<exists>ts.
       pt_table (md_prefix_tree md) (pd_object_id d) = Some ts \<and> ts \<noteq> [] \<and> prefix ts turn
       \<and> pd_priority d = of_nat (length ts))"
proof -
  let ?h = "dlist (sp_session_histories p) (rc_session_id req)"
  from call d have "d \<in> snd ` set (fold keep_best (session_offers R ?h md) [])"
    by (auto simp: session_predict_def Let_def split: if_splits dest!: in_set_takeD)
  from keep_best_values [OF this] obtain k where "(k, d) \<in> set (session_offers R ?h md)" by blast
  then obtain turn m where turn: "turn \<in> set ?h"
    and m: "m \<in> set (pt_search (rt_set_order R) turn (md_prefix_tree md))"
    and eq: "d = \<lparr>pd_object_id = match_object_id m, pd_priority = of_nat (matched_length m),
        pd_prefetch_type = ''kv_cache''\<rparr>"
    by (auto simp: session_offers_def find_prefix_matches_def)
  from m have "\<exists>ts. pt_table (md_prefix_tree md) (match_object_id m) = Some ts \<and> ts \<noteq> []
      \<and> prefix ts turn \<and> matched_length m = length ts"
    unfolding pt_search_iff [OF en md] by blast
  with turn eq show ?thesis by auto
qed

section \<open>Semantic prefetch\<close>

record 'e SemanticPrefetchPolicy =
  mp_embeddings :: 'e
  mp_top_k :: int
  mp_threshold :: rat

definition semantic_prefetch_init :: "'e \<Rightarrow> int \<Rightarrow> rat \<Rightarrow> 'e SemanticPrefetchPolicy res" where
  "semantic_prefetch_init service top_k similarity_threshold =
     (if top_k \<le> 0 then Inl (ValueError ''top_k must be positive'')
      else if \<not> (0 \<le> similarity_threshold \<and> similarity_threshold \<le> 1)
      then Inl (ValueError ''similarity_threshold must be in [0.0, 1.0]'')
      else Inr \<lparr>mp_embeddings = service, mp_top_k = top_k, mp_threshold = similarity_threshold\<rparr>)"

definition semantic_predict ::
    "('h, 'a) Runtime \<Rightarrow> ('e, 'a) EmbeddingService \<Rightarrow> 'a RequestContext \<Rightarrow> 'h MetadataStore
       \<Rightarrow> 'e SemanticPrefetchPolicy \<Rightarrow> PrefetchDecision list res \<times> 'e SemanticPrefetchPolicy" where
  "semantic_predict R S req md p =
     (case (case rc_prompt_embedding req of
              Some v \<Rightarrow> (Inr v, mp_embeddings p)
            | None \<Rightarrow> em_embed S (rc_prompt req) (mp_embeddings p)) of
        (Inl e, s') \<Rightarrow> (Inl e, p\<lparr>mp_embeddings := s'\<rparr>)
      | (Inr v, s') \<Rightarrow>
          (case search_similar_prompts R v (mp_top_k p) (mp_threshold p) md of
             Inl e \<Rightarrow> (Inl e, p\<lparr>mp_embeddings := s'\<rparr>)
           | Inr similar \<Rightarrow>
               (Inr (sort_desc pd_priority
                  (map (\<lambda>(oid, similarity). \<lparr>pd_object_id = oid, pd_priority = similarity,
                          pd_prefetch_type = ''semantic''\<rparr>) similar)),
                p\<lparr>mp_embeddings := s'\<rparr>)))"

lemma hnsw_search_length:
  "hnsw_search N L v k threshold x = Inr rs \<Longrightarrow> int (length rs) \<le> max 0 k"
  by (auto simp: hnsw_search_def collect_results_eq Let_def split: if_splits sum.splits)

lemma search_similar_length:
  "search_similar_prompts R v k threshold md = Inr rs \<Longrightarrow> length rs \<le> nat k"
  by (auto simp: search_similar_prompts_def dest!: hnsw_search_length split: option.splits)

interpretation semantic: prefetch_policy "semantic_predict R S" "\<lambda>p. nat (mp_top_k p)" "\<lambda>p. True"
  for R :: "('h, 'a) Runtime" and S :: "('e, 'a) EmbeddingService"
proof unfold_locales
  fix p p' :: "'e SemanticPrefetchPolicy" and req and md :: "'h MetadataStore" and r ds
  show "semantic_predict R S req md p = (r, p') \<Longrightarrow> True \<and> nat (mp_top_k p') = nat (mp_top_k p)"
    by (auto simp: semantic_predict_def split: prod.splits sum.splits)
  show "semantic_predict R S req md p = (Inr ds, p') \<Longrightarrow> falling ds"
    by (auto simp: semantic_predict_def split: prod.splits sum.splits)
  show "semantic_predict R S req md p = (Inr ds, p') \<Longrightarrow> length ds \<le> nat (mp_top_k p)"
    by (auto simp: semantic_predict_def dest!: search_similar_length split: prod.splits sum.splits)
qed

text \<open>Only indexed entries at or above the threshold are prefetched.\<close>

lemma semantic_predict_spec:
  assumes "metadata_wf md" and "semantic_predict R S req md p = (Inr ds, p')" and "d \<in> set ds"
  shows "pd_object_id d \<in> md_semantic_ids md \<and> mp_threshold p \<le> pd_priority d
    \<and> pd_prefetch_type d = ''semantic''"
proof -
  from assms(2) obtain v rs where rs: "search_similar_prompts R v (mp_top_k p) (mp_threshold p) md = Inr rs"
    and ds: "set ds = set (map (\<lambda>(oid, similarity). \<lparr>pd_object_id = oid, pd_priority = similarity,
                          pd_prefetch_type = ''semantic''\<rparr>) rs)"
    by (auto simp: semantic_predict_def split: prod.splits sum.splits)
  from search_similar_prompts_spec [OF assms(1) rs] assms(3) show ?thesis unfolding ds by auto
qed

section \<open>Adaptive depth\<close>

record 'p AdaptivePrefetchPolicy =
  ap_base :: 'p
  ap_depth :: int
  ap_min_depth :: int
  ap_max_depth :: int
  ap_interval :: int
  ap_high_hit_rate :: rat
  ap_low_hit_rate :: rat
  ap_total_prefetch :: nat
  ap_useful_prefetch :: nat
  ap_events_since_adjust :: nat

definition adaptive_init ::
    "'p \<Rightarrow> int \<Rightarrow> int \<Rightarrow> int \<Rightarrow> int \<Rightarrow> rat \<Rightarrow> rat \<Rightarrow> 'p AdaptivePrefetchPolicy res" where
  "adaptive_init base initial_depth min_depth max_depth adjustment_interval high_hit_rate low_hit_rate =
     (if min_depth \<le> 0 then Inl (ValueError ''min_depth must be positive'')
      else if max_depth < min_depth then Inl (ValueError ''max_depth must be >= min_depth'')
      else if \<not> (min_depth \<le> initial_depth \<and> initial_depth \<le> max_depth)
      then Inl (ValueError ''initial_depth must be within [min_depth, max_depth]'')
      else if adjustment_interval \<le> 0 then Inl (ValueError ''adjustment_interval must be positive'')
      else if \<not> (0 \<le> low_hit_rate \<and> low_hit_rate \<le> high_hit_rate \<and> high_hit_rate \<le> 1)
      then Inl (ValueError ''hit rate thresholds must satisfy 0 <= low <= high <= 1'')
      else Inr \<lparr>ap_base = base, ap_depth = initial_depth, ap_min_depth = min_depth,
             ap_max_depth = max_depth, ap_interval = adjustment_interval,
             ap_high_hit_rate = high_hit_rate, ap_low_hit_rate = low_hit_rate,
             ap_total_prefetch = 0, ap_useful_prefetch = 0, ap_events_since_adjust = 0\<rparr>)"

definition adjust_depth :: "'p AdaptivePrefetchPolicy \<Rightarrow> 'p AdaptivePrefetchPolicy" where
  "adjust_depth p =
     (if ap_total_prefetch p = 0 then p\<lparr>ap_events_since_adjust := 0\<rparr>
      else let hit_rate = of_nat (ap_useful_prefetch p) / of_nat (ap_total_prefetch p) :: rat;
               depth = (if hit_rate > ap_high_hit_rate p then min (ap_depth p + 1) (ap_max_depth p)
                        else if hit_rate < ap_low_hit_rate p then max (ap_depth p - 1) (ap_min_depth p)
                        else ap_depth p)
           in p\<lparr>ap_depth := depth, ap_total_prefetch := 0, ap_useful_prefetch := 0,
                ap_events_since_adjust := 0\<rparr>)"

definition adaptive_on_prefetch_used ::
    "bool \<Rightarrow> 'p AdaptivePrefetchPolicy \<Rightarrow> 'p AdaptivePrefetchPolicy" where
  "adaptive_on_prefetch_used was_useful p =
     (let p1 = p\<lparr>ap_total_prefetch := ap_total_prefetch p + 1,
                 ap_events_since_adjust := ap_events_since_adjust p + 1,
                 ap_useful_prefetch := (if was_useful then ap_useful_prefetch p + 1
                                        else ap_useful_prefetch p)\<rparr>
      in if ap_interval p1 \<le> int (ap_events_since_adjust p1) then adjust_depth p1 else p1)"

definition adaptive_predict ::
    "('a RequestContext \<Rightarrow> 'm \<Rightarrow> 'p \<Rightarrow> PrefetchDecision list res \<times> 'p)
       \<Rightarrow> 'a RequestContext \<Rightarrow> 'm \<Rightarrow> 'p AdaptivePrefetchPolicy
       \<Rightarrow> PrefetchDecision list res \<times> 'p AdaptivePrefetchPolicy" where
  "adaptive_predict base_predict req md p =
     (case base_predict req md (ap_base p) of
        (Inl e, b') \<Rightarrow> (Inl e, p\<lparr>ap_base := b'\<rparr>)
      | (Inr ds, b') \<Rightarrow> (Inr (take (nat (ap_depth p)) ds), p\<lparr>ap_base := b'\<rparr>))"

record AdaptiveStats =
  as_depth :: int
  as_min_depth :: int
  as_max_depth :: int
  as_total_prefetch :: nat
  as_useful_prefetch :: nat
  as_events_since_adjust :: nat
  as_hit_rate :: rat

definition adaptive_stats :: "'p AdaptivePrefetchPolicy \<Rightarrow> AdaptiveStats" where
  "adaptive_stats p = \<lparr>as_depth = ap_depth p, as_min_depth = ap_min_depth p,
     as_max_depth = ap_max_depth p, as_total_prefetch = ap_total_prefetch p,
     as_useful_prefetch = ap_useful_prefetch p, as_events_since_adjust = ap_events_since_adjust p,
     as_hit_rate = (if ap_total_prefetch p = 0 then 0
       else of_nat (ap_useful_prefetch p) / of_nat (ap_total_prefetch p))\<rparr>"

text \<open>
  The depth stays within its bounds, the events since the last adjustment are the prefetches
  counted since then and stay below the interval, and no more are useful than counted.
\<close>

definition adaptive_wf :: "'p AdaptivePrefetchPolicy \<Rightarrow> bool" where
  "adaptive_wf p \<longleftrightarrow> 0 < ap_min_depth p \<and> ap_min_depth p \<le> ap_depth p \<and> ap_depth p \<le> ap_max_depth p
     \<and> 0 < ap_interval p \<and> 0 \<le> ap_low_hit_rate p \<and> ap_low_hit_rate p \<le> ap_high_hit_rate p
     \<and> ap_high_hit_rate p \<le> 1
     \<and> ap_useful_prefetch p \<le> ap_total_prefetch p
     \<and> ap_events_since_adjust p = ap_total_prefetch p
     \<and> int (ap_events_since_adjust p) < ap_interval p"

lemma adaptive_init_wf: "adaptive_init b d mn mx iv hi lo = Inr p \<Longrightarrow> adaptive_wf p"
  by (auto simp: adaptive_init_def adaptive_wf_def split: if_splits)

lemma adaptive_used_wf: "adaptive_wf p \<Longrightarrow> adaptive_wf (adaptive_on_prefetch_used b p)"
  by (auto simp: adaptive_wf_def adaptive_on_prefetch_used_def adjust_depth_def Let_def)

lemma adaptive_base_wf: "adaptive_wf (p\<lparr>ap_base := b\<rparr>) = adaptive_wf p"
  by (simp add: adaptive_wf_def)

text \<open>An adjustment happens once per interval and moves the depth by at most one.\<close>

lemma adaptive_used_depth:
  assumes "adaptive_wf p"
  shows "\<bar>ap_depth (adaptive_on_prefetch_used b p) - ap_depth p\<bar> \<le> 1"
    and "int (ap_events_since_adjust p) + 1 < ap_interval p \<Longrightarrow>
      ap_depth (adaptive_on_prefetch_used b p) = ap_depth p"
  using assms by (auto simp: adaptive_wf_def adaptive_on_prefetch_used_def adjust_depth_def Let_def)

lemma adaptive_hit_rate_unit:
  "adaptive_wf p \<Longrightarrow> 0 \<le> as_hit_rate (adaptive_stats p) \<and> as_hit_rate (adaptive_stats p) \<le> 1"
  by (auto simp: adaptive_stats_def adaptive_wf_def divide_le_eq)

definition adaptive_good :: "('p \<Rightarrow> bool) \<Rightarrow> 'p AdaptivePrefetchPolicy \<Rightarrow> bool" where
  "adaptive_good good p \<longleftrightarrow> good (ap_base p)"

definition adaptive_limit :: "('p \<Rightarrow> nat) \<Rightarrow> 'p AdaptivePrefetchPolicy \<Rightarrow> nat" where
  "adaptive_limit limit p = min (nat (ap_depth p)) (limit (ap_base p))"

context prefetch_policy
begin

text \<open>Around any policy of the interface the adaptive one is such a policy.\<close>

lemma adaptive_policy:
  "prefetch_policy (adaptive_predict predict) (adaptive_limit limit) (adaptive_good good)"
proof
  fix p p' :: "'p AdaptivePrefetchPolicy" and req md r ds
  assume good: "adaptive_good good p"
  then have base: "good (ap_base p)" by (simp add: adaptive_good_def)
  obtain q b' where b: "predict req md (ap_base p) = (q, b')" by fastforce
  show "adaptive_good good p' \<and> adaptive_limit limit p' = adaptive_limit limit p"
    if "adaptive_predict predict req md p = (r, p')"
    using that b predict_good [OF base b]
    by (auto simp: adaptive_predict_def adaptive_good_def adaptive_limit_def split: sum.splits)
  assume call: "adaptive_predict predict req md p = (Inr ds, p')"
  with b obtain ds0 where q: "q = Inr ds0" and ds: "ds = take (nat (ap_depth p)) ds0"
    by (auto simp: adaptive_predict_def split: sum.splits)
  from predict_falling [OF base b [unfolded q]] show "falling ds" unfolding ds by (rule falling_take)
  from predict_limit [OF base b [unfolded q]] show "length ds \<le> adaptive_limit limit p"
    by (simp add: ds adaptive_limit_def)
qed

end

interpretation adaptive_session: prefetch_policy "adaptive_predict (session_predict R)"
    "adaptive_limit (\<lambda>p. nat (sp_top_k p))" "adaptive_good (\<lambda>p. True)" for R :: "('h, 'a) Runtime"
  by (rule session.adaptive_policy)

section \<open>Agent prefetch\<close>

record AgentStepObjects =
  ao_kv_block_ids :: "string list"
  ao_rag_object_ids :: "string list"
  ao_semantic_entry_ids :: "string list"
  ao_tool_artifact_ids :: "string list"
  ao_plan_cache_entry_ids :: "string list"

record AgentPrefetchPolicy =
  gp_current_step_id :: "string option"
  gp_next_step_top_k :: int
  gp_max_decisions :: int
  gp_step_objects :: "(string, AgentStepObjects) dict"
  gp_predicted_object_ids :: "string set"
  gp_used_prefetch_ids :: "string set"
  gp_wasted_prefetch_ids :: "string set"
  gp_requests :: nat
  gp_agent_prefetch_count :: nat
  gp_expected_object_count :: nat
  gp_recall_hit_count :: nat
  gp_wasted_prefetch_bytes :: int
  gp_latency_saved_ms :: rat

definition agent_prefetch_init :: "string option \<Rightarrow> int \<Rightarrow> int \<Rightarrow> AgentPrefetchPolicy res" where
  "agent_prefetch_init step next_step_top_k max_decisions =
     (if next_step_top_k \<le> 0 then Inl (ValueError ''next_step_top_k must be positive'')
      else if max_decisions \<le> 0 then Inl (ValueError ''max_decisions must be positive'')
      else Inr \<lparr>gp_current_step_id = step, gp_next_step_top_k = next_step_top_k,
             gp_max_decisions = max_decisions, gp_step_objects = [], gp_predicted_object_ids = {},
             gp_used_prefetch_ids = {}, gp_wasted_prefetch_ids = {}, gp_requests = 0,
             gp_agent_prefetch_count = 0, gp_expected_object_count = 0, gp_recall_hit_count = 0,
             gp_wasted_prefetch_bytes = 0, gp_latency_saved_ms = 0\<rparr>)"

definition agent_set_current_step :: "string option \<Rightarrow> AgentPrefetchPolicy \<Rightarrow> AgentPrefetchPolicy" where
  "agent_set_current_step step p = p\<lparr>gp_current_step_id := step\<rparr>"

definition dedupe_ids :: "string list \<Rightarrow> string list" where
  "dedupe_ids values = dedupe (filter (\<lambda>v. v \<noteq> []) values)"

definition dedupe_step_objects :: "AgentStepObjects \<Rightarrow> AgentStepObjects" where
  "dedupe_step_objects ob = \<lparr>
     ao_kv_block_ids = dedupe_ids (ao_kv_block_ids ob),
     ao_rag_object_ids = dedupe_ids (ao_rag_object_ids ob),
     ao_semantic_entry_ids = dedupe_ids (ao_semantic_entry_ids ob),
     ao_tool_artifact_ids = dedupe_ids (ao_tool_artifact_ids ob),
     ao_plan_cache_entry_ids = dedupe_ids (ao_plan_cache_entry_ids ob)\<rparr>"

definition register_step_objects ::
    "string \<Rightarrow> AgentStepObjects \<Rightarrow> AgentPrefetchPolicy \<Rightarrow> unit res \<times> AgentPrefetchPolicy" where
  "register_step_objects step_id ob p =
     (if step_id = [] then (Inl (ValueError ''step_id must be non-empty''), p)
      else (Inr (), p\<lparr>gp_step_objects := dset (gp_step_objects p) step_id (dedupe_step_objects ob)\<rparr>))"

definition register_step ::
    "AgentStep \<Rightarrow> string list option \<Rightarrow> string list option \<Rightarrow> AgentPrefetchPolicy
       \<Rightarrow> unit res \<times> AgentPrefetchPolicy" where
  "register_step s tool_artifact_ids plan_cache_entry_ids p =
     register_step_objects (st_step_id s)
       \<lparr>ao_kv_block_ids = st_kv_block_ids s, ao_rag_object_ids = st_rag_object_ids s,
        ao_semantic_entry_ids = st_semantic_entry_ids s,
        ao_tool_artifact_ids = (case tool_artifact_ids of None \<Rightarrow> [] | Some xs \<Rightarrow> xs),
        ao_plan_cache_entry_ids = (case plan_cache_entry_ids of None \<Rightarrow> [] | Some xs \<Rightarrow> xs)\<rparr> p"

text \<open>The object lists of a step with the weight of their type, in the order of the code.\<close>

definition iter_objects :: "AgentStepObjects \<Rightarrow> (string \<times> string list) list" where
  "iter_objects ob = [(''kv_cache'', ao_kv_block_ids ob), (''tool_artifact'', ao_tool_artifact_ids ob),
     (''rag'', ao_rag_object_ids ob), (''plan_cache'', ao_plan_cache_entry_ids ob),
     (''semantic'', ao_semantic_entry_ids ob)]"

definition type_weight :: "string \<Rightarrow> rat" where
  "type_weight t =
     (if t = ''kv_cache'' then 1 else if t = ''tool_artifact'' then 9 / 10
      else if t = ''rag'' then 85 / 100 else if t = ''plan_cache'' then 8 / 10 else 75 / 100)"

definition step_offers ::
    "(string, AgentStepObjects) dict \<Rightarrow> nat \<times> string \<Rightarrow> ((string \<times> string) \<times> PrefetchDecision) list" where
  "step_offers objs rank_step =
     (case rank_step of (rank, step_id) \<Rightarrow>
       (case dget objs step_id of
          None \<Rightarrow> []
        | Some ob \<Rightarrow>
            concat (map (\<lambda>(ty, ids).
               map (\<lambda>oid. ((ty, oid), \<lparr>pd_object_id = oid,
                       pd_priority = 1 / (1 + of_nat rank) * type_weight ty,
                       pd_prefetch_type = ty\<rparr>)) ids) (iter_objects ob))))"

definition decisions_for_steps :: "string list \<Rightarrow> AgentPrefetchPolicy \<Rightarrow> PrefetchDecision list" where
  "decisions_for_steps step_ids p =
     take (nat (gp_max_decisions p))
       (sort_desc pd_priority
         (map snd (fold keep_best
            (concat (map (step_offers (gp_step_objects p)) (enumerate 0 step_ids))) [])))"

text \<open>The graph is shared with its owner; the policy gets its current value.\<close>

definition agent_predict ::
    "AgentStepGraph \<Rightarrow> 'a RequestContext \<Rightarrow> 'm \<Rightarrow> AgentPrefetchPolicy
       \<Rightarrow> PrefetchDecision list res \<times> AgentPrefetchPolicy" where
  "agent_predict graph req md p =
     (let p1 = p\<lparr>gp_requests := gp_requests p + 1\<rparr>
      in case gp_current_step_id p of
           None \<Rightarrow> (Inr [], p1)
         | Some step \<Rightarrow>
             (case get_step step graph of
                None \<Rightarrow> (Inr [], p1)
              | Some current \<Rightarrow>
                  (case predict_next_steps (sn_workflow_id current) step (gp_next_step_top_k p) graph of
                     Inl e \<Rightarrow> (Inl e, p1)
                   | Inr next_steps \<Rightarrow>
                       (let decisions = decisions_for_steps next_steps p1
                        in (Inr decisions, p1\<lparr>
                              gp_agent_prefetch_count := gp_agent_prefetch_count p1 + length decisions,
                              gp_predicted_object_ids := gp_predicted_object_ids p1
                                \<union> set (map pd_object_id decisions)\<rparr>)))))"

definition agent_on_prefetch_used ::
    "string \<Rightarrow> rat \<Rightarrow> AgentPrefetchPolicy \<Rightarrow> unit res \<times> AgentPrefetchPolicy" where
  "agent_on_prefetch_used oid latency_saved_ms p =
     (if latency_saved_ms < 0 then (Inl (ValueError ''latency_saved_ms must be non-negative''), p)
      else if oid \<in> gp_predicted_object_ids p \<and> oid \<notin> gp_used_prefetch_ids p
      then (Inr (), p\<lparr>gp_used_prefetch_ids := insert oid (gp_used_prefetch_ids p),
                     gp_latency_saved_ms := gp_latency_saved_ms p + latency_saved_ms\<rparr>)
      else (Inr (), p))"

definition agent_on_prefetch_wasted ::
    "string \<Rightarrow> int \<Rightarrow> AgentPrefetchPolicy \<Rightarrow> unit res \<times> AgentPrefetchPolicy" where
  "agent_on_prefetch_wasted oid nbytes p =
     (if nbytes < 0 then (Inl (ValueError ''size_bytes must be non-negative''), p)
      else if oid \<in> gp_predicted_object_ids p \<and> oid \<notin> gp_wasted_prefetch_ids p
      then (Inr (), p\<lparr>gp_wasted_prefetch_ids := insert oid (gp_wasted_prefetch_ids p),
                     gp_wasted_prefetch_bytes := gp_wasted_prefetch_bytes p + nbytes\<rparr>)
      else (Inr (), p))"

definition on_objects_requested :: "string list \<Rightarrow> AgentPrefetchPolicy \<Rightarrow> AgentPrefetchPolicy" where
  "on_objects_requested oids p =
     (let requested = set (filter (\<lambda>i. i \<noteq> []) oids)
      in p\<lparr>gp_expected_object_count := gp_expected_object_count p + card requested,
           gp_recall_hit_count := gp_recall_hit_count p
             + card (requested \<inter> gp_predicted_object_ids p)\<rparr>)"

record AgentPrefetchStats =
  gs_requests :: nat
  gs_agent_prefetch_count :: nat
  gs_prefetch_precision :: rat
  gs_prefetch_recall :: rat
  gs_wasted_prefetch_bytes :: int
  gs_latency_saved_ms :: rat
  gs_indexed_steps :: nat

definition agent_prefetch_stats :: "AgentPrefetchPolicy \<Rightarrow> AgentPrefetchStats" where
  "agent_prefetch_stats p = \<lparr>gs_requests = gp_requests p,
     gs_agent_prefetch_count = gp_agent_prefetch_count p,
     gs_prefetch_precision = (if gp_agent_prefetch_count p = 0 then 0
       else of_nat (card (gp_used_prefetch_ids p)) / of_nat (gp_agent_prefetch_count p)),
     gs_prefetch_recall = (if gp_expected_object_count p = 0 then 0
       else of_nat (gp_recall_hit_count p) / of_nat (gp_expected_object_count p)),
     gs_wasted_prefetch_bytes = gp_wasted_prefetch_bytes p,
     gs_latency_saved_ms = gp_latency_saved_ms p,
     gs_indexed_steps = length (gp_step_objects p)\<rparr>"

record AgentPrefetchSnapshot =
  gn_stats :: AgentPrefetchStats
  gn_current_step_id :: "string option"
  gn_indexed_step_ids :: "string list"
  gn_predicted_object_ids :: "string list"
  gn_used_prefetch_ids :: "string list"
  gn_wasted_prefetch_ids :: "string list"

definition agent_prefetch_snapshot :: "AgentPrefetchPolicy \<Rightarrow> AgentPrefetchSnapshot" where
  "agent_prefetch_snapshot p = \<lparr>gn_stats = agent_prefetch_stats p,
     gn_current_step_id = gp_current_step_id p,
     gn_indexed_step_ids = sort (dkeys (gp_step_objects p)),
     gn_predicted_object_ids = sorted_list_of_set (gp_predicted_object_ids p),
     gn_used_prefetch_ids = sorted_list_of_set (gp_used_prefetch_ids p),
     gn_wasted_prefetch_ids = sorted_list_of_set (gp_wasted_prefetch_ids p)\<rparr>"

subsection \<open>Counters\<close>

text \<open>
  Used and wasted objects were predicted, every predicted object was counted, and recall hits
  never exceed the requests: precision and recall are proportions.
\<close>

definition agent_prefetch_wf :: "AgentPrefetchPolicy \<Rightarrow> bool" where
  "agent_prefetch_wf p \<longleftrightarrow> finite (gp_predicted_object_ids p)
     \<and> gp_used_prefetch_ids p \<subseteq> gp_predicted_object_ids p
     \<and> gp_wasted_prefetch_ids p \<subseteq> gp_predicted_object_ids p
     \<and> card (gp_predicted_object_ids p) \<le> gp_agent_prefetch_count p
     \<and> gp_recall_hit_count p \<le> gp_expected_object_count p
     \<and> 0 \<le> gp_wasted_prefetch_bytes p \<and> 0 \<le> gp_latency_saved_ms p
     \<and> 0 < gp_max_decisions p \<and> 0 < gp_next_step_top_k p"

lemma agent_init_wf: "agent_prefetch_init s k m = Inr p \<Longrightarrow> agent_prefetch_wf p"
  by (auto simp: agent_prefetch_init_def agent_prefetch_wf_def split: if_splits)

lemma card_union_list:
  "card A \<le> n \<Longrightarrow> card (A \<union> f ` set xs) \<le> n + length xs"
  using card_Un_le [of A "f ` set xs"] card_length [of "map f xs"] by simp

lemma agent_predict_wf:
  assumes "agent_prefetch_wf p" and "agent_predict g req md p = (r, p')"
  shows "agent_prefetch_wf p' \<and> gp_max_decisions p' = gp_max_decisions p"
  using assms
  by (auto simp: agent_predict_def Let_def agent_prefetch_wf_def card_union_list
      split: option.splits sum.splits)

lemma agent_used_wf:
  "agent_prefetch_wf p \<Longrightarrow> agent_on_prefetch_used oid ms p = (r, p') \<Longrightarrow> agent_prefetch_wf p'"
  by (auto simp: agent_on_prefetch_used_def agent_prefetch_wf_def split: if_splits)

lemma agent_wasted_wf:
  "agent_prefetch_wf p \<Longrightarrow> agent_on_prefetch_wasted oid n p = (r, p') \<Longrightarrow> agent_prefetch_wf p'"
  by (auto simp: agent_on_prefetch_wasted_def agent_prefetch_wf_def split: if_splits)

lemma agent_requested_wf: "agent_prefetch_wf p \<Longrightarrow> agent_prefetch_wf (on_objects_requested oids p)"
proof -
  assume wf: "agent_prefetch_wf p"
  let ?r = "set (filter (\<lambda>i. i \<noteq> []) oids)"
  have "card (?r \<inter> gp_predicted_object_ids p) \<le> card ?r" by (rule card_mono) auto
  with wf show ?thesis by (simp add: agent_prefetch_wf_def on_objects_requested_def Let_def)
qed

lemma agent_register_wf:
  "agent_prefetch_wf p \<Longrightarrow> register_step_objects s ob p = (r, p') \<Longrightarrow> agent_prefetch_wf p'"
  by (auto simp: register_step_objects_def agent_prefetch_wf_def split: if_splits)

text \<open>A prediction reads neither the request nor the metadata store, which are unit here.\<close>

inductive agent_prefetch_step :: "AgentPrefetchPolicy \<Rightarrow> AgentPrefetchPolicy \<Rightarrow> bool" where
  "agent_prefetch_step p (agent_set_current_step s p)"
| "register_step_objects s ob p = (r, p') \<Longrightarrow> agent_prefetch_step p p'"
| "agent_predict g (req :: unit RequestContext) () p = (q, p') \<Longrightarrow> agent_prefetch_step p p'"
| "agent_on_prefetch_used oid ms p = (r, p') \<Longrightarrow> agent_prefetch_step p p'"
| "agent_on_prefetch_wasted oid n p = (r, p') \<Longrightarrow> agent_prefetch_step p p'"
| "agent_prefetch_step p (on_objects_requested oids p)"

inductive agent_prefetch_reachable :: "AgentPrefetchPolicy \<Rightarrow> bool" where
  "agent_prefetch_init s k m = Inr p \<Longrightarrow> agent_prefetch_reachable p"
| "agent_prefetch_reachable p \<Longrightarrow> agent_prefetch_step p p' \<Longrightarrow> agent_prefetch_reachable p'"

lemma agent_step_wf: "agent_prefetch_step p p' \<Longrightarrow> agent_prefetch_wf p \<Longrightarrow> agent_prefetch_wf p'"
proof (induction rule: agent_prefetch_step.induct)
  case (1 p s)
  then show ?case by (simp add: agent_set_current_step_def agent_prefetch_wf_def)
qed (auto intro: agent_register_wf agent_used_wf agent_wasted_wf agent_requested_wf
    dest: agent_predict_wf)

lemma agent_reachable_wf: "agent_prefetch_reachable p \<Longrightarrow> agent_prefetch_wf p"
  by (induction rule: agent_prefetch_reachable.induct) (auto intro: agent_init_wf agent_step_wf)

lemma agent_rates_unit:
  assumes "agent_prefetch_wf p"
  shows "0 \<le> gs_prefetch_precision (agent_prefetch_stats p)"
    and "gs_prefetch_precision (agent_prefetch_stats p) \<le> 1"
    and "0 \<le> gs_prefetch_recall (agent_prefetch_stats p)"
    and "gs_prefetch_recall (agent_prefetch_stats p) \<le> 1"
proof -
  have "card (gp_used_prefetch_ids p) \<le> card (gp_predicted_object_ids p)"
    using assms by (intro card_mono) (simp_all add: agent_prefetch_wf_def)
  then have "card (gp_used_prefetch_ids p) \<le> gp_agent_prefetch_count p"
    using assms by (simp add: agent_prefetch_wf_def)
  then show "0 \<le> gs_prefetch_precision (agent_prefetch_stats p)"
    and "gs_prefetch_precision (agent_prefetch_stats p) \<le> 1"
    and "0 \<le> gs_prefetch_recall (agent_prefetch_stats p)"
    and "gs_prefetch_recall (agent_prefetch_stats p) \<le> 1"
    using assms by (simp_all add: agent_prefetch_stats_def agent_prefetch_wf_def divide_le_eq)
qed

subsection \<open>Decisions\<close>

lemma agent_decisions_shape:
  "falling (decisions_for_steps ids p) \<and> length (decisions_for_steps ids p) \<le> nat (gp_max_decisions p)"
  by (simp add: decisions_for_steps_def falling_take)

lemma agent_predict_shape:
  "agent_predict g req md p = (Inr ds, p') \<Longrightarrow> falling ds \<and> length ds \<le> nat (gp_max_decisions p)"
  using agent_decisions_shape [of _ "p\<lparr>gp_requests := Suc (gp_requests p)\<rparr>"]
  by (auto simp: agent_predict_def Let_def falling_def split: option.splits sum.splits)

interpretation agent: prefetch_policy "agent_predict g" "\<lambda>p. nat (gp_max_decisions p)" "\<lambda>p. True" for g
proof unfold_locales
  fix p p' and req :: "'a RequestContext" and md :: 'b and r ds
  show "agent_predict g req md p = (r, p') \<Longrightarrow> True \<and> nat (gp_max_decisions p') = nat (gp_max_decisions p)"
    by (auto simp: agent_predict_def Let_def split: option.splits sum.splits)
qed (auto dest: agent_predict_shape)

text \<open>An offer is an object registered for one of the steps, with the weight of its type divided by the rank of the step.\<close>

lemma offers_iff:
  "((ty, oid), d) \<in> set (concat (map (step_offers objs) (enumerate 0 ids))) \<longleftrightarrow>
     (\<exists>rank < length ids. \<exists>ob l. dget objs (ids ! rank) = Some ob \<and> (ty, l) \<in> set (iter_objects ob)
        \<and> oid \<in> set l \<and> d = \<lparr>pd_object_id = oid, pd_priority = 1 / (1 + of_nat rank) * type_weight ty,
                       pd_prefetch_type = ty\<rparr>)" (is "?L \<longleftrightarrow> ?R")
proof
  assume ?L
  then obtain rank where "rank < length ids" and "((ty, oid), d) \<in> set (step_offers objs (rank, ids ! rank))"
    by (auto simp: in_set_enumerate_eq)
  moreover from this(2) obtain ob where "dget objs (ids ! rank) = Some ob"
    by (cases "dget objs (ids ! rank)") (simp_all add: step_offers_def)
  ultimately have "rank < length ids \<and> (\<exists>l. dget objs (ids ! rank) = Some ob \<and> (ty, l) \<in> set (iter_objects ob)
        \<and> oid \<in> set l \<and> d = \<lparr>pd_object_id = oid, pd_priority = 1 / (1 + of_nat rank) * type_weight ty,
                       pd_prefetch_type = ty\<rparr>)"
    by (auto simp: step_offers_def)
  then show ?R by blast
next
  assume ?R
  then obtain rank where r: "rank < length ids" and "((ty, oid), d) \<in> set (step_offers objs (rank, ids ! rank))"
    by (fastforce simp: step_offers_def)
  then show ?L by (force simp: in_set_enumerate_eq)
qed

text \<open>
  What should be decided, apart from how: \<open>registered_as\<close> is the table of the types with their weights and
  fields, and the candidates of a list of steps are the objects registered for one of them, at the priority of the
  first step that names them under their type.
\<close>

definition registered_as :: "AgentStepObjects \<Rightarrow> string \<Rightarrow> rat \<Rightarrow> string \<Rightarrow> bool" where
  "registered_as ob ty w oid \<longleftrightarrow>
     ty = ''kv_cache'' \<and> w = 1 \<and> oid \<in> set (ao_kv_block_ids ob)
     \<or> ty = ''tool_artifact'' \<and> w = 9 / 10 \<and> oid \<in> set (ao_tool_artifact_ids ob)
     \<or> ty = ''rag'' \<and> w = 85 / 100 \<and> oid \<in> set (ao_rag_object_ids ob)
     \<or> ty = ''plan_cache'' \<and> w = 8 / 10 \<and> oid \<in> set (ao_plan_cache_entry_ids ob)
     \<or> ty = ''semantic'' \<and> w = 75 / 100 \<and> oid \<in> set (ao_semantic_entry_ids ob)"

definition candidates :: "(string, AgentStepObjects) dict \<Rightarrow> string list \<Rightarrow> PrefetchDecision set" where
  "candidates objs steps = {d. \<exists>rank < length steps. \<exists>ob w. dget objs (steps ! rank) = Some ob
     \<and> registered_as ob (pd_prefetch_type d) w (pd_object_id d) \<and> pd_priority d = w / (1 + of_nat rank)
     \<and> (\<forall>before < rank. \<forall>ob' w'. dget objs (steps ! before) = Some ob' \<longrightarrow>
          \<not> registered_as ob' (pd_prefetch_type d) w' (pd_object_id d))}"

lemma registered_iter:
  "registered_as ob ty w oid \<longleftrightarrow> (\<exists>l. (ty, l) \<in> set (iter_objects ob) \<and> oid \<in> set l \<and> w = type_weight ty)"
  by (simp add: registered_as_def iter_objects_def type_weight_def ex_disj_distrib conj_disj_distribR conj_disj_distribL conj_ac cong: conj_cong)

lemma offers_registered:
  "((ty, oid), d) \<in> set (concat (map (step_offers objs) (enumerate 0 ids))) \<longleftrightarrow>
     (\<exists>rank < length ids. \<exists>ob w. dget objs (ids ! rank) = Some ob \<and> registered_as ob ty w oid
        \<and> d = \<lparr>pd_object_id = oid, pd_priority = w / (1 + of_nat rank), pd_prefetch_type = ty\<rparr>)"
  unfolding offers_iff registered_iter by fastforce

lemma keep_best_complete:
  assumes "(k, d) \<in> set kds" and "\<And>e. (k, e) \<in> set kds \<Longrightarrow> pd_priority d \<le> pd_priority e \<Longrightarrow> e = d"
  shows "d \<in> snd ` set (fold keep_best kds [])"
proof -
  note spec = keep_best_spec [of kds k]
  obtain e where e: "dget (fold keep_best kds []) k = Some e"
    using spec assms(1) by (cases "dget (fold keep_best kds []) k") force+
  with spec assms(1) have "(k, e) \<in> set kds" "pd_priority d \<le> pd_priority e" by blast+
  with assms(2) have "e = d" by blast
  with e have "(k, d) \<in> set (fold keep_best kds [])" by (simp add: map_of_SomeD)
  then show ?thesis by force
qed

lemma candidates_chosen:
  "snd ` set (fold keep_best (concat (map (step_offers objs) (enumerate 0 ids))) []) = candidates objs ids"
  (is "snd ` set (fold keep_best ?offers []) = _")
proof (intro equalityI subsetI)
  fix d
  assume "d \<in> snd ` set (fold keep_best ?offers [])"
  from keep_best_values [OF this] obtain ty oid where k: "((ty, oid), d) \<in> set ?offers"
    and best: "\<And>e. ((ty, oid), e) \<in> set ?offers \<Longrightarrow> pd_priority e \<le> pd_priority d" by auto
  then obtain rank ob w where r: "rank < length ids" "dget objs (ids ! rank) = Some ob" "registered_as ob ty w oid"
    and d: "d = \<lparr>pd_object_id = oid, pd_priority = w / (1 + of_nat rank), pd_prefetch_type = ty\<rparr>"
    unfolding offers_registered by blast
  have "\<not> registered_as ob' ty w' oid" if "before < rank" "dget objs (ids ! before) = Some ob'" for before ob' w'
  proof
    assume reg: "registered_as ob' ty w' oid"
    then have w: "w' = w" "0 < w" using r(3) by (auto simp: registered_as_def)
    have "((ty, oid), \<lparr>pd_object_id = oid, pd_priority = w' / (1 + of_nat before), pd_prefetch_type = ty\<rparr>) \<in> set ?offers"
      unfolding offers_registered using that r(1) reg by (intro exI [of _ before] conjI exI [of _ ob'] exI [of _ w']) auto
    from best [OF this] have "w / (1 + of_nat before) \<le> w / (1 + of_nat rank)" by (simp add: d w)
    moreover have "w / (1 + of_nat rank) < w / (1 + of_nat before)"
      using that(1) w(2) by (intro divide_strict_left_mono mult_pos_pos) (auto simp: add_pos_nonneg)
    ultimately show False by simp
  qed
  with r d show "d \<in> candidates objs ids" unfolding candidates_def by auto
next
  fix d
  assume "d \<in> candidates objs ids"
  then obtain rank ob w where r: "rank < length ids" "dget objs (ids ! rank) = Some ob"
      "registered_as ob (pd_prefetch_type d) w (pd_object_id d)" "pd_priority d = w / (1 + of_nat rank)"
    and first: "\<And>before ob' w'. before < rank \<Longrightarrow> dget objs (ids ! before) = Some ob' \<Longrightarrow>
          \<not> registered_as ob' (pd_prefetch_type d) w' (pd_object_id d)"
    unfolding candidates_def by blast
  show "d \<in> snd ` set (fold keep_best ?offers [])"
  proof (rule keep_best_complete [of "(pd_prefetch_type d, pd_object_id d)"])
    show "((pd_prefetch_type d, pd_object_id d), d) \<in> set ?offers"
      unfolding offers_registered using r by (intro exI [of _ rank] conjI exI [of _ ob] exI [of _ w]) auto
    fix e
    assume "((pd_prefetch_type d, pd_object_id d), e) \<in> set ?offers" and le: "pd_priority d \<le> pd_priority e"
    then obtain rank' ob' w' where e: "dget objs (ids ! rank') = Some ob'" "registered_as ob' (pd_prefetch_type d) w' (pd_object_id d)"
      "e = \<lparr>pd_object_id = pd_object_id d, pd_priority = w' / (1 + of_nat rank'), pd_prefetch_type = pd_prefetch_type d\<rparr>"
      unfolding offers_registered by blast
    have w: "w' = w" "0 < w" using r(3) e(2) by (auto simp: registered_as_def)
    have "rank \<le> rank'" using first [of rank' ob' w'] e by (meson not_le)
    moreover have "\<not> rank < rank'"
    proof
      assume "rank < rank'"
      then have "w / (1 + of_nat rank') < w / (1 + of_nat rank)"
        using w(2) by (intro divide_strict_left_mono mult_pos_pos) (auto simp: add_pos_nonneg)
      with le show False by (simp add: e(3) r(4) w)
    qed
    ultimately show "e = d" using e(3) r(4) w(1) by simp
  qed
qed

lemma chosen_distinct: "distinct (map snd (fold keep_best (concat (map (step_offers objs) (enumerate 0 ids))) []))"
  (is "distinct (map snd (fold keep_best ?offers []))")
proof -
  have wf: "dwf (fold keep_best ?offers [])" by (rule keep_best_wf) simp
  have "k = (pd_prefetch_type d, pd_object_id d)" if "(k, d) \<in> set (fold keep_best ?offers [])" for k d
  proof -
    from that wf have "dget (fold keep_best ?offers []) k = Some d" by simp
    with keep_best_spec [of ?offers k] have "(k, d) \<in> set ?offers" by blast
    then show ?thesis by (cases k) (auto simp only: offers_registered PrefetchDecision.simps)
  qed
  then have "inj_on snd (set (fold keep_best ?offers []))" by (intro inj_onI) (metis prod.collapse)
  moreover have "distinct (fold keep_best ?offers [])" using wf by (simp add: distinct_map)
  ultimately show ?thesis by (simp add: distinct_map)
qed

text \<open>The decisions are the best candidates, as many as are allowed.\<close>

lemma sorted_take_best:
  assumes "falling xs" and "d \<in> set (take n xs)" and "e \<in> set (drop n xs)"
  shows "pd_priority e \<le> pd_priority d"
  using assms unfolding falling_def by (metis append_take_drop_id sorted_wrt_append)

lemma decisions_best:
  fixes p :: AgentPrefetchPolicy and ids :: "string list"
  defines "C \<equiv> candidates (gp_step_objects p) ids" and "ds \<equiv> decisions_for_steps ids p"
  shows "distinct ds" and "set ds \<subseteq> C" and "finite C" and "length ds = min (nat (gp_max_decisions p)) (card C)"
    and "\<And>d e. d \<in> set ds \<Longrightarrow> e \<in> C \<Longrightarrow> e \<notin> set ds \<Longrightarrow> pd_priority e \<le> pd_priority d"
proof -
  let ?xs = "sort_desc pd_priority (map snd (fold keep_best (concat (map (step_offers (gp_step_objects p)) (enumerate 0 ids))) []))"
  let ?n = "nat (gp_max_decisions p)"
  have ds: "ds = take ?n ?xs" by (simp add: ds_def decisions_for_steps_def)
  have C: "set ?xs = C" by (simp add: C_def candidates_chosen)
  have dist: "distinct ?xs" by (simp add: chosen_distinct)
  show "distinct ds" using dist by (simp add: ds distinct_take del: distinct_sort_desc)
  show "set ds \<subseteq> C" unfolding ds C [symmetric] by (rule set_take_subset)
  show "finite C" unfolding C [symmetric] by (rule finite_set)
  have "length ?xs = card C" using distinct_card [OF dist] by (simp only: C)
  then show "length ds = min ?n (card C)" by (simp only: ds length_take min.commute)
  show "pd_priority e \<le> pd_priority d" if "d \<in> set ds" "e \<in> C" "e \<notin> set ds" for d e
  proof (rule sorted_take_best [OF falling_sort])
    show "d \<in> set (take ?n ?xs)" using that(1) by (simp only: ds)
    have "e \<in> set (take ?n ?xs @ drop ?n ?xs)" using that(2) by (simp only: append_take_drop_id C)
    then show "e \<in> set (drop ?n ?xs)" using that(3) by (simp only: ds set_append Un_iff simp_thms)
  qed
qed

text \<open>Whatever the graph is, predicting on a well-formed one does not raise.\<close>

lemma agent_predict_total:
  assumes "graph_wf g" and "0 < gp_next_step_top_k p"
  shows "\<exists>ds p'. agent_predict g req md p = (Inr ds, p')"
proof (cases "gp_current_step_id p")
  case None
  then show ?thesis by (simp add: agent_predict_def)
next
  case (Some step)
  show ?thesis
  proof (cases "get_step step g")
    case None
    with Some show ?thesis by (simp add: agent_predict_def Let_def)
  next
    case (Some n)
    then have "dget (sg_steps g) step = Some n" by (simp add: get_step_def)
    from predict_good [OF assms(1) this assms(2)] obtain ps where
      "predict_next_steps (sn_workflow_id n) step (gp_next_step_top_k p) g = Inr ps" by blast
    with Some \<open>gp_current_step_id p = Some step\<close> show ?thesis by (simp add: agent_predict_def Let_def)
  qed
qed

section \<open>Properties\<close>

lemma completed_history:
  "dlist (sp_session_histories (on_request_completed s ts p)) k =
     (if ts \<noteq> [] \<and> s = k then deque_append (nat (sp_history_size p)) ts (dlist (sp_session_histories p) k)
      else dlist (sp_session_histories p) k)"
  "sp_history_size (on_request_completed s ts p) = sp_history_size p"
  by (auto simp: on_request_completed_def dlist_def dict_simps)

lemma deque_append_snoc:
  "deque_append n x (drop (length xs - n) xs) = drop (length (xs @ [x]) - n) (xs @ [x])"
  by (cases "n \<le> length xs") (auto simp: deque_append_def Suc_diff_le)

text \<open>A session remembers exactly its most recent non-empty turns, as many as configured, in order; turns
  of other sessions do not disturb it.\<close>

theorem session_history_exact:
  assumes "session_prefetch_init n k = Inr p"
  shows "dlist (sp_session_histories (fold (\<lambda>(s, ts). on_request_completed s ts) turns p)) session =
    (let own = map snd (filter (\<lambda>(s, ts). s = session \<and> ts \<noteq> []) turns)
     in drop (length own - nat n) own)"
proof (induction turns rule: rev_induct)
  case Nil
  show ?case using assms by (auto simp: session_prefetch_init_def split: if_splits)
next
  case (snoc turn turns)
  let ?p = "fold (\<lambda>(s, ts). on_request_completed s ts) turns p"
  have n: "sp_history_size ?p = n"
  proof (induction turns rule: rev_induct)
    case Nil
    show ?case using assms by (auto simp: session_prefetch_init_def split: if_splits)
  qed (auto simp: completed_history split: prod.splits)
  obtain s ts where turn: "turn = (s, ts)" by fastforce
  show ?case
  proof (cases "s = session \<and> ts \<noteq> []")
    case True
    then show ?thesis
      using snoc.IH n turn deque_append_snoc [of "nat n" ts "map snd (filter (\<lambda>(s, ts). s = session \<and> ts \<noteq> []) turns)"]
      by (simp add: completed_history Let_def)
  next
    case False
    then show ?thesis
      using snoc.IH turn by (auto simp: completed_history Let_def)
  qed
qed

lemma session_history_exact_witness:
  "\<exists>p. session_prefetch_init 2 5 = Inr p \<and>
     dlist (sp_session_histories (fold (\<lambda>(s, ts). on_request_completed s ts)
       [(''a'', [1]), (''b'', [9]), (''a'', []), (''a'', [2]), (''a'', [3])] p)) ''a'' = [[2], [3]]"
proof -
  obtain p where p: "session_prefetch_init 2 5 = Inr p" by (simp add: session_prefetch_init_def)
  from session_history_exact [OF p, of "[(''a'', [1]), (''b'', [9]), (''a'', []), (''a'', [2]), (''a'', [3])]" "''a''"]
  have "dlist (sp_session_histories (fold (\<lambda>(s, ts). on_request_completed s ts)
       [(''a'', [1]), (''b'', [9]), (''a'', []), (''a'', [2]), (''a'', [3])] p)) ''a'' = [[2], [3]]"
    by (simp add: Let_def numeral_2_eq_2)
  with p show ?thesis by blast
qed

text \<open>Session prefetch never raises; its decisions are at most \<^verbatim>\<open>top_k\<close>, the longest matches first, and each
  is a KV block whose tokens start a remembered turn of the session, with their number as priority.\<close>

theorem session_prefetch_sound:
  assumes "enumerates (rt_set_order R)" and "pt_wf (md_prefix_tree md)"
  shows "\<exists>ds. session_predict R req md p = (Inr ds, p) \<and> falling ds \<and> length ds \<le> nat (sp_top_k p) \<and>
    (\<forall>d \<in> set ds. pd_prefetch_type d = ''kv_cache'' \<and>
      (\<exists>turn \<in> set (dlist (sp_session_histories p) (rc_session_id req)). \<exists>ts.
         pt_table (md_prefix_tree md) (pd_object_id d) = Some ts \<and> ts \<noteq> [] \<and> prefix ts turn
         \<and> pd_priority d = of_nat (length ts)))"
proof -
  obtain ds where ds: "session_predict R req md p = (Inr ds, p)"
    by (cases "dlist (sp_session_histories p) (rc_session_id req) = []")
       (simp_all add: session_predict_def Let_def)
  with session.predict_falling [OF TrueI ds] session.predict_limit [OF TrueI ds]
    session_predict_spec [OF assms ds] show ?thesis by blast
qed

definition sample_metadata :: "(nat \<times> rat list) list MetadataStore" where
  "sample_metadata = on_object_added sample_runtime KV_CACHE ''blk'' (Some [1, 2])
     \<lparr>md_bloom = bloom_new 64 2, md_prefix_tree = prefix_tree_new, md_expected_items = 8,
      md_hnsw = Some sample_index\<rparr>"

lemma sample_metadata_wf: "metadata_wf sample_metadata"
proof -
  have "hnsw_reachable sample_numpy sample_hnswlib 2 3 sample_index"
    by (rule created) (simp add: hnsw_init_def sample_hnswlib_def sample_index_def)
  then have "hnsw_wf sample_index" by (simp add: hnsw_reachable_wf)
  then show ?thesis unfolding sample_metadata_def
    by (intro on_object_added_wf) (simp_all add: metadata_wf_def tokens_fresh_def)
qed

definition sample_session :: SessionPrefetchPolicy where
  "sample_session = \<lparr>sp_history_size = 3, sp_top_k = 2, sp_session_histories = [(''s'', [[1, 2, 3]])]\<rparr>"

definition sample_request :: "rat list RequestContext" where
  "sample_request = \<lparr>rc_prompt = ''p'', rc_session_id = ''s'', rc_model_name = ''m'', rc_prompt_embedding = Some [1, 0]\<rparr>"

lemma session_prefetch_sound_witness:
  "\<exists>ds. session_predict sample_runtime sample_request sample_metadata sample_session = (Inr ds, sample_session)
     \<and> length ds \<le> 2 \<and> (\<forall>d \<in> set ds. pt_table (md_prefix_tree sample_metadata) (pd_object_id d) \<noteq> None)"
proof -
  have "enumerates (rt_set_order sample_runtime)" by (simp add: sample_runtime_def)
  moreover have "pt_wf (md_prefix_tree sample_metadata)" using sample_metadata_wf by (simp add: metadata_wf_def)
  moreover have "nat (sp_top_k sample_session) = 2" by (simp add: sample_session_def)
  ultimately show ?thesis
    using session_prefetch_sound [of sample_runtime sample_metadata sample_request sample_session] by force
qed

text \<open>Semantic prefetch decides for indexed semantic entries only, none below its threshold, at most
  \<^verbatim>\<open>top_k\<close> of them and the most similar first.\<close>

theorem semantic_prefetch_sound:
  assumes "metadata_wf md" and "semantic_predict R S req md p = (Inr ds, p')"
  shows "falling ds \<and> length ds \<le> nat (mp_top_k p) \<and>
    (\<forall>d \<in> set ds. pd_object_id d \<in> md_semantic_ids md \<and> mp_threshold p \<le> pd_priority d
       \<and> pd_prefetch_type d = ''semantic'')"
  using semantic.predict_falling [OF TrueI assms(2)] semantic.predict_limit [OF TrueI assms(2)]
    semantic_predict_spec [OF assms] by blast

definition sample_semantic :: "SentenceTransformerService SemanticPrefetchPolicy" where
  "sample_semantic = \<lparr>mp_embeddings = sts_init sample_model True, mp_top_k = 4, mp_threshold = 1 / 2\<rparr>"

definition sample_indexed :: "(nat \<times> rat list) list MetadataStore" where
  "sample_indexed = sample_metadata\<lparr>md_hnsw := Some sample_full\<rparr>"

lemma sample_indexed_wf: "metadata_wf sample_indexed"
  using sample_metadata_wf hnsw_reachable_wf [OF sample_full_reachable]
  by (simp add: sample_indexed_def metadata_wf_def)

lemma semantic_prefetch_sound_witness:
  "\<exists>d. semantic_predict sample_runtime (sentence_transformer sample_arrays sample_model) sample_request
        sample_indexed sample_semantic = (Inr [d], sample_semantic)
      \<and> pd_object_id d \<in> md_semantic_ids sample_indexed \<and> 1 / 2 \<le> pd_priority d"
proof -
  let ?d = "\<lparr>pd_object_id = ''a'', pd_priority = 1, pd_prefetch_type = ''semantic''\<rparr>"
  have "hnsw_search sample_numpy sample_hnswlib [1, 0] 4 (1 / 2) sample_full = Inr [(''a'', 1)]" by code_simp
  then have call: "semantic_predict sample_runtime (sentence_transformer sample_arrays sample_model) sample_request
        sample_indexed sample_semantic = (Inr [?d], sample_semantic)"
    by (simp add: semantic_predict_def sample_request_def sample_semantic_def sample_indexed_def
        sample_runtime_def search_similar_prompts_def sort_desc_def)
  have "mp_threshold sample_semantic = 1 / 2" by (simp add: sample_semantic_def)
  with semantic_prefetch_sound [OF sample_indexed_wf call] call show ?thesis by auto
qed

lemma adaptive_used_bounds:
  "ap_min_depth (adaptive_on_prefetch_used b p) = ap_min_depth p"
  "ap_max_depth (adaptive_on_prefetch_used b p) = ap_max_depth p"
  by (simp_all add: adaptive_on_prefetch_used_def adjust_depth_def Let_def)

lemma adaptive_run:
  assumes "adaptive_init b d mn mx iv hi lo = Inr p"
  shows "adaptive_wf (fold adaptive_on_prefetch_used outcomes p)
    \<and> ap_min_depth (fold adaptive_on_prefetch_used outcomes p) = mn
    \<and> ap_max_depth (fold adaptive_on_prefetch_used outcomes p) = mx"
proof (induction outcomes rule: rev_induct)
  case Nil
  show ?case using assms adaptive_init_wf [OF assms] by (auto simp: adaptive_init_def split: if_splits)
qed (simp add: adaptive_used_wf adaptive_used_bounds)

text \<open>Whatever feedback it gets, the adaptive policy keeps its depth within the configured bounds, moves it
  by at most one per event, reports a hit rate between 0 and 1, and hands out at most as many
  decisions as the depth.\<close>

theorem adaptive_depth_bounded:
  assumes "adaptive_init b d mn mx iv hi lo = Inr p0" and "p = fold adaptive_on_prefetch_used outcomes p0"
  shows "mn \<le> ap_depth p \<and> ap_depth p \<le> mx
    \<and> \<bar>ap_depth (adaptive_on_prefetch_used outcome p) - ap_depth p\<bar> \<le> 1
    \<and> 0 \<le> as_hit_rate (adaptive_stats p) \<and> as_hit_rate (adaptive_stats p) \<le> 1
    \<and> (\<forall>ds p'. adaptive_predict base_predict req md p = (Inr ds, p') \<longrightarrow> int (length ds) \<le> ap_depth p)"
proof -
  have wf: "adaptive_wf p" and mn: "ap_min_depth p = mn" "ap_max_depth p = mx"
    using adaptive_run [OF assms(1)] assms(2) by blast+
  have "int (length ds) \<le> ap_depth p" if "adaptive_predict base_predict req md p = (Inr ds, p')" for ds p'
  proof -
    have "length ds \<le> nat (ap_depth p)"
      using that by (auto simp: adaptive_predict_def split: prod.splits sum.splits)
    then show ?thesis using wf by (simp add: adaptive_wf_def le_nat_iff)
  qed
  then show ?thesis
    using wf mn adaptive_used_depth(1) [OF wf] adaptive_hit_rate_unit [OF wf]
    by (auto simp: adaptive_wf_def)
qed

lemma adaptive_depth_bounded_witness:
  "\<exists>p0 p. adaptive_init () 2 1 3 2 (7 / 10) (3 / 10) = Inr p0 \<and>
     p = fold adaptive_on_prefetch_used [True, True, True, True, True] p0 \<and> ap_depth p \<le> 3"
proof -
  obtain p0 where p0: "adaptive_init () 2 1 3 2 (7 / 10) (3 / 10) = Inr p0" by (simp add: adaptive_init_def)
  from p0 adaptive_depth_bounded [OF p0 refl, THEN conjunct2, THEN conjunct1] show ?thesis by blast
qed

text \<open>In every state of the agent policy its precision and recall are proportions, the wasted bytes and the
  saved latency are not negative, and used and wasted objects are objects it predicted.\<close>

theorem agent_prefetch_rates:
  assumes "agent_prefetch_reachable p"
  shows "0 \<le> gs_prefetch_precision (agent_prefetch_stats p) \<and> gs_prefetch_precision (agent_prefetch_stats p) \<le> 1
    \<and> 0 \<le> gs_prefetch_recall (agent_prefetch_stats p) \<and> gs_prefetch_recall (agent_prefetch_stats p) \<le> 1
    \<and> 0 \<le> gs_wasted_prefetch_bytes (agent_prefetch_stats p) \<and> 0 \<le> gs_latency_saved_ms (agent_prefetch_stats p)
    \<and> set (gn_used_prefetch_ids (agent_prefetch_snapshot p)) \<subseteq> set (gn_predicted_object_ids (agent_prefetch_snapshot p))
    \<and> set (gn_wasted_prefetch_ids (agent_prefetch_snapshot p)) \<subseteq> set (gn_predicted_object_ids (agent_prefetch_snapshot p))"
proof -
  have wf: "agent_prefetch_wf p" by (rule agent_reachable_wf [OF assms])
  then have "finite (gp_used_prefetch_ids p)" "finite (gp_wasted_prefetch_ids p)" "finite (gp_predicted_object_ids p)"
    by (auto simp: agent_prefetch_wf_def intro: finite_subset)
  then show ?thesis
    using wf agent_rates_unit [OF wf]
    by (simp add: agent_prefetch_wf_def agent_prefetch_stats_def agent_prefetch_snapshot_def)
qed

definition sample_agent :: AgentPrefetchPolicy where
  "sample_agent = snd (agent_predict sample_graph (\<lparr>rc_prompt = [], rc_session_id = [], rc_model_name = [],
        rc_prompt_embedding = None\<rparr> :: unit RequestContext) ()
     (snd (register_step_objects ''s2'' \<lparr>ao_kv_block_ids = [''k'', ''k''], ao_rag_object_ids = [''r''],
        ao_semantic_entry_ids = [], ao_tool_artifact_ids = [], ao_plan_cache_entry_ids = []\<rparr>
     (projr (agent_prefetch_init (Some ''s1'') 2 3)))))"

lemma sample_agent_reachable: "agent_prefetch_reachable sample_agent"
proof -
  obtain p where p: "agent_prefetch_init (Some ''s1'') 2 3 = Inr p" by (simp add: agent_prefetch_init_def)
  then have "agent_prefetch_reachable p" by (rule agent_prefetch_reachable.intros)
  with p show ?thesis unfolding sample_agent_def
    by (metis agent_prefetch_reachable.intros(2) agent_prefetch_step.intros(2,3) prod.collapse sum.sel(2))
qed

lemma agent_prefetch_rates_witness:
  "gs_agent_prefetch_count (agent_prefetch_stats sample_agent) = 2
   \<and> gs_prefetch_precision (agent_prefetch_stats sample_agent) \<le> 1"
proof -
  have "gs_agent_prefetch_count (agent_prefetch_stats sample_agent) = 2" by code_simp
  with agent_prefetch_rates [OF sample_agent_reachable] show ?thesis by simp
qed

text \<open>C24: On any graph that can be built, agent prefetch never raises.  Without a current step, or with one the graph does not know, it
  decides nothing.  Otherwise its decisions are exactly the best candidates of the predicted next steps: every object that is registered for
  one of them, of any of the five types, once for each type at the weight of that type over the rank of the first step that names it; by falling
  priority, all of them when they are no more than the configured number and that many otherwise, none left out better than one taken.
  They are counted and remembered as predicted, and nothing else of the policy changes.\<close>

theorem agent_prefetch_exact:
  assumes "graph_reachable g" and "agent_prefetch_reachable p"
  shows "(gp_current_step_id p = None \<or> (\<exists>step. gp_current_step_id p = Some step \<and> get_step step g = None) \<longrightarrow>
      agent_predict g req md p = (Inr [], p\<lparr>gp_requests := gp_requests p + 1\<rparr>))
    \<and> (\<forall>step n. gp_current_step_id p = Some step \<and> get_step step g = Some n \<longrightarrow>
       (\<exists>ds steps. predict_next_steps (sn_workflow_id n) step (gp_next_step_top_k p) g = Inr steps
        \<and> agent_predict g req md p = (Inr ds, p\<lparr>gp_requests := gp_requests p + 1,
            gp_agent_prefetch_count := gp_agent_prefetch_count p + length ds,
            gp_predicted_object_ids := gp_predicted_object_ids p \<union> pd_object_id ` set ds\<rparr>)
        \<and> falling ds \<and> distinct ds \<and> set ds \<subseteq> candidates (gp_step_objects p) steps
        \<and> int (length ds) = min (gp_max_decisions p) (int (card (candidates (gp_step_objects p) steps)))
        \<and> (\<forall>d \<in> set ds. \<forall>e \<in> candidates (gp_step_objects p) steps. e \<notin> set ds \<longrightarrow> pd_priority e \<le> pd_priority d)))"
proof (intro conjI impI allI)
  assume "gp_current_step_id p = None \<or> (\<exists>step. gp_current_step_id p = Some step \<and> get_step step g = None)"
  then show "agent_predict g req md p = (Inr [], p\<lparr>gp_requests := gp_requests p + 1\<rparr>)"
    by (auto simp: agent_predict_def Let_def)
next
  fix step n
  assume at: "gp_current_step_id p = Some step \<and> get_step step g = Some n"
  have pos: "0 < gp_next_step_top_k p" "0 < gp_max_decisions p"
    using agent_reachable_wf [OF assms(2)] by (simp_all add: agent_prefetch_wf_def)
  from predict_good [OF reachable_graph_wf [OF assms(1)] at [THEN conjunct2, unfolded get_step_def] pos(1)]
  obtain steps where steps: "predict_next_steps (sn_workflow_id n) step (gp_next_step_top_k p) g = Inr steps" by blast
  let ?p1 = "p\<lparr>gp_requests := gp_requests p + 1\<rparr>"
  let ?ds = "decisions_for_steps steps ?p1"
  have run: "agent_predict g req md p = (Inr ?ds, p\<lparr>gp_requests := gp_requests p + 1,
      gp_agent_prefetch_count := gp_agent_prefetch_count p + length ?ds,
      gp_predicted_object_ids := gp_predicted_object_ids p \<union> pd_object_id ` set ?ds\<rparr>)"
    using steps at by (simp add: agent_predict_def Let_def)
  have same: "gp_step_objects ?p1 = gp_step_objects p" "gp_max_decisions ?p1 = gp_max_decisions p" by simp_all
  note best = decisions_best [where p = ?p1 and ids = steps, unfolded same]
  have "int (length ?ds) = min (gp_max_decisions p) (int (card (candidates (gp_step_objects p) steps)))"
    using best(4) pos(2) by simp
  then have all: "falling ?ds \<and> distinct ?ds \<and> set ?ds \<subseteq> candidates (gp_step_objects p) steps
      \<and> int (length ?ds) = min (gp_max_decisions p) (int (card (candidates (gp_step_objects p) steps)))
      \<and> (\<forall>d \<in> set ?ds. \<forall>e \<in> candidates (gp_step_objects p) steps. e \<notin> set ?ds \<longrightarrow> pd_priority e \<le> pd_priority d)"
    using best(1,2,5) agent_decisions_shape [of steps ?p1, THEN conjunct1] by (intro conjI ballI impI)
  show "\<exists>ds steps. predict_next_steps (sn_workflow_id n) step (gp_next_step_top_k p) g = Inr steps
        \<and> agent_predict g req md p = (Inr ds, p\<lparr>gp_requests := gp_requests p + 1,
            gp_agent_prefetch_count := gp_agent_prefetch_count p + length ds,
            gp_predicted_object_ids := gp_predicted_object_ids p \<union> pd_object_id ` set ds\<rparr>)
        \<and> falling ds \<and> distinct ds \<and> set ds \<subseteq> candidates (gp_step_objects p) steps
        \<and> int (length ds) = min (gp_max_decisions p) (int (card (candidates (gp_step_objects p) steps)))
        \<and> (\<forall>d \<in> set ds. \<forall>e \<in> candidates (gp_step_objects p) steps. e \<notin> set ds \<longrightarrow> pd_priority e \<le> pd_priority d)"
    by (rule exI [of _ ?ds], rule exI [of _ steps]) (rule conjI [OF steps conjI [OF run all]])
qed

text \<open>One step lies ahead, with a block and a chunk: both are decided, and there is no other candidate.\<close>

lemma agent_prefetch_exact_witness:
  "\<exists>p' steps. agent_predict sample_graph sample_request () sample_agent =
       (Inr [\<lparr>pd_object_id = ''k'', pd_priority = 1, pd_prefetch_type = ''kv_cache''\<rparr>,
             \<lparr>pd_object_id = ''r'', pd_priority = 17 / 20, pd_prefetch_type = ''rag''\<rparr>], p')
     \<and> card (candidates (gp_step_objects sample_agent) steps) = 2"
proof -
  let ?ds = "[\<lparr>pd_object_id = ''k'', pd_priority = 1 :: rat, pd_prefetch_type = ''kv_cache''\<rparr>,
      \<lparr>pd_object_id = ''r'', pd_priority = 17 / 20, pd_prefetch_type = ''rag''\<rparr>]"
  have step: "gp_current_step_id sample_agent = Some ''s1''" and m: "gp_max_decisions sample_agent = 3" by code_simp+
  obtain n where n: "get_step ''s1'' sample_graph = Some n"
    by (simp add: sample_graph_def get_step_def add_step_def add_workflow_def link_parent_def
        graph_init_def dmem_def dict_simps Let_def)
  have run: "fst (agent_predict sample_graph sample_request () sample_agent) = Inr ?ds" by code_simp
  from agent_prefetch_exact [OF sample_graph_reachable sample_agent_reachable, THEN conjunct2, rule_format, OF conjI [OF step n],
      of sample_request "()"] obtain ds steps p' where ds: "agent_predict sample_graph sample_request () sample_agent = (Inr ds, p')"
    and len: "int (length ds) = min 3 (int (card (candidates (gp_step_objects sample_agent) steps)))"
    unfolding m by blast
  from ds run have "ds = ?ds" by simp
  with ds len show ?thesis by (intro exI [of _ p'] exI [of _ steps]) auto
qed

end
