(* ===== verification/LatencyEstimator.thy ===== *)
theory LatencyEstimator
  imports Types "HOL-Library.Product_Lexorder"
begin

text \<open>
  The predictor of tool-call latencies of \<^verbatim>\<open>src/l3store/policies/agent/tool_latency_estimator.py\<close>:
  per tool, and per tool and class of arguments, the last samples and running statistics.  The
  abstract view is the history of latencies of a key; \<open>estimator_refines\<close> says that the stored
  statistics are exactly the summary of that history, from which the bounds of the prediction
  and the behaviour of snapshots follow.
\<close>

section \<open>Statistics\<close>

type_synonym ToolLatencyKey = "string \<times> string option"

record ToolLatencyStats =
  tl_tool_name :: string
  tl_tool_args_class :: "string option"
  tl_count :: nat
  tl_mean_latency_ms :: rat
  tl_ema_latency_ms :: rat
  tl_last_latency_ms :: rat
  tl_min_latency_ms :: rat
  tl_max_latency_ms :: rat
  tl_p50_latency_ms :: rat
  tl_p95_latency_ms :: rat

definition percentile :: "rat list \<Rightarrow> rat \<Rightarrow> rat" where
  "percentile values p =
     (if values = [] then 0
      else let ordered = sort values
           in if length ordered = 1 then ordered ! 0
              else let rank = p / 100 * of_nat (length ordered - 1);
                       lower = nat \<lfloor>rank\<rfloor>;
                       upper = min (lower + 1) (length ordered - 1);
                       weight = rank - of_nat lower
                   in ordered ! lower * (1 - weight) + ordered ! upper * weight)"

record ToolLatencyEstimator =
  te_default_latency_ms :: rat
  te_ema_alpha :: rat
  te_max_samples_per_profile :: int
  te_stats :: "(ToolLatencyKey, ToolLatencyStats) dict"
  te_samples :: "(ToolLatencyKey, rat list) dict"

definition estimator_init :: "rat \<Rightarrow> rat \<Rightarrow> int \<Rightarrow> ToolLatencyEstimator res" where
  "estimator_init default_latency_ms ema_alpha max_samples_per_profile =
     (if default_latency_ms < 0 then Inl (ValueError ''default_latency_ms must be non-negative'')
      else if \<not> (0 < ema_alpha \<and> ema_alpha \<le> 1) then Inl (ValueError ''ema_alpha must be in (0, 1]'')
      else if max_samples_per_profile \<le> 0
      then Inl (ValueError ''max_samples_per_profile must be positive'')
      else Inr \<lparr>te_default_latency_ms = default_latency_ms, te_ema_alpha = ema_alpha,
             te_max_samples_per_profile = max_samples_per_profile, te_stats = [], te_samples = []\<rparr>)"

definition normalize_name :: "string \<Rightarrow> string \<Rightarrow> string res" where
  "normalize_name v field_name =
     (if strip v = [] then Inl (ValueError (field_name @ '' must be non-empty'')) else Inr (strip v))"

definition normalize_optional_name :: "string option \<Rightarrow> string option" where
  "normalize_optional_name v =
     (case v of None \<Rightarrow> None | Some s \<Rightarrow> if strip s = [] then None else Some (strip s))"

text \<open>\<^verbatim>\<open>del samples[: len(samples) - n]\<close> when there are more than \<open>n\<close>.\<close>

definition keep_last :: "nat \<Rightarrow> 'x list \<Rightarrow> 'x list" where
  "keep_last n xs = (if n < length xs then drop (length xs - n) xs else xs)"

definition record_key ::
    "ToolLatencyKey \<Rightarrow> rat \<Rightarrow> ToolLatencyEstimator \<Rightarrow> ToolLatencyEstimator" where
  "record_key key latency_ms e =
     (let samples = keep_last (nat (te_max_samples_per_profile e)) (dlist (te_samples e) key @ [latency_ms]);
          p50 = percentile samples 50;
          p95 = percentile samples 95;
          updated = (case dget (te_stats e) key of
             None \<Rightarrow> \<lparr>tl_tool_name = fst key, tl_tool_args_class = snd key, tl_count = 1,
               tl_mean_latency_ms = latency_ms, tl_ema_latency_ms = latency_ms,
               tl_last_latency_ms = latency_ms, tl_min_latency_ms = latency_ms,
               tl_max_latency_ms = latency_ms, tl_p50_latency_ms = p50, tl_p95_latency_ms = p95\<rparr>
           | Some c \<Rightarrow> \<lparr>tl_tool_name = fst key, tl_tool_args_class = snd key,
               tl_count = tl_count c + 1,
               tl_mean_latency_ms =
                 (tl_mean_latency_ms c * of_nat (tl_count c) + latency_ms) / of_nat (tl_count c + 1),
               tl_ema_latency_ms =
                 te_ema_alpha e * latency_ms + (1 - te_ema_alpha e) * tl_ema_latency_ms c,
               tl_last_latency_ms = latency_ms,
               tl_min_latency_ms = min (tl_min_latency_ms c) latency_ms,
               tl_max_latency_ms = max (tl_max_latency_ms c) latency_ms,
               tl_p50_latency_ms = p50, tl_p95_latency_ms = p95\<rparr>)
      in e\<lparr>te_samples := dset (te_samples e) key samples, te_stats := dset (te_stats e) key updated\<rparr>)"

definition record_latency ::
    "string \<Rightarrow> rat \<Rightarrow> string option \<Rightarrow> ToolLatencyEstimator \<Rightarrow> unit res \<times> ToolLatencyEstimator" where
  "record_latency tool_name latency_ms tool_args_class e =
     (case normalize_name tool_name ''tool_name'' of
        Inl err \<Rightarrow> (Inl err, e)
      | Inr name \<Rightarrow>
          (if latency_ms < 0 then (Inl (ValueError ''latency_ms must be non-negative''), e)
           else let e1 = record_key (name, None) latency_ms e
                in (Inr (), case normalize_optional_name tool_args_class of
                      None \<Rightarrow> e1
                    | Some c \<Rightarrow> record_key (name, Some c) latency_ms e1)))"

definition record_interval ::
    "string \<Rightarrow> rat \<Rightarrow> rat \<Rightarrow> string option \<Rightarrow> ToolLatencyEstimator \<Rightarrow> unit res \<times> ToolLatencyEstimator" where
  "record_interval tool_name started_at ended_at tool_args_class e =
     (if ended_at < started_at
      then (Inl (ValueError ''ended_at must be greater than or equal to started_at''), e)
      else record_latency tool_name ((ended_at - started_at) * 1000) tool_args_class e)"

definition predict_latency :: "string \<Rightarrow> string option \<Rightarrow> ToolLatencyEstimator \<Rightarrow> rat res" where
  "predict_latency tool_name tool_args_class e =
     (case normalize_name tool_name ''tool_name'' of
        Inl err \<Rightarrow> Inl err
      | Inr name \<Rightarrow>
          (let cls = normalize_optional_name tool_args_class;
               specific = (if cls = None then None else dget (te_stats e) (name, cls))
           in Inr (case specific of
                Some s \<Rightarrow> tl_ema_latency_ms s
              | None \<Rightarrow> (case dget (te_stats e) (name, None) of
                   Some s \<Rightarrow> tl_ema_latency_ms s
                 | None \<Rightarrow> te_default_latency_ms e))))"

definition get_stats :: "string \<Rightarrow> string option \<Rightarrow> ToolLatencyEstimator \<Rightarrow> ToolLatencyStats option res" where
  "get_stats tool_name tool_args_class e =
     (case normalize_name tool_name ''tool_name'' of
        Inl err \<Rightarrow> Inl err
      | Inr name \<Rightarrow> Inr (dget (te_stats e) (name, normalize_optional_name tool_args_class)))"

text \<open>The order of reports: tool, aggregate before classes, class.\<close>

definition report_key :: "ToolLatencyKey \<Rightarrow> string \<times> bool \<times> string" where
  "report_key k = (fst k, snd k \<noteq> None, case snd k of None \<Rightarrow> [] | Some c \<Rightarrow> c)"

definition all_stats :: "ToolLatencyEstimator \<Rightarrow> ToolLatencyStats list" where
  "all_stats e = map snd (sort_key (\<lambda>(k, _). report_key k) (te_stats e))"

definition estimator_reset :: "ToolLatencyEstimator \<Rightarrow> ToolLatencyEstimator" where
  "estimator_reset e = e\<lparr>te_stats := [], te_samples := []\<rparr>"

section \<open>Snapshots\<close>

record ProfileSnapshot =
  ps_tool_name :: string
  ps_tool_args_class :: "string option"
  ps_samples_ms :: "rat list"

text \<open>A snapshot as \<open>from_snapshot\<close> reads it: a missing parameter means its default.\<close>

record EstimatorSnapshot =
  es_default_latency_ms :: "rat option"
  es_ema_alpha :: "rat option"
  es_max_samples_per_profile :: "int option"
  es_profiles :: "ProfileSnapshot list"

definition snapshot :: "ToolLatencyEstimator \<Rightarrow> EstimatorSnapshot" where
  "snapshot e = \<lparr>es_default_latency_ms = Some (te_default_latency_ms e),
     es_ema_alpha = Some (te_ema_alpha e),
     es_max_samples_per_profile = Some (te_max_samples_per_profile e),
     es_profiles = map (\<lambda>(k, xs). \<lparr>ps_tool_name = fst k, ps_tool_args_class = snd k,
                             ps_samples_ms = xs\<rparr>)
                     (sort_key (\<lambda>(k, _). report_key k) (te_samples e))\<rparr>"

fun restore_samples ::
    "string \<Rightarrow> string option \<Rightarrow> rat list \<Rightarrow> ToolLatencyEstimator \<Rightarrow> ToolLatencyEstimator res" where
  "restore_samples tool cls [] e = Inr e"
| "restore_samples tool cls (x # xs) e =
     (case normalize_name tool ''tool_name'' of
        Inl err \<Rightarrow> Inl err
      | Inr name \<Rightarrow> restore_samples tool cls xs (record_key (name, normalize_optional_name cls) x e))"

fun restore_profiles :: "ProfileSnapshot list \<Rightarrow> ToolLatencyEstimator \<Rightarrow> ToolLatencyEstimator res" where
  "restore_profiles [] e = Inr e"
| "restore_profiles (p # ps) e =
     (case restore_samples (ps_tool_name p) (ps_tool_args_class p) (ps_samples_ms p) e of
        Inl err \<Rightarrow> Inl err
      | Inr e' \<Rightarrow> restore_profiles ps e')"

definition from_snapshot :: "EstimatorSnapshot \<Rightarrow> ToolLatencyEstimator res" where
  "from_snapshot s =
     (case estimator_init
             (case es_default_latency_ms s of None \<Rightarrow> 1000 | Some x \<Rightarrow> x)
             (case es_ema_alpha s of None \<Rightarrow> 3 / 10 | Some x \<Rightarrow> x)
             (case es_max_samples_per_profile s of None \<Rightarrow> 512 | Some x \<Rightarrow> x) of
        Inl err \<Rightarrow> Inl err
      | Inr e \<Rightarrow> restore_profiles (es_profiles s) e)"

section \<open>Classes of arguments\<close>

text \<open>
  \<^verbatim>\<open>str(value)\<close> of a JSON value: what \<^verbatim>\<open>repr\<close> prints inside containers, the string itself at the
  top.  The digits of a float are an argument.
\<close>

definition printable :: "char \<Rightarrow> bool" where
  "printable c \<longleftrightarrow> (let n = (of_char c :: nat) in (32 \<le> n \<and> n \<le> 126) \<or> (161 \<le> n \<and> n \<noteq> 173))"

definition repr_char :: "char \<Rightarrow> char \<Rightarrow> string" where
  "repr_char quote c =
     (let n = (of_char c :: nat)
      in if c = quote \<or> n = 92 then [char_of (92 :: nat), c]
         else if n = 9 then [char_of (92 :: nat), CHR ''t'']
         else if n = 10 then [char_of (92 :: nat), CHR ''n'']
         else if n = 13 then [char_of (92 :: nat), CHR ''r'']
         else if printable c then [c]
         else [char_of (92 :: nat), CHR ''x'', hex_digit (n div 16), hex_digit (n mod 16)])"

definition repr_str :: "string \<Rightarrow> string" where
  "repr_str s =
     (let quote = (if char_of (39 :: nat) \<in> set s \<and> char_of (34 :: nat) \<notin> set s
                   then char_of (34 :: nat) else char_of (39 :: nat))
      in quote # concat (map (repr_char quote) s) @ [quote])"

fun repr_json :: "(rat \<Rightarrow> string) \<Rightarrow> json \<Rightarrow> string" where
  "repr_json fr JNull = ''None''"
| "repr_json fr (JBool b) = (if b then ''True'' else ''False'')"
| "repr_json fr (JInt i) = int_str i"
| "repr_json fr (JFloat q) = fr q"
| "repr_json fr (JStr s) = repr_str s"
| "repr_json fr (JList xs) = ''['' @ join_with '', '' (map (repr_json fr) xs) @ '']''"
| "repr_json fr (JDict d) =
     ''{'' @ join_with '', '' (map (\<lambda>(k, v). repr_str k @ '': '' @ repr_json fr v) d) @ ''}''"

definition py_str :: "(rat \<Rightarrow> string) \<Rightarrow> json \<Rightarrow> string" where
  "py_str fr v = (case v of JStr s \<Rightarrow> s | _ \<Rightarrow> repr_json fr v)"

definition size_bucket :: "(rat \<Rightarrow> string) \<Rightarrow> json \<Rightarrow> string" where
  "size_bucket fr v =
     (let n = length (py_str fr v)
      in if n \<le> 64 then ''small'' else if n \<le> 512 then ''medium'' else ''large'')"

definition type_name :: "json \<Rightarrow> string" where
  "type_name v = (case v of
     JNull \<Rightarrow> ''NoneType'' | JBool _ \<Rightarrow> ''bool'' | JInt _ \<Rightarrow> ''int'' | JFloat _ \<Rightarrow> ''float''
   | JStr _ \<Rightarrow> ''str'' | JList _ \<Rightarrow> ''list'' | JDict _ \<Rightarrow> ''dict'')"

definition classify_args :: "(rat \<Rightarrow> string) \<Rightarrow> json \<Rightarrow> string option" where
  "classify_args fr v =
     (case v of
        JNull \<Rightarrow> None
      | JDict d \<Rightarrow> Some (''dict:'' @ nat_str (length d) @ '':'' @ join_with '','' (sort (dkeys d))
                        @ '':'' @ size_bucket fr v)
      | JList xs \<Rightarrow> Some (''list:'' @ nat_str (length xs) @ '':'' @ size_bucket fr v)
      | JStr s \<Rightarrow> Some (''str:'' @ size_bucket fr v)
      | _ \<Rightarrow> Some (type_name v))"

section \<open>Percentiles\<close>

text \<open>Linear interpolation in a sorted list at a real position.\<close>

definition interpolate :: "rat list \<Rightarrow> rat \<Rightarrow> rat" where
  "interpolate ys r =
     ys ! nat \<lfloor>r\<rfloor> * (1 - (r - of_nat (nat \<lfloor>r\<rfloor>)))
     + ys ! (min (nat \<lfloor>r\<rfloor> + 1) (length ys - 1)) * (r - of_nat (nat \<lfloor>r\<rfloor>))"

lemma percentile_interpolate:
  "values \<noteq> [] \<Longrightarrow> percentile values p = interpolate (sort values) (p / 100 * of_nat (length values - 1))"
proof (cases "length values = 1")
  case True
  then obtain v where "values = [v]" by (metis One_nat_def length_0_conv length_Suc_conv)
  then show ?thesis by (simp add: percentile_def interpolate_def)
next
  case False
  assume "values \<noteq> []"
  with False show ?thesis by (simp add: percentile_def interpolate_def Let_def)
qed

lemma floor_parts:
  fixes r :: rat
  assumes "0 \<le> r" and "r \<le> of_nat n"
  shows "nat \<lfloor>r\<rfloor> \<le> n" and "0 \<le> r - of_nat (nat \<lfloor>r\<rfloor>)" and "r - of_nat (nat \<lfloor>r\<rfloor>) < 1"
proof -
  have f: "0 \<le> \<lfloor>r\<rfloor>" using assms(1) by simp
  then have "of_nat (nat \<lfloor>r\<rfloor>) = (of_int \<lfloor>r\<rfloor> :: rat)" by simp
  then show "0 \<le> r - of_nat (nat \<lfloor>r\<rfloor>)" "r - of_nat (nat \<lfloor>r\<rfloor>) < 1" by linarith+
  have "\<lfloor>r\<rfloor> \<le> int n" using assms(2) by (metis floor_mono floor_of_nat)
  with f show "nat \<lfloor>r\<rfloor> \<le> n" by simp
qed

lemma convex_bounds:
  fixes a b w :: rat
  assumes "lo \<le> a" "a \<le> hi" "lo \<le> b" "b \<le> hi" "0 \<le> w" "w \<le> 1"
  shows "lo \<le> a * (1 - w) + b * w \<and> a * (1 - w) + b * w \<le> hi"
proof -
  have "lo * (1 - w) \<le> a * (1 - w)" "lo * w \<le> b * w" "a * (1 - w) \<le> hi * (1 - w)" "b * w \<le> hi * w"
    using assms by (simp_all add: mult_right_mono)
  then show ?thesis by (simp add: algebra_simps)
qed

lemma interpolate_between:
  assumes "sorted ys" and "0 \<le> r" and "r \<le> of_nat (length ys - 1)" and "ys \<noteq> []"
  shows "ys ! nat \<lfloor>r\<rfloor> \<le> interpolate ys r"
    and "interpolate ys r \<le> ys ! (min (nat \<lfloor>r\<rfloor> + 1) (length ys - 1))"
proof -
  note fp = floor_parts [OF assms(2,3)]
  have "length ys - 1 < length ys" using assms(4) by simp
  then have "min (nat \<lfloor>r\<rfloor> + 1) (length ys - 1) < length ys" by linarith
  then have "ys ! nat \<lfloor>r\<rfloor> \<le> ys ! (min (nat \<lfloor>r\<rfloor> + 1) (length ys - 1))"
    using assms(1) fp(1) by (intro sorted_nth_mono) simp_all
  then show "ys ! nat \<lfloor>r\<rfloor> \<le> interpolate ys r"
    and "interpolate ys r \<le> ys ! (min (nat \<lfloor>r\<rfloor> + 1) (length ys - 1))"
    unfolding interpolate_def using convex_bounds fp(2,3) by (metis less_imp_le order_refl)+
qed

lemma interpolate_mono:
  assumes ys: "sorted ys" "ys \<noteq> []" and r: "0 \<le> r" "r \<le> q" "q \<le> of_nat (length ys - 1)"
  shows "interpolate ys r \<le> interpolate ys q"
proof (cases "nat \<lfloor>r\<rfloor> = nat \<lfloor>q\<rfloor>")
  case True
  let ?a = "ys ! nat \<lfloor>r\<rfloor>" and ?b = "ys ! (min (nat \<lfloor>r\<rfloor> + 1) (length ys - 1))"
  have "r \<le> of_nat (length ys - 1)" using r by simp
  from interpolate_between [OF ys(1) r(1) this ys(2)] have "?a \<le> ?b" by linarith
  then have "0 \<le> (?b - ?a) * (q - r)" using r(2) by simp
  moreover have "interpolate ys q - interpolate ys r = (?b - ?a) * (q - r)"
    unfolding interpolate_def True by (simp add: algebra_simps)
  ultimately show ?thesis by linarith
next
  case False
  have rn: "r \<le> of_nat (length ys - 1)" and q0: "0 \<le> q" using r by simp_all
  have "nat \<lfloor>r\<rfloor> \<le> nat \<lfloor>q\<rfloor>" using r(2) by (intro nat_mono floor_mono)
  with False have "nat \<lfloor>r\<rfloor> < nat \<lfloor>q\<rfloor>" by (rule le_neq_implies_less [rotated])
  moreover have "nat \<lfloor>q\<rfloor> \<le> length ys - 1" using floor_parts [OF q0 r(3)] by simp
  moreover have "length ys - 1 < length ys" using ys(2) by simp
  ultimately have "min (nat \<lfloor>r\<rfloor> + 1) (length ys - 1) \<le> nat \<lfloor>q\<rfloor>" "nat \<lfloor>q\<rfloor> < length ys"
    by linarith+
  then have "ys ! (min (nat \<lfloor>r\<rfloor> + 1) (length ys - 1)) \<le> ys ! nat \<lfloor>q\<rfloor>"
    using ys(1) by (intro sorted_nth_mono)
  with interpolate_between(2) [OF ys(1) r(1) rn ys(2)] interpolate_between(1) [OF ys(1) q0 r(3) ys(2)]
  show ?thesis by linarith
qed

lemma percentile_rank:
  assumes "0 \<le> p" and "p \<le> 100"
  shows "0 \<le> p / 100 * of_nat n" and "p / 100 * of_nat n \<le> (of_nat n :: rat)"
proof -
  show "0 \<le> p / 100 * of_nat n" using assms(1) by simp
  have "p / 100 \<le> 1" using assms(2) by simp
  then show "p / 100 * of_nat n \<le> (of_nat n :: rat)"
    using mult_right_mono [of "p / 100" 1 "of_nat n"] by simp
qed

lemma percentile_bounds:
  assumes "values \<noteq> []" and "0 \<le> p" and "p \<le> 100"
  shows "Min (set values) \<le> percentile values p" and "percentile values p \<le> Max (set values)"
proof -
  let ?ys = "sort values" and ?r = "p / 100 * of_nat (length values - 1)"
  have ne: "?ys \<noteq> []" using assms(1) by (metis length_0_conv length_sort)
  note rank = percentile_rank [OF assms(2,3), of "length values - 1"]
  have r: "?r \<le> of_nat (length ?ys - 1)" using rank(2) by simp
  note ib = interpolate_between [OF sorted_sort rank(1) r ne]
  have last: "length ?ys - 1 < length ?ys" using assms(1) by simp
  with floor_parts(1) [OF rank(1) r] have "nat \<lfloor>?r\<rfloor> < length ?ys" by (rule le_less_trans)
  then have lo: "?ys ! nat \<lfloor>?r\<rfloor> \<in> set values" using nth_mem by (metis set_sort)
  from last have "min (nat \<lfloor>?r\<rfloor> + 1) (length ?ys - 1) < length ?ys" by (rule min.strict_coboundedI2)
  then have hi: "?ys ! (min (nat \<lfloor>?r\<rfloor> + 1) (length ?ys - 1)) \<in> set values" using nth_mem by (metis set_sort)
  from lo have "Min (set values) \<le> ?ys ! nat \<lfloor>?r\<rfloor>" by simp
  also note ib(1)
  finally show "Min (set values) \<le> percentile values p"
    unfolding percentile_interpolate [OF assms(1)] .
  note ib(2)
  also from hi have "?ys ! (min (nat \<lfloor>?r\<rfloor> + 1) (length ?ys - 1)) \<le> Max (set values)" by simp
  finally show "percentile values p \<le> Max (set values)"
    unfolding percentile_interpolate [OF assms(1)] .
qed

lemma percentile_mono:
  assumes "0 \<le> p" and "p \<le> q" and "q \<le> 100"
  shows "percentile values p \<le> percentile values q"
proof (cases "values = []")
  case True
  then show ?thesis by (simp add: percentile_def)
next
  case False
  then have "sort values \<noteq> []" by (metis length_0_conv length_sort)
  moreover have "p / 100 * of_nat (length values - 1) \<le> q / 100 * (of_nat (length values - 1) :: rat)"
    using assms by (intro mult_right_mono) simp_all
  ultimately show ?thesis
    unfolding percentile_interpolate [OF False]
    using percentile_rank [of p] percentile_rank [of q] assms
    by (intro interpolate_mono) simp_all
qed

section \<open>The statistics summarise a history\<close>

lemma keep_last_alt: "keep_last n xs = drop (length xs - n) xs"
  by (simp add: keep_last_def)

lemma keep_last_short [simp]: "length xs \<le> n \<Longrightarrow> keep_last n xs = xs"
  by (simp add: keep_last_def)

lemma length_keep_last [simp]: "length (keep_last n xs) = min n (length xs)"
  by (simp add: keep_last_alt)

lemma keep_last_snoc: "keep_last n (keep_last n xs @ [x]) = keep_last n (xs @ [x])"
proof (cases "n < length xs")
  case True
  then have "length (keep_last n xs) = n" by simp
  with True show ?thesis by (simp add: keep_last_alt Suc_diff_le)
qed simp

lemma keep_last_nonempty: "0 < n \<Longrightarrow> xs \<noteq> [] \<Longrightarrow> keep_last n xs \<noteq> []"
  by (metis length_0_conv length_keep_last min_def not_gr_zero)

lemma set_keep_last: "set (keep_last n xs) \<subseteq> set xs"
  by (simp add: keep_last_alt set_drop_subset)

definition mean :: "rat list \<Rightarrow> rat" where
  "mean xs = sum_list xs / of_nat (length xs)"

definition ema :: "rat \<Rightarrow> rat list \<Rightarrow> rat" where
  "ema a xs = foldl (\<lambda>m y. a * y + (1 - a) * m) (hd xs) (tl xs)"

definition summary :: "rat \<Rightarrow> nat \<Rightarrow> ToolLatencyKey \<Rightarrow> rat list \<Rightarrow> ToolLatencyStats option" where
  "summary a n k xs =
     (if xs = [] then None
      else Some \<lparr>tl_tool_name = fst k, tl_tool_args_class = snd k, tl_count = length xs,
        tl_mean_latency_ms = mean xs, tl_ema_latency_ms = ema a xs, tl_last_latency_ms = last xs,
        tl_min_latency_ms = Min (set xs), tl_max_latency_ms = Max (set xs),
        tl_p50_latency_ms = percentile (keep_last n xs) 50,
        tl_p95_latency_ms = percentile (keep_last n xs) 95\<rparr>)"

definition tracks :: "rat \<Rightarrow> nat \<Rightarrow> (ToolLatencyKey \<Rightarrow> rat list) \<Rightarrow> ToolLatencyEstimator \<Rightarrow> bool" where
  "tracks a n h e \<longleftrightarrow>
     te_ema_alpha e = a \<and> te_max_samples_per_profile e = int n \<and> 0 < n \<and>
     (\<forall>k. dget (te_stats e) k = summary a n k (h k)) \<and>
     (\<forall>k. dget (te_samples e) k = (if h k = [] then None else Some (keep_last n (h k)))) \<and>
     dwf (te_samples e)"

lemma ema_snoc: "xs \<noteq> [] \<Longrightarrow> ema a (xs @ [x]) = a * x + (1 - a) * ema a xs"
  by (cases xs) (simp_all add: ema_def)

lemma mean_snoc: "xs \<noteq> [] \<Longrightarrow> mean (xs @ [x]) = (mean xs * of_nat (length xs) + x) / of_nat (length xs + 1)"
  by (simp add: mean_def)

lemma tracksD:
  assumes "tracks a n h e"
  shows "te_ema_alpha e = a" "te_max_samples_per_profile e = int n" "0 < n" "dwf (te_samples e)"
    and "dget (te_stats e) k = summary a n k (h k)"
    and "dget (te_samples e) k = (if h k = [] then None else Some (keep_last n (h k)))"
  using assms unfolding tracks_def by blast+

lemma tracksI:
  assumes "te_ema_alpha e = a" "te_max_samples_per_profile e = int n" "0 < n" "dwf (te_samples e)"
    and "\<And>k. dget (te_stats e) k = summary a n k (h k)"
    and "\<And>k. dget (te_samples e) k = (if h k = [] then None else Some (keep_last n (h k)))"
  shows "tracks a n h e"
  using assms unfolding tracks_def by blast

lemma tracks_samples: "tracks a n h e \<Longrightarrow> dlist (te_samples e) k = keep_last n (h k)"
  by (drule tracksD(6) [where k = k]) (simp add: dlist_def del: map_of_eq_Some_iff Some_eq_map_of_iff)

lemma tracks_init:
  "estimator_init d a m = Inr e \<Longrightarrow> tracks a (nat m) (\<lambda>k. []) e \<and> te_default_latency_ms e = d"
  by (auto simp: estimator_init_def tracks_def summary_def split: if_splits)

lemma tracks_reset: "tracks a n h e \<Longrightarrow> tracks a n (\<lambda>k. []) (estimator_reset e)"
  by (simp add: tracks_def estimator_reset_def summary_def)

lemma summary_snoc:
  assumes "xs \<noteq> []"
  shows "summary a n k (xs @ [x]) =
    Some \<lparr>tl_tool_name = fst k, tl_tool_args_class = snd k, tl_count = length xs + 1,
      tl_mean_latency_ms = (mean xs * of_nat (length xs) + x) / of_nat (length xs + 1),
      tl_ema_latency_ms = a * x + (1 - a) * ema a xs, tl_last_latency_ms = x,
      tl_min_latency_ms = min (Min (set xs)) x, tl_max_latency_ms = max (Max (set xs)) x,
      tl_p50_latency_ms = percentile (keep_last n (xs @ [x])) 50,
      tl_p95_latency_ms = percentile (keep_last n (xs @ [x])) 95\<rparr>"
  using assms by (simp add: summary_def mean_snoc ema_snoc min.commute max.commute)

lemma tracks_record_key:
  assumes t: "tracks a n h e"
  shows "tracks a n (h(k := h k @ [x])) (record_key k x e)"
proof -
  note d = tracksD [OF t]
  have samples: "keep_last n (dlist (te_samples e) k @ [x]) = keep_last n (h k @ [x])"
    by (simp add: tracks_samples [OF t] keep_last_snoc)
  have stats: "dget (te_stats (record_key k x e)) k' = summary a n k' ((h(k := h k @ [x])) k')" for k'
  proof (cases "h k = []")
    case True
    then show ?thesis
      using d(3) samples by (simp add: record_key_def Let_def d(1,2,5) dict_simps summary_def mean_def ema_def)
  next
    case False
    then show ?thesis
      using samples
      by (simp add: record_key_def Let_def d(1,2,5) dict_simps summary_snoc)
         (simp add: summary_def d(1))
  qed
  moreover have "dget (te_samples (record_key k x e)) k' =
      (if (h(k := h k @ [x])) k' = [] then None else Some (keep_last n ((h(k := h k @ [x])) k')))" for k'
    using samples by (simp add: record_key_def Let_def d(2,6) dict_simps)
  ultimately show ?thesis
    by (intro tracksI) (simp_all add: d(3), simp_all add: record_key_def Let_def d(1,2,4))
qed

text \<open>
  The history a key stands for: the latencies of the accepted observations of the tool, of all of
  them for the aggregate, of those of the class otherwise.
\<close>

type_synonym observation = "string \<times> rat \<times> string option"

definition concerns :: "ToolLatencyKey \<Rightarrow> observation \<Rightarrow> bool" where
  "concerns k obs \<longleftrightarrow>
     (case obs of (tool, l, cls) \<Rightarrow> strip tool \<noteq> [] \<and> 0 \<le> l \<and> fst k = strip tool \<and>
        (snd k = None \<or> snd k = normalize_optional_name cls))"

definition latencies :: "observation list \<Rightarrow> ToolLatencyKey \<Rightarrow> rat list" where
  "latencies evs k = map (\<lambda>(_, l, _). l) (filter (concerns k) evs)"

definition observe :: "observation \<Rightarrow> ToolLatencyEstimator \<Rightarrow> ToolLatencyEstimator" where
  "observe obs e = (case obs of (tool, l, cls) \<Rightarrow> snd (record_latency tool l cls e))"

lemma latencies_snoc:
  "latencies (evs @ [obs]) k = latencies evs k @ (if concerns k obs then [fst (snd obs)] else [])"
  by (simp add: latencies_def split_beta)

lemma record_key_default [simp]: "te_default_latency_ms (record_key k x e) = te_default_latency_ms e"
  by (simp add: record_key_def Let_def)

lemma observe_default [simp]: "te_default_latency_ms (observe obs e) = te_default_latency_ms e"
  by (cases obs) (simp add: observe_def record_latency_def Let_def split: sum.split option.split)

lemma tracks_observe:
  assumes t: "tracks a n (latencies evs) e"
  shows "tracks a n (latencies (evs @ [obs])) (observe obs e)"
proof -
  obtain tool l cls where obs: "obs = (tool, l, cls)" by (cases obs)
  show ?thesis
  proof (cases "strip tool = [] \<or> l < 0")
    case True
    then have "observe obs e = e" by (auto simp: observe_def record_latency_def normalize_name_def obs)
    moreover have "\<not> concerns k obs" for k using True by (auto simp: concerns_def obs)
    then have "latencies (evs @ [obs]) = latencies evs" by (intro ext) (simp add: latencies_snoc)
    ultimately show ?thesis using t by simp
  next
    case False
    define e1 where "e1 = record_key (strip tool, None) l e"
    have t1: "tracks a n ((latencies evs)((strip tool, None) := latencies evs (strip tool, None) @ [l])) e1"
      unfolding e1_def by (rule tracks_record_key [OF t])
    show ?thesis
    proof (cases "normalize_optional_name cls")
      case None
      with False have "observe obs e = e1"
        by (simp add: observe_def record_latency_def normalize_name_def obs e1_def)
      moreover have "latencies (evs @ [obs]) = (latencies evs)((strip tool, None) := latencies evs (strip tool, None) @ [l])"
        by (rule ext) (use None False in \<open>auto simp: latencies_snoc concerns_def obs\<close>)
      ultimately show ?thesis using t1 by simp
    next
      case (Some c)
      with False have "observe obs e = record_key (strip tool, Some c) l e1"
        by (simp add: observe_def record_latency_def normalize_name_def obs e1_def)
      moreover have "latencies (evs @ [obs]) = ((latencies evs)((strip tool, None) := latencies evs (strip tool, None) @ [l]))
          ((strip tool, Some c) := latencies evs (strip tool, Some c) @ [l])"
        by (rule ext) (use Some False in \<open>auto simp: latencies_snoc concerns_def obs\<close>)
      ultimately show ?thesis using tracks_record_key [OF t1, of "(strip tool, Some c)" l] by simp
    qed
  qed
qed

lemma tracks_run:
  assumes "estimator_init d a m = Inr e"
  shows "tracks a (nat m) (latencies evs) (fold observe evs e)
    \<and> te_default_latency_ms (fold observe evs e) = d"
proof (induction evs rule: rev_induct)
  case Nil
  show ?case
    using tracks_init [OF assms] by (simp add: latencies_def)
next
  case (snoc obs evs)
  then show ?case by (simp add: tracks_observe)
qed

section \<open>Predictions\<close>

lemma ema_bounds:
  assumes "0 < a" and "a \<le> 1" and "xs \<noteq> []"
  shows "Min (set xs) \<le> ema a xs \<and> ema a xs \<le> Max (set xs)"
  using assms(3)
proof (induction xs rule: rev_induct)
  case (snoc x xs)
  show ?case
  proof (cases "xs = []")
    case True
    then show ?thesis by (simp add: ema_def)
  next
    case False
    with snoc.IH have "Min (set xs) \<le> ema a xs" "ema a xs \<le> Max (set xs)" by simp_all
    then have "Min (set (xs @ [x])) \<le> ema a xs" "ema a xs \<le> Max (set (xs @ [x]))"
      using False by (simp_all add: min.coboundedI2 max.coboundedI2)
    moreover have "Min (set (xs @ [x])) \<le> x" "x \<le> Max (set (xs @ [x]))" by simp_all
    ultimately show ?thesis
      using convex_bounds [of "Min (set (xs @ [x]))" "ema a xs" "Max (set (xs @ [x]))" x a] assms(1,2) False
      by (simp add: ema_snoc add.commute mult.commute)
  qed
qed simp

lemma latencies_aggregate: "set (latencies evs (t, c)) \<subseteq> set (latencies evs (t, None))"
proof -
  have "concerns (t, None) obs" if "concerns (t, c) obs" for obs
    using that by (simp add: concerns_def split: prod.splits)
  then show ?thesis unfolding latencies_def set_map set_filter by (intro image_mono) blast
qed

definition observed :: "observation list \<Rightarrow> string \<Rightarrow> string option \<Rightarrow> rat list" where
  "observed evs tool cls =
     (let specific = latencies evs (strip tool, normalize_optional_name cls)
      in if specific = [] then latencies evs (strip tool, None) else specific)"

lemma predict_spec:
  assumes t: "tracks a n (latencies evs) e" and tool: "strip tool \<noteq> []"
  shows "predict_latency tool cls e =
    Inr (if observed evs tool cls = [] then te_default_latency_ms e else ema a (observed evs tool cls))"
proof -
  have d: "dget (te_stats e) k = summary a n k (latencies evs k)" for k by (rule tracksD(5) [OF t])
  show ?thesis
    using tool by (cases "normalize_optional_name cls")
      (simp_all add: predict_latency_def normalize_name_def observed_def d summary_def Let_def)
qed

lemma observed_aggregate: "set (observed evs tool cls) \<subseteq> set (latencies evs (strip tool, None))"
  using latencies_aggregate by (simp add: observed_def Let_def)

lemma observed_empty: "observed evs tool cls = [] \<longleftrightarrow> latencies evs (strip tool, None) = []"
  using latencies_aggregate [of evs "strip tool" "normalize_optional_name cls"]
  by (auto simp: observed_def Let_def)

section \<open>Restoring a snapshot\<close>

definition profile_key :: "ProfileSnapshot \<Rightarrow> ToolLatencyKey" where
  "profile_key p = (strip (ps_tool_name p), normalize_optional_name (ps_tool_args_class p))"

definition restored :: "ProfileSnapshot list \<Rightarrow> ToolLatencyKey \<Rightarrow> rat list" where
  "restored ps k = concat (map ps_samples_ms (filter (\<lambda>p. profile_key p = k) ps))"

lemma tracks_restore_samples:
  assumes "strip tool \<noteq> []" and "tracks a n h e"
  shows "\<exists>e'. restore_samples tool cls xs e = Inr e' \<and>
    tracks a n (h((strip tool, normalize_optional_name cls) := h (strip tool, normalize_optional_name cls) @ xs)) e' \<and>
    te_default_latency_ms e' = te_default_latency_ms e"
  using assms(2)
proof (induction xs arbitrary: h e)
  case (Cons x xs)
  let ?k = "(strip tool, normalize_optional_name cls)"
  from Cons.IH [OF tracks_record_key [OF Cons.prems, of ?k x]] obtain e' where
    e': "restore_samples tool cls xs (record_key ?k x e) = Inr e'"
      "tracks a n ((h(?k := h ?k @ [x]))(?k := (h(?k := h ?k @ [x])) ?k @ xs)) e'"
      "te_default_latency_ms e' = te_default_latency_ms e"
    by (auto simp only: record_key_default)
  have "(h(?k := h ?k @ [x]))(?k := (h(?k := h ?k @ [x])) ?k @ xs) = h(?k := h ?k @ x # xs)"
    by (rule ext) simp
  with e'(2) have tr: "tracks a n (h(?k := h ?k @ x # xs)) e'" by (simp only:)
  have run: "restore_samples tool cls (x # xs) e = Inr e'"
    using e'(1) assms(1) by (simp add: normalize_name_def)
  show ?case by (intro exI [of _ e'] conjI run tr e'(3))
qed simp

lemma tracks_restore_profiles:
  assumes "\<And>p. p \<in> set ps \<Longrightarrow> strip (ps_tool_name p) \<noteq> []" and "tracks a n h e"
  shows "\<exists>e'. restore_profiles ps e = Inr e' \<and> tracks a n (\<lambda>k. h k @ restored ps k) e' \<and>
    te_default_latency_ms e' = te_default_latency_ms e"
  using assms
proof (induction ps arbitrary: h e)
  case Nil
  then show ?case by (simp add: restored_def)
next
  case (Cons p ps)
  let ?k = "profile_key p"
  have "strip (ps_tool_name p) \<noteq> []" using Cons.prems(1) by simp
  from tracks_restore_samples [OF this Cons.prems(2), of "ps_tool_args_class p" "ps_samples_ms p"]
  obtain e1 where e1: "restore_samples (ps_tool_name p) (ps_tool_args_class p) (ps_samples_ms p) e = Inr e1"
      "tracks a n (h(?k := h ?k @ ps_samples_ms p)) e1" "te_default_latency_ms e1 = te_default_latency_ms e"
    by (auto simp: profile_key_def)
  from Cons.IH [OF Cons.prems(1) e1(2)] obtain e2 where e2: "restore_profiles ps e1 = Inr e2"
      "tracks a n (\<lambda>k. (h(?k := h ?k @ ps_samples_ms p)) k @ restored ps k) e2"
      "te_default_latency_ms e2 = te_default_latency_ms e1"
    by auto
  have "(\<lambda>k. (h(?k := h ?k @ ps_samples_ms p)) k @ restored ps k) = (\<lambda>k. h k @ restored (p # ps) k)"
    by (rule ext) (simp add: restored_def)
  with e1 e2 show ?case by simp
qed

lemma concat_values:
  "dwf d \<Longrightarrow> concat (map snd (filter (\<lambda>(k', _). k' = k) d)) = dlist d k"
proof (induction d)
  case Nil
  then show ?case by (simp add: dlist_def)
next
  case (Cons kv d)
  have "filter (\<lambda>(k', _). k' = k) d = []" if "k \<notin> fst ` set d"
    using that by (auto simp: filter_empty_conv rev_image_eqI)
  with Cons show ?case
    by (cases kv) (simp add: dlist_def del: map_of_eq_Some_iff Some_eq_map_of_iff, fastforce)
qed

lemma dwf_sort_key: "dwf d \<Longrightarrow> dwf (sort_key f d)"
  by (simp add: distinct_map)

lemma dget_sort_key: "dwf d \<Longrightarrow> dget (sort_key f d) k = dget d k"
proof -
  assume wf: "dwf d"
  have "dwf (sort_key f d)" by (rule dwf_sort_key [OF wf])
  with wf have "dget (sort_key f d) = dget d" by (subst map_of_inject_set) simp_all
  then show ?thesis by simp
qed

definition normal_key :: "ToolLatencyKey \<Rightarrow> bool" where
  "normal_key k \<longleftrightarrow> fst k \<noteq> [] \<and> strip (fst k) = fst k \<and> normalize_optional_name (snd k) = snd k"

lemma normalize_optional_name_idem [simp]:
  "normalize_optional_name (normalize_optional_name c) = normalize_optional_name c"
  by (simp add: normalize_optional_name_def split: option.split)

lemma latencies_normal: "latencies evs k \<noteq> [] \<Longrightarrow> normal_key k"
  by (auto simp: latencies_def filter_empty_conv concerns_def normal_key_def)
     (simp add: normalize_optional_name_def)

lemma restored_snapshot:
  assumes wf: "dwf (te_samples e)" and normal: "\<And>k. k \<in> set (dkeys (te_samples e)) \<Longrightarrow> normal_key k"
  shows "restored (es_profiles (snapshot e)) k = dlist (te_samples e) k"
proof -
  let ?d = "sort_key (\<lambda>(k, _). report_key k) (te_samples e)"
  let ?f = "\<lambda>(k :: ToolLatencyKey, xs). \<lparr>ps_tool_name = fst k, ps_tool_args_class = snd k, ps_samples_ms = xs\<rparr>"
  have sel: "profile_key (?f kv) = k \<longleftrightarrow> (case kv of (k', _) \<Rightarrow> k' = k)" if "kv \<in> set ?d" for kv
    using normal [of "fst kv"] that by (cases kv) (force simp: profile_key_def normal_key_def prod_eq_iff)
  have "filter (\<lambda>p. profile_key p = k) (map ?f ?d) = map ?f (filter (\<lambda>(k', _). k' = k) ?d)"
    unfolding filter_map o_def by (rule arg_cong [where f = "map ?f"], rule filter_cong) (simp_all add: sel)
  moreover have "map ps_samples_ms (map ?f xs) = map snd xs" for xs
    by (simp add: split_beta comp_def)
  ultimately have "restored (es_profiles (snapshot e)) k = concat (map snd (filter (\<lambda>(k', _). k' = k) ?d))"
    by (simp only: restored_def snapshot_def EstimatorSnapshot.select_convs)
  also have "concat (map snd (filter (\<lambda>(k', _). k' = k) ?d)) = dlist ?d k"
    by (rule concat_values [OF dwf_sort_key [OF wf]])
  also have "dlist ?d k = dlist (te_samples e) k" by (simp only: dlist_def dget_sort_key [OF wf])
  finally show ?thesis .
qed

lemma tracks_snapshot:
  assumes t: "tracks a n h e" and normal: "\<And>k. h k \<noteq> [] \<Longrightarrow> normal_key k"
    and alpha: "0 < a" "a \<le> 1" and default: "0 \<le> te_default_latency_ms e"
  shows "\<exists>e'. from_snapshot (snapshot e) = Inr e' \<and> tracks a n (\<lambda>k. keep_last n (h k)) e' \<and>
    te_default_latency_ms e' = te_default_latency_ms e"
proof -
  note d = tracksD [OF t]
  have keys: "normal_key k" if "k \<in> set (dkeys (te_samples e))" for k
  proof -
    from that have "dget (te_samples e) k \<noteq> None" by (simp add: map_of_eq_None_iff)
    then show ?thesis by (intro normal) (auto simp: d(6))
  qed
  obtain e0 where e0: "estimator_init (te_default_latency_ms e) a (int n) = Inr e0"
    using alpha default d(3) by (simp add: estimator_init_def)
  have init: "tracks a n (\<lambda>k. []) e0" "te_default_latency_ms e0 = te_default_latency_ms e"
    using tracks_init [OF e0] by simp_all
  have "strip (ps_tool_name p) \<noteq> []" if "p \<in> set (es_profiles (snapshot e))" for p
  proof -
    from that obtain k xs where "(k, xs) \<in> set (te_samples e)" "ps_tool_name p = fst k"
      by (auto simp: snapshot_def)
    with keys [of k] show ?thesis by (force simp: normal_key_def)
  qed
  from tracks_restore_profiles [OF this init(1)] obtain e' where
    e': "restore_profiles (es_profiles (snapshot e)) e0 = Inr e'"
        "tracks a n (\<lambda>k. restored (es_profiles (snapshot e)) k) e'"
        "te_default_latency_ms e' = te_default_latency_ms e"
    using init(2) by auto
  have "from_snapshot (snapshot e) = Inr e'"
    using e0 e'(1) by (simp add: from_snapshot_def) (simp add: snapshot_def d(1,2))
  moreover have "(\<lambda>k. restored (es_profiles (snapshot e)) k) = (\<lambda>k. keep_last n (h k))"
  proof
    fix k
    have "restored (es_profiles (snapshot e)) k = dlist (te_samples e) k"
      by (rule restored_snapshot) (rule d(4), rule keys)
    then show "restored (es_profiles (snapshot e)) k = keep_last n (h k)"
      by (simp only: tracks_samples [OF t])
  qed
  with e'(2) have "tracks a n (\<lambda>k. keep_last n (h k)) e'" by (simp only:)
  ultimately show ?thesis using e'(3) by blast
qed

section \<open>Properties\<close>

text \<open>A small estimator, for the examples.\<close>

definition sample_estimator :: ToolLatencyEstimator where
  "sample_estimator = \<lparr>te_default_latency_ms = 1000, te_ema_alpha = 1 / 2,
     te_max_samples_per_profile = 2, te_stats = [], te_samples = []\<rparr>"

definition sample_observations :: "observation list" where
  "sample_observations = [(''search'', 10, None), ('' search'', 30, Some ''big''), (''search'', -1, None), (''search'', 20, Some '' '')]"

lemma sample_estimator_init: "estimator_init 1000 (1 / 2) 2 = Inr sample_estimator"
  by (simp add: estimator_init_def sample_estimator_def)

text \<open>C25: After any sequence of observations, whatever names and values they carry, the statistics reported
  for a tool and class are the summary of the latencies accepted for that profile: their number, mean,
  exponential average, last, least and greatest value, and the percentiles of the samples that are kept.\<close>

theorem estimator_refines_history:
  assumes "estimator_init d a m = Inr e" and "strip tool \<noteq> []"
  shows "get_stats tool cls (fold observe evs e) =
    Inr (let k = (strip tool, normalize_optional_name cls) in summary a (nat m) k (latencies evs k))"
proof -
  have "tracks a (nat m) (latencies evs) (fold observe evs e)" using tracks_run [OF assms(1)] by blast
  from tracksD(5) [OF this] show ?thesis
    using assms(2) by (simp add: get_stats_def normalize_name_def Let_def)
qed

lemma estimator_refines_history_witness:
  "get_stats '' search '' None (fold observe sample_observations sample_estimator) =
     Inr (summary (1 / 2) 2 (''search'', None) [10, 30, 20])"
proof -
  have "latencies sample_observations (''search'', None) = [10, 30, 20]" by code_simp
  moreover have "strip '' search '' = ''search''" by code_simp
  ultimately show ?thesis
    using estimator_refines_history [OF sample_estimator_init, of "'' search ''" None sample_observations]
    by (simp add: normalize_optional_name_def Let_def)
qed

text \<open>C26: A prediction is the default while the tool has not been observed, and lies between the least
  and the greatest latency observed for the tool afterwards, whichever profile answers.\<close>

theorem prediction_within_observed:
  assumes "estimator_init d a m = Inr e" and "strip tool \<noteq> []"
  shows "\<exists>x. predict_latency tool cls (fold observe evs e) = Inr x \<and>
    (let seen = latencies evs (strip tool, None)
     in if seen = [] then x = d else Min (set seen) \<le> x \<and> x \<le> Max (set seen))"
proof -
  let ?obs = "observed evs tool cls" and ?seen = "latencies evs (strip tool, None)"
  have t: "tracks a (nat m) (latencies evs) (fold observe evs e)"
    and d: "te_default_latency_ms (fold observe evs e) = d" using tracks_run [OF assms(1)] by blast+
  have a: "0 < a" "a \<le> 1" using assms(1) by (auto simp: estimator_init_def split: if_splits)
  have "Min (set ?seen) \<le> ema a ?obs \<and> ema a ?obs \<le> Max (set ?seen)" if "?obs \<noteq> []"
  proof -
    have "Min (set ?seen) \<le> Min (set ?obs)" using that by (intro Min_antimono observed_aggregate) simp_all
    moreover have "Max (set ?obs) \<le> Max (set ?seen)" using that by (intro Max_mono observed_aggregate) simp_all
    ultimately show ?thesis using ema_bounds [OF a that] by linarith
  qed
  then show ?thesis
    using predict_spec [OF t assms(2), of cls] d observed_empty [of evs tool cls] by (simp add: Let_def)
qed

lemma prediction_within_observed_witness:
  "\<exists>x. predict_latency ''search'' (Some ''big'') (fold observe sample_observations sample_estimator) = Inr x
     \<and> 10 \<le> x \<and> x \<le> 30"
proof -
  have "latencies sample_observations (strip ''search'', None) = [10, 30, 20]" by code_simp
  moreover have "strip ''search'' \<noteq> []" by code_simp
  ultimately show ?thesis
    using prediction_within_observed [OF sample_estimator_init, of "''search''" "Some ''big''" sample_observations]
    by (auto simp: Let_def)
qed

text \<open>Percentiles of a non-empty sample lie between its least and greatest value and grow with the rank.\<close>

theorem percentile_within_and_monotone:
  assumes "values \<noteq> []" and "0 \<le> p" and "p \<le> q" and "q \<le> 100"
  shows "Min (set values) \<le> percentile values p \<and> percentile values p \<le> percentile values q
    \<and> percentile values q \<le> Max (set values)"
  using assms percentile_bounds [of "values" p] percentile_bounds [of "values" q]
    percentile_mono [of p q "values"] by simp

lemma percentile_within_and_monotone_witness:
  "Min (set [30, 10, 20 :: rat]) \<le> percentile [30, 10, 20] 50 \<and>
   percentile [30, 10, 20] 50 \<le> percentile [30, 10, 20] 95 \<and>
   percentile [30, 10, 20] 95 \<le> Max (set [30, 10, 20])"
  by (rule percentile_within_and_monotone) simp_all

text \<open>A snapshot restores: the estimator read back from it has the same parameters and samples, and the
  same statistics for every profile whose history was not truncated.\<close>

theorem snapshot_restores:
  assumes "estimator_init d a m = Inr e0" and "e = fold observe evs e0"
  shows "\<exists>e'. from_snapshot (snapshot e) = Inr e' \<and>
    te_default_latency_ms e' = d \<and> te_ema_alpha e' = a \<and> te_max_samples_per_profile e' = m \<and>
    (\<forall>k. dlist (te_samples e') k = dlist (te_samples e) k) \<and>
    (\<forall>k. length (latencies evs k) \<le> nat m \<longrightarrow> dget (te_stats e') k = dget (te_stats e) k)"
proof -
  have t: "tracks a (nat m) (latencies evs) e" and d: "te_default_latency_ms e = d"
    using tracks_run [OF assms(1)] assms(2) by blast+
  have par: "0 < a" "a \<le> 1" "0 \<le> d" "0 < m" using assms(1) by (auto simp: estimator_init_def split: if_splits)
  have "0 \<le> te_default_latency_ms e" using d par(3) by simp
  from tracks_snapshot [OF t _ par(1,2) this] latencies_normal
  obtain e' where e': "from_snapshot (snapshot e) = Inr e'" "te_default_latency_ms e' = d"
      and t': "tracks a (nat m) (\<lambda>k. keep_last (nat m) (latencies evs k)) e'"
    unfolding d by blast
  have "dlist (te_samples e') k = dlist (te_samples e) k" for k
    by (simp add: tracks_samples [OF t] tracks_samples [OF t'])
  moreover have "dget (te_stats e') k = dget (te_stats e) k" if "length (latencies evs k) \<le> nat m" for k
    using that by (simp only: tracksD(5) [OF t] tracksD(5) [OF t'] keep_last_short)
  ultimately show ?thesis using e' tracksD(1,2) [OF t'] par(4) by auto
qed

lemma snapshot_restores_witness:
  "\<exists>e'. from_snapshot (snapshot (fold observe sample_observations sample_estimator)) = Inr e' \<and>
     dlist (te_samples e') (''search'', None) = [30, 20] \<and>
     dget (te_stats e') (''search'', Some ''big'') =
       dget (te_stats (fold observe sample_observations sample_estimator)) (''search'', Some ''big'')"
proof -
  have "dlist (te_samples (fold observe sample_observations sample_estimator)) (''search'', None) = [30, 20]"
    by code_simp
  moreover have "length (latencies sample_observations (''search'', Some ''big'')) \<le> nat 2" by code_simp
  ultimately show ?thesis
    using snapshot_restores [OF sample_estimator_init refl, of sample_observations] by metis
qed

end
