(* ===== verification/AgentTTL.thy ===== *)
theory AgentTTL
  imports LatencyEstimator
begin

text \<open>
  The retention policy for tool-call pauses of \<^verbatim>\<open>src/l3store/policies/retention/agent_ttl.py\<close>.
  After an LLM step it predicts how long the step's tool call will take and recommends to pin the
  step's KV blocks or to offload them and prefetch them later.  The state holds the latency
  estimator of \<open>LatencyEstimator\<close>, which the policy asks and feeds.  The lemmas say how a decision
  depends on the prediction, that the counters summarise the log of decisions, and that the
  prefetch of a tool call is handed out when it is due and at most once.
\<close>

section \<open>Decisions and state\<close>

datatype RetentionAction = Pin | Offload | PrefetchLater | Retain

fun RetentionAction_value :: "RetentionAction \<Rightarrow> string" where
  "RetentionAction_value Pin = ''pin''"
| "RetentionAction_value Offload = ''offload''"
| "RetentionAction_value PrefetchLater = ''prefetch_later''"
| "RetentionAction_value Retain = ''retain''"

record AgentRetentionDecision =
  rd_step_id :: string
  rd_kv_block_ids :: "string list"
  rd_action :: RetentionAction
  rd_ttl_ms :: "rat option"
  rd_reason :: string
  rd_tool_call_id :: "string option"
  rd_predicted_tool_latency_ms :: "rat option"
  rd_reload_cost_ms :: "rat option"
  rd_prefetch_delay_ms :: "rat option"

record ToolProfile =
  tp_tool_name :: string
  tp_tool_args_class :: "string option"

record AgentTTLPolicy =
  ttl_estimator :: ToolLatencyEstimator
  ttl_threshold_ms :: rat
  ttl_default_ms :: rat
  ttl_reload_cost_ms :: rat
  ttl_prefetch_margin_ms :: rat
  ttl_decisions_by_step :: "(string, AgentRetentionDecision) dict"
  ttl_decisions_by_tool_call :: "(string, AgentRetentionDecision) dict"
  ttl_tool_profiles :: "(string, ToolProfile) dict"
  ttl_prefetch_triggered :: "string set"
  ttl_pinned_blocks :: "string set"
  ttl_offloaded_blocks :: "string set"
  ttl_kv_retained :: nat
  ttl_kv_evicted :: nat
  ttl_kv_reloaded :: nat
  ttl_recompute_avoided :: nat
  ttl_tool_wait_hidden_ms :: rat
  ttl_prefetch_scheduled :: nat
  ttl_prefetch_trigger_count :: nat

definition ttl_init ::
    "ToolLatencyEstimator option \<Rightarrow> rat \<Rightarrow> rat \<Rightarrow> rat \<Rightarrow> rat \<Rightarrow> AgentTTLPolicy res" where
  "ttl_init latency_estimator threshold default_ttl reload_cost margin =
     (if threshold < 0 then Inl (ValueError ''ttl_threshold_ms must be non-negative'')
      else if default_ttl < 0 then Inl (ValueError ''default_ttl_ms must be non-negative'')
      else if reload_cost < 0 then Inl (ValueError ''reload_cost_ms must be non-negative'')
      else if margin < 0 then Inl (ValueError ''prefetch_margin_ms must be non-negative'')
      else case (case latency_estimator of
                   Some e \<Rightarrow> Inr e
                 | None \<Rightarrow> estimator_init 1000 (3 / 10) 512) of
             Inl e \<Rightarrow> Inl e
           | Inr est \<Rightarrow> Inr \<lparr>ttl_estimator = est, ttl_threshold_ms = threshold, ttl_default_ms = default_ttl,
               ttl_reload_cost_ms = reload_cost, ttl_prefetch_margin_ms = margin,
               ttl_decisions_by_step = [], ttl_decisions_by_tool_call = [], ttl_tool_profiles = [],
               ttl_prefetch_triggered = {}, ttl_pinned_blocks = {}, ttl_offloaded_blocks = {},
               ttl_kv_retained = 0, ttl_kv_evicted = 0, ttl_kv_reloaded = 0, ttl_recompute_avoided = 0,
               ttl_tool_wait_hidden_ms = 0, ttl_prefetch_scheduled = 0, ttl_prefetch_trigger_count = 0\<rparr>)"

section \<open>Operations\<close>

text \<open>\<^verbatim>\<open>a or b\<close> on optional strings: the empty string counts as absent on the left.\<close>

definition or_else :: "string option \<Rightarrow> string option \<Rightarrow> string option" where
  "or_else a b = (if a = None \<or> a = Some [] then b else a)"

definition resolve_tool_name :: "AgentStep \<Rightarrow> string option \<Rightarrow> string" where
  "resolve_tool_name step tool_name =
     (case or_else tool_name (m_tool_name (st_meta step)) of
        None \<Rightarrow> ''unknown''
      | Some s \<Rightarrow> if strip s = [] then ''unknown'' else strip s)"

definition store_decision :: "AgentRetentionDecision \<Rightarrow> AgentTTLPolicy \<Rightarrow> AgentTTLPolicy" where
  "store_decision d p =
     (let p1 = p\<lparr>ttl_decisions_by_step := dset (ttl_decisions_by_step p) (rd_step_id d) d\<rparr>
      in case rd_tool_call_id d of
           None \<Rightarrow> p1
         | Some t \<Rightarrow> p1\<lparr>ttl_decisions_by_tool_call := dset (ttl_decisions_by_tool_call p1) t d\<rparr>)"

definition on_llm_step_completed ::
    "AgentStep \<Rightarrow> string list option \<Rightarrow> string option \<Rightarrow> string option \<Rightarrow> string option \<Rightarrow> rat option
       \<Rightarrow> AgentTTLPolicy \<Rightarrow> AgentRetentionDecision res \<times> AgentTTLPolicy" where
  "on_llm_step_completed step kv_block_ids tool_call_id tool_name tool_args_class reload_cost_ms p =
     (let block_ids = (case kv_block_ids of None \<Rightarrow> st_kv_block_ids step | Some ids \<Rightarrow> ids);
          call = or_else tool_call_id (st_tool_call_id step);
          cost = (case reload_cost_ms of None \<Rightarrow> ttl_reload_cost_ms p | Some c \<Rightarrow> c)
      in if cost < 0 then (Inl (ValueError ''reload_cost_ms must be non-negative''), p)
         else case call of
           None \<Rightarrow>
             (let d = \<lparr>rd_step_id = st_step_id step, rd_kv_block_ids = block_ids, rd_action = Retain,
                       rd_ttl_ms = None, rd_reason = ''no_tool_call'', rd_tool_call_id = None,
                       rd_predicted_tool_latency_ms = None, rd_reload_cost_ms = Some cost,
                       rd_prefetch_delay_ms = None\<rparr>
              in (Inr d, store_decision d p))
         | Some t \<Rightarrow>
             (let name = resolve_tool_name step tool_name
              in case predict_latency name tool_args_class (ttl_estimator p) of
                   Inl e \<Rightarrow> (Inl e, p)
                 | Inr predicted \<Rightarrow>
                     (let p1 = p\<lparr>ttl_tool_profiles := dset (ttl_tool_profiles p) t
                                  \<lparr>tp_tool_name = name, tp_tool_args_class = tool_args_class\<rparr>\<rparr>
                      in if predicted \<le> ttl_threshold_ms p
                         then (let d = \<lparr>rd_step_id = st_step_id step, rd_kv_block_ids = block_ids, rd_action = Pin,
                                       rd_ttl_ms = Some (max (ttl_default_ms p) (predicted + cost)),
                                       rd_reason = ''short_tool_call'', rd_tool_call_id = Some t,
                                       rd_predicted_tool_latency_ms = Some predicted, rd_reload_cost_ms = Some cost,
                                       rd_prefetch_delay_ms = None\<rparr>
                               in (Inr d, store_decision d
                                 (p1\<lparr>ttl_kv_retained := ttl_kv_retained p1 + length block_ids,
                                     ttl_recompute_avoided := ttl_recompute_avoided p1 + length block_ids,
                                     ttl_tool_wait_hidden_ms := ttl_tool_wait_hidden_ms p1
                                       + min predicted cost * of_nat (length block_ids),
                                     ttl_pinned_blocks := ttl_pinned_blocks p1 \<union> set block_ids\<rparr>)))
                         else (let d = \<lparr>rd_step_id = st_step_id step, rd_kv_block_ids = block_ids, rd_action = Offload,
                                       rd_ttl_ms = None, rd_reason = ''long_tool_call'', rd_tool_call_id = Some t,
                                       rd_predicted_tool_latency_ms = Some predicted, rd_reload_cost_ms = Some cost,
                                       rd_prefetch_delay_ms = Some (max 0 (predicted - ttl_prefetch_margin_ms p))\<rparr>
                               in (Inr d, store_decision d
                                 (p1\<lparr>ttl_kv_evicted := ttl_kv_evicted p1 + length block_ids,
                                     ttl_prefetch_scheduled := ttl_prefetch_scheduled p1 + length block_ids,
                                     ttl_offloaded_blocks := ttl_offloaded_blocks p1 \<union> set block_ids\<rparr>))))))"

definition decide_retention :: "string \<Rightarrow> AgentTTLPolicy \<Rightarrow> AgentRetentionDecision option" where
  "decide_retention step_id p = dget (ttl_decisions_by_step p) step_id"

definition pending_prefetches :: "AgentTTLPolicy \<Rightarrow> AgentRetentionDecision list" where
  "pending_prefetches p =
     filter (\<lambda>d. rd_action d = Offload \<and> rd_prefetch_delay_ms d \<noteq> None)
       (map snd (ttl_decisions_by_tool_call p))"

definition prefetch_due ::
    "string \<Rightarrow> rat \<Rightarrow> AgentTTLPolicy \<Rightarrow> AgentRetentionDecision option res \<times> AgentTTLPolicy" where
  "prefetch_due tool_call_id elapsed_ms p =
     (if elapsed_ms < 0 then (Inl (ValueError ''elapsed_ms must be non-negative''), p)
      else if tool_call_id \<in> ttl_prefetch_triggered p then (Inr None, p)
      else case dget (ttl_decisions_by_tool_call p) tool_call_id of
             None \<Rightarrow> (Inr None, p)
           | Some d \<Rightarrow>
               if rd_action d \<noteq> Offload then (Inr None, p)
               else case rd_prefetch_delay_ms d of
                      None \<Rightarrow> (Inr None, p)
                    | Some delay \<Rightarrow>
                        if elapsed_ms < delay then (Inr None, p)
                        else (Inr (Some (d\<lparr>rd_action := PrefetchLater, rd_ttl_ms := None,
                                            rd_reason := ''prefetch_window_reached'',
                                            rd_tool_call_id := Some tool_call_id\<rparr>)),
                              p\<lparr>ttl_prefetch_triggered := insert tool_call_id (ttl_prefetch_triggered p),
                                 ttl_prefetch_trigger_count := ttl_prefetch_trigger_count p
                                   + length (rd_kv_block_ids d)\<rparr>))"

definition on_tool_completed ::
    "string \<Rightarrow> rat \<Rightarrow> string option \<Rightarrow> string option \<Rightarrow> AgentTTLPolicy \<Rightarrow> unit res \<times> AgentTTLPolicy" where
  "on_tool_completed tool_call_id actual_latency_ms tool_name tool_args_class p =
     (if actual_latency_ms < 0 then (Inl (ValueError ''actual_latency_ms must be non-negative''), p)
      else let profile = dget (ttl_tool_profiles p) tool_call_id
           in case or_else tool_name (map_option tp_tool_name profile) of
                None \<Rightarrow> (Inl (ValueError ''tool_name is required for unknown tool_call_id''), p)
              | Some name \<Rightarrow>
                  (let cls = (case tool_args_class of
                                Some c \<Rightarrow> Some c
                              | None \<Rightarrow> (case profile of None \<Rightarrow> None | Some pr \<Rightarrow> tp_tool_args_class pr))
                   in case record_latency name actual_latency_ms cls (ttl_estimator p) of
                        (r, est) \<Rightarrow> (r, p\<lparr>ttl_estimator := est\<rparr>)))"

definition on_kv_reloaded :: "string list \<Rightarrow> AgentTTLPolicy \<Rightarrow> AgentTTLPolicy" where
  "on_kv_reloaded kv_block_ids p =
     p\<lparr>ttl_kv_reloaded := ttl_kv_reloaded p + card (set kv_block_ids),
        ttl_offloaded_blocks := ttl_offloaded_blocks p - set kv_block_ids\<rparr>"

definition on_pinned_kv_released :: "string list \<Rightarrow> AgentTTLPolicy \<Rightarrow> AgentTTLPolicy" where
  "on_pinned_kv_released kv_block_ids p =
     p\<lparr>ttl_pinned_blocks := ttl_pinned_blocks p - set kv_block_ids\<rparr>"

record AgentTTLStats =
  gt_decisions :: nat
  gt_kv_retained :: nat
  gt_kv_evicted :: nat
  gt_kv_reloaded :: nat
  gt_recompute_avoided :: nat
  gt_tool_wait_hidden_ms :: rat
  gt_prefetch_scheduled :: nat
  gt_prefetch_triggered :: nat
  gt_pinned_blocks :: nat
  gt_offloaded_blocks :: nat

definition ttl_stats :: "AgentTTLPolicy \<Rightarrow> AgentTTLStats" where
  "ttl_stats p = \<lparr>gt_decisions = length (ttl_decisions_by_step p), gt_kv_retained = ttl_kv_retained p,
     gt_kv_evicted = ttl_kv_evicted p, gt_kv_reloaded = ttl_kv_reloaded p,
     gt_recompute_avoided = ttl_recompute_avoided p, gt_tool_wait_hidden_ms = ttl_tool_wait_hidden_ms p,
     gt_prefetch_scheduled = ttl_prefetch_scheduled p, gt_prefetch_triggered = ttl_prefetch_trigger_count p,
     gt_pinned_blocks = card (ttl_pinned_blocks p), gt_offloaded_blocks = card (ttl_offloaded_blocks p)\<rparr>"

text \<open>A snapshot: configuration, statistics, the three sets sorted, and the decisions by step id.\<close>

record DecisionSnapshot =
  ds_step_id :: string
  ds_kv_block_ids :: "string list"
  ds_action :: string
  ds_ttl_ms :: "rat option"
  ds_reason :: string
  ds_tool_call_id :: "string option"
  ds_predicted_tool_latency_ms :: "rat option"
  ds_reload_cost_ms :: "rat option"
  ds_prefetch_delay_ms :: "rat option"

definition decision_to_dict :: "AgentRetentionDecision \<Rightarrow> DecisionSnapshot" where
  "decision_to_dict d = \<lparr>ds_step_id = rd_step_id d, ds_kv_block_ids = rd_kv_block_ids d,
     ds_action = RetentionAction_value (rd_action d), ds_ttl_ms = rd_ttl_ms d, ds_reason = rd_reason d,
     ds_tool_call_id = rd_tool_call_id d, ds_predicted_tool_latency_ms = rd_predicted_tool_latency_ms d,
     ds_reload_cost_ms = rd_reload_cost_ms d, ds_prefetch_delay_ms = rd_prefetch_delay_ms d\<rparr>"

record AgentTTLSnapshot =
  at_config :: "rat \<times> rat \<times> rat \<times> rat"
  at_stats :: AgentTTLStats
  at_pinned_blocks :: "string list"
  at_offloaded_blocks :: "string list"
  at_prefetch_triggered :: "string list"
  at_decisions :: "DecisionSnapshot list"

definition ttl_snapshot :: "AgentTTLPolicy \<Rightarrow> AgentTTLSnapshot" where
  "ttl_snapshot p = \<lparr>at_config = (ttl_threshold_ms p, ttl_default_ms p, ttl_reload_cost_ms p, ttl_prefetch_margin_ms p),
     at_stats = ttl_stats p, at_pinned_blocks = sorted_list_of_set (ttl_pinned_blocks p),
     at_offloaded_blocks = sorted_list_of_set (ttl_offloaded_blocks p),
     at_prefetch_triggered = sorted_list_of_set (ttl_prefetch_triggered p),
     at_decisions = map decision_to_dict (sort_key rd_step_id (map snd (ttl_decisions_by_step p)))\<rparr>"

section \<open>A decision\<close>

lemma resolve_tool_name_named: "strip (resolve_tool_name step tool) \<noteq> []"
proof -
  have "strip ''unknown'' = ''unknown''" by (rule strip_eq_self) (simp_all add: is_space_def)
  then show ?thesis by (auto simp: resolve_tool_name_def split: option.split)
qed

lemma predict_named: "strip tool \<noteq> [] \<Longrightarrow> \<exists>x. predict_latency tool cls e = Inr x"
  by (simp add: predict_latency_def normalize_name_def Let_def)

text \<open>What a decision recommends for a call with the given predicted latency and reload cost.\<close>

definition recommends :: "AgentTTLPolicy \<Rightarrow> rat \<Rightarrow> rat \<Rightarrow> AgentRetentionDecision \<Rightarrow> bool" where
  "recommends p predicted cost d \<longleftrightarrow>
     rd_predicted_tool_latency_ms d = Some predicted \<and> rd_reload_cost_ms d = Some cost \<and>
     (if predicted \<le> ttl_threshold_ms p
      then rd_action d = Pin \<and> rd_prefetch_delay_ms d = None
        \<and> rd_ttl_ms d = Some (max (ttl_default_ms p) (predicted + cost))
      else rd_action d = Offload \<and> rd_ttl_ms d = None
        \<and> rd_prefetch_delay_ms d = Some (max 0 (predicted - ttl_prefetch_margin_ms p)))"

definition completed_blocks :: "AgentStep \<Rightarrow> string list option \<Rightarrow> string list" where
  "completed_blocks step ids = (case ids of None \<Rightarrow> st_kv_block_ids step | Some xs \<Rightarrow> xs)"

definition completed_cost :: "AgentTTLPolicy \<Rightarrow> rat option \<Rightarrow> rat" where
  "completed_cost p cost = (case cost of None \<Rightarrow> ttl_reload_cost_ms p | Some c \<Rightarrow> c)"

lemma store_decision_simps [simp]:
  "ttl_estimator (store_decision d p) = ttl_estimator p"
  "ttl_threshold_ms (store_decision d p) = ttl_threshold_ms p"
  "ttl_default_ms (store_decision d p) = ttl_default_ms p"
  "ttl_reload_cost_ms (store_decision d p) = ttl_reload_cost_ms p"
  "ttl_prefetch_margin_ms (store_decision d p) = ttl_prefetch_margin_ms p"
  "ttl_decisions_by_step (store_decision d p) = dset (ttl_decisions_by_step p) (rd_step_id d) d"
  "ttl_tool_profiles (store_decision d p) = ttl_tool_profiles p"
  "ttl_prefetch_triggered (store_decision d p) = ttl_prefetch_triggered p"
  "ttl_pinned_blocks (store_decision d p) = ttl_pinned_blocks p"
  "ttl_offloaded_blocks (store_decision d p) = ttl_offloaded_blocks p"
  "ttl_kv_retained (store_decision d p) = ttl_kv_retained p"
  "ttl_kv_evicted (store_decision d p) = ttl_kv_evicted p"
  "ttl_kv_reloaded (store_decision d p) = ttl_kv_reloaded p"
  "ttl_recompute_avoided (store_decision d p) = ttl_recompute_avoided p"
  "ttl_tool_wait_hidden_ms (store_decision d p) = ttl_tool_wait_hidden_ms p"
  "ttl_prefetch_scheduled (store_decision d p) = ttl_prefetch_scheduled p"
  "ttl_prefetch_trigger_count (store_decision d p) = ttl_prefetch_trigger_count p"
  by (simp_all add: store_decision_def Let_def split: option.split)

lemma store_decision_calls [simp]:
  "ttl_decisions_by_tool_call (store_decision d p) =
     (case rd_tool_call_id d of None \<Rightarrow> ttl_decisions_by_tool_call p
      | Some t \<Rightarrow> dset (ttl_decisions_by_tool_call p) t d)"
  by (simp add: store_decision_def Let_def split: option.split)

text \<open>A completed step gets a decision unless its reload cost is negative.\<close>

lemma completed_no_call:
  assumes "or_else call (st_tool_call_id step) = None" and "0 \<le> completed_cost p cost"
  shows "\<exists>d. on_llm_step_completed step ids call tool cls cost p = (Inr d, store_decision d p)
    \<and> rd_step_id d = st_step_id step \<and> rd_kv_block_ids d = completed_blocks step ids
    \<and> rd_action d = Retain \<and> rd_tool_call_id d = None \<and> rd_prefetch_delay_ms d = None \<and> rd_ttl_ms d = None"
  using assms by (auto simp: on_llm_step_completed_def completed_cost_def completed_blocks_def Let_def)

lemma completed_call:
  assumes "or_else call (st_tool_call_id step) = Some t" and "0 \<le> completed_cost p cost"
    and "predict_latency (resolve_tool_name step tool) cls (ttl_estimator p) = Inr x"
  shows "\<exists>d p'. on_llm_step_completed step ids call tool cls cost p = (Inr d, store_decision d p')
    \<and> rd_step_id d = st_step_id step \<and> rd_kv_block_ids d = completed_blocks step ids
    \<and> rd_tool_call_id d = Some t \<and> recommends p x (completed_cost p cost) d
    \<and> ttl_tool_profiles p' = dset (ttl_tool_profiles p) t
        \<lparr>tp_tool_name = resolve_tool_name step tool, tp_tool_args_class = cls\<rparr>"
  using assms by (auto simp: on_llm_step_completed_def completed_cost_def completed_blocks_def recommends_def Let_def)

lemma completed_err:
  "completed_cost p cost < 0 \<Longrightarrow>
     on_llm_step_completed step ids call tool cls cost p = (Inl (ValueError ''reload_cost_ms must be non-negative''), p)"
  by (simp add: on_llm_step_completed_def completed_cost_def Let_def)

lemma completed_ok:
  assumes "on_llm_step_completed step ids call tool cls cost p = (Inr d, p')"
  shows "0 \<le> completed_cost p cost"
  using assms completed_err [of p cost step ids call tool cls] by (cases "completed_cost p cost < 0") simp_all

lemma completed_raises:
  assumes "on_llm_step_completed step ids call tool cls cost p = (Inl e, p')"
  shows "p' = p \<and> completed_cost p cost < 0"
proof (cases "completed_cost p cost < 0")
  case True
  with assms completed_err [OF True] show ?thesis by simp
next
  case False
  show ?thesis
  proof (cases "or_else call (st_tool_call_id step)")
    case None
    with completed_no_call [OF None, of p cost ids tool cls] False assms show ?thesis by auto
  next
    case (Some t)
    obtain x where "predict_latency (resolve_tool_name step tool) cls (ttl_estimator p) = Inr x"
      using predict_named [OF resolve_tool_name_named] by blast
    from completed_call [OF Some _ this, of cost ids] False assms show ?thesis by auto
  qed
qed

section \<open>The log of decisions\<close>

datatype ttl_event =
    StepCompleted AgentStep "string list option" "string option" "string option" "string option" "rat option"
  | PrefetchDue string rat
  | ToolCompleted string rat "string option" "string option"
  | KvReloaded "string list"
  | PinnedReleased "string list"

fun ttl_apply :: "ttl_event \<Rightarrow> AgentTTLPolicy \<Rightarrow> AgentTTLPolicy" where
  "ttl_apply (StepCompleted step ids call tool cls cost) p = snd (on_llm_step_completed step ids call tool cls cost p)"
| "ttl_apply (PrefetchDue call elapsed) p = snd (prefetch_due call elapsed p)"
| "ttl_apply (ToolCompleted call latency tool cls) p = snd (on_tool_completed call latency tool cls p)"
| "ttl_apply (KvReloaded ids) p = on_kv_reloaded ids p"
| "ttl_apply (PinnedReleased ids) p = on_pinned_kv_released ids p"

text \<open>The decisions that a run hands out for completed steps, the latest first.\<close>

fun decided :: "ttl_event \<Rightarrow> AgentTTLPolicy \<Rightarrow> AgentRetentionDecision list" where
  "decided (StepCompleted step ids call tool cls cost) p =
     (case fst (on_llm_step_completed step ids call tool cls cost p) of Inl e \<Rightarrow> [] | Inr d \<Rightarrow> [d])"
| "decided ev p = []"

fun ttl_run :: "ttl_event list \<Rightarrow> AgentTTLPolicy \<times> AgentRetentionDecision list \<Rightarrow> AgentTTLPolicy \<times> AgentRetentionDecision list" where
  "ttl_run [] s = s"
| "ttl_run (ev # evs) (p, hist) = ttl_run evs (ttl_apply ev p, decided ev p @ hist)"

definition blocks_of :: "RetentionAction \<Rightarrow> AgentRetentionDecision list \<Rightarrow> string list" where
  "blocks_of a hist = concat (map rd_kv_block_ids (filter (\<lambda>d. rd_action d = a) hist))"

text \<open>The policy remembers the last decision of every step and call and counts the blocks decided on.\<close>

definition logged :: "AgentTTLPolicy \<Rightarrow> AgentRetentionDecision list \<Rightarrow> bool" where
  "logged p hist \<longleftrightarrow>
     (\<forall>s. dget (ttl_decisions_by_step p) s = List.find (\<lambda>d. rd_step_id d = s) hist)
     \<and> (\<forall>t. dget (ttl_decisions_by_tool_call p) t = List.find (\<lambda>d. rd_tool_call_id d = Some t) hist)
     \<and> dwf (ttl_decisions_by_step p)
     \<and> ttl_kv_retained p = length (blocks_of Pin hist) \<and> ttl_recompute_avoided p = length (blocks_of Pin hist)
     \<and> ttl_kv_evicted p = length (blocks_of Offload hist) \<and> ttl_prefetch_scheduled p = length (blocks_of Offload hist)
     \<and> ttl_pinned_blocks p \<subseteq> set (blocks_of Pin hist) \<and> ttl_offloaded_blocks p \<subseteq> set (blocks_of Offload hist)"

lemma logged_decision:
  assumes l: "logged p hist" and d: "d0 = d"
    and kept: "ttl_decisions_by_step p' = ttl_decisions_by_step p"
      "ttl_decisions_by_tool_call p' = ttl_decisions_by_tool_call p"
      "ttl_kv_retained p' = ttl_kv_retained p + length (blocks_of Pin [d])"
      "ttl_recompute_avoided p' = ttl_recompute_avoided p + length (blocks_of Pin [d])"
      "ttl_kv_evicted p' = ttl_kv_evicted p + length (blocks_of Offload [d])"
      "ttl_prefetch_scheduled p' = ttl_prefetch_scheduled p + length (blocks_of Offload [d])"
      "ttl_pinned_blocks p' \<subseteq> ttl_pinned_blocks p \<union> set (blocks_of Pin [d])"
      "ttl_offloaded_blocks p' \<subseteq> ttl_offloaded_blocks p \<union> set (blocks_of Offload [d])"
  shows "logged (store_decision d p') (d # hist)"
proof -
  have app: "blocks_of a (d # hist) = blocks_of a [d] @ blocks_of a hist" for a by (simp add: blocks_of_def)
  show ?thesis
    using l kept unfolding logged_def app
    by (auto simp: dict_simps split: option.split)
qed

lemma logged_completed:
  assumes l: "logged p hist" and call: "on_llm_step_completed step ids call tool cls cost p = (Inr d, p')"
  shows "logged p' (d # hist)"
  using call
  by (auto simp: on_llm_step_completed_def Let_def blocks_of_def split: if_splits option.splits sum.splits
      intro!: logged_decision [OF l refl])

lemma logged_same:
  "logged p hist \<Longrightarrow> ttl_decisions_by_step p' = ttl_decisions_by_step p \<Longrightarrow>
     ttl_decisions_by_tool_call p' = ttl_decisions_by_tool_call p \<Longrightarrow> ttl_kv_retained p' = ttl_kv_retained p \<Longrightarrow>
     ttl_recompute_avoided p' = ttl_recompute_avoided p \<Longrightarrow> ttl_kv_evicted p' = ttl_kv_evicted p \<Longrightarrow>
     ttl_prefetch_scheduled p' = ttl_prefetch_scheduled p \<Longrightarrow> ttl_pinned_blocks p' \<subseteq> ttl_pinned_blocks p \<Longrightarrow>
     ttl_offloaded_blocks p' \<subseteq> ttl_offloaded_blocks p \<Longrightarrow> logged p' hist"
  unfolding logged_def by auto

lemma logged_apply:
  assumes "logged p hist"
  shows "logged (ttl_apply ev p) (decided ev p @ hist)"
proof (cases ev)
  case (StepCompleted step ids call tool cls cost)
  obtain r p' where r: "on_llm_step_completed step ids call tool cls cost p = (r, p')" by fastforce
  show ?thesis
  proof (cases r)
    case (Inl e)
    with completed_raises [of step ids call tool cls cost p e p'] r assms StepCompleted show ?thesis by simp
  next
    case (Inr d)
    with logged_completed [OF assms, of step ids call tool cls cost d p'] r StepCompleted show ?thesis by simp
  qed
next
  case (PrefetchDue t elapsed)
  with assms show ?thesis
    by (auto simp: prefetch_due_def split: option.splits intro!: logged_same [OF assms])
next
  case (ToolCompleted t latency tool cls)
  with assms show ?thesis
    by (auto simp: on_tool_completed_def Let_def split: option.splits prod.splits intro!: logged_same [OF assms])
next
  case (KvReloaded ids)
  with assms show ?thesis by (auto simp: on_kv_reloaded_def intro!: logged_same [OF assms])
next
  case (PinnedReleased ids)
  with assms show ?thesis by (auto simp: on_pinned_kv_released_def intro!: logged_same [OF assms])
qed

lemma logged_run: "logged p hist \<Longrightarrow> ttl_run evs (p, hist) = (p', hist') \<Longrightarrow> logged p' hist'"
  by (induction evs arbitrary: p hist) (use logged_apply in \<open>fastforce+\<close>)

lemma ttl_init_logged: "ttl_init est th de rc mg = Inr p \<Longrightarrow> logged p []"
  by (auto simp: ttl_init_def logged_def blocks_of_def split: if_splits sum.splits option.splits)

section \<open>Prefetches\<close>

lemma triggered_grows: "ttl_prefetch_triggered p \<subseteq> ttl_prefetch_triggered (ttl_apply ev p)"
proof (cases ev)
  case (StepCompleted step ids call tool cls cost)
  then show ?thesis
    by (auto simp: on_llm_step_completed_def Let_def split: option.splits sum.splits)
next
  case (PrefetchDue t elapsed)
  then show ?thesis by (auto simp: prefetch_due_def split: option.splits)
next
  case (ToolCompleted t latency tool cls)
  then show ?thesis by (auto simp: on_tool_completed_def Let_def split: option.splits prod.splits)
next
  case (KvReloaded ids)
  then show ?thesis by (simp add: on_kv_reloaded_def)
next
  case (PinnedReleased ids)
  then show ?thesis by (simp add: on_pinned_kv_released_def)
qed

lemma triggered_run: "ttl_run evs (p, hist) = (p', hist') \<Longrightarrow> ttl_prefetch_triggered p \<subseteq> ttl_prefetch_triggered p'"
  by (induction evs arbitrary: p hist) (use triggered_grows in \<open>fastforce+\<close>)

lemma prefetch_due_triggered:
  "prefetch_due t elapsed p = (Inr (Some d), p') \<Longrightarrow> t \<in> ttl_prefetch_triggered p'"
  by (auto simp: prefetch_due_def split: if_splits option.splits)

section \<open>Examples\<close>

definition sample_ttl_policy :: AgentTTLPolicy where
  "sample_ttl_policy = \<lparr>ttl_estimator = \<lparr>te_default_latency_ms = 1000, te_ema_alpha = 3 / 10,
       te_max_samples_per_profile = 512, te_stats = [], te_samples = []\<rparr>,
     ttl_threshold_ms = 750, ttl_default_ms = 1000, ttl_reload_cost_ms = 150, ttl_prefetch_margin_ms = 100,
     ttl_decisions_by_step = [], ttl_decisions_by_tool_call = [], ttl_tool_profiles = [],
     ttl_prefetch_triggered = {}, ttl_pinned_blocks = {}, ttl_offloaded_blocks = {},
     ttl_kv_retained = 0, ttl_kv_evicted = 0, ttl_kv_reloaded = 0, ttl_recompute_avoided = 0,
     ttl_tool_wait_hidden_ms = 0, ttl_prefetch_scheduled = 0, ttl_prefetch_trigger_count = 0\<rparr>"

lemma sample_ttl_init: "ttl_init None 750 1000 150 100 = Inr sample_ttl_policy"
  by (simp add: ttl_init_def estimator_init_def sample_ttl_policy_def)

definition sample_llm_step :: AgentStep where
  "sample_llm_step = \<lparr>st_meta = new_meta ''s1'' 0 AGENT_STEP, st_step_id = ''s1'', st_workflow_id = ''w'', st_agent_id = ''a'',
     st_turn_id = 0, st_parent_step_id = None, st_input_prompt_hash = ''h'', st_output_hash = [],
     st_tool_call_id = Some ''call'', st_kv_block_ids = [''b1'', ''b2''], st_rag_object_ids = [],
     st_semantic_entry_ids = [], st_timestamp_start = 0, st_timestamp_end = None\<rparr>"

lemma strip_unknown [simp]: "strip ''unknown'' = ''unknown''"
  by (rule strip_eq_self) (simp_all add: is_space_def)

lemma sample_predict: "predict_latency (resolve_tool_name sample_llm_step None) None (ttl_estimator sample_ttl_policy) = Inr 1000"
  by (simp add: resolve_tool_name_def or_else_def sample_llm_step_def new_meta_def predict_latency_def
      normalize_name_def normalize_optional_name_def sample_ttl_policy_def)

text \<open>The policy after that step was offloaded.\<close>

definition sample_decision :: AgentRetentionDecision where
  "sample_decision = \<lparr>rd_step_id = ''s1'', rd_kv_block_ids = [''b1'', ''b2''], rd_action = Offload, rd_ttl_ms = None,
     rd_reason = ''long_tool_call'', rd_tool_call_id = Some ''call'', rd_predicted_tool_latency_ms = Some 1000,
     rd_reload_cost_ms = Some 150, rd_prefetch_delay_ms = Some 900\<rparr>"

definition sample_offloaded :: AgentTTLPolicy where
  "sample_offloaded = store_decision sample_decision
     (sample_ttl_policy\<lparr>ttl_tool_profiles := [(''call'', \<lparr>tp_tool_name = ''unknown'', tp_tool_args_class = None\<rparr>)],
        ttl_kv_evicted := 2, ttl_prefetch_scheduled := 2, ttl_offloaded_blocks := {''b1'', ''b2''}\<rparr>)"

section \<open>Properties\<close>

text \<open>C27: A completed step with a tool call is always decided on, unless its reload cost is negative, and the decision is the
  one for the latency that the estimator predicts: at most the threshold, the blocks are pinned for at least the
  default time and the predicted latency plus the reload cost; above it they are offloaded and their prefetch is
  scheduled a margin before the predicted end, never in the past.  The decision is what the policy then answers for the step.\<close>

theorem retention_follows_prediction:
  assumes "or_else call (st_tool_call_id step) = Some t"
  shows "\<exists>r p'. on_llm_step_completed step ids call tool cls cost p = (r, p')
    \<and> (is_ok r \<longleftrightarrow> 0 \<le> completed_cost p cost) \<and> (\<not> is_ok r \<longrightarrow> p' = p)
    \<and> (\<forall>d. r = Inr d \<longrightarrow> decide_retention (st_step_id step) p' = Some d
         \<and> rd_kv_block_ids d = completed_blocks step ids \<and> rd_tool_call_id d = Some t
         \<and> (\<exists>x. predict_latency (resolve_tool_name step tool) cls (ttl_estimator p) = Inr x
              \<and> recommends p x (completed_cost p cost) d)
         \<and> (d \<in> set (pending_prefetches p') \<longleftrightarrow> rd_action d = Offload))"
proof (cases "0 \<le> completed_cost p cost")
  case True
  obtain x where x: "predict_latency (resolve_tool_name step tool) cls (ttl_estimator p) = Inr x"
    using predict_named [OF resolve_tool_name_named] by blast
  from completed_call [OF assms True x, of ids] obtain d p' where
    d: "on_llm_step_completed step ids call tool cls cost p = (Inr d, store_decision d p')"
      "rd_step_id d = st_step_id step" "rd_kv_block_ids d = completed_blocks step ids" "rd_tool_call_id d = Some t"
    and rec: "recommends p x (completed_cost p cost) d" by blast
  have "d \<in> snd ` set (dset (ttl_decisions_by_tool_call p') t d)"
    by (rule image_eqI [of _ _ "(t, d)"]) (simp_all add: map_of_SomeD dget_dset)
  moreover have "rd_action d = Offload \<Longrightarrow> rd_prefetch_delay_ms d \<noteq> None"
    using rec by (auto simp: recommends_def split: if_splits)
  ultimately have "d \<in> set (pending_prefetches (store_decision d p')) \<longleftrightarrow> rd_action d = Offload"
    using d(4) by (auto simp: pending_prefetches_def)
  with d rec x True show ?thesis by (auto simp: decide_retention_def dict_simps)
next
  case False
  with completed_err [of p cost step ids call tool cls] show ?thesis by simp
qed

lemma retention_follows_prediction_witness:
  "\<exists>d p'. on_llm_step_completed sample_llm_step None None None None None sample_ttl_policy = (Inr d, p')
     \<and> rd_action d = Offload \<and> rd_prefetch_delay_ms d = Some 900"
proof -
  have "or_else None (st_tool_call_id sample_llm_step) = Some ''call''" by (simp add: or_else_def sample_llm_step_def)
  from retention_follows_prediction [OF this, of None None None None sample_ttl_policy] sample_predict
  obtain d p' where "on_llm_step_completed sample_llm_step None None None None None sample_ttl_policy = (Inr d, p')"
    "recommends sample_ttl_policy 1000 (completed_cost sample_ttl_policy None) d"
    by (auto simp: completed_cost_def sample_ttl_policy_def elim!: is_okE)
  then show ?thesis by (auto simp: recommends_def sample_ttl_policy_def)
qed

text \<open>C28: After any sequence of events the answer for a step is the last decision made for it, the number of decisions is
  the number of steps decided on, the counters are the numbers of blocks in the decisions to pin and to offload, and
  pinned and offloaded blocks come from such decisions.\<close>

theorem policy_refines_decisions:
  assumes "ttl_init est th de rc mg = Inr p0" and "ttl_run evs (p0, []) = (p, hist)"
  shows "decide_retention s p = List.find (\<lambda>d. rd_step_id d = s) hist
    \<and> gt_decisions (ttl_stats p) = card (rd_step_id ` set hist)
    \<and> gt_kv_retained (ttl_stats p) = length (blocks_of Pin hist)
    \<and> gt_recompute_avoided (ttl_stats p) = length (blocks_of Pin hist)
    \<and> gt_kv_evicted (ttl_stats p) = length (blocks_of Offload hist)
    \<and> gt_prefetch_scheduled (ttl_stats p) = length (blocks_of Offload hist)
    \<and> ttl_pinned_blocks p \<subseteq> set (blocks_of Pin hist) \<and> ttl_offloaded_blocks p \<subseteq> set (blocks_of Offload hist)"
proof -
  have l: "logged p hist" using logged_run [OF ttl_init_logged [OF assms(1)] assms(2)] .
  have "s \<in> fst ` set (ttl_decisions_by_step p) \<longleftrightarrow> s \<in> rd_step_id ` set hist" for s
  proof -
    have "s \<in> fst ` set (ttl_decisions_by_step p) \<longleftrightarrow> dget (ttl_decisions_by_step p) s \<noteq> None"
      by (simp add: map_of_eq_None_iff)
    also have "\<dots> \<longleftrightarrow> s \<in> rd_step_id ` set hist"
      using l by (auto simp: logged_def find_None_iff)
    finally show ?thesis .
  qed
  then have keys: "fst ` set (ttl_decisions_by_step p) = rd_step_id ` set hist" by blast
  have "length (ttl_decisions_by_step p) = card (fst ` set (ttl_decisions_by_step p))"
    using l distinct_card [of "dkeys (ttl_decisions_by_step p)"] by (simp add: logged_def)
  then have "length (ttl_decisions_by_step p) = card (rd_step_id ` set hist)" using keys by simp
  with l show ?thesis by (simp add: logged_def decide_retention_def ttl_stats_def)
qed

lemma policy_refines_decisions_witness:
  "\<exists>p hist. ttl_run [StepCompleted sample_llm_step None None None None None, KvReloaded [''b1'']] (sample_ttl_policy, []) = (p, hist)
     \<and> gt_decisions (ttl_stats p) = card (rd_step_id ` set hist) \<and> gt_kv_evicted (ttl_stats p) = length (blocks_of Offload hist)"
proof -
  obtain p hist where run: "ttl_run [StepCompleted sample_llm_step None None None None None, KvReloaded [''b1'']] (sample_ttl_policy, [])
      = (p, hist)" by fastforce
  from policy_refines_decisions [OF sample_ttl_init run] run show ?thesis by auto
qed

text \<open>C29: The prefetch of a tool call is handed out exactly when the call was offloaded, its window is reached and it was
  not handed out before; it names the blocks of the decision.  Once handed out it is never handed out again, whatever
  happens in between, and otherwise asking changes nothing.\<close>

theorem prefetch_once_when_due:
  assumes "prefetch_due t elapsed p = (Inr r, p')"
  shows "(r \<noteq> None \<longleftrightarrow> t \<notin> ttl_prefetch_triggered p \<and> (\<exists>d delay. dget (ttl_decisions_by_tool_call p) t = Some d
        \<and> rd_action d = Offload \<and> rd_prefetch_delay_ms d = Some delay \<and> delay \<le> elapsed))
    \<and> (r = None \<longrightarrow> p' = p)
    \<and> (\<forall>d. r = Some d \<longrightarrow> rd_action d = PrefetchLater
         \<and> map_option rd_kv_block_ids (dget (ttl_decisions_by_tool_call p) t) = Some (rd_kv_block_ids d)
         \<and> (\<forall>evs hist p'' hist' later. ttl_run evs (p', hist) = (p'', hist') \<longrightarrow> 0 \<le> later \<longrightarrow>
              prefetch_due t later p'' = (Inr None, p'')))"
proof -
  have "prefetch_due t later p'' = (Inr None, p'')"
    if "r = Some d" "ttl_run evs (p', hist) = (p'', hist')" "0 \<le> later" for d evs hist p'' hist' later
  proof -
    have "t \<in> ttl_prefetch_triggered p'" using prefetch_due_triggered assms that(1) by blast
    with triggered_run [OF that(2)] have "t \<in> ttl_prefetch_triggered p''" by blast
    with that(3) show ?thesis by (simp add: prefetch_due_def)
  qed
  with assms show ?thesis by (auto simp: prefetch_due_def split: if_splits option.splits)
qed

lemma prefetch_once_when_due_witness:
  "\<exists>p d p'. prefetch_due ''call'' 950 p = (Inr (Some d), p') \<and> rd_action d = PrefetchLater
     \<and> prefetch_due ''call'' 2000 (on_kv_reloaded [''b1''] p') = (Inr None, on_kv_reloaded [''b1''] p')"
proof -
  have "dget (ttl_decisions_by_tool_call sample_offloaded) ''call'' = Some sample_decision"
    "''call'' \<notin> ttl_prefetch_triggered sample_offloaded"
    by (simp_all add: sample_offloaded_def sample_ttl_policy_def sample_decision_def)
  moreover have "rd_action sample_decision = Offload" "rd_prefetch_delay_ms sample_decision = Some 900"
    by (simp_all add: sample_decision_def)
  ultimately have "fst (prefetch_due ''call'' 950 sample_offloaded) \<noteq> Inr None
      \<and> (\<exists>r. fst (prefetch_due ''call'' 950 sample_offloaded) = Inr r)"
    by (simp add: prefetch_due_def)
  then obtain d p' where due: "prefetch_due ''call'' 950 sample_offloaded = (Inr (Some d), p')"
    by (metis not_None_eq prod.collapse)
  have run: "ttl_run [KvReloaded [''b1'']] (p', []) = (on_kv_reloaded [''b1''] p', [])" by simp
  note spec = prefetch_once_when_due [OF due, THEN conjunct2, THEN conjunct2, THEN spec [of _ d], THEN mp, OF refl]
  have "prefetch_due ''call'' 2000 (on_kv_reloaded [''b1''] p') = (Inr None, on_kv_reloaded [''b1''] p')"
    by (rule spec [THEN conjunct2, THEN conjunct2, rule_format, OF run]) simp
  with spec [THEN conjunct1] due show ?thesis by blast
qed

end
