(* ===== verification/ToolCache.thy ===== *)
theory ToolCache
  imports StoreProps "HOL-Library.Product_Lexorder"
begin

text \<open>
  The cache of tool-call results of \<^verbatim>\<open>src/l3store/agent/tool_cache.py\<close>, over the object store.  An
  artifact is found by tool name, hash of the arguments and scope; it is answered only while it is not
  expired and, when the caller names one, for its source version.  The arguments are hashed as
  \<^verbatim>\<open>json.dumps\<close> prints them with sorted keys; the digits of a printed float are the argument
  \<open>float_repr\<close>.  Every operation takes the time: \<open>now\<close> is the caller's argument, \<open>clock\<close> what the
  cache's clock shows, \<open>t\<close> what \<^verbatim>\<open>time.time()\<close> shows inside the store.
\<close>

section \<open>Hashing arguments\<close>

definition json_escape :: "char \<Rightarrow> string" where
  "json_escape c =
     (let n = (of_char c :: nat); bs = char_of (92 :: nat)
      in if n = 34 \<or> n = 92 then [bs, c]
         else if n = 10 then [bs, CHR ''n''] else if n = 13 then [bs, CHR ''r'']
         else if n = 9 then [bs, CHR ''t''] else if n = 12 then [bs, CHR ''f'']
         else if n = 8 then [bs, CHR ''b'']
         else if 32 \<le> n \<and> n \<le> 126 then [c]
         else [bs, CHR ''u'', CHR ''0'', CHR ''0'', hex_digit (n div 16), hex_digit (n mod 16)])"

definition json_string :: "string \<Rightarrow> string" where
  "json_string s = char_of (34 :: nat) # concat (map json_escape s) @ [char_of (34 :: nat)]"

text \<open>\<^verbatim>\<open>json.dumps(v, sort_keys=True, separators=(",", ":"), ensure_ascii=True)\<close>.\<close>

fun json_dumps :: "(rat \<Rightarrow> string) \<Rightarrow> json \<Rightarrow> string" where
  "json_dumps fr JNull = ''null''"
| "json_dumps fr (JBool b) = (if b then ''true'' else ''false'')"
| "json_dumps fr (JInt i) = int_str i"
| "json_dumps fr (JFloat q) = fr q"
| "json_dumps fr (JStr s) = json_string s"
| "json_dumps fr (JList xs) = ''['' @ join_with '','' (map (json_dumps fr) xs) @ '']''"
| "json_dumps fr (JDict d) =
     ''{'' @ join_with '','' (map snd (sort_key fst (map (\<lambda>(k, v). (k, json_string k @ '':'' @ json_dumps fr v)) d))) @ ''}''"

definition hash_args :: "Digests \<Rightarrow> (rat \<Rightarrow> string) \<Rightarrow> json \<Rightarrow> string" where
  "hash_args D float_repr v = sha16 D (json_dumps float_repr v)"

definition tool_call_id :: "Digests \<Rightarrow> string \<Rightarrow> string \<Rightarrow> ArtifactScope \<Rightarrow> string \<Rightarrow> string" where
  "tool_call_id D tool_name args_hash scope source_version =
     sha16 D (tool_name @ '':'' @ args_hash @ '':'' @ ArtifactScope_value scope @ '':'' @ source_version)"

definition normalize_tool_name :: "string \<Rightarrow> string res" where
  "normalize_tool_name tool_name =
     (if strip tool_name = [] then Inl (ValueError ''tool_name must be non-empty'') else Inr (strip tool_name))"

section \<open>State\<close>

type_synonym ToolCacheKey = "string \<times> string \<times> ArtifactScope"

record ('s, 'h) ToolArtifactCache =
  tc_store :: "('s, 'h) UnifiedObjectStore"
  tc_require_source_version :: bool
  tc_index :: "(ToolCacheKey, string) dict"
  tc_puts :: nat
  tc_hits :: nat
  tc_misses :: nat
  tc_expired :: nat
  tc_invalidated :: nat
  tc_reindexed :: nat
  tc_purged :: nat

definition tool_cache_init :: "('s, 'h) UnifiedObjectStore \<Rightarrow> bool \<Rightarrow> ('s, 'h) ToolArtifactCache" where
  "tool_cache_init st require_source_version = \<lparr>tc_store = st,
     tc_require_source_version = require_source_version, tc_index = [], tc_puts = 0, tc_hits = 0,
     tc_misses = 0, tc_expired = 0, tc_invalidated = 0, tc_reindexed = 0, tc_purged = 0\<rparr>"

text \<open>\<^verbatim>\<open>_now\<close>: the caller's time, or the clock of the cache.\<close>

definition tool_now :: "rat \<Rightarrow> rat option \<Rightarrow> rat" where
  "tool_now clock now = (case now of None \<Rightarrow> clock | Some t \<Rightarrow> t)"

section \<open>Putting\<close>

text \<open>The artifact of a call; its metadata record has the fresh id and the time of its creation.\<close>

definition make_artifact ::
    "('s, 'h, 'a, 'b) StoreEnv \<Rightarrow> (rat \<Rightarrow> string) \<Rightarrow> string \<Rightarrow> rat \<Rightarrow> string \<Rightarrow> json \<Rightarrow> (string, json) dict
       \<Rightarrow> rat \<Rightarrow> ArtifactScope \<Rightarrow> string \<Rightarrow> rat \<Rightarrow> ToolCallArtifact" where
  "make_artifact E float_repr fresh t tool_name args output_payload ttl scope source_version made_at =
     (let D = rt_digests (env_runtime E);
          args_hash = hash_args D float_repr args
      in \<lparr>ta_meta = (new_meta fresh t TOOL_CALL_ARTIFACT)\<lparr>consistency_class := Some TTL\<rparr>,
          ta_tool_call_id = tool_call_id D tool_name args_hash scope source_version,
          ta_tool_name = tool_name, ta_tool_args_hash = args_hash,
          ta_tool_output_hash = hash_args D float_repr (JDict output_payload),
          ta_tool_output_payload = output_payload, ta_ttl = ttl, ta_source_version = source_version,
          ta_permission_scope = scope, ta_created_at = made_at, ta_expires_at = made_at + ttl\<rparr>)"

definition cache_put_tool ::
    "('s, 'h, 'a, 'b) StoreEnv \<Rightarrow> (rat \<Rightarrow> string) \<Rightarrow> string \<Rightarrow> rat \<Rightarrow> rat \<Rightarrow> string \<Rightarrow> json \<Rightarrow> (string, json) dict
       \<Rightarrow> rat \<Rightarrow> ArtifactScope \<Rightarrow> string \<Rightarrow> rat option \<Rightarrow> ('s, 'h) ToolArtifactCache
       \<Rightarrow> string res \<times> ('s, 'h) ToolArtifactCache" where
  "cache_put_tool E float_repr fresh t clock tool_name args output_payload ttl scope source_version now c =
     (case normalize_tool_name tool_name of
        Inl e \<Rightarrow> (Inl e, c)
      | Inr name \<Rightarrow>
          if ttl \<le> 0 then (Inl (ValueError ''ttl must be positive''), c)
          else if tc_require_source_version c \<and> source_version = []
          then (Inl (ValueError ''source_version is required''), c)
          else case validate_tool_artifact (make_artifact E float_repr fresh t name args output_payload ttl scope
                      source_version (tool_now clock now)) of
                 Inl e \<Rightarrow> (Inl e, c)
               | Inr artifact \<Rightarrow>
                   (let key = (name, ta_tool_args_hash artifact, scope);
                        previous_id = dget (tc_index c) key
                    in case put_tool_artifact E artifact (tc_store c) of
                         (Inl e, _, st) \<Rightarrow> (Inl e, c\<lparr>tc_store := st\<rparr>)
                       | (Inr oid, _, st) \<Rightarrow>
                           (case (if previous_id \<noteq> None \<and> previous_id \<noteq> Some oid
                                  then delete_tool_artifact E (the previous_id) st else (Inr False, st)) of
                              (Inl e, st') \<Rightarrow> (Inl e, c\<lparr>tc_store := st'\<rparr>)
                            | (Inr _, st') \<Rightarrow>
                                (Inr oid, c\<lparr>tc_store := st', tc_index := dset (tc_index c) key oid,
                                            tc_puts := tc_puts c + 1\<rparr>))))"

section \<open>Getting\<close>

definition tool_miss :: "('s, 'h) ToolArtifactCache \<Rightarrow> ('s, 'h) ToolArtifactCache" where
  "tool_miss c = c\<lparr>tc_misses := tc_misses c + 1\<rparr>"

definition cache_get_tool ::
    "('s, 'h, 'a, 'b) StoreEnv \<Rightarrow> (rat \<Rightarrow> string) \<Rightarrow> rat \<Rightarrow> rat \<Rightarrow> string \<Rightarrow> json \<Rightarrow> ArtifactScope
       \<Rightarrow> string option \<Rightarrow> rat option \<Rightarrow> ('s, 'h) ToolArtifactCache
       \<Rightarrow> ToolCallArtifact option res \<times> ('s, 'h) ToolArtifactCache" where
  "cache_get_tool E float_repr t clock tool_name args scope source_version now c =
     (case normalize_tool_name tool_name of
        Inl e \<Rightarrow> (Inl e, c)
      | Inr name \<Rightarrow>
          (let key = (name, hash_args (rt_digests (env_runtime E)) float_repr args, scope)
           in case dget (tc_index c) key of
                None \<Rightarrow> (Inr None, tool_miss c)
              | Some oid \<Rightarrow>
                  (case get_tool_artifact E t oid (tc_store c) of
                     Inl e \<Rightarrow> (Inl e, c)
                   | Inr None \<Rightarrow> (Inr None, tool_miss (c\<lparr>tc_index := dpop (tc_index c) key\<rparr>))
                   | Inr (Some artifact) \<Rightarrow>
                       if source_version \<noteq> None \<and> ta_source_version artifact \<noteq> the source_version
                       then (Inr None, tool_miss c)
                       else if ta_permission_scope artifact \<noteq> scope then (Inr None, tool_miss c)
                       else if is_expired artifact (tool_now clock now)
                       then (let c1 = c\<lparr>tc_index := dpop (tc_index c) key\<rparr>
                             in case delete_tool_artifact E oid (tc_store c1) of
                                  (Inl e, st) \<Rightarrow> (Inl e, c1\<lparr>tc_store := st\<rparr>)
                                | (Inr _, st) \<Rightarrow>
                                    (Inr None, tool_miss (c1\<lparr>tc_store := st, tc_expired := tc_expired c1 + 1\<rparr>)))
                       else (Inr (Some artifact), c\<lparr>tc_hits := tc_hits c + 1\<rparr>))))"

section \<open>Invalidating and purging\<close>

fun invalidate_keys ::
    "('s, 'h, 'a, 'b) StoreEnv \<Rightarrow> (ToolCacheKey \<times> string) list \<Rightarrow> nat \<Rightarrow> ('s, 'h) ToolArtifactCache
       \<Rightarrow> nat res \<times> ('s, 'h) ToolArtifactCache" where
  "invalidate_keys E [] deleted c = (Inr deleted, c)"
| "invalidate_keys E ((key, oid) # rest) deleted c =
     (let c1 = c\<lparr>tc_index := dpop (tc_index c) key\<rparr>
      in case delete_tool_artifact E oid (tc_store c1) of
           (Inl e, st) \<Rightarrow> (Inl e, c1\<lparr>tc_store := st\<rparr>)
         | (Inr b, st) \<Rightarrow> invalidate_keys E rest (if b then deleted + 1 else deleted) (c1\<lparr>tc_store := st\<rparr>))"

definition key_selected :: "string option \<Rightarrow> ArtifactScope option \<Rightarrow> ToolCacheKey \<Rightarrow> bool" where
  "key_selected tool scope key \<longleftrightarrow>
     (tool = None \<or> tool = Some (fst key)) \<and> (scope = None \<or> scope = Some (snd (snd key)))"

definition invalidate_tool_artifacts ::
    "('s, 'h, 'a, 'b) StoreEnv \<Rightarrow> string option \<Rightarrow> ArtifactScope option \<Rightarrow> ('s, 'h) ToolArtifactCache
       \<Rightarrow> nat res \<times> ('s, 'h) ToolArtifactCache" where
  "invalidate_tool_artifacts E tool_name scope c =
     (case (case tool_name of None \<Rightarrow> Inr None | Some n \<Rightarrow> map_sum id Some (normalize_tool_name n)) of
        Inl e \<Rightarrow> (Inl e, c)
      | Inr tool \<Rightarrow>
          (case invalidate_keys E (filter (\<lambda>(key, oid). key_selected tool scope key) (tc_index c)) 0 c of
             (Inl e, c') \<Rightarrow> (Inl e, c')
           | (Inr deleted, c') \<Rightarrow> (Inr deleted, c'\<lparr>tc_invalidated := tc_invalidated c' + deleted\<rparr>)))"

fun purge_keys ::
    "('s, 'h, 'a, 'b) StoreEnv \<Rightarrow> rat \<Rightarrow> rat \<Rightarrow> (ToolCacheKey \<times> string) list \<Rightarrow> nat \<Rightarrow> ('s, 'h) ToolArtifactCache
       \<Rightarrow> nat res \<times> ('s, 'h) ToolArtifactCache" where
  "purge_keys E t current_time [] purged c = (Inr purged, c)"
| "purge_keys E t current_time ((key, oid) # rest) purged c =
     (case get_tool_artifact E t oid (tc_store c) of
        Inl e \<Rightarrow> (Inl e, c)
      | Inr None \<Rightarrow> purge_keys E t current_time rest purged (c\<lparr>tc_index := dpop (tc_index c) key\<rparr>)
      | Inr (Some artifact) \<Rightarrow>
          if is_expired artifact current_time
          then (let c1 = c\<lparr>tc_index := dpop (tc_index c) key\<rparr>
                in case delete_tool_artifact E oid (tc_store c1) of
                     (Inl e, st) \<Rightarrow> (Inl e, c1\<lparr>tc_store := st\<rparr>)
                   | (Inr b, st) \<Rightarrow>
                       purge_keys E t current_time rest (if b then purged + 1 else purged) (c1\<lparr>tc_store := st\<rparr>))
          else purge_keys E t current_time rest purged c)"

definition purge_expired ::
    "('s, 'h, 'a, 'b) StoreEnv \<Rightarrow> rat \<Rightarrow> rat \<Rightarrow> rat option \<Rightarrow> ('s, 'h) ToolArtifactCache
       \<Rightarrow> nat res \<times> ('s, 'h) ToolArtifactCache" where
  "purge_expired E t clock now c =
     (case purge_keys E t (tool_now clock now) (tc_index c) 0 c of
        (Inl e, c') \<Rightarrow> (Inl e, c')
      | (Inr purged, c') \<Rightarrow> (Inr purged, c'\<lparr>tc_purged := tc_purged c' + purged\<rparr>))"

section \<open>Rebuilding\<close>

fun rebuild_from ::
    "('s, 'h, 'a, 'b) StoreEnv \<Rightarrow> rat \<Rightarrow> rat \<Rightarrow> string list \<Rightarrow> nat \<Rightarrow> ('s, 'h) ToolArtifactCache
       \<Rightarrow> nat res \<times> ('s, 'h) ToolArtifactCache" where
  "rebuild_from E t current_time [] counted c = (Inr counted, c)"
| "rebuild_from E t current_time (oid # rest) counted c =
     (case get_tool_artifact E t oid (tc_store c) of
        Inl e \<Rightarrow> (Inl e, c)
      | Inr None \<Rightarrow> rebuild_from E t current_time rest counted c
      | Inr (Some artifact) \<Rightarrow>
          if is_expired artifact current_time
          then (case delete_tool_artifact E oid (tc_store c) of
                  (Inl e, st) \<Rightarrow> (Inl e, c\<lparr>tc_store := st\<rparr>)
                | (Inr _, st) \<Rightarrow>
                    rebuild_from E t current_time rest counted (c\<lparr>tc_store := st, tc_purged := tc_purged c + 1\<rparr>))
          else (let key = (ta_tool_name artifact, ta_tool_args_hash artifact, ta_permission_scope artifact)
                in case dget (tc_index c) key of
                     None \<Rightarrow> rebuild_from E t current_time rest (counted + 1)
                               (c\<lparr>tc_index := dset (tc_index c) key (ta_tool_call_id artifact)\<rparr>)
                   | Some current_id \<Rightarrow>
                       (case get_tool_artifact E t current_id (tc_store c) of
                          Inl e \<Rightarrow> (Inl e, c)
                        | Inr current \<Rightarrow>
                            rebuild_from E t current_time rest counted
                              (if current = None \<or> ta_expires_at (the current) < ta_expires_at artifact
                               then c\<lparr>tc_index := dset (tc_index c) key (ta_tool_call_id artifact)\<rparr> else c))))"

definition rebuild_index ::
    "('s, 'h, 'a, 'b) StoreEnv \<Rightarrow> rat \<Rightarrow> rat \<Rightarrow> rat option \<Rightarrow> ('s, 'h) ToolArtifactCache
       \<Rightarrow> nat res \<times> ('s, 'h) ToolArtifactCache" where
  "rebuild_index E t clock now c =
     (let c1 = c\<lparr>tc_index := []\<rparr>
      in case list_tool_artifacts E (tc_store c1) of
           Inl e \<Rightarrow> (Inl e, c1)
         | Inr ids \<Rightarrow>
             (case rebuild_from E t (tool_now clock now) ids 0 c1 of
                (Inl e, c') \<Rightarrow> (Inl e, c')
              | (Inr counted, c') \<Rightarrow> (Inr counted, c'\<lparr>tc_reindexed := tc_reindexed c' + counted\<rparr>)))"

section \<open>Reports\<close>

record ToolCacheStats =
  gc_entries :: nat
  gc_puts :: nat
  gc_hits :: nat
  gc_misses :: nat
  gc_expired :: nat
  gc_invalidated :: nat
  gc_reindexed :: nat
  gc_purged :: nat
  gc_hit_rate :: rat
  gc_tool_cache_hit_rate :: rat

definition tool_cache_stats :: "('s, 'h) ToolArtifactCache \<Rightarrow> ToolCacheStats" where
  "tool_cache_stats c =
     (let total_gets = tc_hits c + tc_misses c;
          hit_rate = (if total_gets = 0 then 0 else of_nat (tc_hits c) / of_nat total_gets)
      in \<lparr>gc_entries = length (tc_index c), gc_puts = tc_puts c, gc_hits = tc_hits c, gc_misses = tc_misses c,
          gc_expired = tc_expired c, gc_invalidated = tc_invalidated c, gc_reindexed = tc_reindexed c,
          gc_purged = tc_purged c, gc_hit_rate = hit_rate, gc_tool_cache_hit_rate = hit_rate\<rparr>)"

record ToolCacheSnapshot =
  tn_stats :: ToolCacheStats
  tn_require_source_version :: bool
  tn_entries :: "(string \<times> string \<times> string \<times> string) list"

text \<open>An entry is its tool, hash of arguments, scope and object id; entries are sorted by their keys.\<close>

definition tool_cache_snapshot :: "('s, 'h) ToolArtifactCache \<Rightarrow> ToolCacheSnapshot" where
  "tool_cache_snapshot c = \<lparr>tn_stats = tool_cache_stats c, tn_require_source_version = tc_require_source_version c,
     tn_entries = map (\<lambda>((tool, args_hash, scope), oid). (tool, args_hash, ArtifactScope_value scope, oid))
       (sort_key (\<lambda>((tool, args_hash, scope), oid). (tool, args_hash, ArtifactScope_value scope)) (tc_index c))\<rparr>"

text \<open>
  The id does not determine the key: a source version can continue what a tool name begins.  Two tools
  can so share an artifact, which is why \<open>tool_cache_refines_map\<close> asks that ids are separate.
\<close>

lemma tool_call_id_ambiguous:
  "tool_call_id D ''x'' h PRIVATE (h' @ '':private:'' @ v) = tool_call_id D (''x:'' @ h @ '':private'') h' PRIVATE v"
  by (simp add: tool_call_id_def)

section \<open>Tool artifacts in the store\<close>

text \<open>The artifact under an id.\<close>

definition tool_of ::
    "('s, 'h, 'a, 'b) StoreEnv \<Rightarrow> ('s \<Rightarrow> string \<Rightarrow> 'b option) \<Rightarrow> ('s, 'h) UnifiedObjectStore
       \<Rightarrow> string \<Rightarrow> ToolCallArtifact option" where
  "tool_of E contents st oid =
     (case stored_meta contents (env_config E) TOOL_CALL_ARTIFACT oid (os_storage st) of
        None \<Rightarrow> None
      | Some b \<Rightarrow> (case deserialize_tool_artifact (env_codec E) b of Inl e \<Rightarrow> None | Inr x \<Rightarrow> Some x))"

definition tools_ok ::
    "('s, 'h, 'a, 'b) StoreEnv \<Rightarrow> ('s \<Rightarrow> string \<Rightarrow> 'b option) \<Rightarrow> ('s, 'h) UnifiedObjectStore \<Rightarrow> bool" where
  "tools_ok E contents st \<longleftrightarrow> indexed E contents st \<and>
     (\<forall>oid b. stored_meta contents (env_config E) TOOL_CALL_ARTIFACT oid (os_storage st) = Some b \<longrightarrow>
        is_ok (deserialize_tool_artifact (env_codec E) b))"

text \<open>The artifact as the store completes it.\<close>

definition completed_artifact :: "ToolCallArtifact \<Rightarrow> ToolCallArtifact" where
  "completed_artifact a = a\<lparr>ta_meta := (ta_meta a)\<lparr>
     object_id := ta_tool_call_id a, m_tool_name := Some (ta_tool_name a),
     m_tool_args_hash := Some (ta_tool_args_hash a), valid_until := Some (ta_expires_at a),
     m_scope := Some (ta_permission_scope a)\<rparr>\<rparr>"

definition touched_artifact :: "rat \<Rightarrow> ToolCallArtifact \<Rightarrow> ToolCallArtifact" where
  "touched_artifact t a = a\<lparr>ta_meta := touch t (ta_meta a)\<rparr>"

lemma artifact_update_simps [simp]:
  "ta_tool_call_id (completed_artifact a) = ta_tool_call_id a" "ta_tool_call_id (touched_artifact t a) = ta_tool_call_id a"
  "ta_tool_name (completed_artifact a) = ta_tool_name a" "ta_tool_name (touched_artifact t a) = ta_tool_name a"
  "ta_tool_args_hash (completed_artifact a) = ta_tool_args_hash a"
  "ta_tool_args_hash (touched_artifact t a) = ta_tool_args_hash a"
  "ta_tool_output_payload (completed_artifact a) = ta_tool_output_payload a"
  "ta_tool_output_payload (touched_artifact t a) = ta_tool_output_payload a"
  "ta_source_version (completed_artifact a) = ta_source_version a"
  "ta_source_version (touched_artifact t a) = ta_source_version a"
  "ta_permission_scope (completed_artifact a) = ta_permission_scope a"
  "ta_permission_scope (touched_artifact t a) = ta_permission_scope a"
  "ta_expires_at (completed_artifact a) = ta_expires_at a" "ta_expires_at (touched_artifact t a) = ta_expires_at a"
  "is_expired (completed_artifact a) n = is_expired a n" "is_expired (touched_artifact t a) n = is_expired a n"
  by (simp_all add: completed_artifact_def touched_artifact_def is_expired_def)

lemma validate_completed: "validate_tool_artifact a = Inr a \<Longrightarrow> validate_tool_artifact (completed_artifact a) = Inr (completed_artifact a)"
  by (auto simp: validate_tool_artifact_def validate_expiration_def completed_artifact_def split: sum.splits if_splits)

context codec_store
begin

lemma get_tool_spec:
  assumes "tools_ok E contents st"
  shows "get_tool_artifact E t oid st = Inr (map_option (touched_artifact t) (tool_of E contents st oid))"
proof -
  have idx: "indexed E contents st" using assms by (simp add: tools_ok_def)
  show ?thesis
  proof (cases "stored_meta contents (env_config E) TOOL_CALL_ARTIFACT oid (os_storage st)")
    case None
    with idx show ?thesis by (simp add: get_tool_artifact_def get_refines_indexed tool_of_def del: type_prefix.simps)
  next
    case (Some b)
    with assms obtain x where "deserialize_tool_artifact (env_codec E) b = Inr x"
      unfolding tools_ok_def by (blast elim: is_okE)
    with Some idx show ?thesis
      by (simp add: get_tool_artifact_def get_refines_indexed tool_of_def touched_artifact_def del: type_prefix.simps)
  qed
qed

text \<open>What one operation leaves of the metadata blobs of tools.\<close>

lemma tools_after:
  assumes "tools_ok E contents st" and step: "store_step E TOOL_CALL_ARTIFACT oid st st'"
    and at: "stored_meta contents (env_config E) TOOL_CALL_ARTIFACT oid (os_storage st') = new"
    and new: "\<And>b. new = Some b \<Longrightarrow> is_ok (deserialize_tool_artifact (env_codec E) b)"
  shows "tools_ok E contents st' \<and> tool_of E contents st' =
    (tool_of E contents st)(oid := (case new of None \<Rightarrow> None
       | Some b \<Rightarrow> (case deserialize_tool_artifact (env_codec E) b of Inl e \<Rightarrow> None | Inr x \<Rightarrow> Some x)))"
proof -
  have other: "stored_meta contents (env_config E) TOOL_CALL_ARTIFACT i (os_storage st') =
      stored_meta contents (env_config E) TOOL_CALL_ARTIFACT i (os_storage st)" if "i \<noteq> oid" for i
    using step_frame [OF prefixes step, of TOOL_CALL_ARTIFACT i] that by simp
  have "indexed E contents st'"
    using indexed_confined [OF prefixes _ objs.store_step_confined [OF step] clean] assms(1) by (simp add: tools_ok_def)
  moreover have "is_ok (deserialize_tool_artifact (env_codec E) b)"
    if "stored_meta contents (env_config E) TOOL_CALL_ARTIFACT i (os_storage st') = Some b" for i b
    using that assms(1) new at other [of i] by (cases "i = oid") (auto simp: tools_ok_def)
  ultimately have "tools_ok E contents st'" unfolding tools_ok_def by blast
  moreover have "tool_of E contents st' i = ((tool_of E contents st)(oid := (case new of None \<Rightarrow> None
       | Some b \<Rightarrow> (case deserialize_tool_artifact (env_codec E) b of Inl e \<Rightarrow> None | Inr x \<Rightarrow> Some x)))) i" for i
    using at other [of i] by (cases "i = oid") (simp_all add: tool_of_def)
  ultimately show ?thesis by blast
qed

lemma put_tool_spec:
  assumes "tools_ok E contents st" and "validate_tool_artifact a = Inr a"
  shows "\<exists>st'. put_tool_artifact E a st = (Inr (ta_tool_call_id a), completed_artifact a, st') \<and> tools_ok E contents st'
    \<and> tool_of E contents st' = (tool_of E contents st)(ta_tool_call_id a \<mapsto> completed_artifact a)"
proof -
  let ?b = "serialize_tool_artifact (env_codec E) (completed_artifact a)"
  obtain st' where put: "put_meta_object E (type_prefix (env_config E) TOOL_CALL_ARTIFACT) (ta_tool_call_id a) ?b
      TOOL_CALL_ARTIFACT st = (Inr (ta_tool_call_id a), st')" using put_meta_total by blast
  have call: "put_tool_artifact E a st = (Inr (ta_tool_call_id a), completed_artifact a, st')"
    using put by (simp add: put_tool_artifact_def completed_artifact_def Let_def)
  have "md_bloom_wf (os_metadata st)" using assms(1) by (simp add: tools_ok_def indexed_def)
  from put_meta_stored [OF put this]
  have at: "stored_meta contents (env_config E) TOOL_CALL_ARTIFACT (ta_tool_call_id a) (os_storage st') = Some ?b" by simp
  have read: "deserialize_tool_artifact (env_codec E) ?b = Inr (completed_artifact a)"
    by (simp add: codec_okD [OF codec] validate_completed [OF assms(2)])
  have "tools_ok E contents st' \<and> tool_of E contents st' = (tool_of E contents st)(ta_tool_call_id a :=
      (case Some ?b of None \<Rightarrow> None
       | Some b \<Rightarrow> (case deserialize_tool_artifact (env_codec E) b of Inl e \<Rightarrow> None | Inr x \<Rightarrow> Some x)))"
    by (rule tools_after [OF assms(1) store_step.put_tool [OF call] at]) (simp add: read)
  with call read show ?thesis by auto
qed

lemma delete_tool_spec:
  assumes "tools_ok E contents st"
  shows "\<exists>st'. delete_tool_artifact E oid st = (Inr (tool_of E contents st oid \<noteq> None), st') \<and> tools_ok E contents st'
    \<and> tool_of E contents st' = (tool_of E contents st)(oid := None)"
proof -
  obtain d st' where call: "delete_tool_artifact E oid st = (d, st')" by fastforce
  have at: "stored_meta contents (env_config E) TOOL_CALL_ARTIFACT oid (os_storage st') = None"
    using delete_meta_gone call unfolding delete_tool_artifact_def by blast
  let ?k = "meta_key (type_prefix (env_config E) TOOL_CALL_ARTIFACT) oid"
  obtain s' where "be_delete (env_backend E) ?k (os_storage st) = (Inr (contents (os_storage st) ?k \<noteq> None), s')"
    using delete_eq by blast
  with call have "d = Inr (stored_meta contents (env_config E) TOOL_CALL_ARTIFACT oid (os_storage st) \<noteq> None)"
    by (auto simp: delete_tool_artifact_def delete_meta_object_def after_delete_def removed_unindexed
        stored_meta_def object_meta_key_def split: if_splits)
  moreover have "stored_meta contents (env_config E) TOOL_CALL_ARTIFACT oid (os_storage st) \<noteq> None
      \<longleftrightarrow> tool_of E contents st oid \<noteq> None"
    using assms by (cases "stored_meta contents (env_config E) TOOL_CALL_ARTIFACT oid (os_storage st)")
      (fastforce simp: tools_ok_def tool_of_def split: sum.split)+
  moreover have "tools_ok E contents st' \<and> tool_of E contents st' = (tool_of E contents st)(oid := None)"
    using tools_after [OF assms store_step.del_tool [OF call] at] by simp
  ultimately show ?thesis using call by auto
qed

end

section \<open>The cache as a map with expiry\<close>

definition cached ::
    "('s, 'h, 'a, 'b) StoreEnv \<Rightarrow> ('s \<Rightarrow> string \<Rightarrow> 'b option) \<Rightarrow> ('s, 'h) ToolArtifactCache
       \<Rightarrow> ToolCacheKey \<Rightarrow> ToolCallArtifact option" where
  "cached E contents c key =
     (case dget (tc_index c) key of None \<Rightarrow> None | Some oid \<Rightarrow> tool_of E contents (tc_store c) oid)"

definition artifact_key :: "ToolCallArtifact \<Rightarrow> ToolCacheKey" where
  "artifact_key a = (ta_tool_name a, ta_tool_args_hash a, ta_permission_scope a)"

definition tool_cache_ok ::
    "('s, 'h, 'a, 'b) StoreEnv \<Rightarrow> ('s \<Rightarrow> string \<Rightarrow> 'b option) \<Rightarrow> ('s, 'h) ToolArtifactCache \<Rightarrow> bool" where
  "tool_cache_ok E contents c \<longleftrightarrow> tools_ok E contents (tc_store c) \<and> dwf (tc_index c) \<and>
     (\<forall>key oid a. dget (tc_index c) key = Some oid \<longrightarrow> tool_of E contents (tc_store c) oid = Some a \<longrightarrow>
        artifact_key a = key)"

lemma artifact_key_simps [simp]:
  "artifact_key (completed_artifact a) = artifact_key a" "artifact_key (touched_artifact t a) = artifact_key a"
  by (simp_all add: artifact_key_def)

text \<open>Two keys never share a stored artifact.\<close>

lemma tool_cache_okD:
  assumes "tool_cache_ok E contents c"
  shows "tools_ok E contents (tc_store c)" "dwf (tc_index c)"
    and "dget (tc_index c) key = Some oid \<Longrightarrow> tool_of E contents (tc_store c) oid = Some a \<Longrightarrow> artifact_key a = key"
    and "dget (tc_index c) key = Some oid \<Longrightarrow> dget (tc_index c) key' = Some oid \<Longrightarrow> key \<noteq> key' \<Longrightarrow>
      tool_of E contents (tc_store c) oid = None"
proof -
  show k: "dget (tc_index c) key = Some oid \<Longrightarrow> tool_of E contents (tc_store c) oid = Some a \<Longrightarrow> artifact_key a = key"
    for key oid a using assms unfolding tool_cache_ok_def by blast
  show "dget (tc_index c) key = Some oid \<Longrightarrow> dget (tc_index c) key' = Some oid \<Longrightarrow> key \<noteq> key' \<Longrightarrow>
      tool_of E contents (tc_store c) oid = None"
    using k by (cases "tool_of E contents (tc_store c) oid") blast+
qed (use assms in \<open>simp_all add: tool_cache_ok_def\<close>)

lemma tool_cache_okI:
  "tools_ok E contents st \<Longrightarrow> dwf d \<Longrightarrow>
     (\<And>key oid a. dget d key = Some oid \<Longrightarrow> tool_of E contents st oid = Some a \<Longrightarrow> artifact_key a = key) \<Longrightarrow>
     tool_cache_ok E contents (c\<lparr>tc_store := st, tc_index := d\<rparr>)"
  unfolding tool_cache_ok_def by (simp del: map_of_eq_Some_iff Some_eq_map_of_iff)

text \<open>Dropping a key, with the artifact it names or when that artifact is gone.\<close>

lemma drop_key:
  assumes ok: "tool_cache_ok E contents c" and key: "dget (tc_index c) key = Some oid"
    and st: "tools_ok E contents st'" "tool_of E contents st' = (tool_of E contents (tc_store c))(oid := None)"
  shows "tool_cache_ok E contents (c\<lparr>tc_index := dpop (tc_index c) key, tc_store := st'\<rparr>)
    \<and> cached E contents (c\<lparr>tc_index := dpop (tc_index c) key, tc_store := st'\<rparr>) = (cached E contents c)(key := None)"
proof -
  have "cached E contents (c\<lparr>tc_index := dpop (tc_index c) key, tc_store := st'\<rparr>) k = ((cached E contents c)(key := None)) k" for k
    using st(2) tool_cache_okD(4) [OF ok key] by (auto simp: cached_def dict_simps split: option.split)
  moreover have "tool_cache_ok E contents (c\<lparr>tc_index := dpop (tc_index c) key, tc_store := st'\<rparr>)"
    unfolding tool_cache_ok_def
  proof (intro conjI allI impI)
    show "dwf (tc_index (c\<lparr>tc_index := dpop (tc_index c) key, tc_store := st'\<rparr>))"
      using dwf_dpop [OF tool_cache_okD(2) [OF ok]] by simp
    fix k i a
    assume "dget (tc_index (c\<lparr>tc_index := dpop (tc_index c) key, tc_store := st'\<rparr>)) k = Some i"
      and "tool_of E contents (tc_store (c\<lparr>tc_index := dpop (tc_index c) key, tc_store := st'\<rparr>)) i = Some a"
    then have "dget (tc_index c) k = Some i" "tool_of E contents (tc_store c) i = Some a"
      using st(2) by (auto simp: dget_dpop simp del: map_of_eq_Some_iff Some_eq_map_of_iff split: if_splits)
    then show "artifact_key a = k" by (rule tool_cache_okD(3) [OF ok])
  qed (simp add: st(1))
  ultimately show ?thesis by blast
qed

lemma cached_cong:
  "tc_index c' = tc_index c \<Longrightarrow> tc_store c' = tc_store c \<Longrightarrow>
     cached E contents c' = cached E contents c \<and> tool_cache_ok E contents c' = tool_cache_ok E contents c"
  by (simp add: cached_def tool_cache_ok_def fun_eq_iff split: option.split)

lemma make_artifact_valid:
  assumes "0 < ttl"
  shows "validate_tool_artifact (make_artifact E fr fresh t tool args payload ttl scope ver made)
    = Inr (make_artifact E fr fresh t tool args payload ttl scope ver made)"
  using assms by (simp add: validate_tool_artifact_def validate_ttl_def validate_expiration_def make_artifact_def Let_def)

lemma make_artifact_simps [simp]:
  "ta_tool_name (make_artifact E fr fresh t tool args payload ttl scope ver made) = tool"
  "ta_tool_args_hash (make_artifact E fr fresh t tool args payload ttl scope ver made) = hash_args (rt_digests (env_runtime E)) fr args"
  "ta_permission_scope (make_artifact E fr fresh t tool args payload ttl scope ver made) = scope"
  "ta_tool_output_payload (make_artifact E fr fresh t tool args payload ttl scope ver made) = payload"
  "ta_source_version (make_artifact E fr fresh t tool args payload ttl scope ver made) = ver"
  "ta_expires_at (make_artifact E fr fresh t tool args payload ttl scope ver made) = made + ttl"
  "ta_tool_call_id (make_artifact E fr fresh t tool args payload ttl scope ver made) =
     tool_call_id (rt_digests (env_runtime E)) tool (hash_args (rt_digests (env_runtime E)) fr args) scope ver"
  by (simp_all add: make_artifact_def Let_def)

context codec_store
begin

text \<open>A put of an artifact under a key, when no other key has its id.\<close>

lemma put_key:
  assumes ok: "tool_cache_ok E contents c" and valid: "validate_tool_artifact a = Inr a"
    and alone: "\<And>key. dget (tc_index c) key = Some (ta_tool_call_id a) \<Longrightarrow> key = artifact_key a"
    and st: "put_tool_artifact E a (tc_store c) = (Inr (ta_tool_call_id a), a', st)"
      "tools_ok E contents st"
      "tool_of E contents st = (tool_of E contents (tc_store c))(ta_tool_call_id a \<mapsto> completed_artifact a)"
    and prev: "dget (tc_index c) (artifact_key a) = p"
  shows "\<exists>b st'. (if p \<noteq> None \<and> p \<noteq> Some (ta_tool_call_id a) then delete_tool_artifact E (the p) st else (Inr False, st)) = (Inr b, st')
    \<and> tool_cache_ok E contents (c\<lparr>tc_store := st', tc_index := dset (tc_index c) (artifact_key a) (ta_tool_call_id a)\<rparr>)
    \<and> cached E contents (c\<lparr>tc_store := st', tc_index := dset (tc_index c) (artifact_key a) (ta_tool_call_id a)\<rparr>)
        = (cached E contents c)(artifact_key a \<mapsto> completed_artifact a)"
proof -
  let ?i = "ta_tool_call_id a" and ?k = "artifact_key a"
  have fin: "tool_cache_ok E contents (c\<lparr>tc_store := st', tc_index := dset (tc_index c) ?k ?i\<rparr>)
      \<and> cached E contents (c\<lparr>tc_store := st', tc_index := dset (tc_index c) ?k ?i\<rparr>) = (cached E contents c)(?k \<mapsto> completed_artifact a)"
    if st': "tools_ok E contents st'" and own: "tool_of E contents st' ?i = Some (completed_artifact a)"
      and same: "\<And>key oid. key \<noteq> ?k \<Longrightarrow> dget (tc_index c) key = Some oid \<Longrightarrow>
        tool_of E contents st' oid = tool_of E contents (tc_store c) oid" for st'
  proof -
    have map_eq: "cached E contents (c\<lparr>tc_store := st', tc_index := dset (tc_index c) ?k ?i\<rparr>) k
        = ((cached E contents c)(?k \<mapsto> completed_artifact a)) k" for k
      using own same [of k] by (auto simp: cached_def dict_simps split: option.split)
    have keys: "artifact_key x = key"
      if "dget (dset (tc_index c) ?k ?i) key = Some oid" "tool_of E contents st' oid = Some x" for key oid x
    proof (cases "key = ?k")
      case True
      with that(1) have "oid = ?i" by (simp add: dget_dset)
      with that(2) own have "x = completed_artifact a" by simp
      with True show ?thesis by simp
    next
      case False
      with that(1) have at: "dget (tc_index c) key = Some oid" by (simp add: dget_dset)
      have "tool_of E contents (tc_store c) oid = Some x" using same [OF False at] that(2) by (rule trans [OF sym])
      then show ?thesis by (rule tool_cache_okD(3) [OF ok at])
    qed
    have "dwf (dset (tc_index c) ?k ?i)" using tool_cache_okD(2) [OF ok] by (rule dwf_dset)
    with st' have "tool_cache_ok E contents (c\<lparr>tc_store := st', tc_index := dset (tc_index c) ?k ?i\<rparr>)"
      by (rule tool_cache_okI) (rule keys)
    with map_eq show ?thesis by blast
  qed
  show ?thesis
  proof (cases "p \<noteq> None \<and> p \<noteq> Some ?i")
    case True
    then obtain old where old: "p = Some old" "old \<noteq> ?i" by auto
    obtain st' where del: "delete_tool_artifact E old st = (Inr (tool_of E contents st old \<noteq> None), st')"
      "tools_ok E contents st'" "tool_of E contents st' = (tool_of E contents st)(old := None)"
      using delete_tool_spec [OF st(2)] by blast
    have "tool_of E contents st' oid = tool_of E contents (tc_store c) oid"
      if "key \<noteq> ?k" "dget (tc_index c) key = Some oid" for key oid
      using that del(3) st(3) alone [of key] tool_cache_okD(4) [OF ok, of "?k" old key] prev old by auto
    with fin [of st'] del old st(3) True show ?thesis by auto
  next
    case False
    have "tool_of E contents st oid = tool_of E contents (tc_store c) oid"
      if "key \<noteq> ?k" "dget (tc_index c) key = Some oid" for key oid
      using that st(3) alone [of key] by auto
    with fin [of st] st False show ?thesis by auto
  qed
qed

end

definition tool_key ::
    "('s, 'h, 'a, 'b) StoreEnv \<Rightarrow> (rat \<Rightarrow> string) \<Rightarrow> string \<Rightarrow> json \<Rightarrow> ArtifactScope \<Rightarrow> ToolCacheKey" where
  "tool_key E fr name args scope = (name, hash_args (rt_digests (env_runtime E)) fr args, scope)"

text \<open>What a caller sees of an artifact: its payload, its source version and when it expires.\<close>

type_synonym ToolEntry = "(string, json) dict \<times> string \<times> rat"

definition tool_view :: "ToolCallArtifact \<Rightarrow> ToolEntry" where
  "tool_view a = (ta_tool_output_payload a, ta_source_version a, ta_expires_at a)"

definition tool_map ::
    "('s, 'h, 'a, 'b) StoreEnv \<Rightarrow> ('s \<Rightarrow> string \<Rightarrow> 'b option) \<Rightarrow> ('s, 'h) ToolArtifactCache \<Rightarrow> ToolCacheKey \<rightharpoonup> ToolEntry" where
  "tool_map E contents c = (\<lambda>key. map_option tool_view (cached E contents c key))"

lemma tool_view_simps [simp]:
  "tool_view (completed_artifact a) = tool_view a" "tool_view (touched_artifact t a) = tool_view a"
  by (simp_all add: tool_view_def)

definition version_matches :: "string option \<Rightarrow> string \<Rightarrow> bool" where
  "version_matches asked v \<longleftrightarrow> asked = None \<or> asked = Some v"

definition lookup_entry :: "string option \<Rightarrow> rat \<Rightarrow> ToolEntry option \<Rightarrow> ToolEntry option" where
  "lookup_entry asked now x = (case x of None \<Rightarrow> None
     | Some (p, v, expiry) \<Rightarrow> if version_matches asked v \<and> now < expiry then Some (p, v, expiry) else None)"

text \<open>A get of an expired entry of the asked version removes it.\<close>

definition expire_entry :: "string option \<Rightarrow> rat \<Rightarrow> ToolEntry option \<Rightarrow> ToolEntry option" where
  "expire_entry asked now x = (case x of None \<Rightarrow> None
     | Some (p, v, expiry) \<Rightarrow> if version_matches asked v \<and> expiry \<le> now then None else Some (p, v, expiry))"

lemma entry_simps [simp]:
  "lookup_entry asked now None = None" "expire_entry asked now None = None"
  "lookup_entry asked now (Some (tool_view a)) =
     (if version_matches asked (ta_source_version a) \<and> \<not> is_expired a now then Some (tool_view a) else None)"
  "expire_entry asked now (Some (tool_view a)) =
     (if version_matches asked (ta_source_version a) \<and> is_expired a now then None else Some (tool_view a))"
  by (simp_all add: lookup_entry_def expire_entry_def tool_view_def is_expired_def not_le)

definition index_shrinks :: "('s, 'h) ToolArtifactCache \<Rightarrow> ('s, 'h) ToolArtifactCache \<Rightarrow> bool" where
  "index_shrinks c c' \<longleftrightarrow> tc_require_source_version c' = tc_require_source_version c \<and>
     (\<forall>key oid. dget (tc_index c') key = Some oid \<longrightarrow> dget (tc_index c) key = Some oid)"

lemma index_shrinks_refl: "tc_index c' = tc_index c \<Longrightarrow> tc_require_source_version c' = tc_require_source_version c \<Longrightarrow> index_shrinks c c'"
  by (simp add: index_shrinks_def)

lemma index_shrinks_trans: "index_shrinks a b \<Longrightarrow> index_shrinks b c \<Longrightarrow> index_shrinks a c"
  unfolding index_shrinks_def by metis

lemma index_shrinks_pop:
  "tc_index c' = dpop (tc_index c) key \<Longrightarrow> tc_require_source_version c' = tc_require_source_version c \<Longrightarrow> index_shrinks c c'"
  unfolding index_shrinks_def by (simp add: dget_dpop del: map_of_eq_Some_iff Some_eq_map_of_iff split: if_splits)

lemma tool_map_drop: "cached E contents c' = (cached E contents c)(key := None) \<Longrightarrow>
    tool_map E contents c' = (tool_map E contents c)(key := None)"
  by (simp add: tool_map_def fun_eq_iff)

context codec_store
begin

lemma drop_by_delete:
  assumes ok: "tool_cache_ok E contents c" and key: "dget (tc_index c) key = Some oid"
  shows "\<exists>st'. delete_tool_artifact E oid (tc_store c) = (Inr (tool_of E contents (tc_store c) oid \<noteq> None), st')
    \<and> tool_cache_ok E contents (c\<lparr>tc_index := dpop (tc_index c) key, tc_store := st'\<rparr>)
    \<and> tool_map E contents (c\<lparr>tc_index := dpop (tc_index c) key, tc_store := st'\<rparr>) = (tool_map E contents c)(key := None)"
proof -
  obtain st' where del: "delete_tool_artifact E oid (tc_store c) = (Inr (tool_of E contents (tc_store c) oid \<noteq> None), st')"
    and st': "tools_ok E contents st'" "tool_of E contents st' = (tool_of E contents (tc_store c))(oid := None)"
    using delete_tool_spec [OF tool_cache_okD(1) [OF ok]] by blast
  from drop_key [OF ok key st'] del tool_map_drop show ?thesis by blast
qed

lemma drop_missing:
  assumes ok: "tool_cache_ok E contents c" and key: "dget (tc_index c) key = Some oid"
    and gone: "tool_of E contents (tc_store c) oid = None"
  shows "tool_cache_ok E contents (c\<lparr>tc_index := dpop (tc_index c) key\<rparr>)
    \<and> tool_map E contents (c\<lparr>tc_index := dpop (tc_index c) key\<rparr>) = (tool_map E contents c)(key := None)"
proof -
  have "tool_of E contents (tc_store c) = (tool_of E contents (tc_store c))(oid := None)" using gone by (simp add: fun_upd_idem)
  from drop_key [OF ok key tool_cache_okD(1) [OF ok] this]
  have "tool_cache_ok E contents (c\<lparr>tc_index := dpop (tc_index c) key\<rparr>)"
    "cached E contents (c\<lparr>tc_index := dpop (tc_index c) key\<rparr>) = (cached E contents c)(key := None)" by simp_all
  with tool_map_drop show ?thesis by blast
qed

lemma counted_same:
  "tc_index c' = tc_index c \<Longrightarrow> tc_store c' = tc_store c \<Longrightarrow> tc_require_source_version c' = tc_require_source_version c \<Longrightarrow>
     tool_cache_ok E contents c \<Longrightarrow>
     tool_cache_ok E contents c' \<and> tool_map E contents c' = tool_map E contents c \<and> index_shrinks c c'"
  using cached_cong [of c' c E contents] by (auto simp: tool_map_def intro: index_shrinks_refl)

lemma get_spec:
  assumes ok: "tool_cache_ok E contents c" and name: "normalize_tool_name tool = Inr name"
    and key: "key = tool_key E fr name args scope"
  shows "\<exists>r c'. cache_get_tool E fr t clock tool args scope asked now c = (Inr r, c') \<and> tool_cache_ok E contents c'
    \<and> map_option tool_view r = lookup_entry asked (tool_now clock now) (tool_map E contents c key)
    \<and> tool_map E contents c' = (tool_map E contents c)(key := expire_entry asked (tool_now clock now) (tool_map E contents c key))
    \<and> index_shrinks c c'
    \<and> tc_hits c' = tc_hits c + (if r = None then 0 else 1) \<and> tc_misses c' = tc_misses c + (if r = None then 1 else 0)"
proof (cases "dget (tc_index c) key")
  case None
  then have "cached E contents c key = None" by (simp add: cached_def)
  then have "tool_map E contents c key = None" by (simp add: tool_map_def)
  moreover have "cache_get_tool E fr t clock tool args scope asked now c = (Inr None, tool_miss c)"
    using None name by (simp add: cache_get_tool_def key tool_key_def)
  ultimately show ?thesis
    using counted_same [of "tool_miss c" c, OF _ _ _ ok] by (simp add: tool_miss_def fun_upd_idem)
next
  case (Some oid)
  note call = cache_get_tool_def name Some [unfolded key tool_key_def] get_tool_spec [OF tool_cache_okD(1) [OF ok]]
  show ?thesis
  proof (cases "tool_of E contents (tc_store c) oid")
    case None
    then have "tool_map E contents c key = None" using Some by (simp add: tool_map_def cached_def)
    moreover have "cache_get_tool E fr t clock tool args scope asked now c
        = (Inr None, tool_miss (c\<lparr>tc_index := dpop (tc_index c) key\<rparr>))"
      using None by (simp add: call key tool_key_def)
    ultimately show ?thesis
      using drop_missing [OF ok Some None]
        counted_same [of "tool_miss (c\<lparr>tc_index := dpop (tc_index c) key\<rparr>)" "c\<lparr>tc_index := dpop (tc_index c) key\<rparr>"]
        index_shrinks_pop [of "tool_miss (c\<lparr>tc_index := dpop (tc_index c) key\<rparr>)" key c]
      by (simp add: tool_miss_def)
  next
    case (Some a)
    have at: "tool_map E contents c key = Some (tool_view a)"
      using Some \<open>dget (tc_index c) key = Some oid\<close> by (simp add: tool_map_def cached_def)
    have "artifact_key a = key" using tool_cache_okD(3) [OF ok \<open>dget (tc_index c) key = Some oid\<close> Some] .
    then have scope: "ta_permission_scope a = scope" by (simp add: artifact_key_def key tool_key_def)
    note call = call Some scope
    show ?thesis
    proof (cases "version_matches asked (ta_source_version a)")
      case False
      then have "cache_get_tool E fr t clock tool args scope asked now c = (Inr None, tool_miss c)"
        by (cases asked) (auto simp: call version_matches_def)
      with at False counted_same [of "tool_miss c" c, OF _ _ _ ok] show ?thesis
        by (simp add: tool_miss_def fun_upd_idem)
    next
      case True
      show ?thesis
      proof (cases "is_expired a (tool_now clock now)")
        case False
        then have "cache_get_tool E fr t clock tool args scope asked now c
            = (Inr (Some (touched_artifact t a)), c\<lparr>tc_hits := tc_hits c + 1\<rparr>)"
          using True by (cases asked) (auto simp: call version_matches_def)
        with at True False counted_same [of "c\<lparr>tc_hits := tc_hits c + 1\<rparr>" c, OF _ _ _ ok] show ?thesis
          by (simp add: fun_upd_idem)
      next
        case expired: True
        let ?c1 = "c\<lparr>tc_index := dpop (tc_index c) key\<rparr>"
        obtain st' where del: "delete_tool_artifact E oid (tc_store c) = (Inr (tool_of E contents (tc_store c) oid \<noteq> None), st')"
          and st': "tool_cache_ok E contents (?c1\<lparr>tc_store := st'\<rparr>)"
            "tool_map E contents (?c1\<lparr>tc_store := st'\<rparr>) = (tool_map E contents c)(key := None)"
          using drop_by_delete [OF ok \<open>dget (tc_index c) key = Some oid\<close>] by auto
        let ?c' = "tool_miss (?c1\<lparr>tc_store := st', tc_expired := tc_expired ?c1 + 1\<rparr>)"
        have "cache_get_tool E fr t clock tool args scope asked now c = (Inr None, ?c')"
          using True expired del by (cases asked) (auto simp: call version_matches_def key tool_key_def)
        moreover have "tool_cache_ok E contents ?c' \<and> tool_map E contents ?c' = tool_map E contents (?c1\<lparr>tc_store := st'\<rparr>)"
          using counted_same [of ?c' "?c1\<lparr>tc_store := st'\<rparr>"] st'(1) by (simp add: tool_miss_def)
        moreover have "index_shrinks c ?c'" by (rule index_shrinks_pop [of _ key]) (simp_all add: tool_miss_def)
        ultimately show ?thesis using at True expired st'(2) by (simp add: tool_miss_def)
      qed
    qed
  qed
qed

lemma put_spec:
  assumes ok: "tool_cache_ok E contents c" and name: "normalize_tool_name tool = Inr name"
    and ttl: "0 < ttl" and ver: "\<not> (tc_require_source_version c \<and> ver = [])"
    and key: "key = tool_key E fr name args scope"
    and oid: "oid = tool_call_id (rt_digests (env_runtime E)) name (hash_args (rt_digests (env_runtime E)) fr args) scope ver"
    and alone: "\<And>k. dget (tc_index c) k = Some oid \<Longrightarrow> k = key"
  shows "\<exists>c'. cache_put_tool E fr fresh t clock tool args payload ttl scope ver now c = (Inr oid, c')
    \<and> tool_cache_ok E contents c'
    \<and> tool_map E contents c' = (tool_map E contents c)(key \<mapsto> (payload, ver, tool_now clock now + ttl))
    \<and> tc_index c' = dset (tc_index c) key oid \<and> tc_puts c' = tc_puts c + 1
    \<and> tc_require_source_version c' = tc_require_source_version c"
proof -
  let ?a = "make_artifact E fr fresh t name args payload ttl scope ver (tool_now clock now)"
  note valid = make_artifact_valid [OF ttl, of E fr fresh t name args payload scope ver "tool_now clock now"]
  have k: "artifact_key ?a = key" by (simp add: artifact_key_def key tool_key_def)
  have i: "ta_tool_call_id ?a = oid" by (simp add: oid)
  obtain st where put: "put_tool_artifact E ?a (tc_store c) = (Inr (ta_tool_call_id ?a), completed_artifact ?a, st)"
    and st: "tools_ok E contents st"
      "tool_of E contents st = (tool_of E contents (tc_store c))(ta_tool_call_id ?a \<mapsto> completed_artifact ?a)"
    using put_tool_spec [OF tool_cache_okD(1) [OF ok] valid] by blast
  have alone': "key' = artifact_key ?a" if "dget (tc_index c) key' = Some (ta_tool_call_id ?a)" for key'
    using alone [of key'] that unfolding i k by blast
  let ?p = "dget (tc_index c) key"
  obtain b st' where del: "(if ?p \<noteq> None \<and> ?p \<noteq> Some oid then delete_tool_artifact E (the ?p) st else (Inr False, st)) = (Inr b, st')"
    and c': "tool_cache_ok E contents (c\<lparr>tc_store := st', tc_index := dset (tc_index c) key oid\<rparr>)"
      "cached E contents (c\<lparr>tc_store := st', tc_index := dset (tc_index c) key oid\<rparr>) = (cached E contents c)(key \<mapsto> completed_artifact ?a)"
    using put_key [OF ok valid alone' put st refl] unfolding i k by blast
  let ?c' = "c\<lparr>tc_store := st', tc_index := dset (tc_index c) key oid, tc_puts := tc_puts c + 1\<rparr>"
  have "cache_put_tool E fr fresh t clock tool args payload ttl scope ver now c = (Inr oid, ?c')"
  proof -
    have fold: "(name, hash_args (rt_digests (env_runtime E)) fr args, scope) = key" by (simp add: key tool_key_def)
    show ?thesis
      using name ttl ver put del unfolding i
      by (cases "?p \<noteq> None \<and> ?p \<noteq> Some oid") (auto simp: cache_put_tool_def valid fold Let_def)
  qed
  moreover have "tool_cache_ok E contents ?c' \<and> cached E contents ?c' = (cached E contents c)(key \<mapsto> completed_artifact ?a)"
    using cached_cong [of ?c' "c\<lparr>tc_store := st', tc_index := dset (tc_index c) key oid\<rparr>" E contents] c' by simp
  ultimately show ?thesis by (intro exI [of _ ?c']) (simp add: tool_map_def fun_eq_iff tool_view_def)
qed

text \<open>The loops over keys of the index.\<close>

lemma invalidate_keys_spec:
  assumes "tool_cache_ok E contents c" and "distinct (map fst ks)"
    and "\<And>k oid. (k, oid) \<in> set ks \<Longrightarrow> dget (tc_index c) k = Some oid"
  shows "\<exists>m c'. invalidate_keys E ks n c = (Inr m, c') \<and> tool_cache_ok E contents c' \<and> index_shrinks c c'
    \<and> n \<le> m \<and> m \<le> n + length ks \<and> tool_map E contents c' = (\<lambda>k. if k \<in> fst ` set ks then None else tool_map E contents c k)
    \<and> (\<forall>k. dget (tc_index c') k = (if k \<in> fst ` set ks then None else dget (tc_index c) k))"
  using assms
proof (induction ks arbitrary: n c)
  case Nil
  then show ?case by (simp add: index_shrinks_refl)
next
  case (Cons p ks)
  obtain key oid where p: "p = (key, oid)" by (cases p)
  have at: "dget (tc_index c) key = Some oid" using Cons.prems(3) p by simp
  obtain st' where del: "delete_tool_artifact E oid (tc_store c) = (Inr (tool_of E contents (tc_store c) oid \<noteq> None), st')"
    and c1: "tool_cache_ok E contents (c\<lparr>tc_index := dpop (tc_index c) key, tc_store := st'\<rparr>)"
      "tool_map E contents (c\<lparr>tc_index := dpop (tc_index c) key, tc_store := st'\<rparr>) = (tool_map E contents c)(key := None)"
    using drop_by_delete [OF Cons.prems(1) at] by auto
  let ?c1 = "c\<lparr>tc_index := dpop (tc_index c) key, tc_store := st'\<rparr>"
  let ?n = "if tool_of E contents (tc_store c) oid \<noteq> None then n + 1 else n"
  have rest: "dget (tc_index ?c1) k = Some i" if "(k, i) \<in> set ks" for k i
  proof -
    have "k \<noteq> key" using Cons.prems(2) that p by force
    moreover have "dget (tc_index c) k = Some i" using Cons.prems(3) that by simp
    ultimately show ?thesis by (simp add: dget_dpop del: map_of_eq_Some_iff)
  qed
  have "distinct (map fst ks)" using Cons.prems(2) by simp
  from Cons.IH [OF c1(1) this rest, of ?n] obtain m c' where
    m: "invalidate_keys E ks ?n ?c1 = (Inr m, c')" "tool_cache_ok E contents c'" "index_shrinks ?c1 c'"
      "?n \<le> m" "m \<le> ?n + length ks" "tool_map E contents c' = (\<lambda>k. if k \<in> fst ` set ks then None else tool_map E contents ?c1 k)"
      "\<forall>k. dget (tc_index c') k = (if k \<in> fst ` set ks then None else dget (tc_index ?c1) k)" by auto
  have "index_shrinks c ?c1" by (rule index_shrinks_pop [of _ key]) simp_all
  then have "index_shrinks c c'" using m(3) index_shrinks_trans by blast
  moreover have "invalidate_keys E (p # ks) n c = (Inr m, c')" using m(1) del p by (simp add: Let_def)
  moreover have "n \<le> m \<and> m \<le> n + length (p # ks)" using m(4,5) by (simp split: if_splits)
  moreover have "tool_map E contents c' = (\<lambda>k. if k \<in> fst ` set (p # ks) then None else tool_map E contents c k)"
    unfolding m(6) c1(2) by (rule ext) (simp add: p)
  moreover have "\<forall>k. dget (tc_index c') k = (if k \<in> fst ` set (p # ks) then None else dget (tc_index c) k)"
    using m(7) p by (simp add: dget_dpop)
  ultimately show ?case using m(2) by blast
qed

lemma purge_keys_spec:
  assumes "tool_cache_ok E contents c" and "distinct (map fst ks)"
    and "\<And>k oid. (k, oid) \<in> set ks \<Longrightarrow> dget (tc_index c) k = Some oid"
  shows "\<exists>m c'. purge_keys E t now ks n c = (Inr m, c') \<and> tool_cache_ok E contents c' \<and> index_shrinks c c'
    \<and> tool_map E contents c' =
      (\<lambda>k. if k \<in> fst ` set ks then expire_entry None now (tool_map E contents c k) else tool_map E contents c k)"
  using assms
proof (induction ks arbitrary: n c)
  case Nil
  then show ?case by (simp add: index_shrinks_refl)
next
  case (Cons p ks)
  obtain key oid where p: "p = (key, oid)" by (cases p)
  have at: "dget (tc_index c) key = Some oid" using Cons.prems(3) p by simp
  have ks: "distinct (map fst ks)" "key \<notin> fst ` set ks" using Cons.prems(2) p by auto
  have fin: ?case
    if c1: "tool_cache_ok E contents c1" "index_shrinks c c1"
        "tool_map E contents c1 = (tool_map E contents c)(key := expire_entry None now (tool_map E contents c key))"
      and call: "purge_keys E t now (p # ks) n c = purge_keys E t now ks n1 c1"
      and rest: "\<And>k. k \<noteq> key \<Longrightarrow> dget (tc_index c1) k = dget (tc_index c) k" for c1 n1
  proof -
    have "dget (tc_index c1) k = Some i" if "(k, i) \<in> set ks" for k i
    proof -
      have "k \<noteq> key" using ks(2) that by force
      moreover have "dget (tc_index c) k = Some i" using Cons.prems(3) that by simp
      ultimately show ?thesis using rest by simp
    qed
    from Cons.IH [OF c1(1) ks(1) this, of n1] obtain m c' where
      m: "purge_keys E t now ks n1 c1 = (Inr m, c')" "tool_cache_ok E contents c'" "index_shrinks c1 c'"
        "tool_map E contents c' = (\<lambda>k. if k \<in> fst ` set ks then expire_entry None now (tool_map E contents c1 k) else tool_map E contents c1 k)"
      by auto
    have "tool_map E contents c' = (\<lambda>k. if k \<in> fst ` set (p # ks) then expire_entry None now (tool_map E contents c k)
        else tool_map E contents c k)"
      using m(4) c1(3) ks(2) p by (auto simp: fun_eq_iff)
    with m(1,2) call index_shrinks_trans [OF c1(2) m(3)] show ?thesis by auto
  qed
  note get = get_tool_spec [OF tool_cache_okD(1) [OF Cons.prems(1)]]
  show ?case
  proof (cases "tool_of E contents (tc_store c) oid")
    case None
    have "tool_map E contents c key = None" using None at by (simp add: tool_map_def cached_def)
    with drop_missing [OF Cons.prems(1) at None] show ?thesis
      by (intro fin [of "c\<lparr>tc_index := dpop (tc_index c) key\<rparr>" n])
        (simp_all add: p get None index_shrinks_pop [of _ key] dget_dpop)
  next
    case (Some a)
    have m: "tool_map E contents c key = Some (tool_view a)" using Some at by (simp add: tool_map_def cached_def)
    show ?thesis
    proof (cases "is_expired a now")
      case True
      obtain st' where del: "delete_tool_artifact E oid (tc_store c) = (Inr (tool_of E contents (tc_store c) oid \<noteq> None), st')"
        and c1: "tool_cache_ok E contents (c\<lparr>tc_index := dpop (tc_index c) key, tc_store := st'\<rparr>)"
          "tool_map E contents (c\<lparr>tc_index := dpop (tc_index c) key, tc_store := st'\<rparr>) = (tool_map E contents c)(key := None)"
        using drop_by_delete [OF Cons.prems(1) at] by auto
      then show ?thesis
        by (intro fin [of "c\<lparr>tc_index := dpop (tc_index c) key, tc_store := st'\<rparr>" "n + 1"])
          (simp_all add: p get Some True m version_matches_def index_shrinks_pop [of _ key] dget_dpop Let_def)
    next
      case False
      with Cons.prems(1) show ?thesis
        by (intro fin [of c n]) (simp_all add: p get Some m version_matches_def index_shrinks_refl fun_upd_idem)
    qed
  qed
qed

end

section \<open>Runs\<close>

text \<open>The operations with their arguments and the time at which they are called.\<close>

datatype tool_op =
    Put_tool string json "(string, json) dict" rat ArtifactScope string rat
  | Get_tool string json ArtifactScope "string option" rat
  | Invalidate_tools "string option" "ArtifactScope option"
  | Purge_tools rat

fun tool_apply ::
    "('s, 'h, 'a, 'b) StoreEnv \<Rightarrow> (rat \<Rightarrow> string) \<Rightarrow> tool_op \<Rightarrow> ('s, 'h) ToolArtifactCache \<Rightarrow> ('s, 'h) ToolArtifactCache" where
  "tool_apply E fr (Put_tool tool args payload ttl scope ver now) c =
     snd (cache_put_tool E fr [] now now tool args payload ttl scope ver (Some now) c)"
| "tool_apply E fr (Get_tool tool args scope asked now) c = snd (cache_get_tool E fr now now tool args scope asked (Some now) c)"
| "tool_apply E fr (Invalidate_tools tool scope) c = snd (invalidate_tool_artifacts E tool scope c)"
| "tool_apply E fr (Purge_tools now) c = snd (purge_expired E now now (Some now) c)"

text \<open>What they mean for a map from keys to entries.\<close>

fun entry_apply ::
    "('s, 'h, 'a, 'b) StoreEnv \<Rightarrow> (rat \<Rightarrow> string) \<Rightarrow> bool \<Rightarrow> tool_op \<Rightarrow> (ToolCacheKey \<rightharpoonup> ToolEntry) \<Rightarrow> (ToolCacheKey \<rightharpoonup> ToolEntry)" where
  "entry_apply E fr strict (Put_tool tool args payload ttl scope ver now) m =
     (if strip tool = [] \<or> ttl \<le> 0 \<or> (strict \<and> ver = []) then m
      else m(tool_key E fr (strip tool) args scope \<mapsto> (payload, ver, now + ttl)))"
| "entry_apply E fr strict (Get_tool tool args scope asked now) m =
     (if strip tool = [] then m
      else m(tool_key E fr (strip tool) args scope := expire_entry asked now (m (tool_key E fr (strip tool) args scope))))"
| "entry_apply E fr strict (Invalidate_tools tool scope) m =
     (if map_option strip tool = Some [] then m
      else (\<lambda>key. if key_selected (map_option strip tool) scope key then None else m key))"
| "entry_apply E fr strict (Purge_tools now) m = (\<lambda>key. expire_entry None now (m key))"

text \<open>The keys and ids that the puts of a run use.\<close>

definition put_id ::
    "('s, 'h, 'a, 'b) StoreEnv \<Rightarrow> (rat \<Rightarrow> string) \<Rightarrow> string \<Rightarrow> json \<Rightarrow> ArtifactScope \<Rightarrow> string \<Rightarrow> string" where
  "put_id E fr tool args scope ver =
     tool_call_id (rt_digests (env_runtime E)) tool (hash_args (rt_digests (env_runtime E)) fr args) scope ver"

fun put_ids :: "('s, 'h, 'a, 'b) StoreEnv \<Rightarrow> (rat \<Rightarrow> string) \<Rightarrow> tool_op list \<Rightarrow> (ToolCacheKey \<times> string) set" where
  "put_ids E fr [] = {}"
| "put_ids E fr (Put_tool tool args payload ttl scope ver now # ops) =
     insert (tool_key E fr (strip tool) args scope, put_id E fr (strip tool) args scope ver) (put_ids E fr ops)"
| "put_ids E fr (_ # ops) = put_ids E fr ops"

text \<open>No two keys share an id: the digests of the run do not collide.\<close>

definition ids_separate :: "(ToolCacheKey \<times> string) set \<Rightarrow> bool" where
  "ids_separate P \<longleftrightarrow> (\<forall>(k, i) \<in> P. \<forall>(k', i') \<in> P. i = i' \<longrightarrow> k = k')"

definition index_in :: "(ToolCacheKey \<times> string) set \<Rightarrow> ('s, 'h) ToolArtifactCache \<Rightarrow> bool" where
  "index_in P c \<longleftrightarrow> (\<forall>key oid. dget (tc_index c) key = Some oid \<longrightarrow> (key, oid) \<in> P)"

lemma index_in_shrinks: "index_in P c \<Longrightarrow> index_shrinks c c' \<Longrightarrow> index_in P c'"
  unfolding index_in_def index_shrinks_def by blast

lemma normalize_tool_name_iff:
  "strip tool \<noteq> [] \<Longrightarrow> normalize_tool_name tool = Inr (strip tool)"
  "strip tool = [] \<Longrightarrow> normalize_tool_name tool = Inl (ValueError ''tool_name must be non-empty'')"
  by (simp_all add: normalize_tool_name_def)

context codec_store
begin

lemma put_apply:
  assumes ok: "tool_cache_ok E contents c" "index_in P c" "tc_require_source_version c = strict"
    and P: "ids_separate P" "put_ids E fr [op] \<subseteq> P" and op: "op = Put_tool tool args payload ttl scope ver now"
  shows "tool_cache_ok E contents (tool_apply E fr op c) \<and> index_in P (tool_apply E fr op c)
    \<and> tc_require_source_version (tool_apply E fr op c) = strict
    \<and> tool_map E contents (tool_apply E fr op c) = entry_apply E fr strict op (tool_map E contents c)"
proof (cases "strip tool = [] \<or> ttl \<le> 0 \<or> (strict \<and> ver = [])")
  case True
  then have "tool_apply E fr op c = c"
    using ok(3) by (auto simp: op cache_put_tool_def normalize_tool_name_def)
  with True ok show ?thesis by (simp add: op)
next
  case False
  let ?key = "tool_key E fr (strip tool) args scope" and ?i = "put_id E fr (strip tool) args scope ver"
  have mem: "(?key, ?i) \<in> P" using P(2) by (simp add: op)
  have alone: "k = ?key" if "dget (tc_index c) k = Some ?i" for k
    using that ok(2) mem P(1) unfolding index_in_def ids_separate_def by blast
  from False have cond: "normalize_tool_name tool = Inr (strip tool)" "0 < ttl"
    "\<not> (tc_require_source_version c \<and> ver = [])" using ok(3) by (auto simp: normalize_tool_name_iff)
  obtain c' where c': "cache_put_tool E fr [] now now tool args payload ttl scope ver (Some now) c = (Inr ?i, c')"
    "tool_cache_ok E contents c'" "tool_map E contents c' = (tool_map E contents c)(?key \<mapsto> (payload, ver, tool_now now (Some now) + ttl))"
    "tc_index c' = dset (tc_index c) ?key ?i" "tc_require_source_version c' = tc_require_source_version c"
    using put_spec [OF ok(1) cond refl refl alone [unfolded put_id_def]] unfolding put_id_def by blast
  have "index_in P c'"
    using ok(2) mem unfolding index_in_def c'(4) by (simp add: dget_dset del: map_of_eq_Some_iff)
  moreover have "entry_apply E fr strict op m = m(?key \<mapsto> (payload, ver, now + ttl))" for m
    unfolding op entry_apply.simps if_not_P [OF False] by (rule refl)
  ultimately show ?thesis using c' ok(3) by (simp add: op tool_now_def)
qed

lemma get_apply:
  assumes ok: "tool_cache_ok E contents c" "index_in P c" "tc_require_source_version c = strict"
    and op: "op = Get_tool tool args scope asked now"
  shows "tool_cache_ok E contents (tool_apply E fr op c) \<and> index_in P (tool_apply E fr op c)
    \<and> tc_require_source_version (tool_apply E fr op c) = strict
    \<and> tool_map E contents (tool_apply E fr op c) = entry_apply E fr strict op (tool_map E contents c)"
proof (cases "strip tool = []")
  case True
  with ok show ?thesis by (simp add: op cache_get_tool_def normalize_tool_name_iff)
next
  case False
  from get_spec [OF ok(1) normalize_tool_name_iff(1) [OF False] refl, of fr now now args scope asked "Some now"] obtain r c' where
    "cache_get_tool E fr now now tool args scope asked (Some now) c = (Inr r, c')" "tool_cache_ok E contents c'" "index_shrinks c c'"
    "tool_map E contents c' = (tool_map E contents c)(tool_key E fr (strip tool) args scope :=
       expire_entry asked (tool_now now (Some now)) (tool_map E contents c (tool_key E fr (strip tool) args scope)))" by blast
  with False ok index_in_shrinks [OF ok(2)] show ?thesis by (simp add: op tool_now_def index_shrinks_def)
qed

lemma cached_unindexed: "dget (tc_index c) key = None \<Longrightarrow> tool_map E contents c key = None"
  by (simp add: tool_map_def cached_def)

lemma invalidate_apply:
  assumes ok: "tool_cache_ok E contents c" "index_in P c" "tc_require_source_version c = strict"
    and op: "op = Invalidate_tools tool scope"
  shows "tool_cache_ok E contents (tool_apply E fr op c) \<and> index_in P (tool_apply E fr op c)
    \<and> tc_require_source_version (tool_apply E fr op c) = strict
    \<and> tool_map E contents (tool_apply E fr op c) = entry_apply E fr strict op (tool_map E contents c)"
proof (cases "map_option strip tool = Some []")
  case True
  with ok show ?thesis by (auto simp: op invalidate_tool_artifacts_def normalize_tool_name_iff)
next
  case False
  let ?t = "map_option strip tool"
  let ?ks = "filter (\<lambda>(key, oid). key_selected ?t scope key) (tc_index c)"
  have dwf: "dwf (tc_index c)" using tool_cache_okD(2) [OF ok(1)] .
  have ks: "distinct (map fst ?ks)" using dwf by (rule distinct_map_filter)
  have at: "dget (tc_index c) k = Some i" if "(k, i) \<in> set ?ks" for k i using that dwf by simp
  obtain m c' where m: "invalidate_keys E ?ks 0 c = (Inr m, c')" "tool_cache_ok E contents c'" "index_shrinks c c'"
    "tool_map E contents c' = (\<lambda>k. if k \<in> fst ` set ?ks then None else tool_map E contents c k)"
    using invalidate_keys_spec [OF ok(1) ks at, of 0] by blast
  have "(case tool of None \<Rightarrow> Inr None | Some n \<Rightarrow> map_sum id Some (normalize_tool_name n)) = Inr ?t"
    using False by (cases tool) (simp_all add: normalize_tool_name_iff)
  then have call: "tool_apply E fr op c = c'\<lparr>tc_invalidated := tc_invalidated c' + m\<rparr>"
    using m(1) by (simp add: op invalidate_tool_artifacts_def)
  have "tool_map E contents c k = None" if "key_selected ?t scope k" "k \<notin> fst ` set ?ks" for k
  proof (rule cached_unindexed)
    show "dget (tc_index c) k = None" unfolding map_of_eq_None_iff using that by force
  qed
  moreover have "key_selected ?t scope k" if "k \<in> fst ` set ?ks" for k using that by auto
  ultimately have "tool_map E contents c' = (\<lambda>k. if key_selected ?t scope k then None else tool_map E contents c k)"
    unfolding m(4) by (intro ext) meson
  moreover have "tool_map E contents (tool_apply E fr op c) = tool_map E contents c' \<and> tool_cache_ok E contents (tool_apply E fr op c)"
    using counted_same [of "tool_apply E fr op c" c'] m(2) by (simp add: call)
  moreover have "index_in P (tool_apply E fr op c) \<and> tc_require_source_version (tool_apply E fr op c) = strict"
    using index_in_shrinks [OF ok(2) m(3)] m(3) ok(3) by (simp add: call index_in_def index_shrinks_def)
  moreover have "entry_apply E fr strict op m = (\<lambda>k. if key_selected ?t scope k then None else m k)" for m
    unfolding op entry_apply.simps if_not_P [OF False] by (rule refl)
  ultimately show ?thesis by simp
qed

lemma purge_apply:
  assumes ok: "tool_cache_ok E contents c" "index_in P c" "tc_require_source_version c = strict"
    and op: "op = Purge_tools now"
  shows "tool_cache_ok E contents (tool_apply E fr op c) \<and> index_in P (tool_apply E fr op c)
    \<and> tc_require_source_version (tool_apply E fr op c) = strict
    \<and> tool_map E contents (tool_apply E fr op c) = entry_apply E fr strict op (tool_map E contents c)"
proof -
  have dwf: "dwf (tc_index c)" using tool_cache_okD(2) [OF ok(1)] .
  have at: "dget (tc_index c) k = Some i" if "(k, i) \<in> set (tc_index c)" for k i using that dwf by simp
  obtain m c' where m: "purge_keys E now (tool_now now (Some now)) (tc_index c) 0 c = (Inr m, c')" "tool_cache_ok E contents c'"
    "index_shrinks c c'" "tool_map E contents c' = (\<lambda>k. if k \<in> fst ` set (tc_index c)
       then expire_entry None (tool_now now (Some now)) (tool_map E contents c k) else tool_map E contents c k)"
    using purge_keys_spec [OF ok(1) dwf at, of now "tool_now now (Some now)" 0] by blast
  have call: "tool_apply E fr op c = c'\<lparr>tc_purged := tc_purged c' + m\<rparr>" using m(1) by (simp add: op purge_expired_def)
  have "tool_map E contents c k = None" if "k \<notin> fst ` set (tc_index c)" for k
    by (rule cached_unindexed) (use that in \<open>simp add: map_of_eq_None_iff\<close>)
  then have "tool_map E contents c' = (\<lambda>k. expire_entry None now (tool_map E contents c k))"
    unfolding m(4) by (auto simp: tool_now_def)
  moreover have "tool_map E contents (tool_apply E fr op c) = tool_map E contents c' \<and> tool_cache_ok E contents (tool_apply E fr op c)"
    using counted_same [of "tool_apply E fr op c" c'] m(2) by (simp add: call)
  moreover have "index_in P (tool_apply E fr op c) \<and> tc_require_source_version (tool_apply E fr op c) = strict"
    using index_in_shrinks [OF ok(2) m(3)] m(3) ok(3) by (simp add: call index_in_def index_shrinks_def)
  ultimately show ?thesis by (simp add: op)
qed

lemma tool_run:
  assumes "tool_cache_ok E contents c" and "index_in P c" and "tc_require_source_version c = strict"
    and "ids_separate P" and "put_ids E fr ops \<subseteq> P"
  shows "tool_cache_ok E contents (fold (tool_apply E fr) ops c)
    \<and> tool_map E contents (fold (tool_apply E fr) ops c) = fold (entry_apply E fr strict) ops (tool_map E contents c)"
  using assms
proof (induction ops arbitrary: c)
  case Nil
  then show ?case by simp
next
  case (Cons op ops)
  have sub: "put_ids E fr [op] \<subseteq> P" "put_ids E fr ops \<subseteq> P" using Cons.prems(5) by (cases op; simp)+
  have "tool_cache_ok E contents (tool_apply E fr op c) \<and> index_in P (tool_apply E fr op c)
      \<and> tc_require_source_version (tool_apply E fr op c) = strict
      \<and> tool_map E contents (tool_apply E fr op c) = entry_apply E fr strict op (tool_map E contents c)"
  proof (cases op)
    case Put_tool
    then show ?thesis by (rule put_apply [OF Cons.prems(1-4) sub(1)])
  next
    case Get_tool
    then show ?thesis by (rule get_apply [OF Cons.prems(1-3)])
  next
    case Invalidate_tools
    then show ?thesis by (rule invalidate_apply [OF Cons.prems(1-3)])
  next
    case Purge_tools
    then show ?thesis by (rule purge_apply [OF Cons.prems(1-3)])
  qed
  with Cons.IH [of "tool_apply E fr op c"] Cons.prems(4) sub(2) show ?case by simp
qed

end

lemma fresh_tool_cache:
  assumes "fresh_store contents st"
  shows "tool_cache_ok E contents (tool_cache_init st strict) \<and> tool_map E contents (tool_cache_init st strict) = Map.empty"
  using fresh_indexed [OF assms, of E] assms
  by (simp add: tool_cache_ok_def tools_ok_def tool_cache_init_def fresh_store_def stored_meta_def tool_map_def cached_def)

lemma distinct_map_sort_fst: "distinct (map fst (sort_key fst xs)) = distinct (map fst xs)"
  by (simp add: distinct_map)

text \<open>Digits of a float that is an integer, for the examples.\<close>

definition int_str_of_rat :: "rat \<Rightarrow> string" where
  "int_str_of_rat q = int_str \<lfloor>q\<rfloor> @ ''.0''"

lemma empty_metadata_knows_nothing: "\<not> might_exist R oid empty_metadata"
  unfolding might_exist_def empty_metadata_def by (simp add: bloom_new_rejects)

section \<open>Properties\<close>

text \<open>C30: Over a store on a backend that never raises, from an empty one, and as long as no two of the keys that are put share an artifact
  id (\<open>tool_call_id_ambiguous\<close> gives two that do), the cache is a map with expiry: after any sequence of puts, gets, invalidations
  and purges, a get of a tool with a name finds exactly the entry that was last put under the tool, arguments and scope and has been neither
  invalidated nor purged, provided it has not expired and has the version asked for.\<close>

theorem tool_cache_refines_map:
  assumes "codec_store E contents" and "fresh_store contents st"
    and "ids_separate (put_ids E fr ops)" and "strip tool \<noteq> []"
  shows "\<exists>r c'. cache_get_tool E fr t clock tool args scope asked (Some now)
      (fold (tool_apply E fr) ops (tool_cache_init st strict)) = (Inr r, c')
    \<and> map_option tool_view r =
        lookup_entry asked now (fold (entry_apply E fr strict) ops Map.empty (tool_key E fr (strip tool) args scope))"
proof -
  have start: "index_in (put_ids E fr ops) (tool_cache_init st strict)" "tc_require_source_version (tool_cache_init st strict) = strict"
    by (simp_all add: index_in_def tool_cache_init_def)
  have run: "tool_cache_ok E contents (fold (tool_apply E fr) ops (tool_cache_init st strict))"
    "tool_map E contents (fold (tool_apply E fr) ops (tool_cache_init st strict)) = fold (entry_apply E fr strict) ops Map.empty"
    using codec_store.tool_run [OF assms(1) _ start assms(3) order_refl] fresh_tool_cache [OF assms(2), of E strict] by simp_all
  show ?thesis
    using codec_store.get_spec [OF assms(1) run(1) normalize_tool_name_iff(1) [OF assms(4)] refl,
        of fr t clock args scope asked "Some now"] unfolding run(2) by (auto simp: tool_now_def)
qed

lemma tool_cache_refines_map_witness:
  "\<exists>a c'. cache_get_tool sample_env int_str_of_rat 3 3 ''search'' JNull SESSION None (Some 3)
     (fold (tool_apply sample_env int_str_of_rat) [Put_tool '' search'' JNull [(''answer'', JInt 1)] 10 SESSION ''v1'' 0]
        (tool_cache_init sample_store False)) = (Inr (Some a), c') \<and> tool_view a = ([(''answer'', JInt 1)], ''v1'', 10)"
proof -
  let ?op = "Put_tool '' search'' JNull [(''answer'', JInt 1)] 10 SESSION ''v1'' 0"
  have s: "strip ''search'' = ''search''" "strip '' search'' = ''search''" by code_simp+
  have "ids_separate (put_ids sample_env int_str_of_rat [?op])" by (simp add: ids_separate_def)
  from tool_cache_refines_map [OF sample_codec_store sample_fresh this, of "''search''" 3 3 JNull SESSION None 3 False]
  show ?thesis by (auto simp: s lookup_entry_def version_matches_def)
qed

text \<open>On any backend and in any state, what a get answers is not expired, has the scope asked for and the version asked
  for, and every get that returns is counted as one hit or as one miss.\<close>

theorem tool_get_never_stale:
  assumes "cache_get_tool E fr t clock tool args scope asked now c = (Inr r, c')"
  shows "(\<forall>a. r = Some a \<longrightarrow> \<not> is_expired a (tool_now clock now) \<and> ta_permission_scope a = scope
        \<and> version_matches asked (ta_source_version a))
    \<and> tc_hits c' = tc_hits c + (if r = None then 0 else 1) \<and> tc_misses c' = tc_misses c + (if r = None then 1 else 0)"
  using assms
  by (cases asked) (auto simp: cache_get_tool_def Let_def tool_miss_def version_matches_def
      split: sum.splits option.splits prod.splits if_splits)

lemma tool_get_never_stale_witness:
  "tc_misses (snd (cache_get_tool sample_env int_str_of_rat 3 3 ''search'' JNull SESSION None None (tool_cache_init sample_store False))) = 1"
proof -
  have "strip ''search'' = ''search''" by code_simp
  then have "cache_get_tool sample_env int_str_of_rat 3 3 ''search'' JNull SESSION None None (tool_cache_init sample_store False)
      = (Inr None, tool_miss (tool_cache_init sample_store False))"
    by (simp add: cache_get_tool_def normalize_tool_name_def tool_cache_init_def)
  from tool_get_never_stale [OF this] this show ?thesis by (simp add: tool_cache_init_def)
qed

text \<open>With a Bloom filter that knows no object, as after a restart of the process, rebuilding the index finds nothing, whatever
  artifacts are stored: the index stays empty, and expired artifacts stay too.\<close>

theorem rebuild_needs_filter:
  assumes "\<forall>oid. \<not> might_exist (env_runtime E) oid (os_metadata (tc_store c))"
    and "list_tool_artifacts E (tc_store c) = Inr ids"
  shows "rebuild_index E t clock now c = (Inr 0, c\<lparr>tc_index := []\<rparr>)"
proof -
  have none: "get_tool_artifact E t oid (tc_store c) = Inr None" for oid
    using assms(1) by (simp add: get_tool_artifact_def get_meta_object_def)
  have "rebuild_from E t time ids n (c\<lparr>tc_index := []\<rparr>) = (Inr n, c\<lparr>tc_index := []\<rparr>)" for n time
    by (induction ids) (simp_all add: none)
  with assms(2) show ?thesis by (simp add: rebuild_index_def)
qed

lemma rebuild_needs_filter_witness:
  "\<exists>st. get_tool_artifact sample_env 3 ''call'' st = Inr (Some (touched_artifact 3 (completed_artifact (sample_tool ''call''))))
     \<and> rebuild_index sample_env 3 3 None (tool_cache_init (st\<lparr>os_metadata := empty_metadata\<rparr>) False)
         = (Inr 0, tool_cache_init (st\<lparr>os_metadata := empty_metadata\<rparr>) False)"
proof -
  have ok: "tools_ok sample_env memory_contents sample_store"
    using fresh_tool_cache [OF sample_fresh, of sample_env False] by (simp add: tool_cache_ok_def tool_cache_init_def)
  have id: "ta_tool_call_id (sample_tool ''call'') = ''call''" by (simp add: sample_tool_def)
  have "validate_tool_artifact (sample_tool ''call'') = Inr (sample_tool ''call'')"
    by (simp add: validate_tool_artifact_def validate_ttl_def validate_expiration_def sample_tool_def)
  from codec_store.put_tool_spec [OF sample_codec_store ok this] obtain st where
    st: "tools_ok sample_env memory_contents st"
      "tool_of sample_env memory_contents st = (tool_of sample_env memory_contents sample_store)(''call'' \<mapsto> completed_artifact (sample_tool ''call''))"
    unfolding id by blast
  let ?c = "tool_cache_init (st\<lparr>os_metadata := empty_metadata\<rparr>) False"
  have empty: "\<not> might_exist (env_runtime sample_env) oid (os_metadata (tc_store ?c))" for oid
    using empty_metadata_knows_nothing by (simp add: tool_cache_init_def)
  obtain ids where "list_tool_artifacts sample_env (tc_store ?c) = Inr ids"
    by (simp add: list_tool_artifacts_def list_ids_def memory_list_keys_def)
  from rebuild_needs_filter [OF _ this, of 3 3 None] empty
  have "rebuild_index sample_env 3 3 None ?c = (Inr 0, ?c)" by (simp add: tool_cache_init_def)
  moreover have "get_tool_artifact sample_env 3 ''call'' st = Inr (Some (touched_artifact 3 (completed_artifact (sample_tool ''call''))))"
    using codec_store.get_tool_spec [OF sample_codec_store st(1)] st(2) by simp
  ultimately show ?thesis by blast
qed

text \<open>Arguments hash alike whatever the order in which their entries were inserted.\<close>

theorem hash_args_ignores_order:
  assumes "dwf d" and "dwf d'" and "set d = set d'"
  shows "hash_args D fr (JDict d) = hash_args D fr (JDict d')"
proof -
  let ?f = "\<lambda>(k, v). (k, json_string k @ '':'' @ json_dumps fr v)"
  have keys: "map fst (map ?f d) = dkeys d" "map fst (map ?f d') = dkeys d'" by (simp_all add: case_prod_unfold)
  have dist: "distinct (map fst (sort_key fst (map ?f d)))" "distinct (map fst (sort_key fst (map ?f d')))"
    unfolding distinct_map_sort_fst keys by (rule assms(1), rule assms(2))
  have "set (map ?f d) = set (map ?f d')" using assms(3) by simp
  moreover have "inj_on fst (set (map ?f d))"
  proof -
    have "distinct (map fst (map ?f d))" unfolding keys by (rule assms(1))
    then show ?thesis unfolding distinct_map [of fst] by (rule conjunct2)
  qed
  ultimately have "inj_on fst (set (sort_key fst (map ?f d)) \<union> set (sort_key fst (map ?f d')))"
    and "set (sort_key fst (map ?f d)) = set (sort_key fst (map ?f d'))" unfolding set_sort by auto
  then have "sort_key fst (map ?f d) = sort_key fst (map ?f d')"
    by (rule map_sorted_distinct_set_unique [OF _ sorted_sort_key dist(1) sorted_sort_key dist(2)])
  then show ?thesis by (simp add: hash_args_def)
qed

lemma hash_args_ignores_order_witness:
  "hash_args sample_digests int_str_of_rat (JDict [(''a'', JInt 1), (''b'', JNull)])
     = hash_args sample_digests int_str_of_rat (JDict [(''b'', JNull), (''a'', JInt 1)])"
  by (rule hash_args_ignores_order) auto

end
