(* ===== verification/PlanCache.thy ===== *)
theory PlanCache
  imports StoreProps Embeddings
begin

text \<open>
  The cache of plan templates of \<^verbatim>\<open>src/l3store/agent/plan_cache.py\<close>: plans are entries of the object
  store, found through an HNSW index of its own over the embeddings of their task descriptions, and
  answered only when their tools and constraints are those of the caller.  The state holds the store,
  the embedding service and the index.  The lemmas say what a search may answer, that a plan put can be
  read and validates, and which plans the constructor loads.
\<close>

section \<open>State\<close>

record PlanCacheCandidate =
  pc_plan_id :: string
  pc_plan_template :: string
  pc_similarity :: rat
  pc_required_tools :: "string list"
  pc_constraints :: "(string, string) dict"

record PlanAdaptationResult =
  pa_plan_id :: string
  pa_plan_template :: string
  pa_adapted_template :: string
  pa_context :: "(string, string) dict"

record ('s, 'h, 'e) PlanCacheManager =
  pm_store :: "('s, 'h) UnifiedObjectStore"
  pm_embeddings :: 'e
  pm_threshold :: rat
  pm_index :: "'h HNSWIndex"
  pm_puts :: nat
  pm_searches :: nat
  pm_hits :: nat
  pm_validations :: nat
  pm_validation_failures :: nat
  pm_deleted :: nat

definition normalize_tools :: "string list \<Rightarrow> string list" where
  "normalize_tools tools = sort (dedupe (filter (\<lambda>t. t \<noteq> []) (map strip tools)))"

section \<open>The index\<close>

text \<open>\<^verbatim>\<open>self._index.add\<close> and \<^verbatim>\<open>self._index.remove\<close> on the manager.\<close>

definition plan_index_add ::
    "('s, 'h, 'a, 'b) StoreEnv \<Rightarrow> string \<Rightarrow> 'a \<Rightarrow> ('s, 'h, 'e) PlanCacheManager \<Rightarrow> unit res \<times> ('s, 'h, 'e) PlanCacheManager" where
  "plan_index_add E plan_id embedding m =
     (case hnsw_add (rt_numpy (env_runtime E)) (rt_hnsw (env_runtime E)) plan_id embedding (pm_index m) of
        (r, x) \<Rightarrow> (r, m\<lparr>pm_index := x\<rparr>))"

definition plan_index_remove ::
    "('s, 'h, 'a, 'b) StoreEnv \<Rightarrow> string \<Rightarrow> ('s, 'h, 'e) PlanCacheManager \<Rightarrow> bool res \<times> ('s, 'h, 'e) PlanCacheManager" where
  "plan_index_remove E plan_id m =
     (case hnsw_remove (rt_hnsw (env_runtime E)) plan_id (pm_index m) of
        (r, x) \<Rightarrow> (r, m\<lparr>pm_index := x\<rparr>))"

fun load_plans ::
    "('s, 'h, 'a, 'b) StoreEnv \<Rightarrow> rat \<Rightarrow> string list \<Rightarrow> ('s, 'h, 'e) PlanCacheManager \<Rightarrow> unit res \<times> ('s, 'h, 'e) PlanCacheManager" where
  "load_plans E t [] m = (Inr (), m)"
| "load_plans E t (plan_id # rest) m =
     (case get_plan_cache_entry E t plan_id (pm_store m) of
        Inl e \<Rightarrow> (Inl e, m)
      | Inr None \<Rightarrow> load_plans E t rest m
      | Inr (Some (entry, embedding)) \<Rightarrow>
          (case plan_index_add E plan_id embedding m of
             (Inl e, m') \<Rightarrow> (Inl e, m')
           | (Inr _, m') \<Rightarrow> load_plans E t rest m'))"

definition load_existing_plans ::
    "('s, 'h, 'a, 'b) StoreEnv \<Rightarrow> rat \<Rightarrow> ('s, 'h, 'e) PlanCacheManager \<Rightarrow> unit res \<times> ('s, 'h, 'e) PlanCacheManager" where
  "load_existing_plans E t m =
     (case list_plan_cache_entries E (pm_store m) of
        Inl e \<Rightarrow> (Inl e, m)
      | Inr ids \<Rightarrow> load_plans E t ids m)"

definition plan_cache_init ::
    "('s, 'h, 'a, 'b) StoreEnv \<Rightarrow> ('e, 'a) EmbeddingService \<Rightarrow> rat \<Rightarrow> ('s, 'h) UnifiedObjectStore \<Rightarrow> 'e
       \<Rightarrow> rat \<Rightarrow> int \<Rightarrow> ('s, 'h, 'e) PlanCacheManager res" where
  "plan_cache_init E S t st emb similarity_threshold max_elements =
     (if \<not> (0 \<le> similarity_threshold \<and> similarity_threshold \<le> 1)
      then Inl (ValueError ''similarity_threshold must be in [0, 1]'')
      else case hnsw_init (rt_hnsw (env_runtime E)) (em_dimension S emb) max_elements of
             Inl e \<Rightarrow> Inl e
           | Inr x \<Rightarrow>
               (case load_existing_plans E t \<lparr>pm_store = st, pm_embeddings = emb, pm_threshold = similarity_threshold,
                       pm_index = x, pm_puts = 0, pm_searches = 0, pm_hits = 0, pm_validations = 0,
                       pm_validation_failures = 0, pm_deleted = 0\<rparr> of
                  (Inl e, _) \<Rightarrow> Inl e
                | (Inr _, m) \<Rightarrow> Inr m))"

section \<open>Putting\<close>

text \<open>The new entry; its plan id and its metadata record have fresh ids.\<close>

definition new_plan ::
    "string \<Rightarrow> string \<Rightarrow> rat \<Rightarrow> string \<Rightarrow> string list \<Rightarrow> (string, string) dict \<Rightarrow> ArtifactScope \<Rightarrow> PlanCacheEntry" where
  "new_plan fresh_meta fresh_plan t plan_template tools cs scope = \<lparr>
     pl_meta = new_meta fresh_meta t PLAN_CACHE, pl_plan_id = fresh_plan, pl_task_embedding_dim = 0,
     pl_plan_template = plan_template, pl_required_tools = normalize_tools tools, pl_constraints = cs,
     pl_success_count = 0, pl_failure_count = 0, pl_last_validated_at = None, pl_validity_scope = scope\<rparr>"

definition put_plan ::
    "('s, 'h, 'a, 'b) StoreEnv \<Rightarrow> ('e, 'a) EmbeddingService \<Rightarrow> string \<Rightarrow> string \<Rightarrow> rat \<Rightarrow> string \<Rightarrow> string
       \<Rightarrow> string list option \<Rightarrow> (string, string) dict option \<Rightarrow> ArtifactScope \<Rightarrow> ('s, 'h, 'e) PlanCacheManager
       \<Rightarrow> string res \<times> ('s, 'h, 'e) PlanCacheManager" where
  "put_plan E S fresh_meta fresh_plan t task_description plan_template tools cs scope m =
     (if strip task_description = [] then (Inl (ValueError ''task_description must be non-empty''), m)
      else if strip plan_template = [] then (Inl (ValueError ''plan_template must be non-empty''), m)
      else case em_embed S task_description (pm_embeddings m) of
             (Inl e, emb) \<Rightarrow> (Inl e, m\<lparr>pm_embeddings := emb\<rparr>)
           | (Inr embedding, emb) \<Rightarrow>
               (let m1 = m\<lparr>pm_embeddings := emb\<rparr>;
                    entry = new_plan fresh_meta fresh_plan t plan_template (case tools of None \<Rightarrow> [] | Some ts \<Rightarrow> ts)
                      (case cs of None \<Rightarrow> [] | Some d \<Rightarrow> d) scope
                in case put_plan_cache_entry E entry embedding (pm_store m1) of
                     (Inl e, _, st) \<Rightarrow> (Inl e, m1\<lparr>pm_store := st\<rparr>)
                   | (Inr plan_id, _, st) \<Rightarrow>
                       (case plan_index_add E plan_id embedding (m1\<lparr>pm_store := st\<rparr>) of
                          (Inl e, m2) \<Rightarrow> (Inl e, m2)
                        | (Inr _, m2) \<Rightarrow> (Inr plan_id, m2\<lparr>pm_puts := pm_puts m2 + 1\<rparr>))))"

section \<open>Validating and searching\<close>

definition plan_matches :: "PlanCacheEntry \<Rightarrow> string list \<Rightarrow> (string, string) dict \<Rightarrow> bool" where
  "plan_matches entry required_tools cs \<longleftrightarrow>
     normalize_tools (pl_required_tools entry) = normalize_tools required_tools \<and> dict_eq (pl_constraints entry) cs"

text \<open>\<^verbatim>\<open>validate_plan\<close> with its \<^verbatim>\<open>entry\<close> given or read from the store.\<close>

definition validate_plan ::
    "('s, 'h, 'a, 'b) StoreEnv \<Rightarrow> rat \<Rightarrow> string \<Rightarrow> string list option \<Rightarrow> (string, string) dict option
       \<Rightarrow> PlanCacheEntry option \<Rightarrow> ('s, 'h, 'e) PlanCacheManager \<Rightarrow> bool res \<times> ('s, 'h, 'e) PlanCacheManager" where
  "validate_plan E t plan_id required_tools cs entry m =
     (let m1 = m\<lparr>pm_validations := pm_validations m + 1\<rparr>
      in case (case entry of
                 Some x \<Rightarrow> Inr (Some x)
               | None \<Rightarrow> map_sum id (map_option fst) (get_plan_cache_entry E t plan_id (pm_store m1))) of
           Inl e \<Rightarrow> (Inl e, m1)
         | Inr None \<Rightarrow> (Inr False, m1\<lparr>pm_validation_failures := pm_validation_failures m1 + 1\<rparr>)
         | Inr (Some loaded_entry) \<Rightarrow>
             (let valid = plan_matches loaded_entry (case required_tools of None \<Rightarrow> [] | Some ts \<Rightarrow> ts)
                            (case cs of None \<Rightarrow> [] | Some d \<Rightarrow> d)
              in (Inr valid, if valid then m1
                             else m1\<lparr>pm_validation_failures := pm_validation_failures m1 + 1\<rparr>)))"

fun plan_candidates ::
    "('s, 'h, 'a, 'b) StoreEnv \<Rightarrow> rat \<Rightarrow> string list \<Rightarrow> (string, string) dict \<Rightarrow> (string \<times> rat) list
       \<Rightarrow> PlanCacheCandidate list \<Rightarrow> ('s, 'h, 'e) PlanCacheManager
       \<Rightarrow> PlanCacheCandidate list res \<times> ('s, 'h, 'e) PlanCacheManager" where
  "plan_candidates E t tools cs [] acc m = (Inr acc, m)"
| "plan_candidates E t tools cs ((plan_id, similarity) # rest) acc m =
     (case get_plan_cache_entry E t plan_id (pm_store m) of
        Inl e \<Rightarrow> (Inl e, m)
      | Inr None \<Rightarrow>
          (case plan_index_remove E plan_id m of
             (Inl e, m') \<Rightarrow> (Inl e, m')
           | (Inr _, m') \<Rightarrow> plan_candidates E t tools cs rest acc m')
      | Inr (Some (entry, _)) \<Rightarrow>
          (case validate_plan E t plan_id (Some tools) (Some cs) (Some entry) m of
             (Inl e, m') \<Rightarrow> (Inl e, m')
           | (Inr valid, m') \<Rightarrow>
               plan_candidates E t tools cs rest
                 (if valid then acc @ [\<lparr>pc_plan_id = plan_id, pc_plan_template = pl_plan_template entry,
                     pc_similarity = similarity, pc_required_tools = pl_required_tools entry,
                     pc_constraints = pl_constraints entry\<rparr>] else acc) m'))"

definition search_similar_plans ::
    "('s, 'h, 'a, 'b) StoreEnv \<Rightarrow> ('e, 'a) EmbeddingService \<Rightarrow> rat \<Rightarrow> string \<Rightarrow> int \<Rightarrow> string list option
       \<Rightarrow> (string, string) dict option \<Rightarrow> rat option \<Rightarrow> ('s, 'h, 'e) PlanCacheManager
       \<Rightarrow> PlanCacheCandidate list res \<times> ('s, 'h, 'e) PlanCacheManager" where
  "search_similar_plans E S t task_description top_k required_tools cs threshold m =
     (if top_k \<le> 0 then (Inr [], m)
      else if strip task_description = [] then (Inl (ValueError ''task_description must be non-empty''), m)
      else (let m1 = m\<lparr>pm_searches := pm_searches m + 1\<rparr>
            in case em_embed S task_description (pm_embeddings m1) of
                 (Inl e, emb) \<Rightarrow> (Inl e, m1\<lparr>pm_embeddings := emb\<rparr>)
               | (Inr query_embedding, emb) \<Rightarrow>
                   (let m2 = m1\<lparr>pm_embeddings := emb\<rparr>
                    in case hnsw_search (rt_numpy (env_runtime E)) (rt_hnsw (env_runtime E)) query_embedding top_k
                              (case threshold of None \<Rightarrow> pm_threshold m2 | Some x \<Rightarrow> x) (pm_index m2) of
                         Inl e \<Rightarrow> (Inl e, m2)
                       | Inr matches \<Rightarrow>
                           (case plan_candidates E t (normalize_tools (case required_tools of None \<Rightarrow> [] | Some ts \<Rightarrow> ts))
                                   (case cs of None \<Rightarrow> [] | Some d \<Rightarrow> d) matches [] m2 of
                              (Inl e, m3) \<Rightarrow> (Inl e, m3)
                            | (Inr candidates, m3) \<Rightarrow>
                                (Inr candidates, if candidates = [] then m3 else m3\<lparr>pm_hits := pm_hits m3 + 1\<rparr>)))))"

section \<open>Adapting, recording, deleting\<close>

definition adapt_plan ::
    "('s, 'h, 'a, 'b) StoreEnv \<Rightarrow> rat \<Rightarrow> string \<Rightarrow> (string, string) dict option \<Rightarrow> ('s, 'h, 'e) PlanCacheManager
       \<Rightarrow> PlanAdaptationResult option res" where
  "adapt_plan E t plan_id current_context m =
     map_sum id (map_option (\<lambda>(entry, _). \<lparr>pa_plan_id = plan_id, pa_plan_template = pl_plan_template entry,
         pa_adapted_template = pl_plan_template entry,
         pa_context = (case current_context of None \<Rightarrow> [] | Some d \<Rightarrow> d)\<rparr>))
       (get_plan_cache_entry E t plan_id (pm_store m))"

definition record_plan_result ::
    "('s, 'h, 'a, 'b) StoreEnv \<Rightarrow> rat \<Rightarrow> string \<Rightarrow> bool \<Rightarrow> ('s, 'h, 'e) PlanCacheManager
       \<Rightarrow> bool res \<times> ('s, 'h, 'e) PlanCacheManager" where
  "record_plan_result E t plan_id success m =
     (case get_plan_cache_entry E t plan_id (pm_store m) of
        Inl e \<Rightarrow> (Inl e, m)
      | Inr None \<Rightarrow> (Inr False, m)
      | Inr (Some (entry, embedding)) \<Rightarrow>
          (let entry' = (if success then entry\<lparr>pl_success_count := pl_success_count entry + 1\<rparr>
                         else entry\<lparr>pl_failure_count := pl_failure_count entry + 1\<rparr>)
           in case plan_index_remove E plan_id m of
                (Inl e, m1) \<Rightarrow> (Inl e, m1)
              | (Inr _, m1) \<Rightarrow>
                  (case put_plan_cache_entry E entry' embedding (pm_store m1) of
                     (Inl e, _, st) \<Rightarrow> (Inl e, m1\<lparr>pm_store := st\<rparr>)
                   | (Inr _, _, st) \<Rightarrow>
                       (case plan_index_add E plan_id embedding (m1\<lparr>pm_store := st\<rparr>) of
                          (Inl e, m2) \<Rightarrow> (Inl e, m2)
                        | (Inr _, m2) \<Rightarrow> (Inr True, m2)))))"

definition delete_plan ::
    "('s, 'h, 'a, 'b) StoreEnv \<Rightarrow> rat \<Rightarrow> string \<Rightarrow> ('s, 'h, 'e) PlanCacheManager
       \<Rightarrow> bool res \<times> ('s, 'h, 'e) PlanCacheManager" where
  "delete_plan E t plan_id m =
     (case get_plan_cache_entry E t plan_id (pm_store m) of
        Inl e \<Rightarrow> (Inl e, m)
      | Inr found \<Rightarrow>
          (case plan_index_remove E plan_id m of
             (Inl e, m1) \<Rightarrow> (Inl e, m1)
           | (Inr from_index, m1) \<Rightarrow>
               (case (if found \<noteq> None then delete_plan_cache_entry E plan_id (pm_store m1) else (Inr False, pm_store m1)) of
                  (Inl e, st) \<Rightarrow> (Inl e, m1\<lparr>pm_store := st\<rparr>)
                | (Inr from_store, st) \<Rightarrow>
                    (Inr (from_index \<or> from_store),
                     m1\<lparr>pm_store := st, pm_deleted := (if from_index \<or> from_store then pm_deleted m1 + 1 else pm_deleted m1)\<rparr>))))"

section \<open>Reports\<close>

record PlanCacheStats =
  gm_plans_indexed :: nat
  gm_puts :: nat
  gm_searches :: nat
  gm_hits :: nat
  gm_plan_cache_hit_rate :: rat
  gm_validations :: nat
  gm_validation_failures :: nat
  gm_plan_validation_fail_rate :: rat
  gm_deleted :: nat

definition plan_cache_stats :: "('s, 'h, 'e) PlanCacheManager \<Rightarrow> PlanCacheStats" where
  "plan_cache_stats m = \<lparr>gm_plans_indexed = hnsw_size (pm_index m), gm_puts = pm_puts m, gm_searches = pm_searches m,
     gm_hits = pm_hits m,
     gm_plan_cache_hit_rate = (if pm_searches m = 0 then 0 else of_nat (pm_hits m) / of_nat (pm_searches m)),
     gm_validations = pm_validations m, gm_validation_failures = pm_validation_failures m,
     gm_plan_validation_fail_rate =
       (if pm_validations m = 0 then 0 else of_nat (pm_validation_failures m) / of_nat (pm_validations m)),
     gm_deleted = pm_deleted m\<rparr>"

record PlanSnapshot =
  pn_plan_id :: string
  pn_required_tools :: "string list"
  pn_constraints :: "(string, string) dict"
  pn_success_count :: int
  pn_failure_count :: int
  pn_validity_scope :: string

record PlanCacheSnapshot =
  pn_stats :: PlanCacheStats
  pn_similarity_threshold :: rat
  pn_plans :: "PlanSnapshot list"

fun snapshot_plans ::
    "('s, 'h, 'a, 'b) StoreEnv \<Rightarrow> rat \<Rightarrow> ('s, 'h) UnifiedObjectStore \<Rightarrow> string list \<Rightarrow> PlanSnapshot list res" where
  "snapshot_plans E t st [] = Inr []"
| "snapshot_plans E t st (plan_id # rest) =
     (case get_plan_cache_entry E t plan_id st of
        Inl e \<Rightarrow> Inl e
      | Inr None \<Rightarrow> snapshot_plans E t st rest
      | Inr (Some (entry, _)) \<Rightarrow>
          map_sum id (\<lambda>ps. \<lparr>pn_plan_id = plan_id, pn_required_tools = pl_required_tools entry,
              pn_constraints = pl_constraints entry, pn_success_count = pl_success_count entry,
              pn_failure_count = pl_failure_count entry,
              pn_validity_scope = ArtifactScope_value (pl_validity_scope entry)\<rparr> # ps)
            (snapshot_plans E t st rest))"

definition plan_cache_snapshot ::
    "('s, 'h, 'a, 'b) StoreEnv \<Rightarrow> rat \<Rightarrow> ('s, 'h, 'e) PlanCacheManager \<Rightarrow> PlanCacheSnapshot res" where
  "plan_cache_snapshot E t m =
     (case list_plan_cache_entries E (pm_store m) of
        Inl e \<Rightarrow> Inl e
      | Inr ids \<Rightarrow>
          map_sum id (\<lambda>ps. \<lparr>pn_stats = plan_cache_stats m, pn_similarity_threshold = pm_threshold m, pn_plans = ps\<rparr>)
            (snapshot_plans E t (pm_store m) (sort ids)))"

section \<open>Tools and constraints\<close>

lemma dedupe_filter_strip: "t \<in> set (normalize_tools tools) \<Longrightarrow> strip t = t \<and> t \<noteq> []"
  by (auto simp: normalize_tools_def)

lemma normalize_tools_idem [simp]: "normalize_tools (normalize_tools tools) = normalize_tools tools"
proof -
  have "map strip (normalize_tools tools) = normalize_tools tools"
    using dedupe_filter_strip by (intro map_idI) blast
  moreover have "filter (\<lambda>t. t \<noteq> []) (normalize_tools tools) = normalize_tools tools"
    using dedupe_filter_strip by (simp add: filter_id_conv)
  moreover have "distinct (normalize_tools tools)" "sorted (normalize_tools tools)" by (simp_all add: normalize_tools_def)
  ultimately show ?thesis
    by (subst normalize_tools_def) (simp add: dedupe_distinct sorted_sort_id)
qed

lemma plan_matches_normalize [simp]: "plan_matches entry (normalize_tools tools) cs = plan_matches entry tools cs"
  by (simp add: plan_matches_def)

text \<open>Order, repetition and surrounding spaces of the tools do not matter.\<close>

lemma normalize_tools_set: "set (normalize_tools tools) = strip ` set tools - {[]}"
  by (auto simp: normalize_tools_def)

lemma normalize_tools_eq_iff: "normalize_tools a = normalize_tools b \<longleftrightarrow> strip ` set a - {[]} = strip ` set b - {[]}"
proof
  assume "strip ` set a - {[]} = strip ` set b - {[]}"
  then have "set (normalize_tools a) = set (normalize_tools b)" by (simp add: normalize_tools_set)
  then show "normalize_tools a = normalize_tools b"
    by (intro sorted_distinct_set_unique) (simp_all add: normalize_tools_def)
qed (metis normalize_tools_set)

section \<open>Searching\<close>

lemma validate_entry_eq:
  "\<exists>m'. validate_plan E t plan_id (Some tools) (Some cs) (Some entry) m = (Inr (plan_matches entry tools cs), m')
     \<and> pm_store m' = pm_store m \<and> pm_index m' = pm_index m"
  by (simp add: validate_plan_def Let_def)

lemma index_remove_store: "plan_index_remove E plan_id m = (r, m') \<Longrightarrow> pm_store m' = pm_store m"
  by (auto simp: plan_index_remove_def split: prod.splits)

definition good_candidate ::
    "('s, 'h, 'a, 'b) StoreEnv \<Rightarrow> rat \<Rightarrow> ('s, 'h) UnifiedObjectStore \<Rightarrow> string list \<Rightarrow> (string, string) dict
       \<Rightarrow> PlanCacheCandidate \<Rightarrow> bool" where
  "good_candidate E t st tools cs c \<longleftrightarrow>
     (\<exists>entry v. get_plan_cache_entry E t (pc_plan_id c) st = Inr (Some (entry, v))
        \<and> plan_matches entry tools cs \<and> pc_plan_template c = pl_plan_template entry
        \<and> pc_required_tools c = pl_required_tools entry \<and> pc_constraints c = pl_constraints entry)"

lemma plan_candidates_spec:
  assumes "plan_candidates E t tools cs matches acc m = (Inr rs, m')"
  shows "pm_store m' = pm_store m \<and> length rs \<le> length acc + length matches
    \<and> (\<forall>c \<in> set rs. c \<in> set acc \<or> ((pc_plan_id c, pc_similarity c) \<in> set matches
         \<and> good_candidate E t (pm_store m) tools cs c))"
  using assms
proof (induction matches arbitrary: acc m)
  case Nil
  then show ?case by simp
next
  case (Cons x matches)
  obtain plan_id sim where x: "x = (plan_id, sim)" by (cases x)
  obtain found where found: "get_plan_cache_entry E t plan_id (pm_store m) = Inr found"
    using Cons.prems x by (auto split: sum.splits)
  show ?case
  proof (cases found)
    case None
    then obtain r m1 where r: "plan_index_remove E plan_id m = (r, m1)" "plan_candidates E t tools cs matches acc m1 = (Inr rs, m')"
      using Cons.prems x found by (auto split: prod.splits sum.splits)
    from Cons.IH [OF r(2)] index_remove_store [OF r(1)] show ?thesis by auto
  next
    case (Some p)
    obtain entry v where p: "p = (entry, v)" by (cases p)
    obtain m1 where m1: "validate_plan E t plan_id (Some tools) (Some cs) (Some entry) m = (Inr (plan_matches entry tools cs), m1)"
      "pm_store m1 = pm_store m" using validate_entry_eq by blast
    let ?c = "\<lparr>pc_plan_id = plan_id, pc_plan_template = pl_plan_template entry, pc_similarity = sim,
      pc_required_tools = pl_required_tools entry, pc_constraints = pl_constraints entry\<rparr>"
    let ?acc = "if plan_matches entry tools cs then acc @ [?c] else acc"
    have run: "plan_candidates E t tools cs matches ?acc m1 = (Inr rs, m')"
      using Cons.prems x found Some p m1 by simp
    have "good_candidate E t (pm_store m) tools cs ?c" if "plan_matches entry tools cs"
      using found Some p that by (simp add: good_candidate_def)
    with Cons.IH [OF run] m1(2) x show ?thesis by (auto split: if_splits)
  qed
qed

text \<open>A search with a positive \<^verbatim>\<open>top_k\<close> that returns has embedded the task, searched the index and filtered the matches.\<close>

lemma search_run:
  fixes m m' :: "('s, 'h, 'e) PlanCacheManager"
  assumes call: "search_similar_plans E S t task top_k tools cs (Some threshold) m = (Inr rs, m')" and k: "\<not> top_k \<le> 0"
  shows "\<exists>(m2 :: ('s, 'h, 'e) PlanCacheManager) query matches m3. pm_store m2 = pm_store m \<and> pm_index m2 = pm_index m
    \<and> hnsw_search (rt_numpy (env_runtime E)) (rt_hnsw (env_runtime E)) query top_k threshold (pm_index m) = Inr matches
    \<and> plan_candidates E t (normalize_tools (case tools of None \<Rightarrow> [] | Some ts \<Rightarrow> ts)) (case cs of None \<Rightarrow> [] | Some d \<Rightarrow> d)
        matches [] m2 = (Inr rs, m3) \<and> pm_store m' = pm_store m3"
proof -
  let ?m1 = "m\<lparr>pm_searches := pm_searches m + 1\<rparr>"
  obtain r emb where em: "em_embed S task (pm_embeddings ?m1) = (r, emb)" by fastforce
  let ?m2 = "?m1\<lparr>pm_embeddings := emb\<rparr>"
  have ne: "strip task \<noteq> []" using call k by (auto simp: search_similar_plans_def)
  obtain query where r: "r = Inr query"
    using call k ne em by (cases r) (auto simp: search_similar_plans_def Let_def)
  obtain matches where
    hs: "hnsw_search (rt_numpy (env_runtime E)) (rt_hnsw (env_runtime E)) query top_k threshold (pm_index m) = Inr matches"
    using call k ne em r
    by (cases "hnsw_search (rt_numpy (env_runtime E)) (rt_hnsw (env_runtime E)) query top_k threshold (pm_index m)")
      (auto simp: search_similar_plans_def Let_def)
  obtain q m3 where run: "plan_candidates E t (normalize_tools (case tools of None \<Rightarrow> [] | Some ts \<Rightarrow> ts))
      (case cs of None \<Rightarrow> [] | Some d \<Rightarrow> d) matches [] ?m2 = (q, m3)" by fastforce
  have fin: "q = Inr rs \<and> pm_store m' = pm_store m3"
    using call k ne em r hs run by (cases q) (auto simp: search_similar_plans_def Let_def split: if_splits)
  show ?thesis
    by (rule exI [of _ ?m2], rule exI [of _ query], rule exI [of _ matches], rule exI [of _ m3])
      (use hs run fin in simp)
qed

section \<open>The index of a manager\<close>

lemma index_add_spec:
  assumes "plan_index_add E plan_id v m = (r, m')" and "hnsw_wf (pm_index m)"
  shows "pm_store m' = pm_store m \<and> hnsw_wf (pm_index m')
    \<and> hnsw_members (pm_index m') = (if is_ok r then insert plan_id (hnsw_members (pm_index m)) else hnsw_members (pm_index m))"
proof -
  obtain q x where x: "hnsw_add (rt_numpy (env_runtime E)) (rt_hnsw (env_runtime E)) plan_id v (pm_index m) = (q, x)" by fastforce
  with assms(1) have "r = q" "m' = m\<lparr>pm_index := x\<rparr>" by (simp_all add: plan_index_add_def)
  with hnsw.add_wf [OF assms(2) x] hnsw.add_members [OF x] show ?thesis by simp
qed

lemma index_remove_spec:
  assumes "plan_index_remove E plan_id m = (r, m')" and "hnsw_wf (pm_index m)"
  shows "pm_store m' = pm_store m \<and> hnsw_wf (pm_index m') \<and> hnsw_members (pm_index m') = hnsw_members (pm_index m) - {plan_id}
    \<and> (\<forall>b. r = Inr b \<longrightarrow> b = (plan_id \<in> hnsw_members (pm_index m)))"
proof -
  obtain q x where x: "hnsw_remove (rt_hnsw (env_runtime E)) plan_id (pm_index m) = (q, x)" by fastforce
  with assms(1) have "r = q" "m' = m\<lparr>pm_index := x\<rparr>" by (simp_all add: plan_index_remove_def)
  with hnsw.remove_spec [OF assms(2) x] show ?thesis by simp
qed

section \<open>Plans in the store\<close>

lemma last_axis_nonneg: "last_axis N v = Inr d \<Longrightarrow> 0 \<le> d"
  by (auto simp: last_axis_def split: if_splits)

text \<open>A plan with non-negative counts reads back after a put that returns.\<close>

definition stored_plan :: "PlanCacheEntry \<Rightarrow> PlanCacheEntry \<Rightarrow> bool" where
  "stored_plan p x \<longleftrightarrow> pl_plan_id x = pl_plan_id p \<and> pl_plan_template x = pl_plan_template p
     \<and> pl_required_tools x = pl_required_tools p \<and> pl_constraints x = pl_constraints p
     \<and> pl_success_count x = pl_success_count p \<and> pl_failure_count x = pl_failure_count p
     \<and> pl_validity_scope x = pl_validity_scope p"

context codec_store
begin

lemma put_plan_read:
  assumes wf: "md_bloom_wf (os_metadata st)" and put: "put_plan_cache_entry E p v st = (Inr i, p', st')"
    and counts: "0 \<le> pl_success_count p" "0 \<le> pl_failure_count p"
  shows "i = pl_plan_id p \<and> md_bloom_wf (os_metadata st')
    \<and> (\<forall>t. \<exists>x. get_plan_cache_entry E t i st' = Inr (Some (x, v)) \<and> stored_plan p x)"
proof -
  obtain d where d: "last_axis (rt_numpy (env_runtime E)) v = Inr d"
    using put by (cases "last_axis (rt_numpy (env_runtime E)) v") (auto simp: put_plan_cache_entry_def Let_def)
  have p': "i = pl_plan_id p" "stored_plan p p'" "pl_task_embedding_dim p' = d"
    using put d by (auto simp: put_plan_cache_entry_def Let_def stored_plan_def split: prod.splits sum.splits)
  have "is_ok (validate_plan_entry p')"
    using p' counts last_axis_nonneg [OF d] by (simp add: validate_plan_entry_ok stored_plan_def)
  then have "validate_plan_entry p' = Inr p'" by (auto elim!: is_okE dest: validate_returns_input)
  with put_get_plan [OF codec wf put] p'(2)
  have "\<exists>x. get_plan_cache_entry E t i st' = Inr (Some (x, v)) \<and> stored_plan p x" for t
    by (simp add: stored_plan_def)
  moreover have "md_bloom_wf (os_metadata st')"
    using objs.put_plan_confined [OF put] wf by (simp add: confined_def md_grows_def)
  ultimately show ?thesis using p'(1) by blast
qed

end

section \<open>Examples\<close>

definition sample_embedder :: "(unit, rat list) EmbeddingService" where
  "sample_embedder = \<lparr>em_embed = (\<lambda>t e. (Inr [of_nat (length t), 1], e)), em_embed_batch = (\<lambda>ts e. (Inr [], e)),
     em_dimension = (\<lambda>e. 2), em_similarity = (\<lambda>v w e. Inr 1)\<rparr>"

definition sample_manager :: "(rat list blob MemoryBackend, (nat \<times> rat list) list, unit) PlanCacheManager" where
  "sample_manager = \<lparr>pm_store = sample_store, pm_embeddings = (), pm_threshold = 3 / 4,
     pm_index = \<lparr>hx_dim = 2, hx_max_elements = 4, hx_index = [], hx_id_to_object = [], hx_object_to_id = [],
       hx_free_ids = [], hx_next_id = 0\<rparr>,
     pm_puts = 0, pm_searches = 0, pm_hits = 0, pm_validations = 0, pm_validation_failures = 0, pm_deleted = 0\<rparr>"

lemma sample_manager_simps [simp]: "pm_store sample_manager = sample_store" "pm_embeddings sample_manager = ()"
  by (simp_all add: sample_manager_def)

lemma sample_manager_wf: "hnsw_wf (pm_index sample_manager) \<and> hnsw_members (pm_index sample_manager) = {}"
  by (simp add: sample_manager_def hnsw_wf_def hnsw_members_def)

definition sample_planned :: "string res \<times> (rat list blob MemoryBackend, (nat \<times> rat list) list, unit) PlanCacheManager" where
  "sample_planned = put_plan sample_env sample_embedder ''m'' ''p1'' 0 ''find a doc'' ''search then read''
     (Some ['' search'', ''read'']) (Some []) SESSION sample_manager"

definition sample_plan_index :: "(nat \<times> rat list) list HNSWIndex" where
  "sample_plan_index = \<lparr>hx_dim = 2, hx_max_elements = 4, hx_index = [(0, [10, 1])], hx_id_to_object = [(0, ''p1'')],
     hx_object_to_id = [(''p1'', 0)], hx_free_ids = [], hx_next_id = 1\<rparr>"

lemma sample_planned_ok:
  "\<exists>m. sample_planned = (Inr ''p1'', m) \<and> store_reachable sample_env sample_store (pm_store m) \<and> pm_index m = sample_plan_index"
proof -
  have s: "strip ''find a doc'' = ''find a doc''" "strip ''search then read'' = ''search then read''" by code_simp+
  have axis: "last_axis (rt_numpy (env_runtime sample_env)) [10, 1] = Inr 2"
    by (simp add: last_axis_def sample_runtime_def sample_numpy_def)
  let ?p = "new_plan ''m'' ''p1'' 0 ''search then read'' ['' search'', ''read''] [] SESSION"
  have id: "pl_plan_id ?p = ''p1''" by (simp add: new_plan_def)
  obtain p' st where put: "put_plan_cache_entry sample_env ?p [10, 1] sample_store = (Inr ''p1'', p', st)"
    using total_store.put_plan_total [OF sample_total axis, of ?p sample_store] unfolding id by blast
  have reach: "store_reachable sample_env sample_store st"
    by (rule store_reachable.step [OF store_reachable.start store_step.put_plan [OF put]])
  have "hnsw_add (rt_numpy (env_runtime sample_env)) (rt_hnsw (env_runtime sample_env)) ''p1'' [10, 1] (pm_index sample_manager)
      = (Inr (), sample_plan_index)"
    by (simp add: hnsw_add_def sample_manager_def dmem_def prepare_embedding_def sample_plan_index_def
        sample_runtime_def sample_numpy_def sample_hnswlib_def Let_def)
  then have "sample_planned = (Inr ''p1'', sample_manager\<lparr>pm_store := st, pm_index := sample_plan_index, pm_puts := 1\<rparr>)"
    using put by (simp add: sample_planned_def put_plan_def s sample_embedder_def plan_index_add_def sample_manager_def Let_def)
  with reach show ?thesis
    by (intro exI [of _ "sample_manager\<lparr>pm_store := st, pm_index := sample_plan_index, pm_puts := 1\<rparr>"]) simp
qed

lemma sample_plan_index_wf: "hnsw_wf sample_plan_index" and sample_plan_index_members: "hnsw_members sample_plan_index = {''p1''}"
  by (auto simp: sample_plan_index_def hnsw_wf_def hnsw_members_def inverse_dicts_def)

lemma sample_plan_readable:
  assumes "sample_planned = (Inr ''p1'', m)"
  shows "\<exists>x. get_plan_cache_entry sample_env 5 ''p1'' (pm_store m) = Inr (Some (x, [10, 1])) \<and> pl_plan_id x = ''p1''
    \<and> pl_success_count x = 0 \<and> pl_failure_count x = 0"
proof -
  have s: "strip ''find a doc'' = ''find a doc''" "strip ''search then read'' = ''search then read''" by code_simp+
  let ?p = "new_plan ''m'' ''p1'' 0 ''search then read'' ['' search'', ''read''] [] SESSION"
  obtain r p' st where put: "put_plan_cache_entry sample_env ?p [10, 1] sample_store = (r, p', st)" using prod_cases3 by blast
  have r: "r = Inr ''p1''" "pm_store m = st"
    using assms put by (auto simp: sample_planned_def put_plan_def s sample_embedder_def plan_index_add_def Let_def
        split: sum.splits prod.splits)
  have wf: "md_bloom_wf (os_metadata sample_store)" using sample_fresh by (simp add: fresh_store_def)
  have counts: "0 \<le> pl_success_count ?p" "0 \<le> pl_failure_count ?p" by (simp_all add: new_plan_def)
  from codec_store.put_plan_read [OF sample_codec_store wf put [unfolded r(1)] counts] r(2) show ?thesis
    by (fastforce simp: stored_plan_def new_plan_def)
qed

lemma sample_delete_plan_total: "\<exists>d st'. delete_plan_cache_entry sample_env oid st = (Inr d, st')"
proof -
  obtain b s' where "delete_pair sample_env (type_prefix (env_config sample_env) PLAN_CACHE) oid ''data.npy'' (os_storage st) = (Inr b, s')"
    using total_store.delete_pair_eq [OF sample_total] by blast
  then show ?thesis by (cases b) (auto simp: delete_plan_cache_entry_def after_delete_def removed_unindexed)
qed

section \<open>Properties\<close>

text \<open>C31: A search answers at most \<^verbatim>\<open>top_k\<close> plans; each is in the index at the similarity it reports, at or above the threshold,
  can be read from the store as reported, and has exactly the required tools, up to order, repetition and spaces, and
  the constraints asked for.  The search changes nothing in the store.\<close>

theorem plan_search_sound:
  fixes m m' :: "('s, 'h, 'e) PlanCacheManager"
  assumes "hnsw_wf (pm_index m)"
    and "search_similar_plans E S t task top_k tools cs (Some threshold) m = (Inr rs, m')"
  shows "pm_store m' = pm_store m \<and> length rs \<le> nat top_k \<and> (\<forall>c \<in> set rs. threshold \<le> pc_similarity c
    \<and> pc_plan_id c \<in> hnsw_members (pm_index m)
    \<and> (\<exists>entry v. get_plan_cache_entry E t (pc_plan_id c) (pm_store m) = Inr (Some (entry, v))
         \<and> pc_plan_template c = pl_plan_template entry
         \<and> strip ` set (pl_required_tools entry) - {[]} = strip ` set (case tools of None \<Rightarrow> [] | Some ts \<Rightarrow> ts) - {[]}
         \<and> dict_eq (pl_constraints entry) (case cs of None \<Rightarrow> [] | Some d \<Rightarrow> d)))"
proof (cases "top_k \<le> 0")
  case True
  with assms(2) show ?thesis by (simp add: search_similar_plans_def)
next
  case False
  let ?ts = "case tools of None \<Rightarrow> [] | Some ts \<Rightarrow> ts" and ?cs = "case cs of None \<Rightarrow> [] | Some d \<Rightarrow> d"
  from search_run [OF assms(2)] False obtain m2 m3 :: "('s, 'h, 'e) PlanCacheManager" and query matches where
    m2: "pm_store m2 = pm_store m" "pm_index m2 = pm_index m"
    and matches: "hnsw_search (rt_numpy (env_runtime E)) (rt_hnsw (env_runtime E)) query top_k threshold (pm_index m) = Inr matches"
    and run: "plan_candidates E t (normalize_tools ?ts) ?cs matches [] m2 = (Inr rs, m3)"
    and m': "pm_store m' = pm_store m3"
    by blast
  note hits = hnsw.search_spec [OF assms(1) matches]
  note spec = plan_candidates_spec [OF run]
  have good: "threshold \<le> pc_similarity c \<and> pc_plan_id c \<in> hnsw_members (pm_index m)
      \<and> good_candidate E t (pm_store m) (normalize_tools ?ts) ?cs c" if "c \<in> set rs" for c
    using spec that hits m2(1) by fastforce
  have "length rs \<le> nat top_k"
  proof -
    have "length rs \<le> length matches" using spec by simp
    moreover have "int (length matches) \<le> top_k" using hits False by simp
    ultimately show ?thesis by linarith
  qed
  moreover have "pm_store m' = pm_store m" using spec m2(1) m' by simp
  moreover have "\<exists>entry v. get_plan_cache_entry E t (pc_plan_id c) (pm_store m) = Inr (Some (entry, v))
      \<and> pc_plan_template c = pl_plan_template entry
      \<and> strip ` set (pl_required_tools entry) - {[]} = strip ` set ?ts - {[]} \<and> dict_eq (pl_constraints entry) ?cs"
    if "c \<in> set rs" for c
    using good [OF that] unfolding good_candidate_def plan_matches_normalize
    by (auto simp: plan_matches_def normalize_tools_eq_iff)
  ultimately show ?thesis using good by (intro conjI ballI) auto
qed

lemma plan_search_sound_witness:
  "\<exists>rs m'. search_similar_plans sample_env sample_embedder 5 ''find'' 3 None None (Some (1 / 2)) sample_manager = (Inr rs, m')
     \<and> length rs \<le> 3 \<and> pm_store m' = sample_store"
proof -
  have s: "strip ''find'' = ''find''" by code_simp
  obtain m' where call: "search_similar_plans sample_env sample_embedder 5 ''find'' 3 None None (Some (1 / 2)) sample_manager = (Inr [], m')"
    by (simp add: search_similar_plans_def s sample_embedder_def hnsw_search_def sample_manager_def)
  from plan_search_sound [OF conjunct1 [OF sample_manager_wf] call] call show ?thesis by simp
qed

text \<open>A plan that was put is in the index and can be read back: it adapts to its template, and validates exactly against the
  same tools, whatever their order, repetition and spaces, and the same constraints.\<close>

theorem plan_put_validates:
  assumes "codec_store E contents" and "fresh_store contents st0" and "store_reachable E st0 (pm_store m)"
    and "hnsw_wf (pm_index m)"
    and "put_plan E S fresh_meta fresh_plan t0 task template (Some tools) (Some cs) scope m = (Inr pid, m')"
  shows "pid = fresh_plan \<and> pid \<in> hnsw_members (pm_index m') \<and> pm_puts m' = pm_puts m + 1
    \<and> adapt_plan E t pid (Some ctx) m' = Inr (Some \<lparr>pa_plan_id = pid, pa_plan_template = template,
        pa_adapted_template = template, pa_context = ctx\<rparr>)
    \<and> fst (validate_plan E t pid (Some tools') (Some cs') None m') =
        Inr (strip ` set tools' - {[]} = strip ` set tools - {[]} \<and> dict_eq cs cs')"
proof -
  have total: "total_store E contents" using assms(1) by (simp add: codec_store_def)
  have wf: "md_bloom_wf (os_metadata (pm_store m))" by (rule reachable_wf [OF total_objects [OF total] assms(2,3)])
  let ?p = "new_plan fresh_meta fresh_plan t0 template tools cs scope"
  from assms(5) obtain v emb p' st m2 where
    put: "put_plan_cache_entry E ?p v (pm_store m) = (Inr pid, p', st)"
    and add: "plan_index_add E pid v (m\<lparr>pm_embeddings := emb, pm_store := st\<rparr>) = (Inr (), m2)"
    and m': "m' = m2\<lparr>pm_puts := pm_puts m2 + 1\<rparr>"
    by (auto simp: put_plan_def Let_def split: if_splits prod.splits sum.splits)
  have counts: "0 \<le> pl_success_count ?p" "0 \<le> pl_failure_count ?p" by (simp_all add: new_plan_def)
  from codec_store.put_plan_read [OF assms(1) wf put counts] obtain x where
    x: "pid = pl_plan_id ?p" "get_plan_cache_entry E t pid st = Inr (Some (x, v))" "stored_plan ?p x" by blast
  have "pm_puts m2 = pm_puts m" using add by (auto simp: plan_index_add_def split: prod.splits)
  with index_add_spec [OF add] assms(4)
  have idx: "pm_store m2 = st" "pid \<in> hnsw_members (pm_index m2)" "pm_puts m2 = pm_puts m" by simp_all
  show ?thesis
    using x idx m'
    by (auto simp: adapt_plan_def validate_plan_def Let_def stored_plan_def new_plan_def plan_matches_def
        normalize_tools_eq_iff)
qed

lemma plan_put_validates_witness:
  "\<exists>m. sample_planned = (Inr ''p1'', m) \<and> ''p1'' \<in> hnsw_members (pm_index m)
     \<and> fst (validate_plan sample_env 5 ''p1'' (Some [''read'', ''search'', ''read'']) (Some []) None m) = Inr True"
proof -
  obtain m where m: "sample_planned = (Inr ''p1'', m)" using sample_planned_ok by blast
  note spec = plan_put_validates [OF sample_codec_store sample_fresh _ conjunct1 [OF sample_manager_wf] m [unfolded sample_planned_def],
      of 5 "[]" "[''read'', ''search'', ''read'']" "[]"]
  have s: "strip ''read'' = ''read''" "strip ''search'' = ''search''" "strip '' search'' = ''search''" by code_simp+
  have "dict_eq ([] :: (string, string) dict) []" by (simp add: dict_eq_def)
  with spec m show ?thesis by (auto simp: s store_reachable.start)
qed

text \<open>Recording a result of a stored plan adds one to its successes or its failures and changes nothing else of it; the plan
  keeps its embedding and stays in the index.\<close>

theorem plan_result_recorded:
  assumes "codec_store E contents" and "fresh_store contents st0" and "store_reachable E st0 (pm_store m)"
    and "hnsw_wf (pm_index m)"
    and "get_plan_cache_entry E t pid (pm_store m) = Inr (Some (x, v))" and "pl_plan_id x = pid"
    and "0 \<le> pl_success_count x" and "0 \<le> pl_failure_count x"
    and "record_plan_result E t pid success m = (Inr b, m')"
  shows "b \<and> pid \<in> hnsw_members (pm_index m') \<and> (\<exists>y. get_plan_cache_entry E t' pid (pm_store m') = Inr (Some (y, v))
    \<and> pl_success_count y = pl_success_count x + (if success then 1 else 0)
    \<and> pl_failure_count y = pl_failure_count x + (if success then 0 else 1)
    \<and> pl_plan_template y = pl_plan_template x \<and> pl_required_tools y = pl_required_tools x
    \<and> pl_constraints y = pl_constraints x)"
proof -
  have total: "total_store E contents" using assms(1) by (simp add: codec_store_def)
  have wf: "md_bloom_wf (os_metadata (pm_store m))" by (rule reachable_wf [OF total_objects [OF total] assms(2,3)])
  let ?x = "if success then x\<lparr>pl_success_count := pl_success_count x + 1\<rparr> else x\<lparr>pl_failure_count := pl_failure_count x + 1\<rparr>"
  from assms(5,9) obtain q m1 i p' st m2 where
    rm: "plan_index_remove E pid m = (q, m1)" and put: "put_plan_cache_entry E ?x v (pm_store m1) = (Inr i, p', st)"
    and add: "plan_index_add E pid v (m1\<lparr>pm_store := st\<rparr>) = (Inr (), m2)" and m': "b" "m' = m2"
    by (auto simp: record_plan_result_def Let_def split: prod.splits sum.splits)
  note m1 = index_remove_spec [OF rm assms(4)]
  have counts: "0 \<le> pl_success_count ?x" "0 \<le> pl_failure_count ?x" and id: "pl_plan_id ?x = pid" using assms(6-8) by simp_all
  have "md_bloom_wf (os_metadata (pm_store m1))" using wf m1 by simp
  from codec_store.put_plan_read [OF assms(1) this put counts] id obtain y where
    y: "i = pid" "get_plan_cache_entry E t' i st = Inr (Some (y, v))" "stored_plan ?x y" by blast
  have "pm_store m2 = st" "pid \<in> hnsw_members (pm_index m2)" using index_add_spec [OF add] m1 by simp_all
  with y m' show ?thesis by (auto simp: stored_plan_def)
qed

lemma plan_result_recorded_witness:
  "\<exists>m x m'. sample_planned = (Inr ''p1'', m) \<and> get_plan_cache_entry sample_env 5 ''p1'' (pm_store m) = Inr (Some (x, [10, 1]))
     \<and> record_plan_result sample_env 5 ''p1'' True m = (Inr True, m')
     \<and> (\<exists>y. get_plan_cache_entry sample_env 6 ''p1'' (pm_store m') = Inr (Some (y, [10, 1])) \<and> pl_success_count y = 1)"
proof -
  obtain m where m: "sample_planned = (Inr ''p1'', m)" "store_reachable sample_env sample_store (pm_store m)"
    "pm_index m = sample_plan_index" using sample_planned_ok by blast
  obtain x where x: "get_plan_cache_entry sample_env 5 ''p1'' (pm_store m) = Inr (Some (x, [10, 1]))"
    "pl_plan_id x = ''p1''" "pl_success_count x = 0" "pl_failure_count x = 0"
    using sample_plan_readable [OF m(1)] by blast
  let ?x = "x\<lparr>pl_success_count := pl_success_count x + 1\<rparr>"
  obtain h where rm: "plan_index_remove sample_env ''p1'' m = (Inr True, m\<lparr>pm_index := sample_plan_index\<lparr>hx_index := h,
      hx_id_to_object := [], hx_object_to_id := [], hx_free_ids := [0]\<rparr>\<rparr>)"
    by (simp add: plan_index_remove_def m(3) hnsw_remove_def sample_plan_index_def sample_runtime_def sample_hnswlib_def Let_def)
  have axis: "last_axis (rt_numpy (env_runtime sample_env)) [10, 1] = Inr 2"
    by (simp add: last_axis_def sample_runtime_def sample_numpy_def)
  obtain p' st where put: "put_plan_cache_entry sample_env ?x [10, 1] (pm_store m) = (Inr ''p1'', p', st)"
    using total_store.put_plan_total [OF sample_total axis, of ?x "pm_store m"] x(2) by auto
  have add: "\<exists>x'. hnsw_add (rt_numpy (env_runtime sample_env)) (rt_hnsw (env_runtime sample_env)) ''p1'' [10, 1]
      (sample_plan_index\<lparr>hx_index := h, hx_id_to_object := [], hx_object_to_id := [], hx_free_ids := [0]\<rparr>) = (Inr (), x')"
    by (simp add: hnsw_add_def sample_plan_index_def dmem_def prepare_embedding_def sample_runtime_def sample_numpy_def
        sample_hnswlib_def Let_def)
  obtain m' where call: "record_plan_result sample_env 5 ''p1'' True m = (Inr True, m')"
    using x(1) rm put add by (auto simp: record_plan_result_def plan_index_add_def Let_def)
  have "hnsw_wf (pm_index m)" by (simp add: m(3) sample_plan_index_wf)
  from plan_result_recorded [OF sample_codec_store sample_fresh m(2) this x(1,2) _ _ call, of 6] x(3,4) call x(1) m(1)
  show ?thesis by auto
qed

text \<open>After a deletion that returns the plan is neither in the index nor readable, and the answer says whether it was
  in one of the two before.\<close>

theorem plan_deleted:
  assumes "codec_store E contents" and "fresh_store contents st0" and "store_reachable E st0 (pm_store m)"
    and "hnsw_wf (pm_index m)" and "delete_plan E t pid m = (Inr b, m')"
  shows "pid \<notin> hnsw_members (pm_index m') \<and> get_plan_cache_entry E t pid (pm_store m') = Inr None
    \<and> (b \<longleftrightarrow> pid \<in> hnsw_members (pm_index m) \<or> get_plan_cache_entry E t pid (pm_store m) \<noteq> Inr None)"
proof -
  have total: "total_store E contents" using assms(1) by (simp add: codec_store_def)
  have idx: "indexed E contents (pm_store m)"
    by (rule reachable_is_indexed [OF total_exact [OF total] assms(2,3) codec_store.prefixes [OF assms(1)]])
  from assms(5) obtain found q m1 where found: "get_plan_cache_entry E t pid (pm_store m) = Inr found"
    and rm: "plan_index_remove E pid m = (Inr q, m1)"
    by (auto simp: delete_plan_def split: sum.splits prod.splits)
  note m1 = index_remove_spec [OF rm assms(4)]
  show ?thesis
  proof (cases found)
    case None
    with assms(5) found rm have "pm_store m' = pm_store m1" "pm_index m' = pm_index m1" "b = q"
      by (auto simp: delete_plan_def)
    with m1 found None show ?thesis by simp
  next
    case (Some p)
    obtain d st where del: "delete_plan_cache_entry E pid (pm_store m1) = (Inr d, st)" and m': "pm_store m' = st" "pm_index m' = pm_index m1"
      "b = (q \<or> d)"
      using assms(5) found rm Some by (auto simp: delete_plan_def split: sum.splits prod.splits)
    have "contents (os_storage (pm_store m)) (meta_key (type_prefix (env_config E) PLAN_CACHE) pid) \<noteq> None"
      using total_store.get_refines_indexed(4) [OF total idx, of t pid] found Some
      by (auto simp: lookup_def stored_pair_def object_meta_key_def split: option.splits)
    with total_store.delete_pair_answer [OF total del [unfolded delete_plan_cache_entry_def]] m1 have d: d by simp
    have "get_plan_cache_entry E t pid st = Inr None" by (rule total_store.delete_plan_gone [OF total del])
    with m' m1 found Some d show ?thesis by simp
  qed
qed

lemma plan_deleted_witness:
  "\<exists>m m'. sample_planned = (Inr ''p1'', m) \<and> delete_plan sample_env 5 ''p1'' m = (Inr True, m')
     \<and> get_plan_cache_entry sample_env 5 ''p1'' (pm_store m') = Inr None"
proof -
  obtain m where m: "sample_planned = (Inr ''p1'', m)" "store_reachable sample_env sample_store (pm_store m)"
    "pm_index m = sample_plan_index" using sample_planned_ok by blast
  obtain x where x: "get_plan_cache_entry sample_env 5 ''p1'' (pm_store m) = Inr (Some (x, [10, 1]))"
    using sample_plan_readable [OF m(1)] by blast
  obtain m1 where rm: "plan_index_remove sample_env ''p1'' m = (Inr True, m1)"
    by (simp add: plan_index_remove_def m(3) hnsw_remove_def sample_plan_index_def sample_runtime_def sample_hnswlib_def Let_def)
  obtain d st where del: "delete_plan_cache_entry sample_env ''p1'' (pm_store m1) = (Inr d, st)"
    using sample_delete_plan_total by blast
  obtain b m' where call: "delete_plan sample_env 5 ''p1'' m = (Inr b, m')"
    using x rm del by (auto simp: delete_plan_def)
  have "hnsw_wf (pm_index m)" "''p1'' \<in> hnsw_members (pm_index m)"
    by (simp_all add: m(3) sample_plan_index_wf sample_plan_index_members)
  with plan_deleted [OF sample_codec_store sample_fresh m(2) _ call] m(1) call show ?thesis by auto
qed

text \<open>With a Bloom filter that knows no object, as after a restart, the constructor finds no stored plan.\<close>

lemma plan_restart_finds_nothing:
  assumes "\<forall>oid. \<not> might_exist (env_runtime E) oid (os_metadata (pm_store m))"
    and "list_plan_cache_entries E (pm_store m) = Inr ids"
  shows "load_existing_plans E t m = (Inr (), m)"
proof -
  have "get_plan_cache_entry E t oid (pm_store m) = Inr None" for oid
    using assms(1) by (simp add: get_plan_cache_entry_def)
  then have "load_plans E t ids m = (Inr (), m)" by (induction ids) simp_all
  with assms(2) show ?thesis by (simp add: load_existing_plans_def)
qed

end
