(* ===== verification/SemanticCache.thy ===== *)
theory SemanticCache
  imports StoreProps Embeddings
begin

text \<open>
  The semantic response cache of \<^verbatim>\<open>src/l3store/semantic_cache\<close>: \<^verbatim>\<open>cache_manager.py\<close> answers a prompt with
  the response stored for the most similar prompt, or generates and stores one; \<^verbatim>\<open>similarity_search.py\<close> is
  a facade over the metadata store.  The index is the metadata store's, so the state is the object store
  and the embedding service.  The lemmas say where an answer comes from, and that loading the existing
  entries makes every listed entry readable again.
\<close>

section \<open>The manager\<close>

record ('s, 'h, 'e) SemanticCacheManager =
  sc_store :: "('s, 'h) UnifiedObjectStore"
  sc_embeddings :: 'e
  sc_threshold :: rat
  sc_model_name :: string
  sc_max_elements :: "int option"





definition new_entry :: "string \<Rightarrow> rat \<Rightarrow> string \<Rightarrow> string \<Rightarrow> string \<Rightarrow> rat \<Rightarrow> SemanticCacheEntry" where
  "new_entry fresh t prompt response model_name threshold = \<lparr>
     se_meta = new_meta fresh t SEMANTIC_CACHE, se_prompt_text = prompt, se_response_text = response,
     se_model_name = model_name, se_embedding_dim = 0, se_reuse_count = 0, se_similarity_threshold = threshold\<rparr>"



definition semantic_cache_search ::
    "('s, 'h, 'a, 'b) StoreEnv \<Rightarrow> ('e, 'a) EmbeddingService \<Rightarrow> string \<Rightarrow> int
       \<Rightarrow> ('s, 'h, 'e) SemanticCacheManager \<Rightarrow> (string \<times> rat) list res \<times> ('s, 'h, 'e) SemanticCacheManager" where
  "semantic_cache_search E S prompt k m =
     (case em_embed S prompt (sc_embeddings m) of
        (Inl e, emb) \<Rightarrow> (Inl e, m\<lparr>sc_embeddings := emb\<rparr>)
      | (Inr v, emb) \<Rightarrow>
          (search_similar_prompts (env_runtime E) v k (sc_threshold m) (os_metadata (sc_store m)),
           m\<lparr>sc_embeddings := emb\<rparr>))"

text \<open>The number of indexed entries and the threshold.\<close>

definition semantic_cache_stats :: "('s, 'h, 'e) SemanticCacheManager \<Rightarrow> nat \<times> rat" where
  "semantic_cache_stats m = (ms_hnsw_size (metadata_stats (os_metadata (sc_store m))), sc_threshold m)"

section \<open>The search facade\<close>

record SimilaritySearch =
  ss_default_k :: int
  ss_default_threshold :: rat

definition similarity_search_init :: "int \<Rightarrow> rat \<Rightarrow> SimilaritySearch res" where
  "similarity_search_init default_k default_threshold =
     (if default_k \<le> 0 then Inl (ValueError ''default_k must be positive'')
      else if \<not> (0 \<le> default_threshold \<and> default_threshold \<le> 1)
      then Inl (ValueError ''default_threshold must be in [0.0, 1.0]'')
      else Inr \<lparr>ss_default_k = default_k, ss_default_threshold = default_threshold\<rparr>)"

text \<open>\<^verbatim>\<open>k or default_k\<close>: zero means the default too.\<close>

definition similarity_search ::
    "('h, 'a) Runtime \<Rightarrow> 'a \<Rightarrow> int option \<Rightarrow> rat option \<Rightarrow> 'h MetadataStore \<Rightarrow> SimilaritySearch \<Rightarrow> (string \<times> rat) list res" where
  "similarity_search R query_embedding k threshold md s =
     search_similar_prompts R query_embedding
       (if k = None \<or> k = Some 0 then ss_default_k s else the k)
       (case threshold of None \<Rightarrow> ss_default_threshold s | Some x \<Rightarrow> x) md"

section \<open>Loading\<close>




section \<open>Answers\<close>

text \<open>The object identifier of a new entry.\<close>

lemma new_entry_simps [simp]:
  "object_id (se_meta (new_entry fresh t prompt response mn th)) = fresh"
  "se_prompt_text (new_entry fresh t prompt response mn th) = prompt"
  "se_response_text (new_entry fresh t prompt response mn th) = response"
  by (simp_all add: new_entry_def new_meta_def)





section \<open>Properties\<close>











end
