(* ===== verification/Converters.thy ===== *)
theory Converters
  imports Codec Prefetch "HOL-Library.Word"
begin

text \<open>
  The messages of \<^verbatim>\<open>src/l3store/api/proto/objects.proto\<close> and the conversions of \<^verbatim>\<open>src/l3store/api/converters.py\<close>.
  An \<^verbatim>\<open>int32\<close> field is a 32-bit word read signed, a \<^verbatim>\<open>uint64\<close> field a 64-bit word read unsigned; setting a
  field out of its range raises.  The lemmas say what of an object survives the wire: everything but the
  fields of the metadata that the message does not have, and an empty parent id reads as none.
\<close>

section \<open>Integers of a message\<close>

definition pb_int32 :: "int \<Rightarrow> 32 word res" where
  "pb_int32 n = (if - (2 ^ 31) \<le> n \<and> n < 2 ^ 31 then Inr (word_of_int n)
     else Inl (ValueError ''Value out of range''))"

definition pb_uint64 :: "int \<Rightarrow> 64 word res" where
  "pb_uint64 n = (if 0 \<le> n \<and> n < 2 ^ 64 then Inr (word_of_int n)
     else Inl (ValueError ''Value out of range''))"

section \<open>Metadata\<close>

record ObjectMetaProto =
  pm_object_id :: string
  pm_object_type :: string
  pm_created_at :: rat
  pm_last_accessed :: rat
  pm_access_count :: "64 word"
  pm_size_bytes :: "64 word"
  pm_reuse_score :: rat
  pm_ref_count :: "64 word"
  pm_tags :: "(string, string) dict"

definition meta_to_proto :: "ObjectMeta \<Rightarrow> ObjectMetaProto res" where
  "meta_to_proto m =
     (case pb_uint64 (access_count m) of Inl e \<Rightarrow> Inl e | Inr acc \<Rightarrow>
     (case pb_uint64 (size_bytes m) of Inl e \<Rightarrow> Inl e | Inr sz \<Rightarrow>
     (case pb_uint64 (ref_count m) of Inl e \<Rightarrow> Inl e | Inr refs \<Rightarrow>
        Inr \<lparr>pm_object_id = object_id m, pm_object_type = ObjectType_value (object_type m),
          pm_created_at = created_at m, pm_last_accessed = last_accessed m, pm_access_count = acc,
          pm_size_bytes = sz, pm_reuse_score = reuse_score m, pm_ref_count = refs, pm_tags = tags m\<rparr>)))"

definition proto_to_meta :: "ObjectMetaProto \<Rightarrow> ObjectMeta res" where
  "proto_to_meta p =
     (case ObjectType_of (pm_object_type p) of
        Inl e \<Rightarrow> Inl e
      | Inr t \<Rightarrow> Inr \<lparr>object_id = pm_object_id p, object_type = t, created_at = pm_created_at p,
          last_accessed = pm_last_accessed p, access_count = uint (pm_access_count p),
          size_bytes = uint (pm_size_bytes p), reuse_score = pm_reuse_score p, ref_count = uint (pm_ref_count p),
          tags = pm_tags p, m_workflow_id = None, m_agent_id = None, m_step_id = None, m_turn_id = None,
          m_tool_name = None, m_tool_args_hash = None, m_plan_id = None, expected_next_use_step = None,
          predicted_tool_latency_ms = None, valid_until = None, m_scope = None, consistency_class = None\<rparr>)"

section \<open>Objects\<close>

record KVCacheBlockProto =
  pk_meta :: ObjectMetaProto
  pk_model_name :: string
  pk_token_ids :: "32 word list"
  pk_block_index :: "32 word"
  pk_token_hash :: string
  pk_parent_block_id :: string
  pk_shared_by_sessions :: "string list"

definition kv_block_to_proto :: "KVCacheBlock \<Rightarrow> KVCacheBlockProto res" where
  "kv_block_to_proto b =
     (case meta_to_proto (kv_meta b) of Inl e \<Rightarrow> Inl e | Inr m \<Rightarrow>
     (case map_res pb_int32 (kv_token_ids b) of Inl e \<Rightarrow> Inl e | Inr ids \<Rightarrow>
     (case pb_int32 (kv_block_index b) of Inl e \<Rightarrow> Inl e | Inr idx \<Rightarrow>
        Inr \<lparr>pk_meta = m, pk_model_name = kv_model_name b, pk_token_ids = ids, pk_block_index = idx,
          pk_token_hash = kv_token_hash b,
          pk_parent_block_id = (case kv_parent_block_id b of None \<Rightarrow> [] | Some p \<Rightarrow> p),
          pk_shared_by_sessions = kv_shared_by_sessions b\<rparr>)))"

definition proto_to_kv_block :: "KVCacheBlockProto \<Rightarrow> KVCacheBlock res" where
  "proto_to_kv_block p =
     (case proto_to_meta (pk_meta p) of
        Inl e \<Rightarrow> Inl e
      | Inr m \<Rightarrow> Inr \<lparr>kv_meta = m, kv_model_name = pk_model_name p, kv_token_ids = map sint (pk_token_ids p),
          kv_block_index = sint (pk_block_index p), kv_token_hash = pk_token_hash p,
          kv_parent_block_id = (if pk_parent_block_id p = [] then None else Some (pk_parent_block_id p)),
          kv_shared_by_sessions = pk_shared_by_sessions p\<rparr>)"

record RAGObjectProto =
  pr_meta :: ObjectMetaProto
  pr_document_id :: string
  pr_chunk_index :: "32 word"
  pr_chunk_text :: string
  pr_embedding_dim :: "32 word"
  pr_source :: string
  pr_page_number :: "32 word"
  pr_has_page_number :: bool

definition rag_object_to_proto :: "RAGObject \<Rightarrow> RAGObjectProto res" where
  "rag_object_to_proto r =
     (case meta_to_proto (rg_meta r) of Inl e \<Rightarrow> Inl e | Inr m \<Rightarrow>
     (case pb_int32 (rg_chunk_index r) of Inl e \<Rightarrow> Inl e | Inr idx \<Rightarrow>
     (case pb_int32 (rg_embedding_dim r) of Inl e \<Rightarrow> Inl e | Inr d \<Rightarrow>
     (case pb_int32 (case rg_page_number r of None \<Rightarrow> 0 | Some n \<Rightarrow> n) of Inl e \<Rightarrow> Inl e | Inr pg \<Rightarrow>
        Inr \<lparr>pr_meta = m, pr_document_id = rg_document_id r, pr_chunk_index = idx, pr_chunk_text = rg_chunk_text r,
          pr_embedding_dim = d, pr_source = rg_source r, pr_page_number = pg,
          pr_has_page_number = (rg_page_number r \<noteq> None)\<rparr>))))"

definition proto_to_rag_object :: "RAGObjectProto \<Rightarrow> RAGObject res" where
  "proto_to_rag_object p =
     (case proto_to_meta (pr_meta p) of
        Inl e \<Rightarrow> Inl e
      | Inr m \<Rightarrow> Inr \<lparr>rg_meta = m, rg_document_id = pr_document_id p, rg_chunk_index = sint (pr_chunk_index p),
          rg_chunk_text = pr_chunk_text p, rg_embedding_dim = sint (pr_embedding_dim p), rg_source = pr_source p,
          rg_page_number = (if pr_has_page_number p then Some (sint (pr_page_number p)) else None)\<rparr>)"

record SemanticCacheEntryProto =
  ps_meta :: ObjectMetaProto
  ps_prompt_text :: string
  ps_response_text :: string
  ps_model_name :: string
  ps_embedding_dim :: "32 word"
  ps_reuse_count :: "64 word"
  ps_similarity_threshold :: rat

definition semantic_entry_to_proto :: "SemanticCacheEntry \<Rightarrow> SemanticCacheEntryProto res" where
  "semantic_entry_to_proto x =
     (case meta_to_proto (se_meta x) of Inl e \<Rightarrow> Inl e | Inr m \<Rightarrow>
     (case pb_int32 (se_embedding_dim x) of Inl e \<Rightarrow> Inl e | Inr d \<Rightarrow>
     (case pb_uint64 (se_reuse_count x) of Inl e \<Rightarrow> Inl e | Inr reuse \<Rightarrow>
        Inr \<lparr>ps_meta = m, ps_prompt_text = se_prompt_text x, ps_response_text = se_response_text x,
          ps_model_name = se_model_name x, ps_embedding_dim = d, ps_reuse_count = reuse,
          ps_similarity_threshold = se_similarity_threshold x\<rparr>)))"

definition proto_to_semantic_entry :: "SemanticCacheEntryProto \<Rightarrow> SemanticCacheEntry res" where
  "proto_to_semantic_entry p =
     (case proto_to_meta (ps_meta p) of
        Inl e \<Rightarrow> Inl e
      | Inr m \<Rightarrow> Inr \<lparr>se_meta = m, se_prompt_text = ps_prompt_text p, se_response_text = ps_response_text p,
          se_model_name = ps_model_name p, se_embedding_dim = sint (ps_embedding_dim p),
          se_reuse_count = uint (ps_reuse_count p), se_similarity_threshold = ps_similarity_threshold p\<rparr>)"

record PrefetchDecisionProto =
  pp_object_id :: string
  pp_priority :: rat
  pp_prefetch_type :: string

definition prefetch_decision_to_proto :: "PrefetchDecision \<Rightarrow> PrefetchDecisionProto" where
  "prefetch_decision_to_proto d = \<lparr>pp_object_id = pd_object_id d, pp_priority = pd_priority d,
     pp_prefetch_type = pd_prefetch_type d\<rparr>"

definition proto_to_prefetch_decision :: "PrefetchDecisionProto \<Rightarrow> PrefetchDecision" where
  "proto_to_prefetch_decision p = \<lparr>pd_object_id = pp_object_id p, pd_priority = pp_priority p,
     pd_prefetch_type = pp_prefetch_type p\<rparr>"

lemma decision_wire [simp]: "proto_to_prefetch_decision (prefetch_decision_to_proto d) = d"
  by (simp add: prefetch_decision_to_proto_def proto_to_prefetch_decision_def)

section \<open>Arrays\<close>

definition ndarray_to_bytes :: "('a, 'b) Codec \<Rightarrow> 'a \<Rightarrow> 'b" where
  "ndarray_to_bytes K array = np_save K array"

definition bytes_to_ndarray :: "('a, 'b) Codec \<Rightarrow> 'b \<Rightarrow> 'a res" where
  "bytes_to_ndarray K bytes = np_load K bytes"

lemma array_wire: "codec_ok K \<Longrightarrow> bytes_to_ndarray K (ndarray_to_bytes K v) = Inr v"
  by (simp add: bytes_to_ndarray_def ndarray_to_bytes_def codec_ok_def)

section \<open>What survives the wire\<close>

text \<open>The metadata without the fields the message lacks; objects with such metadata.\<close>

definition wire_meta :: "ObjectMeta \<Rightarrow> ObjectMeta" where
  "wire_meta m = m\<lparr>m_workflow_id := None, m_agent_id := None, m_step_id := None, m_turn_id := None,
     m_tool_name := None, m_tool_args_hash := None, m_plan_id := None, expected_next_use_step := None,
     predicted_tool_latency_ms := None, valid_until := None, m_scope := None, consistency_class := None\<rparr>"

definition wire_kv :: "KVCacheBlock \<Rightarrow> KVCacheBlock" where
  "wire_kv b = b\<lparr>kv_meta := wire_meta (kv_meta b),
     kv_parent_block_id := (if kv_parent_block_id b = Some [] then None else kv_parent_block_id b)\<rparr>"

definition wire_rag :: "RAGObject \<Rightarrow> RAGObject" where
  "wire_rag r = r\<lparr>rg_meta := wire_meta (rg_meta r)\<rparr>"

definition wire_semantic :: "SemanticCacheEntry \<Rightarrow> SemanticCacheEntry" where
  "wire_semantic x = x\<lparr>se_meta := wire_meta (se_meta x)\<rparr>"

text \<open>The integers that a message can carry.\<close>

definition fits_int32 :: "int \<Rightarrow> bool" where
  "fits_int32 n \<longleftrightarrow> - (2 ^ 31) \<le> n \<and> n < 2 ^ 31"

definition fits_uint64 :: "int \<Rightarrow> bool" where
  "fits_uint64 n \<longleftrightarrow> 0 \<le> n \<and> n < 2 ^ 64"

definition meta_fits :: "ObjectMeta \<Rightarrow> bool" where
  "meta_fits m \<longleftrightarrow> fits_uint64 (access_count m) \<and> fits_uint64 (size_bytes m) \<and> fits_uint64 (ref_count m)"

definition kv_fits :: "KVCacheBlock \<Rightarrow> bool" where
  "kv_fits b \<longleftrightarrow> meta_fits (kv_meta b) \<and> (\<forall>n \<in> set (kv_token_ids b). fits_int32 n) \<and> fits_int32 (kv_block_index b)"

definition rag_fits :: "RAGObject \<Rightarrow> bool" where
  "rag_fits r \<longleftrightarrow> meta_fits (rg_meta r) \<and> fits_int32 (rg_chunk_index r) \<and> fits_int32 (rg_embedding_dim r)
     \<and> (\<forall>n. rg_page_number r = Some n \<longrightarrow> fits_int32 n)"

definition semantic_fits :: "SemanticCacheEntry \<Rightarrow> bool" where
  "semantic_fits x \<longleftrightarrow> meta_fits (se_meta x) \<and> fits_int32 (se_embedding_dim x) \<and> fits_uint64 (se_reuse_count x)"

text \<open>Sending and receiving.\<close>

definition over_wire :: "('x \<Rightarrow> 'p res) \<Rightarrow> ('p \<Rightarrow> 'y res) \<Rightarrow> 'x \<Rightarrow> 'y res" where
  "over_wire send receive x = (case send x of Inl e \<Rightarrow> Inl e | Inr p \<Rightarrow> receive p)"

definition out_of_range :: pyerr where
  "out_of_range = ValueError ''Value out of range''"

named_theorems wire_simps

lemma pb_int32_wire [wire_simps]:
  "pb_int32 n = (if fits_int32 n then Inr (word_of_int n) else Inl out_of_range)"
  by (simp add: pb_int32_def fits_int32_def out_of_range_def)

lemma pb_uint64_wire [wire_simps]:
  "pb_uint64 n = (if fits_uint64 n then Inr (word_of_int n) else Inl out_of_range)"
  by (simp add: pb_uint64_def fits_uint64_def out_of_range_def)

lemma sint_fits [wire_simps]: "fits_int32 n \<Longrightarrow> sint (word_of_int n :: 32 word) = n"
  by (simp add: fits_int32_def sint_sbintrunc' signed_take_bit_int_eq_self)

lemma uint_fits [wire_simps]: "fits_uint64 n \<Longrightarrow> uint (word_of_int n :: 64 word) = n"
  by (simp add: fits_uint64_def uint_word_of_int)

lemma fits_zero [wire_simps]: "fits_int32 0"
  by (simp add: fits_int32_def)

lemma tokens_wire [wire_simps]:
  "map_res pb_int32 ns = (if \<forall>n \<in> set ns. fits_int32 n then Inr (map word_of_int ns) else Inl out_of_range)"
  by (induction ns) (auto simp: pb_int32_wire)

lemma tokens_back [wire_simps]:
  "\<forall>n \<in> set ns. fits_int32 n \<Longrightarrow> map (\<lambda>n. sint (word_of_int n :: 32 word)) ns = ns"
  by (induction ns) (auto simp: sint_fits)

lemma meta_wire:
  "over_wire meta_to_proto proto_to_meta m = (if meta_fits m then Inr (wire_meta m) else Inl out_of_range)"
  by (cases m) (simp add: over_wire_def meta_to_proto_def proto_to_meta_def meta_fits_def wire_meta_def wire_simps)

lemma meta_sent:
  "meta_to_proto m = Inl out_of_range \<and> \<not> meta_fits m \<or>
   (\<exists>p. meta_to_proto m = Inr p \<and> proto_to_meta p = Inr (wire_meta m) \<and> meta_fits m)"
proof (cases "meta_to_proto m")
  case (Inl e)
  then have "e = out_of_range"
    by (auto simp: meta_to_proto_def wire_simps split: sum.splits if_splits)
  with Inl meta_wire [of m] show ?thesis by (auto simp: over_wire_def split: if_splits)
next
  case (Inr p)
  then have "meta_fits m" by (auto simp: meta_to_proto_def meta_fits_def wire_simps split: sum.splits if_splits)
  with Inr meta_wire [of m] show ?thesis by (auto simp: over_wire_def)
qed

text \<open>Sending fails exactly when an integer does not fit, and what was sent is received.\<close>

definition delivers :: "('x \<Rightarrow> 'p res) \<Rightarrow> ('p \<Rightarrow> 'x res) \<Rightarrow> ('x \<Rightarrow> bool) \<Rightarrow> ('x \<Rightarrow> 'x) \<Rightarrow> bool" where
  "delivers send receive fits kept \<longleftrightarrow>
     (\<forall>x. if fits x then \<exists>p. send x = Inr p \<and> receive p = Inr (kept x) else send x = Inl out_of_range)"

lemma deliversE:
  assumes "delivers send receive fits kept"
  obtains p where "fits x" "send x = Inr p" "receive p = Inr (kept x)" | "\<not> fits x" "send x = Inl out_of_range"
  using assms unfolding delivers_def by metis

lemma delivers_wire:
  "delivers send receive fits kept \<Longrightarrow> over_wire send receive x = (if fits x then Inr (kept x) else Inl out_of_range)"
  by (erule deliversE [of send receive fits kept x]) (simp_all add: over_wire_def)

lemma kv_delivers: "delivers kv_block_to_proto proto_to_kv_block kv_fits wire_kv"
  unfolding delivers_def
proof
  fix b
  show "if kv_fits b then \<exists>p. kv_block_to_proto b = Inr p \<and> proto_to_kv_block p = Inr (wire_kv b)
        else kv_block_to_proto b = Inl out_of_range"
    using meta_sent [of "kv_meta b"]
    by (cases b) (auto simp: kv_block_to_proto_def proto_to_kv_block_def kv_fits_def wire_kv_def wire_simps comp_def
        split: option.splits)
qed

lemma rag_delivers: "delivers rag_object_to_proto proto_to_rag_object rag_fits wire_rag"
  unfolding delivers_def
proof
  fix r
  show "if rag_fits r then \<exists>p. rag_object_to_proto r = Inr p \<and> proto_to_rag_object p = Inr (wire_rag r)
        else rag_object_to_proto r = Inl out_of_range"
    using meta_sent [of "rg_meta r"]
    by (cases r) (auto simp: rag_object_to_proto_def proto_to_rag_object_def rag_fits_def wire_rag_def wire_simps
        split: option.splits)
qed

lemma semantic_delivers: "delivers semantic_entry_to_proto proto_to_semantic_entry semantic_fits wire_semantic"
  unfolding delivers_def
proof
  fix x
  show "if semantic_fits x then \<exists>p. semantic_entry_to_proto x = Inr p \<and> proto_to_semantic_entry p = Inr (wire_semantic x)
        else semantic_entry_to_proto x = Inl out_of_range"
    using meta_sent [of "se_meta x"]
    by (cases x) (auto simp: semantic_entry_to_proto_def proto_to_semantic_entry_def semantic_fits_def
        wire_semantic_def wire_simps)
qed

lemmas wires = delivers_wire [OF kv_delivers] delivers_wire [OF rag_delivers] delivers_wire [OF semantic_delivers]

section \<open>Properties\<close>

text \<open>C34: A KV block, a RAG object or a semantic entry that is sent arrives when its integers fit their fields, as \<open>wire_kv\<close>,
  \<open>wire_rag\<close> and \<open>wire_semantic\<close> describe it, and otherwise sending it raises; a second trip loses nothing more.  A
  prefetch decision arrives as it was sent.\<close>

theorem wire_roundtrip:
  "over_wire kv_block_to_proto proto_to_kv_block b = (if kv_fits b then Inr (wire_kv b) else Inl out_of_range)
   \<and> over_wire rag_object_to_proto proto_to_rag_object r = (if rag_fits r then Inr (wire_rag r) else Inl out_of_range)
   \<and> over_wire semantic_entry_to_proto proto_to_semantic_entry x =
        (if semantic_fits x then Inr (wire_semantic x) else Inl out_of_range)
   \<and> wire_kv (wire_kv b) = wire_kv b \<and> wire_rag (wire_rag r) = wire_rag r \<and> wire_semantic (wire_semantic x) = wire_semantic x
   \<and> (kv_fits (wire_kv b) = kv_fits b \<and> rag_fits (wire_rag r) = rag_fits r \<and> semantic_fits (wire_semantic x) = semantic_fits x)
   \<and> proto_to_prefetch_decision (prefetch_decision_to_proto d) = d"
proof -
  have "wire_meta (wire_meta m) = wire_meta m" "meta_fits (wire_meta m) = meta_fits m" for m
    by (simp_all add: wire_meta_def meta_fits_def)
  then show ?thesis
    by (simp add: wires wire_kv_def wire_rag_def wire_semantic_def kv_fits_def rag_fits_def
        semantic_fits_def)
qed

end
