(* ===== verification/Grpc.thy ===== *)
theory Grpc
  imports ToolCache Converters
begin

text \<open>
  The service of \<^verbatim>\<open>src/l3store/api\<close>: \<^verbatim>\<open>grpc_server.py\<close> answers messages from the object store, \<^verbatim>\<open>grpc_client.py\<close>
  gives the store's operations over a stub.  The messages are those of \<^verbatim>\<open>l3_service.proto\<close>; a field that
  was not set has its default, so the empty byte string \<open>nb\<close> is an argument.  The stub is generated code
  over gRPC: a record of the calls the client makes, and the interface \<open>l3_channel\<close> says that a call runs
  the handler of its name and that the client sees an exception of the handler as an \<^verbatim>\<open>RpcError\<close>.
\<close>

section \<open>Messages\<close>

record 'b PutKVBlockRequest =
  qk_block :: KVCacheBlockProto
  qk_key_states :: 'b
  qk_value_states :: 'b

record 'b GetKVBlockResponse =
  ak_block :: KVCacheBlockProto
  ak_key_states :: 'b
  ak_value_states :: 'b
  ak_found :: bool

record 'b PutRAGObjectRequest =
  qr_object :: RAGObjectProto
  qr_embedding :: 'b

record 'b GetRAGObjectResponse =
  ar_object :: RAGObjectProto
  ar_embedding :: 'b
  ar_found :: bool

record 'b PutSemanticEntryRequest =
  qs_entry :: SemanticCacheEntryProto
  qs_prompt_embedding :: 'b

record 'b GetSemanticEntryResponse =
  as_entry :: SemanticCacheEntryProto
  as_prompt_embedding :: 'b
  as_found :: bool

record 'b SearchSimilarPromptsRequest =
  qp_query_embedding :: 'b
  qp_top_k :: "32 word"
  qp_threshold :: rat

record SimilarPromptProto =
  pl_object_id :: string
  pl_prompt_similarity :: rat

text \<open>\<^verbatim>\<open>oneof payload\<close>, with no alternative set or one of three.\<close>

datatype 'b Payload =
    Payload_kv_cache "'b GetKVBlockResponse"
  | Payload_rag "'b GetRAGObjectResponse"
  | Payload_semantic "'b GetSemanticEntryResponse"

record 'b PrefetchObjectProto =
  po_object_id :: string
  po_prefetch_type :: string
  po_payload :: "'b Payload option"

definition default_meta_proto :: ObjectMetaProto where
  "default_meta_proto = \<lparr>pm_object_id = [], pm_object_type = [], pm_created_at = 0, pm_last_accessed = 0,
     pm_access_count = 0, pm_size_bytes = 0, pm_reuse_score = 0, pm_ref_count = 0, pm_tags = []\<rparr>"

definition not_found_kv :: "'b \<Rightarrow> 'b GetKVBlockResponse" where
  "not_found_kv nb = \<lparr>ak_block = \<lparr>pk_meta = default_meta_proto, pk_model_name = [], pk_token_ids = [],
     pk_block_index = 0, pk_token_hash = [], pk_parent_block_id = [], pk_shared_by_sessions = []\<rparr>,
     ak_key_states = nb, ak_value_states = nb, ak_found = False\<rparr>"

definition not_found_rag :: "'b \<Rightarrow> 'b GetRAGObjectResponse" where
  "not_found_rag nb = \<lparr>ar_object = \<lparr>pr_meta = default_meta_proto, pr_document_id = [], pr_chunk_index = 0,
     pr_chunk_text = [], pr_embedding_dim = 0, pr_source = [], pr_page_number = 0, pr_has_page_number = False\<rparr>,
     ar_embedding = nb, ar_found = False\<rparr>"

definition not_found_semantic :: "'b \<Rightarrow> 'b GetSemanticEntryResponse" where
  "not_found_semantic nb = \<lparr>as_entry = \<lparr>ps_meta = default_meta_proto, ps_prompt_text = [], ps_response_text = [],
     ps_model_name = [], ps_embedding_dim = 0, ps_reuse_count = 0, ps_similarity_threshold = 0\<rparr>,
     as_prompt_embedding = nb, as_found = False\<rparr>"

section \<open>The handlers\<close>

definition PutKVBlock ::
    "('s, 'h, 'a, 'b) StoreEnv \<Rightarrow> 'b PutKVBlockRequest \<Rightarrow> ('s, 'h) UnifiedObjectStore
       \<Rightarrow> string res \<times> ('s, 'h) UnifiedObjectStore" where
  "PutKVBlock E request st =
     (case proto_to_kv_block (qk_block request) of Inl e \<Rightarrow> (Inl e, st) | Inr block \<Rightarrow>
     (case bytes_to_ndarray (env_codec E) (qk_key_states request) of Inl e \<Rightarrow> (Inl e, st) | Inr key_states \<Rightarrow>
     (case bytes_to_ndarray (env_codec E) (qk_value_states request) of Inl e \<Rightarrow> (Inl e, st) | Inr value_states \<Rightarrow>
        (case put_kv_block E block key_states value_states st of (r, _, st') \<Rightarrow> (r, st')))))"

definition kv_response :: "('a, 'b) Codec \<Rightarrow> KVCacheBlock \<Rightarrow> 'a \<Rightarrow> 'a \<Rightarrow> bool \<Rightarrow> 'b GetKVBlockResponse res" where
  "kv_response K block key_states value_states found =
     (case kv_block_to_proto block of
        Inl e \<Rightarrow> Inl e
      | Inr p \<Rightarrow> Inr \<lparr>ak_block = p, ak_key_states = ndarray_to_bytes K key_states,
          ak_value_states = ndarray_to_bytes K value_states, ak_found = found\<rparr>)"

definition GetKVBlock ::
    "('s, 'h, 'a, 'b) StoreEnv \<Rightarrow> 'b \<Rightarrow> rat \<Rightarrow> string \<Rightarrow> ('s, 'h) UnifiedObjectStore \<Rightarrow> 'b GetKVBlockResponse res" where
  "GetKVBlock E nb now oid st =
     (case get_kv_block E now oid st of
        Inl e \<Rightarrow> Inl e
      | Inr None \<Rightarrow> Inr (not_found_kv nb)
      | Inr (Some (block, key_states, value_states)) \<Rightarrow> kv_response (env_codec E) block key_states value_states True)"

definition DeleteKVBlock ::
    "('s, 'h, 'a, 'b) StoreEnv \<Rightarrow> string \<Rightarrow> ('s, 'h) UnifiedObjectStore \<Rightarrow> bool res \<times> ('s, 'h) UnifiedObjectStore" where
  "DeleteKVBlock E oid st = delete_kv_block E oid st"

definition ListKVBlocks :: "('s, 'h, 'a, 'b) StoreEnv \<Rightarrow> ('s, 'h) UnifiedObjectStore \<Rightarrow> string list res" where
  "ListKVBlocks E st = list_kv_blocks E st"

definition PutRAGObject ::
    "('s, 'h, 'a, 'b) StoreEnv \<Rightarrow> 'b PutRAGObjectRequest \<Rightarrow> ('s, 'h) UnifiedObjectStore
       \<Rightarrow> string res \<times> ('s, 'h) UnifiedObjectStore" where
  "PutRAGObject E request st =
     (case proto_to_rag_object (qr_object request) of Inl e \<Rightarrow> (Inl e, st) | Inr obj \<Rightarrow>
     (case bytes_to_ndarray (env_codec E) (qr_embedding request) of Inl e \<Rightarrow> (Inl e, st) | Inr embedding \<Rightarrow>
        (case put_rag_object E obj embedding st of (r, _, st') \<Rightarrow> (r, st'))))"

definition rag_response :: "('a, 'b) Codec \<Rightarrow> RAGObject \<Rightarrow> 'a \<Rightarrow> bool \<Rightarrow> 'b GetRAGObjectResponse res" where
  "rag_response K obj embedding found =
     (case rag_object_to_proto obj of
        Inl e \<Rightarrow> Inl e
      | Inr p \<Rightarrow> Inr \<lparr>ar_object = p, ar_embedding = ndarray_to_bytes K embedding, ar_found = found\<rparr>)"

definition GetRAGObject ::
    "('s, 'h, 'a, 'b) StoreEnv \<Rightarrow> 'b \<Rightarrow> rat \<Rightarrow> string \<Rightarrow> ('s, 'h) UnifiedObjectStore \<Rightarrow> 'b GetRAGObjectResponse res" where
  "GetRAGObject E nb now oid st =
     (case get_rag_object E now oid st of
        Inl e \<Rightarrow> Inl e
      | Inr None \<Rightarrow> Inr (not_found_rag nb)
      | Inr (Some (obj, embedding)) \<Rightarrow> rag_response (env_codec E) obj embedding True)"

definition PutSemanticEntry ::
    "('s, 'h, 'a, 'b) StoreEnv \<Rightarrow> 'b PutSemanticEntryRequest \<Rightarrow> ('s, 'h) UnifiedObjectStore
       \<Rightarrow> string res \<times> ('s, 'h) UnifiedObjectStore" where
  "PutSemanticEntry E request st =
     (case proto_to_semantic_entry (qs_entry request) of Inl e \<Rightarrow> (Inl e, st) | Inr entry \<Rightarrow>
     (case bytes_to_ndarray (env_codec E) (qs_prompt_embedding request) of Inl e \<Rightarrow> (Inl e, st) | Inr prompt_embedding \<Rightarrow>
        (case put_semantic_entry E entry prompt_embedding st of (r, _, st') \<Rightarrow> (r, st'))))"

definition semantic_response ::
    "('a, 'b) Codec \<Rightarrow> SemanticCacheEntry \<Rightarrow> 'a \<Rightarrow> bool \<Rightarrow> 'b GetSemanticEntryResponse res" where
  "semantic_response K entry prompt_embedding found =
     (case semantic_entry_to_proto entry of
        Inl e \<Rightarrow> Inl e
      | Inr p \<Rightarrow> Inr \<lparr>as_entry = p, as_prompt_embedding = ndarray_to_bytes K prompt_embedding, as_found = found\<rparr>)"

definition GetSemanticEntry ::
    "('s, 'h, 'a, 'b) StoreEnv \<Rightarrow> 'b \<Rightarrow> rat \<Rightarrow> string \<Rightarrow> ('s, 'h) UnifiedObjectStore
       \<Rightarrow> 'b GetSemanticEntryResponse res" where
  "GetSemanticEntry E nb now oid st =
     (case get_semantic_entry E now oid st of
        Inl e \<Rightarrow> Inl e
      | Inr None \<Rightarrow> Inr (not_found_semantic nb)
      | Inr (Some (entry, prompt_embedding)) \<Rightarrow> semantic_response (env_codec E) entry prompt_embedding True)"

text \<open>\<^verbatim>\<open>request.top_k or 5\<close>: zero asks for five.\<close>

definition SearchSimilarPrompts ::
    "('s, 'h, 'a, 'b) StoreEnv \<Rightarrow> 'b SearchSimilarPromptsRequest \<Rightarrow> ('s, 'h) UnifiedObjectStore
       \<Rightarrow> SimilarPromptProto list res" where
  "SearchSimilarPrompts E request st =
     (case bytes_to_ndarray (env_codec E) (qp_query_embedding request) of
        Inl e \<Rightarrow> Inl e
      | Inr query_embedding \<Rightarrow>
          (case search_similar_prompts (env_runtime E) query_embedding
                  (if sint (qp_top_k request) = 0 then 5 else sint (qp_top_k request)) (qp_threshold request)
                  (os_metadata st) of
             Inl e \<Rightarrow> Inl e
           | Inr matches \<Rightarrow> Inr (map (\<lambda>(oid, similarity).
               \<lparr>pl_object_id = oid, pl_prompt_similarity = similarity\<rparr>) matches)))"

section \<open>Prefetching\<close>

text \<open>
  The result is unpacked as the decision's type says.  A tuple of another length raises, and so does a
  pydantic model, which unpacks to its fields; a pair of another class has the metadata but not the
  attribute read next.
\<close>

definition wrong_class :: "ObjectMeta \<Rightarrow> 'p res" where
  "wrong_class m =
     (case meta_to_proto m of Inl e \<Rightarrow> Inl e | Inr _ \<Rightarrow> Inl (AttributeError ''object has no attribute''))"

definition too_many :: pyerr where "too_many = ValueError ''too many values to unpack''"

definition too_few :: pyerr where "too_few = ValueError ''not enough values to unpack''"

definition prefetch_object_response ::
    "('a, 'b) Codec \<Rightarrow> PrefetchDecision \<Rightarrow> 'a Loaded \<Rightarrow> 'b PrefetchObjectProto option res" where
  "prefetch_object_response K d result =
     (let packed = (\<lambda>p. Some \<lparr>po_object_id = pd_object_id d, po_prefetch_type = pd_prefetch_type d, po_payload = Some p\<rparr>)
      in if pd_prefetch_type d = ''kv_cache''
         then (case result of
                 Loaded_kv b k v \<Rightarrow> map_sum id (\<lambda>r. packed (Payload_kv_cache r)) (kv_response K b k v True)
               | Loaded_tool _ \<Rightarrow> Inl too_many
               | _ \<Rightarrow> Inl too_few)
         else if pd_prefetch_type d = ''rag''
         then (case result of
                 Loaded_rag r v \<Rightarrow> map_sum id (\<lambda>r. packed (Payload_rag r)) (rag_response K r v True)
               | Loaded_semantic x v \<Rightarrow> wrong_class (se_meta x)
               | Loaded_plan p v \<Rightarrow> wrong_class (pl_meta p)
               | _ \<Rightarrow> Inl too_many)
         else if pd_prefetch_type d = ''semantic''
         then (case result of
                 Loaded_semantic x v \<Rightarrow> map_sum id (\<lambda>r. packed (Payload_semantic r)) (semantic_response K x v True)
               | Loaded_rag r v \<Rightarrow> wrong_class (rg_meta r)
               | Loaded_plan p v \<Rightarrow> wrong_class (pl_meta p)
               | _ \<Rightarrow> Inl too_many)
         else Inr None)"

fun prefetch_responses ::
    "('a, 'b) Codec \<Rightarrow> (string, 'a Loaded) dict \<Rightarrow> PrefetchDecision list \<Rightarrow> 'b PrefetchObjectProto list res" where
  "prefetch_responses K prefetched [] = Inr []"
| "prefetch_responses K prefetched (d # ds) =
     (case dget prefetched (pd_object_id d) of
        None \<Rightarrow> prefetch_responses K prefetched ds
      | Some result \<Rightarrow>
          (case prefetch_object_response K d result of
             Inl e \<Rightarrow> Inl e
           | Inr None \<Rightarrow> prefetch_responses K prefetched ds
           | Inr (Some p) \<Rightarrow> map_sum id ((#) p) (prefetch_responses K prefetched ds)))"

definition PrefetchBatch ::
    "('s, 'h, 'a, 'b) StoreEnv \<Rightarrow> rat \<Rightarrow> PrefetchDecisionProto list \<Rightarrow> ('s, 'h) UnifiedObjectStore
       \<Rightarrow> 'b PrefetchObjectProto list res" where
  "PrefetchBatch E now request st =
     (let decisions = map proto_to_prefetch_decision request
      in case prefetch_batch E now (map (\<lambda>d. (Some (pd_object_id d), Some (pd_prefetch_type d))) decisions) st of
           Inl e \<Rightarrow> Inl e
         | Inr prefetched \<Rightarrow> prefetch_responses (env_codec E) prefetched decisions)"

section \<open>Statistics\<close>

definition stats_dict :: "StoreStats \<Rightarrow> json" where
  "stats_dict s = JDict [(''kv_cache_blocks'', JInt (int (kv_cache_blocks s))), (''rag_objects'', JInt (int (rag_objects s))),
     (''semantic_cache_entries'', JInt (int (semantic_cache_entries s))),
     (''agent_workflows'', JInt (int (agent_workflows s))), (''agent_steps'', JInt (int (agent_steps s))),
     (''tool_artifacts'', JInt (int (tool_artifacts s))), (''plan_cache_entries'', JInt (int (plan_cache_entries s))),
     (''workflow_traces'', JInt (int (workflow_traces s))),
     (''metadata'', JDict [(''bloom_count'', JInt (int (bloom_count (ss_metadata s)))),
        (''prefix_tree_size'', JInt (int (prefix_tree_size (ss_metadata s)))),
        (''hnsw_size'', JInt (int (ms_hnsw_size (ss_metadata s))))])]"

text \<open>\<^verbatim>\<open>json.dumps(v)\<close>: the keys in their order, separators with a space.\<close>

fun json_text :: "(rat \<Rightarrow> string) \<Rightarrow> json \<Rightarrow> string" where
  "json_text fr JNull = ''null''"
| "json_text fr (JBool b) = (if b then ''true'' else ''false'')"
| "json_text fr (JInt i) = int_str i"
| "json_text fr (JFloat q) = fr q"
| "json_text fr (JStr s) = json_string s"
| "json_text fr (JList xs) = ''['' @ join_with '', '' (map (json_text fr) xs) @ '']''"
| "json_text fr (JDict d) = ''{'' @ join_with '', '' (map (\<lambda>(k, v). json_string k @ '': '' @ json_text fr v) d) @ ''}''"

definition GetStats ::
    "('s, 'h, 'a, 'b) StoreEnv \<Rightarrow> (rat \<Rightarrow> string) \<Rightarrow> ('s, 'h) UnifiedObjectStore \<Rightarrow> string res" where
  "GetStats E float_repr st = map_sum id (\<lambda>s. json_text float_repr (stats_dict s)) (store_stats E st)"

text \<open>The statistics hold no float, so how floats are printed does not matter.\<close>

lemma stats_without_floats: "GetStats E fr st = GetStats E fr' st"
  by (simp add: GetStats_def stats_dict_def)

section \<open>The client\<close>

text \<open>The calls of the generated stub, over the state \<open>'c\<close> of what is behind it.\<close>

record ('c, 'b) L3ServiceStub =
  sb_PutKVBlock :: "'b PutKVBlockRequest \<Rightarrow> 'c \<Rightarrow> string res \<times> 'c"
  sb_GetKVBlock :: "string \<Rightarrow> 'c \<Rightarrow> 'b GetKVBlockResponse res \<times> 'c"
  sb_DeleteKVBlock :: "string \<Rightarrow> 'c \<Rightarrow> bool res \<times> 'c"
  sb_ListKVBlocks :: "'c \<Rightarrow> string list res \<times> 'c"
  sb_PutRAGObject :: "'b PutRAGObjectRequest \<Rightarrow> 'c \<Rightarrow> string res \<times> 'c"
  sb_GetRAGObject :: "string \<Rightarrow> 'c \<Rightarrow> 'b GetRAGObjectResponse res \<times> 'c"
  sb_PutSemanticEntry :: "'b PutSemanticEntryRequest \<Rightarrow> 'c \<Rightarrow> string res \<times> 'c"
  sb_GetSemanticEntry :: "string \<Rightarrow> 'c \<Rightarrow> 'b GetSemanticEntryResponse res \<times> 'c"
  sb_SearchSimilarPrompts :: "'b SearchSimilarPromptsRequest \<Rightarrow> 'c \<Rightarrow> SimilarPromptProto list res \<times> 'c"
  sb_PrefetchBatch :: "PrefetchDecisionProto list \<Rightarrow> 'c \<Rightarrow> 'b PrefetchObjectProto list res \<times> 'c"
  sb_GetStats :: "'c \<Rightarrow> string res \<times> 'c"

definition client_put_kv_block ::
    "('a, 'b) Codec \<Rightarrow> ('c, 'b) L3ServiceStub \<Rightarrow> KVCacheBlock \<Rightarrow> 'a \<Rightarrow> 'a \<Rightarrow> 'c \<Rightarrow> string res \<times> 'c" where
  "client_put_kv_block K S block key_states value_states c =
     (case kv_block_to_proto block of
        Inl e \<Rightarrow> (Inl e, c)
      | Inr p \<Rightarrow> sb_PutKVBlock S \<lparr>qk_block = p, qk_key_states = ndarray_to_bytes K key_states,
          qk_value_states = ndarray_to_bytes K value_states\<rparr> c)"

definition decode_kv :: "('a, 'b) Codec \<Rightarrow> 'b GetKVBlockResponse \<Rightarrow> (KVCacheBlock \<times> 'a \<times> 'a) res" where
  "decode_kv K response =
     (case proto_to_kv_block (ak_block response) of Inl e \<Rightarrow> Inl e | Inr block \<Rightarrow>
     (case bytes_to_ndarray K (ak_key_states response) of Inl e \<Rightarrow> Inl e | Inr k \<Rightarrow>
     (case bytes_to_ndarray K (ak_value_states response) of Inl e \<Rightarrow> Inl e | Inr v \<Rightarrow> Inr (block, k, v))))"

definition client_get_kv_block ::
    "('a, 'b) Codec \<Rightarrow> ('c, 'b) L3ServiceStub \<Rightarrow> string \<Rightarrow> 'c \<Rightarrow> (KVCacheBlock \<times> 'a \<times> 'a) option res \<times> 'c" where
  "client_get_kv_block K S oid c =
     (case sb_GetKVBlock S oid c of
        (Inl e, c') \<Rightarrow> (Inl e, c')
      | (Inr response, c') \<Rightarrow>
          (if \<not> ak_found response then Inr None else map_sum id Some (decode_kv K response), c'))"

definition client_delete_kv_block :: "('c, 'b) L3ServiceStub \<Rightarrow> string \<Rightarrow> 'c \<Rightarrow> bool res \<times> 'c" where
  "client_delete_kv_block S oid c = sb_DeleteKVBlock S oid c"

definition client_list_kv_blocks :: "('c, 'b) L3ServiceStub \<Rightarrow> 'c \<Rightarrow> string list res \<times> 'c" where
  "client_list_kv_blocks S c = sb_ListKVBlocks S c"

definition client_put_rag_object ::
    "('a, 'b) Codec \<Rightarrow> ('c, 'b) L3ServiceStub \<Rightarrow> RAGObject \<Rightarrow> 'a \<Rightarrow> 'c \<Rightarrow> string res \<times> 'c" where
  "client_put_rag_object K S obj embedding c =
     (case rag_object_to_proto obj of
        Inl e \<Rightarrow> (Inl e, c)
      | Inr p \<Rightarrow> sb_PutRAGObject S \<lparr>qr_object = p, qr_embedding = ndarray_to_bytes K embedding\<rparr> c)"

definition decode_rag :: "('a, 'b) Codec \<Rightarrow> 'b GetRAGObjectResponse \<Rightarrow> (RAGObject \<times> 'a) res" where
  "decode_rag K response =
     (case proto_to_rag_object (ar_object response) of Inl e \<Rightarrow> Inl e | Inr obj \<Rightarrow>
     (case bytes_to_ndarray K (ar_embedding response) of Inl e \<Rightarrow> Inl e | Inr v \<Rightarrow> Inr (obj, v)))"

definition client_get_rag_object ::
    "('a, 'b) Codec \<Rightarrow> ('c, 'b) L3ServiceStub \<Rightarrow> string \<Rightarrow> 'c \<Rightarrow> (RAGObject \<times> 'a) option res \<times> 'c" where
  "client_get_rag_object K S oid c =
     (case sb_GetRAGObject S oid c of
        (Inl e, c') \<Rightarrow> (Inl e, c')
      | (Inr response, c') \<Rightarrow>
          (if \<not> ar_found response then Inr None else map_sum id Some (decode_rag K response), c'))"

definition client_put_semantic_entry ::
    "('a, 'b) Codec \<Rightarrow> ('c, 'b) L3ServiceStub \<Rightarrow> SemanticCacheEntry \<Rightarrow> 'a \<Rightarrow> 'c \<Rightarrow> string res \<times> 'c" where
  "client_put_semantic_entry K S entry prompt_embedding c =
     (case semantic_entry_to_proto entry of
        Inl e \<Rightarrow> (Inl e, c)
      | Inr p \<Rightarrow> sb_PutSemanticEntry S \<lparr>qs_entry = p, qs_prompt_embedding = ndarray_to_bytes K prompt_embedding\<rparr> c)"

definition decode_semantic :: "('a, 'b) Codec \<Rightarrow> 'b GetSemanticEntryResponse \<Rightarrow> (SemanticCacheEntry \<times> 'a) res" where
  "decode_semantic K response =
     (case proto_to_semantic_entry (as_entry response) of Inl e \<Rightarrow> Inl e | Inr entry \<Rightarrow>
     (case bytes_to_ndarray K (as_prompt_embedding response) of Inl e \<Rightarrow> Inl e | Inr v \<Rightarrow> Inr (entry, v)))"

definition client_get_semantic_entry ::
    "('a, 'b) Codec \<Rightarrow> ('c, 'b) L3ServiceStub \<Rightarrow> string \<Rightarrow> 'c \<Rightarrow> (SemanticCacheEntry \<times> 'a) option res \<times> 'c" where
  "client_get_semantic_entry K S oid c =
     (case sb_GetSemanticEntry S oid c of
        (Inl e, c') \<Rightarrow> (Inl e, c')
      | (Inr response, c') \<Rightarrow>
          (if \<not> as_found response then Inr None else map_sum id Some (decode_semantic K response), c'))"

definition client_search_similar_prompts ::
    "('a, 'b) Codec \<Rightarrow> ('c, 'b) L3ServiceStub \<Rightarrow> 'a \<Rightarrow> int \<Rightarrow> rat \<Rightarrow> 'c \<Rightarrow> (string \<times> rat) list res \<times> 'c" where
  "client_search_similar_prompts K S query_embedding top_k threshold c =
     (case pb_int32 top_k of
        Inl e \<Rightarrow> (Inl e, c)
      | Inr k \<Rightarrow>
          (case sb_SearchSimilarPrompts S \<lparr>qp_query_embedding = ndarray_to_bytes K query_embedding, qp_top_k = k,
                  qp_threshold = threshold\<rparr> c of
             (Inl e, c') \<Rightarrow> (Inl e, c')
           | (Inr matches, c') \<Rightarrow> (Inr (map (\<lambda>m. (pl_object_id m, pl_prompt_similarity m)) matches), c')))"

definition decode_prefetch_object :: "('a, 'b) Codec \<Rightarrow> 'b PrefetchObjectProto \<Rightarrow> 'a Loaded option res" where
  "decode_prefetch_object K item =
     (case po_payload item of
        None \<Rightarrow> Inr None
      | Some (Payload_kv_cache r) \<Rightarrow> map_sum id (\<lambda>(b, k, v). Some (Loaded_kv b k v)) (decode_kv K r)
      | Some (Payload_rag r) \<Rightarrow> map_sum id (\<lambda>(x, v). Some (Loaded_rag x v)) (decode_rag K r)
      | Some (Payload_semantic r) \<Rightarrow> map_sum id (\<lambda>(x, v). Some (Loaded_semantic x v)) (decode_semantic K r))"

text \<open>The dictionary of the decoded objects by their ids; a later object of an id replaces an earlier one.\<close>

fun decode_objects ::
    "('a, 'b) Codec \<Rightarrow> 'b PrefetchObjectProto list \<Rightarrow> (string, 'a Loaded option) dict \<Rightarrow> (string, 'a Loaded option) dict res" where
  "decode_objects K [] d = Inr d"
| "decode_objects K (item # rest) d =
     (case decode_prefetch_object K item of
        Inl e \<Rightarrow> Inl e
      | Inr x \<Rightarrow> decode_objects K rest (dset d (po_object_id item) x))"

definition client_prefetch_batch ::
    "('a, 'b) Codec \<Rightarrow> ('c, 'b) L3ServiceStub \<Rightarrow> PrefetchDecision list \<Rightarrow> 'c \<Rightarrow> (string, 'a Loaded option) dict res \<times> 'c" where
  "client_prefetch_batch K S decisions c =
     (case sb_PrefetchBatch S (map prefetch_decision_to_proto decisions) c of
        (Inl e, c') \<Rightarrow> (Inl e, c')
      | (Inr objects, c') \<Rightarrow> (decode_objects K objects [], c'))"

section \<open>The channel\<close>

text \<open>An exception of a handler reaches the client as an \<^verbatim>\<open>RpcError\<close> with status \<^verbatim>\<open>UNKNOWN\<close>.\<close>

definition rpc_error :: pyerr where
  "rpc_error = LibError ''RpcError: UNKNOWN''"

definition rpc :: "'r res \<Rightarrow> 'r res" where
  "rpc r = (case r of Inl _ \<Rightarrow> Inl rpc_error | Inr x \<Rightarrow> Inr x)"

lemma rpc_simps [simp]: "rpc (Inl e) = Inl rpc_error" "rpc (Inr x) = Inr x"
  by (simp_all add: rpc_def)

text \<open>
  The contract between the client and the service: each call of the stub runs the handler of its name
  on the store behind it, at the time \<open>now\<close>, and sends bytes as numpy writes them.
\<close>

lemma got_cases:
  fixes r :: "'x option res"
  obtains (error) e where "r = Inl e" | (none) "r = Inr None" | (found) x where "r = Inr (Some x)"
  by (cases r) (auto split: option.splits dest: not_None_eq [THEN iffD1])

locale l3_channel =
  fixes S :: "(('s, 'h) UnifiedObjectStore, 'b) L3ServiceStub"
    and E :: "('s, 'h, 'a, 'b) StoreEnv" and nb :: 'b and now :: rat
  assumes codec: "codec_ok (env_codec E)"
    and put_kv: "sb_PutKVBlock S req st = apfst rpc (PutKVBlock E req st)"
    and get_kv: "sb_GetKVBlock S oid st = (rpc (GetKVBlock E nb now oid st), st)"
    and delete_kv: "sb_DeleteKVBlock S oid st = apfst rpc (DeleteKVBlock E oid st)"
    and list_kv: "sb_ListKVBlocks S st = (rpc (ListKVBlocks E st), st)"
    and put_rag: "sb_PutRAGObject S rreq st = apfst rpc (PutRAGObject E rreq st)"
    and get_rag: "sb_GetRAGObject S oid st = (rpc (GetRAGObject E nb now oid st), st)"
    and put_semantic: "sb_PutSemanticEntry S sreq st = apfst rpc (PutSemanticEntry E sreq st)"
    and get_semantic: "sb_GetSemanticEntry S oid st = (rpc (GetSemanticEntry E nb now oid st), st)"
    and search: "sb_SearchSimilarPrompts S preq st = (rpc (SearchSimilarPrompts E preq st), st)"
    and prefetch: "sb_PrefetchBatch S ds st = (rpc (PrefetchBatch E now ds st), st)"
    and get_stats: "sb_GetStats S st = (rpc (GetStats E fr st), st)"
begin

lemma client_put_kv:
  "client_put_kv_block (env_codec E) S b k v st =
     (if kv_fits b then apfst rpc (case put_kv_block E (wire_kv b) k v st of (r, _, st') \<Rightarrow> (r, st'))
      else (Inl out_of_range, st))"
  by (rule deliversE [OF kv_delivers, of b])
    (simp_all add: client_put_kv_block_def put_kv PutKVBlock_def array_wire [OF codec])

lemma client_put_rag:
  "client_put_rag_object (env_codec E) S r v st =
     (if rag_fits r then apfst rpc (case put_rag_object E (wire_rag r) v st of (i, _, st') \<Rightarrow> (i, st'))
      else (Inl out_of_range, st))"
  by (rule deliversE [OF rag_delivers, of r])
    (simp_all add: client_put_rag_object_def put_rag PutRAGObject_def array_wire [OF codec])

lemma client_put_semantic:
  "client_put_semantic_entry (env_codec E) S x v st =
     (if semantic_fits x then apfst rpc (case put_semantic_entry E (wire_semantic x) v st of (i, _, st') \<Rightarrow> (i, st'))
      else (Inl out_of_range, st))"
  by (rule deliversE [OF semantic_delivers, of x])
    (simp_all add: client_put_semantic_entry_def put_semantic PutSemanticEntry_def array_wire [OF codec])

lemma client_get_kv:
  "client_get_kv_block (env_codec E) S oid st =
     (case get_kv_block E now oid st of
        Inl e \<Rightarrow> Inl rpc_error
      | Inr None \<Rightarrow> Inr None
      | Inr (Some (b, k, v)) \<Rightarrow> if kv_fits b then Inr (Some (wire_kv b, k, v)) else Inl rpc_error, st)"
proof -
  have "(case rpc (kv_response (env_codec E) b k v True) of Inl e \<Rightarrow> (Inl e, st)
      | Inr r \<Rightarrow> (if \<not> ak_found r then Inr None else map_sum id Some (decode_kv (env_codec E) r), st))
      = (if kv_fits b then Inr (Some (wire_kv b, k, v)) else Inl rpc_error, st)" for b k v
    by (rule deliversE [OF kv_delivers, of b]) (simp_all add: kv_response_def decode_kv_def array_wire [OF codec])
  then show ?thesis
    by (cases rule: got_cases [of "get_kv_block E now oid st"])
      (simp_all add: client_get_kv_block_def get_kv GetKVBlock_def not_found_kv_def split: prod.split)
qed

lemma client_get_rag:
  "client_get_rag_object (env_codec E) S oid st =
     (case get_rag_object E now oid st of
        Inl e \<Rightarrow> Inl rpc_error
      | Inr None \<Rightarrow> Inr None
      | Inr (Some (r, v)) \<Rightarrow> if rag_fits r then Inr (Some (wire_rag r, v)) else Inl rpc_error, st)"
proof -
  have "(case rpc (rag_response (env_codec E) r v True) of Inl e \<Rightarrow> (Inl e, st)
      | Inr a \<Rightarrow> (if \<not> ar_found a then Inr None else map_sum id Some (decode_rag (env_codec E) a), st))
      = (if rag_fits r then Inr (Some (wire_rag r, v)) else Inl rpc_error, st)" for r v
    by (rule deliversE [OF rag_delivers, of r]) (simp_all add: rag_response_def decode_rag_def array_wire [OF codec])
  then show ?thesis
    by (cases rule: got_cases [of "get_rag_object E now oid st"])
      (simp_all add: client_get_rag_object_def get_rag GetRAGObject_def not_found_rag_def split: prod.split)
qed

lemma client_get_semantic:
  "client_get_semantic_entry (env_codec E) S oid st =
     (case get_semantic_entry E now oid st of
        Inl e \<Rightarrow> Inl rpc_error
      | Inr None \<Rightarrow> Inr None
      | Inr (Some (x, v)) \<Rightarrow> if semantic_fits x then Inr (Some (wire_semantic x, v)) else Inl rpc_error, st)"
proof -
  have "(case rpc (semantic_response (env_codec E) x v True) of Inl e \<Rightarrow> (Inl e, st)
      | Inr a \<Rightarrow> (if \<not> as_found a then Inr None else map_sum id Some (decode_semantic (env_codec E) a), st))
      = (if semantic_fits x then Inr (Some (wire_semantic x, v)) else Inl rpc_error, st)" for x v
    by (rule deliversE [OF semantic_delivers, of x])
      (simp_all add: semantic_response_def decode_semantic_def array_wire [OF codec])
  then show ?thesis
    by (cases rule: got_cases [of "get_semantic_entry E now oid st"])
      (simp_all add: client_get_semantic_entry_def get_semantic GetSemanticEntry_def not_found_semantic_def split: prod.split)
qed

lemma client_search:
  "client_search_similar_prompts (env_codec E) S q top_k threshold st =
     (if fits_int32 top_k
      then rpc (search_similar_prompts (env_runtime E) q (if top_k = 0 then 5 else top_k) threshold (os_metadata st))
      else Inl out_of_range, st)"
  by (auto simp: client_search_similar_prompts_def wire_simps search SearchSimilarPrompts_def array_wire [OF codec] comp_def
      case_prod_unfold split: sum.split)

lemma client_delete_list:
  "client_delete_kv_block S oid st = apfst rpc (delete_kv_block E oid st)"
  "client_list_kv_blocks S st = (rpc (list_kv_blocks E st), st)"
  by (simp_all add: client_delete_kv_block_def delete_kv DeleteKVBlock_def client_list_kv_blocks_def list_kv ListKVBlocks_def)

end

text \<open>A stub whose calls run the handlers in the same process.\<close>

definition service_stub ::
    "('s, 'h, 'a, 'b) StoreEnv \<Rightarrow> 'b \<Rightarrow> rat \<Rightarrow> (('s, 'h) UnifiedObjectStore, 'b) L3ServiceStub" where
  "service_stub E nb now = \<lparr>
     sb_PutKVBlock = (\<lambda>req st. apfst rpc (PutKVBlock E req st)),
     sb_GetKVBlock = (\<lambda>oid st. (rpc (GetKVBlock E nb now oid st), st)),
     sb_DeleteKVBlock = (\<lambda>oid st. apfst rpc (DeleteKVBlock E oid st)),
     sb_ListKVBlocks = (\<lambda>st. (rpc (ListKVBlocks E st), st)),
     sb_PutRAGObject = (\<lambda>req st. apfst rpc (PutRAGObject E req st)),
     sb_GetRAGObject = (\<lambda>oid st. (rpc (GetRAGObject E nb now oid st), st)),
     sb_PutSemanticEntry = (\<lambda>req st. apfst rpc (PutSemanticEntry E req st)),
     sb_GetSemanticEntry = (\<lambda>oid st. (rpc (GetSemanticEntry E nb now oid st), st)),
     sb_SearchSimilarPrompts = (\<lambda>req st. (rpc (SearchSimilarPrompts E req st), st)),
     sb_PrefetchBatch = (\<lambda>ds st. (rpc (PrefetchBatch E now ds st), st)),
     sb_GetStats = (\<lambda>st. (rpc (GetStats E (\<lambda>q. []) st), st))\<rparr>"

lemma service_channel: "codec_ok (env_codec E) \<Longrightarrow> l3_channel (service_stub E nb now) E nb now"
  by unfold_locales (simp_all add: service_stub_def, metis stats_without_floats)

interpretation service: l3_channel "service_stub (E\<lparr>env_codec := blob_codec\<rparr>) nb now" "E\<lparr>env_codec := blob_codec\<rparr>" nb now
  for E :: "('s, 'h, 'a, 'a blob) StoreEnv" and nb :: "'a blob" and now :: rat
  by (rule service_channel) simp

section \<open>What a batch delivers\<close>

text \<open>The types the service answers, and the objects that it can send for a decision.\<close>

definition remote_type :: "string \<Rightarrow> bool" where
  "remote_type t \<longleftrightarrow> t = ''kv_cache'' \<or> t = ''rag'' \<or> t = ''semantic''"

fun sendable :: "string \<Rightarrow> 'a Loaded \<Rightarrow> bool" where
  "sendable t (Loaded_kv b k v) \<longleftrightarrow> t = ''kv_cache'' \<and> kv_fits b"
| "sendable t (Loaded_rag r v) \<longleftrightarrow> t = ''rag'' \<and> rag_fits r"
| "sendable t (Loaded_semantic x v) \<longleftrightarrow> t = ''semantic'' \<and> semantic_fits x"
| "sendable t (Loaded_tool a) \<longleftrightarrow> False"
| "sendable t (Loaded_plan p v) \<longleftrightarrow> False"

fun wire_loaded :: "'a Loaded \<Rightarrow> 'a Loaded" where
  "wire_loaded (Loaded_kv b k v) = Loaded_kv (wire_kv b) k v"
| "wire_loaded (Loaded_rag r v) = Loaded_rag (wire_rag r) v"
| "wire_loaded (Loaded_semantic x v) = Loaded_semantic (wire_semantic x) v"
| "wire_loaded (Loaded_tool a) = Loaded_tool a"
| "wire_loaded (Loaded_plan p v) = Loaded_plan p v"

lemma wrong_class_raises: "\<exists>e. wrong_class m = Inl e"
  by (cases "meta_to_proto m") (simp_all add: wrong_class_def)

lemma wrong_class_not_ok [simp]: "wrong_class m \<noteq> Inr x"
  by (cases "meta_to_proto m") (simp_all add: wrong_class_def)

lemma kv_response_sent:
  assumes "codec_ok K"
  shows "if kv_fits b then \<exists>r. kv_response K b k v f = Inr r \<and> decode_kv K r = Inr (wire_kv b, k, v)
    else kv_response K b k v f = Inl out_of_range"
  by (rule deliversE [OF kv_delivers, of b]) (simp_all add: kv_response_def decode_kv_def array_wire [OF assms])

lemma rag_response_sent:
  assumes "codec_ok K"
  shows "if rag_fits r then \<exists>a. rag_response K r v f = Inr a \<and> decode_rag K a = Inr (wire_rag r, v)
    else rag_response K r v f = Inl out_of_range"
  by (rule deliversE [OF rag_delivers, of r]) (simp_all add: rag_response_def decode_rag_def array_wire [OF assms])

lemma semantic_response_sent:
  assumes "codec_ok K"
  shows "if semantic_fits x then \<exists>a. semantic_response K x v f = Inr a \<and> decode_semantic K a = Inr (wire_semantic x, v)
    else semantic_response K x v f = Inl out_of_range"
  by (rule deliversE [OF semantic_delivers, of x])
    (simp_all add: semantic_response_def decode_semantic_def array_wire [OF assms])

lemma object_response_spec:
  assumes "codec_ok K"
  shows "(\<not> remote_type (pd_prefetch_type d) \<longrightarrow> prefetch_object_response K d r = Inr None)
    \<and> (remote_type (pd_prefetch_type d) \<and> sendable (pd_prefetch_type d) r \<longrightarrow>
         (\<exists>p. prefetch_object_response K d r = Inr (Some p) \<and> po_object_id p = pd_object_id d
            \<and> decode_prefetch_object K p = Inr (Some (wire_loaded r))))
    \<and> (remote_type (pd_prefetch_type d) \<and> \<not> sendable (pd_prefetch_type d) r \<longrightarrow>
         (\<exists>e. prefetch_object_response K d r = Inl e))"
proof (cases r)
  case (Loaded_kv b k v)
  then show ?thesis using kv_response_sent [OF assms, of b k v True]
    by (auto simp: prefetch_object_response_def remote_type_def decode_prefetch_object_def Let_def split: if_splits)
next
  case (Loaded_rag x v)
  then show ?thesis using rag_response_sent [OF assms, of x v True] wrong_class_raises [of "rg_meta x"]
    by (auto simp: prefetch_object_response_def remote_type_def decode_prefetch_object_def Let_def split: if_splits)
next
  case (Loaded_semantic x v)
  then show ?thesis using semantic_response_sent [OF assms, of x v True] wrong_class_raises [of "se_meta x"]
    by (auto simp: prefetch_object_response_def remote_type_def decode_prefetch_object_def Let_def split: if_splits)
next
  case (Loaded_tool a)
  then show ?thesis by (auto simp: prefetch_object_response_def remote_type_def Let_def)
next
  case (Loaded_plan p v)
  then show ?thesis using wrong_class_raises [of "pl_meta p"]
    by (auto simp: prefetch_object_response_def remote_type_def Let_def)
qed

text \<open>The decisions whose object can be sent.\<close>

definition batch_sendable :: "(string, 'a Loaded) dict \<Rightarrow> PrefetchDecision list \<Rightarrow> bool" where
  "batch_sendable prefetched ds \<longleftrightarrow> (\<forall>d \<in> set ds. \<forall>r. dget prefetched (pd_object_id d) = Some r \<longrightarrow>
     remote_type (pd_prefetch_type d) \<longrightarrow> sendable (pd_prefetch_type d) r)"

definition batch_asks :: "PrefetchDecision list \<Rightarrow> string \<Rightarrow> bool" where
  "batch_asks ds oid \<longleftrightarrow> (\<exists>d \<in> set ds. pd_object_id d = oid \<and> remote_type (pd_prefetch_type d))"

lemma responses_fail:
  assumes "codec_ok K" and "\<not> batch_sendable prefetched ds"
  shows "\<exists>e. prefetch_responses K prefetched ds = Inl e"
  using assms(2)
proof (induction ds)
  case Nil
  then show ?case by (simp add: batch_sendable_def)
next
  case (Cons d ds)
  show ?case
  proof (cases "dget prefetched (pd_object_id d)")
    case None
    with Cons show ?thesis by (simp add: batch_sendable_def del: map_of_eq_None_iff)
  next
    case (Some r)
    with Cons object_response_spec [OF assms(1), of d r] show ?thesis
      by (cases "remote_type (pd_prefetch_type d)"; cases "sendable (pd_prefetch_type d) r")
        (fastforce simp: batch_sendable_def simp del: map_of_eq_Some_iff Some_eq_map_of_iff)+
  qed
qed

lemma responses_deliver:
  assumes "codec_ok K" and "batch_sendable prefetched ds"
  shows "\<exists>items dct. prefetch_responses K prefetched ds = Inr items \<and> decode_objects K items acc = Inr dct
    \<and> (\<forall>oid. dget dct oid = (case dget prefetched oid of
         Some r \<Rightarrow> if batch_asks ds oid then Some (Some (wire_loaded r)) else dget acc oid
       | None \<Rightarrow> dget acc oid))"
  using assms(2)
proof (induction ds arbitrary: acc)
  case Nil
  then show ?case by (simp add: batch_asks_def split: option.split)
next
  case (Cons d ds)
  then have IH: "\<And>acc. \<exists>items dct. prefetch_responses K prefetched ds = Inr items \<and> decode_objects K items acc = Inr dct
    \<and> (\<forall>oid. dget dct oid = (case dget prefetched oid of
         Some r \<Rightarrow> if batch_asks ds oid then Some (Some (wire_loaded r)) else dget acc oid
       | None \<Rightarrow> dget acc oid))"
    by (simp add: batch_sendable_def)
  have asks: "batch_asks (d # ds) oid \<longleftrightarrow> pd_object_id d = oid \<and> remote_type (pd_prefetch_type d) \<or> batch_asks ds oid" for oid
    by (auto simp: batch_asks_def)
  show ?case
  proof (cases "dget prefetched (pd_object_id d)")
    case None
    then show ?thesis using IH [of acc] asks by (fastforce simp del: map_of_eq_None_iff split: option.splits)
  next
    case (Some r)
    show ?thesis
    proof (cases "remote_type (pd_prefetch_type d)")
      case False
      then have "batch_asks (d # ds) = batch_asks ds" using asks by auto
      then show ?thesis
        unfolding \<open>batch_asks (d # ds) = batch_asks ds\<close>
        using False IH [of acc] Some object_response_spec [OF assms(1), of d r] by simp
    next
      case True
      with Some Cons.prems have "sendable (pd_prefetch_type d) r"
        by (simp add: batch_sendable_def del: map_of_eq_Some_iff Some_eq_map_of_iff)
      with True object_response_spec [OF assms(1), of d r] obtain p where
        p: "prefetch_object_response K d r = Inr (Some p)" "po_object_id p = pd_object_id d"
           "decode_prefetch_object K p = Inr (Some (wire_loaded r))" by blast
      from IH [of "dset acc (pd_object_id d) (Some (wire_loaded r))"] obtain items dct where
        i: "prefetch_responses K prefetched ds = Inr items"
          "decode_objects K items (dset acc (pd_object_id d) (Some (wire_loaded r))) = Inr dct"
          "\<forall>oid. dget dct oid = (case dget prefetched oid of
             Some x \<Rightarrow> if batch_asks ds oid then Some (Some (wire_loaded x)) else dget (dset acc (pd_object_id d) (Some (wire_loaded r))) oid
           | None \<Rightarrow> dget (dset acc (pd_object_id d) (Some (wire_loaded r))) oid)" by blast
      have "dget dct oid = (case dget prefetched oid of
             Some x \<Rightarrow> if batch_asks (d # ds) oid then Some (Some (wire_loaded x)) else dget acc oid
           | None \<Rightarrow> dget acc oid)" for oid
        using i(3) [rule_format, of oid] Some True asks by (cases "pd_object_id d = oid") (auto simp: dget_dset split: option.splits)
      with i(1,2) p Some show ?thesis by auto
    qed
  qed
qed

section \<open>Properties\<close>

text \<open>C35: Over a channel to the service the client's operations are the store's: a put stores the object as the wire keeps it,
  a get returns what the store returns as the wire keeps it, and an object whose integers do not fit, or an
  exception of the store, is an error.  A search for zero matches asks for five.\<close>

theorem client_refines_store:
  assumes "codec_ok (env_codec E)" and "stub = service_stub E nb now"
  shows "client_put_kv_block (env_codec E) stub b k v st =
      (if kv_fits b then apfst rpc (case put_kv_block E (wire_kv b) k v st of (r, _, st') \<Rightarrow> (r, st'))
       else (Inl out_of_range, st))
    \<and> client_get_kv_block (env_codec E) stub oid st =
      (case get_kv_block E now oid st of
         Inl e \<Rightarrow> Inl rpc_error
       | Inr None \<Rightarrow> Inr None
       | Inr (Some (b, k, v)) \<Rightarrow> if kv_fits b then Inr (Some (wire_kv b, k, v)) else Inl rpc_error, st)
    \<and> client_delete_kv_block stub oid st = apfst rpc (delete_kv_block E oid st)
    \<and> client_list_kv_blocks stub st = (rpc (list_kv_blocks E st), st)
    \<and> client_put_rag_object (env_codec E) stub r w st =
      (if rag_fits r then apfst rpc (case put_rag_object E (wire_rag r) w st of (i, _, st') \<Rightarrow> (i, st'))
       else (Inl out_of_range, st))
    \<and> client_get_rag_object (env_codec E) stub oid st =
      (case get_rag_object E now oid st of
         Inl e \<Rightarrow> Inl rpc_error
       | Inr None \<Rightarrow> Inr None
       | Inr (Some (r, v)) \<Rightarrow> if rag_fits r then Inr (Some (wire_rag r, v)) else Inl rpc_error, st)
    \<and> client_put_semantic_entry (env_codec E) stub x w st =
      (if semantic_fits x then apfst rpc (case put_semantic_entry E (wire_semantic x) w st of (i, _, st') \<Rightarrow> (i, st'))
       else (Inl out_of_range, st))
    \<and> client_get_semantic_entry (env_codec E) stub oid st =
      (case get_semantic_entry E now oid st of
         Inl e \<Rightarrow> Inl rpc_error
       | Inr None \<Rightarrow> Inr None
       | Inr (Some (x, v)) \<Rightarrow> if semantic_fits x then Inr (Some (wire_semantic x, v)) else Inl rpc_error, st)
    \<and> client_search_similar_prompts (env_codec E) stub w top_k threshold st =
      (if fits_int32 top_k
       then rpc (search_similar_prompts (env_runtime E) w (if top_k = 0 then 5 else top_k) threshold (os_metadata st))
       else Inl out_of_range, st)"
proof -
  have ch: "l3_channel stub E nb now" unfolding assms(2) by (rule service_channel [OF assms(1)])
  show ?thesis
    by (intro conjI l3_channel.client_put_kv [OF ch] l3_channel.client_get_kv [OF ch] l3_channel.client_delete_list [OF ch]
      l3_channel.client_put_rag [OF ch] l3_channel.client_get_rag [OF ch] l3_channel.client_put_semantic [OF ch]
      l3_channel.client_get_semantic [OF ch] l3_channel.client_search [OF ch])
qed

lemma client_refines_store_witness:
  "client_put_kv_block blob_codec (service_stub sample_env (Blob_array []) 7) ((sample_block ''blk'' [1, 2])\<lparr>kv_block_index := 2 ^ 31\<rparr>)
      [1] [2] sample_store = (Inl out_of_range, sample_store)
   \<and> client_get_kv_block blob_codec (service_stub sample_env (Blob_array []) 7) ''blk'' sample_store = (Inr None, sample_store)"
proof -
  have "\<not> kv_fits ((sample_block ''blk'' [1, 2])\<lparr>kv_block_index := 2 ^ 31\<rparr>)" by (simp add: kv_fits_def fits_int32_def)
  moreover have "get_kv_block sample_env 7 ''blk'' sample_store = Inr None"
    by (simp add: get_kv_block_def sample_store_def Let_def get_pair_def memory_get_def memory_init_def)
  ultimately show ?thesis
    using client_refines_store [of sample_env "service_stub sample_env (Blob_array []) 7" "Blob_array []" 7
      "(sample_block ''blk'' [1, 2])\<lparr>kv_block_index := 2 ^ 31\<rparr>" "[1]" "[2]" sample_store "''blk''"]
    by simp
qed

text \<open>C36: A batch fetched over the channel gives each object that was asked for under a type the service answers, as the wire keeps
  it; but one decision that names a loaded object under another type, or an object that does not fit, makes
  the whole batch an error.\<close>

theorem prefetch_over_channel:
  assumes "codec_ok (env_codec E)"
    and "prefetch_batch E now (map (\<lambda>d. (Some (pd_object_id d), Some (pd_prefetch_type d))) ds) st = Inr prefetched"
  shows "(batch_sendable prefetched ds \<longrightarrow> (\<exists>dct.
       client_prefetch_batch (env_codec E) (service_stub E nb now) ds st = (Inr dct, st)
       \<and> (\<forall>oid. dget dct oid = (case dget prefetched oid of
            Some r \<Rightarrow> if batch_asks ds oid then Some (Some (wire_loaded r)) else None
          | None \<Rightarrow> None))))
    \<and> (\<not> batch_sendable prefetched ds \<longrightarrow>
       client_prefetch_batch (env_codec E) (service_stub E nb now) ds st = (Inl rpc_error, st))"
proof -
  have call: "client_prefetch_batch (env_codec E) (service_stub E nb now) ds st =
      (case rpc (prefetch_responses (env_codec E) prefetched ds) of
         Inl e \<Rightarrow> Inl e | Inr items \<Rightarrow> decode_objects (env_codec E) items [], st)"
    using assms(2) by (simp add: client_prefetch_batch_def service_stub_def PrefetchBatch_def comp_def Let_def split: sum.split)
  show ?thesis
  proof (cases "batch_sendable prefetched ds")
    case True
    from responses_deliver [OF assms(1) this, of "[]"] True show ?thesis unfolding call map_of.simps(1) by auto
  next
    case False
    from responses_fail [OF assms(1) this] False show ?thesis unfolding call by auto
  qed
qed

lemma sample_filled_read:
  "\<exists>b. get_kv_block sample_env 7 ''blk'' sample_filled = Inr (Some (b, [1], [2])) \<and> kv_fits b"
proof -
  have fill: "fill_token_hash sample_env (sample_block ''blk'' [1, 2]) = Inr (sample_block ''blk'' [1, 2])"
    by (simp add: fill_token_hash_def sample_block_def)
  have id: "object_id (kv_meta (sample_block ''blk'' [1, 2])) = ''blk''" by (simp add: sample_block_def new_meta_def)
  from total_store.put_kv_total [OF sample_total fill, of "[1]" "[2]" sample_store] obtain b st' where
    put: "put_kv_block sample_env (sample_block ''blk'' [1, 2]) [1] [2] sample_store = (Inr ''blk'', b, st')"
    and b: "b = (sample_block ''blk'' [1, 2])\<lparr>kv_meta := (kv_meta (sample_block ''blk'' [1, 2]))\<lparr>size_bytes := 8\<rparr>\<rparr>"
    unfolding id by (auto simp: sample_runtime_def sample_numpy_def)
  have "st' = sample_filled" by (simp add: sample_filled_def put)
  moreover have "md_bloom_wf (os_metadata sample_store)" using sample_fresh by (simp add: fresh_store_def)
  moreover have "kv_fits (b\<lparr>kv_meta := touch 7 (kv_meta b)\<rparr>)"
    unfolding b by (simp add: kv_fits_def meta_fits_def touch_def sample_block_def new_meta_def fits_int32_def fits_uint64_def)
  ultimately show ?thesis using total_store.put_get_kv [OF sample_total _ _ put, of 7] by auto
qed

definition sample_ask :: "string \<Rightarrow> PrefetchDecision" where
  "sample_ask t = \<lparr>pd_object_id = ''blk'', pd_priority = 1, pd_prefetch_type = t\<rparr>"

lemma prefetch_over_channel_witness:
  "\<exists>b dct. client_prefetch_batch blob_codec (service_stub sample_env (Blob_array []) 7) [sample_ask ''kv_cache''] sample_filled
       = (Inr dct, sample_filled)
     \<and> dget dct ''blk'' = Some (Some (Loaded_kv b [1] [2]))
     \<and> client_prefetch_batch blob_codec (service_stub sample_env (Blob_array []) 7)
         [sample_ask ''kv_cache'', sample_ask ''rag''] sample_filled = (Inl rpc_error, sample_filled)"
proof -
  obtain b where b: "get_kv_block sample_env 7 ''blk'' sample_filled = Inr (Some (b, [1], [2]))" "kv_fits b"
    using sample_filled_read by blast
  let ?asked = "map (\<lambda>d. (Some (pd_object_id d), Some (pd_prefetch_type d)))"
  have run: "prefetch_batch sample_env 7 (?asked ds) sample_filled = Inr [(''blk'', Loaded_kv b [1] [2])]"
    if "ds = [sample_ask ''kv_cache''] \<or> ds = [sample_ask ''kv_cache'', sample_ask ''rag'']" for ds
    using that b(1) by (auto simp: prefetch_batch_def prefetch_one_def sample_ask_def)
  have "batch_sendable [(''blk'', Loaded_kv b [1] [2])] [sample_ask ''kv_cache'']"
    "batch_asks [sample_ask ''kv_cache''] ''blk''"
    "\<not> batch_sendable [(''blk'', Loaded_kv b [1] [2])] [sample_ask ''kv_cache'', sample_ask ''rag'']"
    using b(2) by (simp_all add: batch_sendable_def batch_asks_def sample_ask_def remote_type_def)
  with prefetch_over_channel [OF _ run, of "[sample_ask ''kv_cache'']" "Blob_array []"]
    prefetch_over_channel [OF _ run, of "[sample_ask ''kv_cache'', sample_ask ''rag'']" "Blob_array []"]
  show ?thesis by auto
qed

end
