(* ===== verification/StoreTypes.thy ===== *)
theory StoreTypes
  imports StoreProps
begin

text \<open>
  Type safety of the object store.  A store is well typed when every blob at a key of an object was
  written by the serializer of that object's type, and from an object that carries that id.  Every
  operation preserves this on every backend, so a read decodes with the deserializer that matches:
  it raises nothing but what the backend raises, or the \<^verbatim>\<open>ValueError\<close> of a validator, and an object it
  answers carries the id it was asked for and passes the validators of its class.
\<close>

section \<open>Well-typed stores\<close>

fun meta_typed :: "('a, 'b) Codec \<Rightarrow> ObjectType \<Rightarrow> string \<Rightarrow> 'b \<Rightarrow> bool" where
  "meta_typed K KV_CACHE oid b = (\<exists>x. b = serialize_kv_block_meta K x \<and> object_id (kv_meta x) = oid)"
| "meta_typed K RAG oid b = (\<exists>x. b = serialize_rag_meta K x \<and> object_id (rg_meta x) = oid)"
| "meta_typed K SEMANTIC_CACHE oid b = (\<exists>x. b = serialize_semantic_entry K x \<and> object_id (se_meta x) = oid)"
| "meta_typed K AGENT_WORKFLOW oid b =
     (\<exists>x. b = serialize_agent_workflow K x \<and> object_id (wf_meta x) = oid \<and> wf_workflow_id x = oid)"
| "meta_typed K AGENT_STEP oid b =
     (\<exists>x. b = serialize_agent_step K x \<and> object_id (st_meta x) = oid \<and> st_step_id x = oid)"
| "meta_typed K TOOL_CALL_ARTIFACT oid b =
     (\<exists>x. b = serialize_tool_artifact K x \<and> object_id (ta_meta x) = oid \<and> ta_tool_call_id x = oid
        \<and> valid_until (ta_meta x) = Some (ta_expires_at x))"
| "meta_typed K PLAN_CACHE oid b =
     (\<exists>x. b = serialize_plan_cache_entry K x \<and> object_id (pl_meta x) = oid \<and> pl_plan_id x = oid)"
| "meta_typed K WORKFLOW_TRACE oid b =
     (\<exists>x. b = serialize_workflow_trace K x \<and> object_id (tr_meta x) = oid \<and> tr_workflow_id x = oid)"

fun data_typed :: "('a, 'b) Codec \<Rightarrow> ObjectType \<Rightarrow> 'b \<Rightarrow> bool" where
  "data_typed K KV_CACHE b = (\<exists>k v. b = serialize_kv_tensors K k v)"
| "data_typed K RAG b = (\<exists>v. b = serialize_embedding K v)"
| "data_typed K SEMANTIC_CACHE b = (\<exists>v. b = serialize_embedding K v)"
| "data_typed K PLAN_CACHE b = (\<exists>v. b = serialize_plan_embedding K v)"
| "data_typed K _ b = False"

text \<open>What an operation may leave at a key of its object.\<close>

definition blob_typed :: "('s, 'h, 'a, 'b) StoreEnv \<Rightarrow> ObjectType \<Rightarrow> string \<Rightarrow> string \<Rightarrow> 'b \<Rightarrow> bool" where
  "blob_typed E ty oid k b \<longleftrightarrow>
     (k = object_meta_key (env_config E) ty oid \<and> meta_typed (env_codec E) ty oid b)
     \<or> (k = main_key (env_config E) ty oid \<and> data_typed (env_codec E) ty b)"

definition store_typed ::
    "('s, 'h, 'a, 'b) StoreEnv \<Rightarrow> ('s \<Rightarrow> string \<Rightarrow> 'b option) \<Rightarrow> ('s, 'h) UnifiedObjectStore \<Rightarrow> bool" where
  "store_typed E contents st \<longleftrightarrow>
     (\<forall>ty oid. \<forall>k \<in> object_keys (env_config E) ty oid. \<forall>b.
        contents (os_storage st) k = Some b \<longrightarrow> blob_typed E ty oid k b)"

lemma data_typed_pair: "data_typed K ty b \<Longrightarrow> data_ext ty \<noteq> None"
  by (cases ty) simp_all

lemma blob_typed_meta:
  "blob_typed E ty oid (object_meta_key (env_config E) ty oid) b \<Longrightarrow> meta_typed (env_codec E) ty oid b"
  using meta_main_neq [of ty "env_config E" oid oid] data_typed_pair
  by (fastforce simp: blob_typed_def object_meta_key_def)

lemma blob_typed_data:
  "blob_typed E ty oid (main_key (env_config E) ty oid) b \<Longrightarrow> data_ext ty \<noteq> None \<Longrightarrow> data_typed (env_codec E) ty b"
  using meta_main_neq [of ty "env_config E" oid oid] by (fastforce simp: blob_typed_def object_meta_key_def)

text \<open>An operation leaves at a key what was there, nothing, or a blob of its object.\<close>

definition writes_typed ::
    "('s, 'h, 'a, 'b) StoreEnv \<Rightarrow> ('s \<Rightarrow> string \<Rightarrow> 'b option) \<Rightarrow> ObjectType \<Rightarrow> string \<Rightarrow> 's \<Rightarrow> 's \<Rightarrow> bool" where
  "writes_typed E contents ty oid s s' \<longleftrightarrow>
     (\<forall>k. contents s' k = contents s k \<or> contents s' k = None
        \<or> (\<exists>b. contents s' k = Some b \<and> blob_typed E ty oid k b))"

lemma writes_typed_refl [simp]: "writes_typed E contents ty oid s s"
  by (simp add: writes_typed_def)

lemma store_typed_writes:
  assumes ok: "prefixes_ok (env_config E)" and typed: "store_typed E contents st"
    and w: "writes_typed E contents ty oid (os_storage st) (os_storage st')"
  shows "store_typed E contents st'"
  unfolding store_typed_def
proof (intro allI ballI impI)
  fix ty' oid' k b
  assume k: "k \<in> object_keys (env_config E) ty' oid'" and b: "contents (os_storage st') k = Some b"
  from w b consider "contents (os_storage st) k = Some b" | "blob_typed E ty oid k b"
    unfolding writes_typed_def by (metis option.distinct(1) option.inject)
  then show "blob_typed E ty' oid' k b"
  proof cases
    case 1
    with typed k show ?thesis unfolding store_typed_def by blast
  next
    case 2
    then have "k \<in> object_keys (env_config E) ty oid" by (auto simp: blob_typed_def object_keys_def)
    with object_keys_disjoint [OF ok k this] 2 show ?thesis by simp
  qed
qed

section \<open>Every operation writes blobs of its type\<close>

lemma fill_keeps_id: "fill_token_hash E b = Inr b1 \<Longrightarrow> object_id (kv_meta b1) = object_id (kv_meta b)"
  by (auto simp: fill_token_hash_def split: if_splits sum.splits)

context object_store
begin

lemma put_pair_writes:
  assumes put: "put_pair E (meta_key (type_prefix (env_config E) ty) oid) mb (main_key (env_config E) ty oid) db s = (out, s')"
    and "meta_typed (env_codec E) ty oid mb" and "data_typed (env_codec E) ty db"
  shows "writes_typed E contents ty oid s s'"
  unfolding writes_typed_def
proof (intro allI)
  fix key
  show "contents s' key = contents s key \<or> contents s' key = None \<or> (\<exists>b. contents s' key = Some b \<and> blob_typed E ty oid key b)"
    using put_pair_key [OF put, of key] assms(2,3) by (auto simp: blob_typed_def object_meta_key_def)
qed

lemma put_meta_writes:
  assumes "put_meta_object E (type_prefix (env_config E) ty) oid b ty st = (r, st')"
    and "meta_typed (env_codec E) ty oid b"
  shows "writes_typed E contents ty oid (os_storage st) (os_storage st')"
  using assms
  by (auto simp: put_meta_object_def writes_typed_def blob_typed_def object_meta_key_def
      dest!: put_any split: prod.splits sum.splits)

lemma after_delete_writes:
  assumes "after_delete E ty oid (out, s') st = (d, st')"
    and "\<And>k. contents s' k = contents (os_storage st) k \<or> contents s' k = None"
  shows "writes_typed E contents ty oid (os_storage st) (os_storage st')"
  unfolding writes_typed_def after_delete_storage [OF assms(1)] using assms(2) by blast

lemma delete_pair_writes:
  assumes "after_delete E ty oid (delete_pair E pfx i x (os_storage st)) st = (d, st')"
  shows "writes_typed E contents ty oid (os_storage st) (os_storage st')"
proof -
  obtain out s' where del: "delete_pair E pfx i x (os_storage st) = (out, s')" by fastforce
  have "contents s' k = contents (os_storage st) k \<or> contents s' k = None" for k
    using delete_pair_frame [OF del, of k] by auto
  with assms show ?thesis unfolding del by (rule after_delete_writes)
qed

lemma delete_meta_writes:
  assumes "delete_meta_object E pfx oid ty st = (d, st')"
  shows "writes_typed E contents ty oid (os_storage st) (os_storage st')"
proof -
  obtain out s' where del: "be_delete (env_backend E) (meta_key pfx oid) (os_storage st) = (out, s')" by fastforce
  have "contents s' k = contents (os_storage st) k \<or> contents s' k = None" for k
    using delete_step_key [OF del, of k] by auto
  with assms show ?thesis unfolding delete_meta_object_def del by (rule after_delete_writes)
qed

lemma put_kv_writes:
  assumes "put_kv_block E b k v st = (r, b', st')"
  shows "writes_typed E contents KV_CACHE (object_id (kv_meta b)) (os_storage st) (os_storage st')"
proof (cases "fill_token_hash E b")
  case (Inl e)
  with assms have "st' = st" by (simp add: put_kv_block_def)
  then show ?thesis by simp
next
  case (Inr b1)
  let ?oid = "object_id (kv_meta b)" and ?c = "env_config E"
  let ?b2 = "b1\<lparr>kv_meta := (kv_meta b1)\<lparr>size_bytes := int (nd_nbytes (rt_numpy (env_runtime E)) k
      + nd_nbytes (rt_numpy (env_runtime E)) v)\<rparr>\<rparr>"
  obtain out s' where put: "put_pair E (meta_key (type_prefix ?c KV_CACHE) ?oid)
      (serialize_kv_block_meta (env_codec E) ?b2) (main_key ?c KV_CACHE ?oid)
      (serialize_kv_tensors (env_codec E) k v) (os_storage st) = (out, s')" by fastforce
  have "os_storage st' = s'"
    using assms Inr put by (auto simp: put_kv_block_def Let_def main_key_def split: sum.splits)
  moreover have "meta_typed (env_codec E) KV_CACHE ?oid (serialize_kv_block_meta (env_codec E) ?b2)"
    using fill_keeps_id [OF Inr] by (auto intro!: exI [of _ ?b2])
  ultimately show ?thesis using put_pair_writes [OF put] by auto
qed

lemma put_rag_writes:
  assumes "put_rag_object E b v st = (r, b', st')"
  shows "writes_typed E contents RAG (object_id (rg_meta b)) (os_storage st) (os_storage st')"
proof (cases "last_axis (rt_numpy (env_runtime E)) v")
  case (Inl e)
  with assms have "st' = st" by (simp add: put_rag_object_def)
  then show ?thesis by simp
next
  case (Inr d)
  let ?oid = "object_id (rg_meta b)" and ?c = "env_config E"
  let ?b2 = "b\<lparr>rg_embedding_dim := d, rg_meta := (rg_meta b)\<lparr>size_bytes :=
      int (nd_nbytes (rt_numpy (env_runtime E)) v)\<rparr>\<rparr>"
  obtain out s' where put: "put_pair E (meta_key (type_prefix ?c RAG) ?oid)
      (serialize_rag_meta (env_codec E) ?b2) (main_key ?c RAG ?oid)
      (serialize_embedding (env_codec E) v) (os_storage st) = (out, s')" by fastforce
  have "os_storage st' = s'"
    using assms Inr put by (auto simp: put_rag_object_def Let_def main_key_def split: sum.splits)
  moreover have "meta_typed (env_codec E) RAG ?oid (serialize_rag_meta (env_codec E) ?b2)"
    by (auto intro!: exI [of _ ?b2])
  ultimately show ?thesis using put_pair_writes [OF put] by auto
qed

lemma put_plan_writes:
  assumes "put_plan_cache_entry E b v st = (r, b', st')"
  shows "writes_typed E contents PLAN_CACHE (pl_plan_id b) (os_storage st) (os_storage st')"
proof (cases "last_axis (rt_numpy (env_runtime E)) v")
  case (Inl e)
  with assms have "st' = st" by (simp add: put_plan_cache_entry_def Let_def)
  then show ?thesis by simp
next
  case (Inr d)
  let ?oid = "pl_plan_id b" and ?c = "env_config E"
  let ?b2 = "b\<lparr>pl_task_embedding_dim := d, pl_meta := (pl_meta b)\<lparr>object_id := pl_plan_id b,
      m_plan_id := Some (pl_plan_id b), m_scope := Some (pl_validity_scope b),
      size_bytes := int (nd_nbytes (rt_numpy (env_runtime E)) v)\<rparr>\<rparr>"
  obtain out s' where put: "put_pair E (meta_key (type_prefix ?c PLAN_CACHE) ?oid)
      (serialize_plan_cache_entry (env_codec E) ?b2) (main_key ?c PLAN_CACHE ?oid)
      (serialize_plan_embedding (env_codec E) v) (os_storage st) = (out, s')" by fastforce
  have "os_storage st' = s'"
    using assms Inr put by (auto simp: put_plan_cache_entry_def Let_def main_key_def split: sum.splits)
  moreover have "meta_typed (env_codec E) PLAN_CACHE ?oid (serialize_plan_cache_entry (env_codec E) ?b2)"
    by (auto intro!: exI [of _ ?b2])
  ultimately show ?thesis using put_pair_writes [OF put] by auto
qed

lemma put_semantic_writes:
  assumes "put_semantic_entry E b v st = (r, b', st')"
  shows "writes_typed E contents SEMANTIC_CACHE (object_id (se_meta b)) (os_storage st) (os_storage st')"
proof (cases "last_axis (rt_numpy (env_runtime E)) v")
  case (Inl e)
  with assms have "st' = st" by (simp add: put_semantic_entry_def)
  then show ?thesis by simp
next
  case (Inr d)
  let ?oid = "object_id (se_meta b)" and ?c = "env_config E"
  let ?b2 = "b\<lparr>se_embedding_dim := d, se_meta := (se_meta b)\<lparr>size_bytes :=
      int (nd_nbytes (rt_numpy (env_runtime E)) v)\<rparr>\<rparr>"
  obtain out s' where put: "put_pair E (meta_key (type_prefix ?c SEMANTIC_CACHE) ?oid)
      (serialize_semantic_entry (env_codec E) ?b2) (main_key ?c SEMANTIC_CACHE ?oid)
      (serialize_embedding (env_codec E) v) (os_storage st) = (out, s')" by fastforce
  have "os_storage st' = s'"
    using assms Inr put by (auto simp: put_semantic_entry_def Let_def main_key_def split: sum.splits prod.splits)
  moreover have "meta_typed (env_codec E) SEMANTIC_CACHE ?oid (serialize_semantic_entry (env_codec E) ?b2)"
    by (auto intro!: exI [of _ ?b2])
  ultimately show ?thesis using put_pair_writes [OF put] by auto
qed

lemma put_workflow_writes:
  assumes "put_agent_workflow E w st = (r, w', st')"
  shows "writes_typed E contents AGENT_WORKFLOW (wf_workflow_id w) (os_storage st) (os_storage st')"
proof -
  let ?w = "w\<lparr>wf_meta := (wf_meta w)\<lparr>object_id := wf_workflow_id w\<rparr>\<rparr>"
  have "put_meta_object E (type_prefix (env_config E) AGENT_WORKFLOW) (wf_workflow_id w)
      (serialize_agent_workflow (env_codec E) ?w) AGENT_WORKFLOW st = (r, st')"
    using assms by (auto simp: put_agent_workflow_def Let_def split: prod.splits)
  then show ?thesis by (rule put_meta_writes) (auto intro!: exI [of _ ?w])
qed

lemma put_step_writes:
  assumes "put_agent_step E w st = (r, w', st')"
  shows "writes_typed E contents AGENT_STEP (st_step_id w) (os_storage st) (os_storage st')"
proof -
  let ?w = "w\<lparr>st_meta := (st_meta w)\<lparr>object_id := st_step_id w\<rparr>\<rparr>"
  have "put_meta_object E (type_prefix (env_config E) AGENT_STEP) (st_step_id w)
      (serialize_agent_step (env_codec E) ?w) AGENT_STEP st = (r, st')"
    using assms by (auto simp: put_agent_step_def Let_def split: prod.splits)
  then show ?thesis by (rule put_meta_writes) (auto intro!: exI [of _ ?w])
qed

lemma put_tool_writes:
  assumes "put_tool_artifact E w st = (r, w', st')"
  shows "writes_typed E contents TOOL_CALL_ARTIFACT (ta_tool_call_id w) (os_storage st) (os_storage st')"
proof -
  let ?w = "w\<lparr>ta_meta := (ta_meta w)\<lparr>object_id := ta_tool_call_id w, m_tool_name := Some (ta_tool_name w),
      m_tool_args_hash := Some (ta_tool_args_hash w), valid_until := Some (ta_expires_at w),
      m_scope := Some (ta_permission_scope w)\<rparr>\<rparr>"
  have "put_meta_object E (type_prefix (env_config E) TOOL_CALL_ARTIFACT) (ta_tool_call_id w)
      (serialize_tool_artifact (env_codec E) ?w) TOOL_CALL_ARTIFACT st = (r, st')"
    using assms by (auto simp: put_tool_artifact_def Let_def split: prod.splits)
  then show ?thesis by (rule put_meta_writes) (auto intro!: exI [of _ ?w])
qed

lemma put_trace_writes:
  assumes "put_workflow_trace E w st = (r, w', st')"
  shows "writes_typed E contents WORKFLOW_TRACE (tr_workflow_id w) (os_storage st) (os_storage st')"
proof -
  let ?w = "w\<lparr>tr_meta := (tr_meta w)\<lparr>object_id := tr_workflow_id w\<rparr>\<rparr>"
  have "put_meta_object E (type_prefix (env_config E) WORKFLOW_TRACE) (tr_workflow_id w)
      (serialize_workflow_trace (env_codec E) ?w) WORKFLOW_TRACE st = (r, st')"
    using assms by (auto simp: put_workflow_trace_def Let_def split: prod.splits)
  then show ?thesis by (rule put_meta_writes) (auto intro!: exI [of _ ?w])
qed

lemmas put_writes = put_kv_writes put_rag_writes put_semantic_writes put_plan_writes
  put_workflow_writes put_step_writes put_tool_writes put_trace_writes

lemma step_writes: "store_step E ty oid st st' \<Longrightarrow> writes_typed E contents ty oid (os_storage st) (os_storage st')"
  by (induction rule: store_step.cases)
     (auto simp: delete_defs intro: put_writes delete_meta_writes delete_pair_writes)

lemma reachable_typed:
  assumes "prefixes_ok (env_config E)"
  shows "store_reachable E st0 st \<Longrightarrow> store_typed E contents st0 \<Longrightarrow> store_typed E contents st"
  by (induction rule: store_reachable.induct) (auto intro: store_typed_writes [OF assms] step_writes)

end

section \<open>What a read answers\<close>

text \<open>
  An answer is typed when it is an exception that the backend raised on reading some key or that a
  validator raised, or \<open>None\<close>, or an object with the property.
\<close>

definition typed_answer ::
    "('s, 'h, 'a, 'b) StoreEnv \<Rightarrow> ('s, 'h) UnifiedObjectStore \<Rightarrow> (pyerr \<Rightarrow> bool) \<Rightarrow> ('o \<Rightarrow> bool) \<Rightarrow> 'o option res \<Rightarrow> bool" where
  "typed_answer E st may_raise ok r =
     (case r of
        Inl e \<Rightarrow> may_raise e \<or> (\<exists>k. be_get (env_backend E) k (os_storage st) = Inl e)
      | Inr None \<Rightarrow> True
      | Inr (Some x) \<Rightarrow> ok x)"

lemma typed_answer_simps [simp]:
  "typed_answer E st may_raise ok (Inr None)"
  "typed_answer E st may_raise ok (Inr (Some x)) = ok x"
  "may_raise e \<Longrightarrow> typed_answer E st may_raise ok (Inl e)"
  "be_get (env_backend E) k (os_storage st) = Inl e \<Longrightarrow> typed_answer E st may_raise ok (Inl e)"
  by (auto simp: typed_answer_def)

lemma touch_id [simp]: "object_id (touch now m) = object_id m" "valid_until (touch now m) = valid_until m"
  by (simp_all add: touch_def)

lemma validate_keeps:
  "validate_timestamps (s\<lparr>st_meta := m\<rparr>) = map_sum id (\<lambda>_. s\<lparr>st_meta := m\<rparr>) (validate_timestamps s)"
  "validate_tool_artifact (a\<lparr>ta_meta := m\<rparr>) = map_sum id (\<lambda>_. a\<lparr>ta_meta := m\<rparr>) (validate_tool_artifact a)"
  "validate_plan_entry (p\<lparr>pl_meta := m\<rparr>) = map_sum id (\<lambda>_. p\<lparr>pl_meta := m\<rparr>) (validate_plan_entry p)"
  "validate_trace (t\<lparr>tr_meta := m\<rparr>) = map_sum id (\<lambda>_. t\<lparr>tr_meta := m\<rparr>) (validate_trace t)"
  by (auto simp: validate_timestamps_def validate_tool_artifact_def validate_ttl_def
      validate_expiration_def validate_plan_entry_def validate_non_negative_int_def
      validate_trace_def validate_shared_prefix_ratio_def validate_branching_factor_def split: option.splits)

lemma validated:
  "validate_timestamps s = Inr s' \<Longrightarrow> s' = s \<and> is_ok (validate_timestamps s)"
  "validate_tool_artifact a = Inr a' \<Longrightarrow> a' = a \<and> is_ok (validate_tool_artifact a)"
  "validate_plan_entry p = Inr p' \<Longrightarrow> p' = p \<and> is_ok (validate_plan_entry p)"
  "validate_trace t = Inr t' \<Longrightarrow> t' = t \<and> is_ok (validate_trace t)"
  by (auto dest: validate_returns_input)

lemma typed_map:
  assumes "\<And>e. r = Inl e \<Longrightarrow> may_raise e" and "\<And>x. r = Inr x \<Longrightarrow> ok (t x)"
  shows "typed_answer E st may_raise ok (map_sum id (\<lambda>x. Some (t x)) r)"
  using assms by (cases r) simp_all

lemma is_ok_map [simp]: "is_ok (map_sum id f r) = is_ok r"
  by (cases r) simp_all

context object_store
begin

lemma typed_pair:
  assumes typed: "store_typed E contents st" and ty: "data_ext ty \<noteq> None"
    and call: "get_pair E (object_meta_key (env_config E) ty oid) (main_key (env_config E) ty oid) (os_storage st) = r"
  shows "typed_answer E st (\<lambda>e. False) (\<lambda>(m, d). meta_typed (env_codec E) ty oid m \<and> data_typed (env_codec E) ty d) r"
proof (cases r)
  case (Inl e)
  with call show ?thesis by (auto simp: get_pair_def typed_answer_def split: sum.splits option.splits)
next
  case (Inr q)
  have "meta_typed (env_codec E) ty oid m" if "contents (os_storage st) (object_meta_key (env_config E) ty oid) = Some m" for m
    using typed that unfolding store_typed_def object_keys_def by (blast intro: blob_typed_meta)
  moreover have "data_typed (env_codec E) ty d" if "contents (os_storage st) (main_key (env_config E) ty oid) = Some d" for d
    using typed that ty unfolding store_typed_def object_keys_def by (blast intro: blob_typed_data)
  ultimately show ?thesis
    using get_pair_ok [OF call [unfolded Inr]] unfolding Inr
    by (cases "contents (os_storage st) (main_key (env_config E) ty oid)") (auto split: option.splits)
qed

lemma typed_meta:
  assumes typed: "store_typed E contents st"
    and load: "\<And>b. meta_typed (env_codec E) ty oid b \<Longrightarrow> typed_answer E st may_raise ok (map_sum id (\<lambda>x. Some (touch_it x)) (load b))"
  shows "typed_answer E st may_raise ok (get_meta_object E (type_prefix (env_config E) ty) oid load touch_it st)"
proof -
  let ?k = "meta_key (type_prefix (env_config E) ty) oid"
  have "typed_answer E st may_raise ok (map_sum id (\<lambda>x. Some (touch_it x)) (load b))"
    if "be_get (env_backend E) ?k (os_storage st) = Inr (Some b)" for b
  proof (rule load, rule blob_typed_meta)
    from get_ok [OF that] typed show "blob_typed E ty oid (object_meta_key (env_config E) ty oid) b"
      by (auto simp: store_typed_def object_keys_def object_meta_key_def)
  qed
  then show ?thesis by (auto simp: get_meta_object_def split: sum.splits option.splits)
qed

lemma typed_kv:
  assumes "store_typed E contents st" and K: "codec_ok (env_codec E)"
  shows "typed_answer E st (\<lambda>e. False) (\<lambda>(x, k, v). object_id (kv_meta x) = oid) (get_kv_block E now oid st)"
  using typed_pair [OF assms(1), of KV_CACHE oid _, OF _ refl]
  by (auto simp: get_kv_block_def object_meta_key_def main_key_def codec_okD [OF K] typed_answer_def
      split: sum.splits option.splits)

lemma typed_rag:
  assumes "store_typed E contents st" and K: "codec_ok (env_codec E)"
  shows "typed_answer E st (\<lambda>e. False) (\<lambda>(x, v). object_id (rg_meta x) = oid) (get_rag_object E now oid st)"
  using typed_pair [OF assms(1), of RAG oid _, OF _ refl]
  by (auto simp: get_rag_object_def object_meta_key_def main_key_def codec_okD [OF K] typed_answer_def
      split: sum.splits option.splits)

lemma typed_semantic:
  assumes "store_typed E contents st" and K: "codec_ok (env_codec E)"
  shows "typed_answer E st (\<lambda>e. False) (\<lambda>(x, v). object_id (se_meta x) = oid) (get_semantic_entry E now oid st)"
  using typed_pair [OF assms(1), of SEMANTIC_CACHE oid _, OF _ refl]
  by (auto simp: get_semantic_entry_def object_meta_key_def main_key_def codec_okD [OF K] typed_answer_def
      split: sum.splits option.splits)

lemma typed_plan:
  assumes "store_typed E contents st" and K: "codec_ok (env_codec E)"
  shows "typed_answer E st (\<lambda>e. \<exists>x. validate_plan_entry x = Inl e)
    (\<lambda>(x, v). object_id (pl_meta x) = oid \<and> pl_plan_id x = oid \<and> is_ok (validate_plan_entry x))
    (get_plan_cache_entry E now oid st)"
  using typed_pair [OF assms(1), of PLAN_CACHE oid _, OF _ refl]
  by (auto simp: get_plan_cache_entry_def object_meta_key_def main_key_def codec_okD [OF K] typed_answer_def
      validate_keeps dest!: validated split: sum.splits option.splits)

lemma typed_workflow:
  assumes "store_typed E contents st" and K: "codec_ok (env_codec E)"
  shows "typed_answer E st (\<lambda>e. False) (\<lambda>x. object_id (wf_meta x) = oid \<and> wf_workflow_id x = oid)
    (get_agent_workflow E now oid st)"
  unfolding get_agent_workflow_def by (rule typed_meta [OF assms(1)]) (auto simp: codec_okD [OF K])

lemma typed_step:
  assumes "store_typed E contents st" and K: "codec_ok (env_codec E)"
  shows "typed_answer E st (\<lambda>e. \<exists>x. validate_timestamps x = Inl e)
    (\<lambda>x. object_id (st_meta x) = oid \<and> st_step_id x = oid \<and> is_ok (validate_timestamps x))
    (get_agent_step E now oid st)"
  unfolding get_agent_step_def
  by (rule typed_meta [OF assms(1)])
     (auto simp: codec_okD [OF K] validate_keeps intro!: typed_map dest!: validated)

lemma typed_tool:
  assumes "store_typed E contents st" and K: "codec_ok (env_codec E)"
  shows "typed_answer E st (\<lambda>e. \<exists>x. validate_tool_artifact x = Inl e)
    (\<lambda>x. object_id (ta_meta x) = oid \<and> ta_tool_call_id x = oid \<and> valid_until (ta_meta x) = Some (ta_expires_at x)
       \<and> is_ok (validate_tool_artifact x))
    (get_tool_artifact E now oid st)"
  unfolding get_tool_artifact_def
  by (rule typed_meta [OF assms(1)])
     (auto simp: codec_okD [OF K] validate_keeps intro!: typed_map dest!: validated)

lemma typed_trace:
  assumes "store_typed E contents st" and K: "codec_ok (env_codec E)"
  shows "typed_answer E st (\<lambda>e. \<exists>x. validate_trace x = Inl e)
    (\<lambda>x. object_id (tr_meta x) = oid \<and> tr_workflow_id x = oid \<and> is_ok (validate_trace x))
    (get_workflow_trace E now oid st)"
  unfolding get_workflow_trace_def
  by (rule typed_meta [OF assms(1)])
     (auto simp: codec_okD [OF K] validate_keeps intro!: typed_map dest!: validated)

lemmas typed_reads = typed_kv typed_rag typed_semantic typed_plan typed_workflow typed_step typed_tool typed_trace

end

lemma fresh_typed: "fresh_store contents st \<Longrightarrow> store_typed E contents st"
  by (simp add: fresh_store_def store_typed_def)

section \<open>Type safety\<close>

text \<open>C10: In every store reachable over any backend, with whatever puts and deletions succeeding or raising, a read of any
  of the eight types raises only what the backend raised on reading or what a validator of the class raises, and an object
  it answers has the id that was asked for, passes the validators of its class, and a tool artifact is valid until it expires.\<close>

theorem store_type_safety:
  assumes "object_store E contents" and "codec_ok (env_codec E)" and "prefixes_ok (env_config E)"
    and "fresh_store contents st0" and "store_reachable E st0 st"
  shows "typed_answer E st (\<lambda>e. False) (\<lambda>(x, k, v). object_id (kv_meta x) = oid) (get_kv_block E now oid st)
    \<and> typed_answer E st (\<lambda>e. False) (\<lambda>(x, v). object_id (rg_meta x) = oid) (get_rag_object E now oid st)
    \<and> typed_answer E st (\<lambda>e. False) (\<lambda>(x, v). object_id (se_meta x) = oid) (get_semantic_entry E now oid st)
    \<and> typed_answer E st (\<lambda>e. \<exists>x. validate_plan_entry x = Inl e)
        (\<lambda>(x, v). object_id (pl_meta x) = oid \<and> pl_plan_id x = oid \<and> is_ok (validate_plan_entry x))
        (get_plan_cache_entry E now oid st)
    \<and> typed_answer E st (\<lambda>e. False) (\<lambda>x. object_id (wf_meta x) = oid \<and> wf_workflow_id x = oid)
        (get_agent_workflow E now oid st)
    \<and> typed_answer E st (\<lambda>e. \<exists>x. validate_timestamps x = Inl e)
        (\<lambda>x. object_id (st_meta x) = oid \<and> st_step_id x = oid \<and> is_ok (validate_timestamps x))
        (get_agent_step E now oid st)
    \<and> typed_answer E st (\<lambda>e. \<exists>x. validate_tool_artifact x = Inl e)
        (\<lambda>x. object_id (ta_meta x) = oid \<and> ta_tool_call_id x = oid
           \<and> valid_until (ta_meta x) = Some (ta_expires_at x) \<and> is_ok (validate_tool_artifact x))
        (get_tool_artifact E now oid st)
    \<and> typed_answer E st (\<lambda>e. \<exists>x. validate_trace x = Inl e)
        (\<lambda>x. object_id (tr_meta x) = oid \<and> tr_workflow_id x = oid \<and> is_ok (validate_trace x))
        (get_workflow_trace E now oid st)"
proof -
  have "store_typed E contents st"
    using object_store.reachable_typed [OF assms(1,3,5)] fresh_typed [OF assms(4)] by blast
  note typed = object_store.typed_reads [OF assms(1) this assms(2)]
  show ?thesis by (intro conjI typed)
qed

lemma store_type_safety_witness:
  "(\<exists>b k v. get_kv_block sample_env 7 ''blk'' sample_filled = Inr (Some (b, k, v)) \<and> object_id (kv_meta b) = ''blk'')
   \<and> typed_answer sample_env sample_filled (\<lambda>e. False) (\<lambda>(x, v). object_id (rg_meta x) = ''blk'')
       (get_rag_object sample_env 7 ''blk'' sample_filled)"
proof -
  have fill: "fill_token_hash sample_env (sample_block ''blk'' [1, 2]) = Inr (sample_block ''blk'' [1, 2])"
    by (simp add: fill_token_hash_def sample_block_def)
  obtain b' st' where put: "put_kv_block sample_env (sample_block ''blk'' [1, 2]) [1] [2] sample_store = (Inr ''blk'', b', st')"
    using total_store.put_kv_total [OF sample_total fill, of "[1]" "[2]" sample_store] by auto
  then have st': "st' = sample_filled" by (simp add: sample_filled_def)
  have "md_bloom_wf (os_metadata sample_store)" using sample_fresh by (simp add: fresh_store_def)
  from total_store.put_get_kv [OF sample_total _ this put, of 7] st'
  obtain b where got: "get_kv_block sample_env 7 ''blk'' sample_filled = Inr (Some (b, [1], [2]))" by auto
  from store_type_safety [OF sample_objects _ _ sample_fresh sample_filled_reachable, where now = 7 and oid = "''blk''"]
  show ?thesis by (simp add: got)
qed


end
