(* ===== verification/Concurrency.thy ===== *)
theory Concurrency
  imports StoreTypes
begin

text \<open>
  Requests on KV blocks running concurrently.  \<^verbatim>\<open>serve\<close> gives the server a pool of ten threads and nothing
  in the store takes a lock, so requests interleave between any two calls to the backend or to the
  metadata store.  A \<open>Thread\<close> is where one request has got to in \<^verbatim>\<open>put_kv_block\<close>, \<^verbatim>\<open>get_kv_block\<close> or
  \<^verbatim>\<open>delete_kv_block\<close>; \<open>thread_step\<close> does its next call; \<open>pool_step\<close> lets any unfinished request go on.  In \<open>server_step\<close>
  operations on objects of the other types happen in between, each as one step.
  One request running alone is the operation of \<open>ObjectStore\<close>.  A call to the backend or the
  metadata store is one step; \<^verbatim>\<open>delete_many\<close> is the interface's default, one deletion after the other.
\<close>

section \<open>Requests\<close>

datatype ('a, 'b) Thread =
    Put_start KVCacheBlock 'a 'a
  | Put_meta KVCacheBlock 'a 'a       \<comment> \<open>about to write the metadata\<close>
  | Put_data KVCacheBlock 'a 'a       \<comment> \<open>about to write the tensors\<close>
  | Put_undo KVCacheBlock pyerr       \<comment> \<open>about to roll the metadata back\<close>
  | Put_index KVCacheBlock            \<comment> \<open>about to index the block\<close>
  | Put_done KVCacheBlock "string res"
  | Get_start string
  | Get_meta string
  | Get_data string 'b
  | Get_done string "(KVCacheBlock \<times> 'a \<times> 'a) option res"
  | Del_start string
  | Del_keys string "string list" int
  | Del_index string
  | Del_done string "bool res"

fun thread_done :: "('a, 'b) Thread \<Rightarrow> bool" where
  "thread_done (Put_done b r) = True"
| "thread_done (Get_done oid r) = True"
| "thread_done (Del_done oid r) = True"
| "thread_done _ = False"

definition kv_meta_key :: "('s, 'h, 'a, 'b) StoreEnv \<Rightarrow> string \<Rightarrow> string" where
  "kv_meta_key E oid = meta_key (type_prefix (env_config E) KV_CACHE) oid"

definition kv_data_key :: "('s, 'h, 'a, 'b) StoreEnv \<Rightarrow> string \<Rightarrow> string" where
  "kv_data_key E oid = data_key (type_prefix (env_config E) KV_CACHE) oid ''data.npz''"

text \<open>The block as it is written: with the size of its tensors.\<close>

definition sized :: "('s, 'h, 'a, 'b) StoreEnv \<Rightarrow> 'a \<Rightarrow> 'a \<Rightarrow> KVCacheBlock \<Rightarrow> KVCacheBlock" where
  "sized E k v b = b\<lparr>kv_meta := (kv_meta b)\<lparr>size_bytes :=
     int (nd_nbytes (rt_numpy (env_runtime E)) k + nd_nbytes (rt_numpy (env_runtime E)) v)\<rparr>\<rparr>"

fun thread_step ::
    "('s, 'h, 'a, 'b) StoreEnv \<Rightarrow> rat \<Rightarrow> ('a, 'b) Thread \<Rightarrow> ('s, 'h) UnifiedObjectStore
       \<Rightarrow> ('a, 'b) Thread \<times> ('s, 'h) UnifiedObjectStore" where
  "thread_step E now (Put_start b k v) st =
     (case fill_token_hash E b of
        Inl e \<Rightarrow> (Put_done b (Inl e), st)
      | Inr b1 \<Rightarrow> (Put_meta (sized E k v b1) k v, st))"
| "thread_step E now (Put_meta b k v) st =
     (case be_put (env_backend E) (kv_meta_key E (object_id (kv_meta b)))
             (serialize_kv_block_meta (env_codec E) b) None (os_storage st) of
        (Inl e, s') \<Rightarrow> (Put_done b (Inl e), st\<lparr>os_storage := s'\<rparr>)
      | (Inr _, s') \<Rightarrow> (Put_data b k v, st\<lparr>os_storage := s'\<rparr>))"
| "thread_step E now (Put_data b k v) st =
     (case be_put (env_backend E) (kv_data_key E (object_id (kv_meta b)))
             (serialize_kv_tensors (env_codec E) k v) None (os_storage st) of
        (Inl e, s') \<Rightarrow> (Put_undo b e, st\<lparr>os_storage := s'\<rparr>)
      | (Inr _, s') \<Rightarrow> (Put_index b, st\<lparr>os_storage := s'\<rparr>))"
| "thread_step E now (Put_undo b e) st =
     (case be_delete (env_backend E) (kv_meta_key E (object_id (kv_meta b))) (os_storage st) of
        (Inl e', s') \<Rightarrow> (Put_done b (Inl e'), st\<lparr>os_storage := s'\<rparr>)
      | (Inr _, s') \<Rightarrow> (Put_done b (Inl e), st\<lparr>os_storage := s'\<rparr>))"
| "thread_step E now (Put_index b) st =
     (Put_done b (Inr (object_id (kv_meta b))),
      st\<lparr>os_metadata := on_object_added (env_runtime E) KV_CACHE (object_id (kv_meta b))
           (if kv_token_ids b = [] then None else Some (kv_token_ids b)) (os_metadata st)\<rparr>)"
| "thread_step E now (Get_start oid) st =
     (if might_exist (env_runtime E) oid (os_metadata st) then (Get_meta oid, st)
      else (Get_done oid (Inr None), st))"
| "thread_step E now (Get_meta oid) st =
     (case be_get (env_backend E) (kv_meta_key E oid) (os_storage st) of
        Inl e \<Rightarrow> (Get_done oid (Inl e), st)
      | Inr None \<Rightarrow> (Get_done oid (Inr None), st)
      | Inr (Some m) \<Rightarrow> (Get_data oid m, st))"
| "thread_step E now (Get_data oid m) st =
     (case be_get (env_backend E) (kv_data_key E oid) (os_storage st) of
        Inl e \<Rightarrow> (Get_done oid (Inl e), st)
      | Inr None \<Rightarrow> (Get_done oid (Inr None), st)
      | Inr (Some d) \<Rightarrow> (Get_done oid (map_sum id Some (read_kv (env_codec E) now (m, d))), st))"
| "thread_step E now (Del_start oid) st = (Del_keys oid [kv_meta_key E oid, kv_data_key E oid] 0, st)"
| "thread_step E now (Del_keys oid [] n) st =
     (if n > 0 then (Del_index oid, st) else (Del_done oid (Inr False), st))"
| "thread_step E now (Del_keys oid (k # ks) n) st =
     (case be_delete (env_backend E) k (os_storage st) of
        (Inl e, s') \<Rightarrow> (Del_done oid (Inl e), st\<lparr>os_storage := s'\<rparr>)
      | (Inr b, s') \<Rightarrow> (Del_keys oid ks (if b then n + 1 else n), st\<lparr>os_storage := s'\<rparr>))"
| "thread_step E now (Del_index oid) st =
     (case on_object_removed (env_runtime E) KV_CACHE oid (os_metadata st) of
        (Inl e, md') \<Rightarrow> (Del_done oid (Inl e), st\<lparr>os_metadata := md'\<rparr>)
      | (Inr _, md') \<Rightarrow> (Del_done oid (Inr True), st\<lparr>os_metadata := md'\<rparr>))"
| "thread_step E now (Put_done b r) st = (Put_done b r, st)"
| "thread_step E now (Get_done oid g) st = (Get_done oid g, st)"
| "thread_step E now (Del_done oid d) st = (Del_done oid d, st)"

section \<open>A request alone\<close>

text \<open>What is left of a request, at most.\<close>

fun steps_left :: "('a, 'b) Thread \<Rightarrow> nat" where
  "steps_left (Put_start b k v) = 4"
| "steps_left (Put_meta b k v) = 3"
| "steps_left (Put_data b k v) = 2"
| "steps_left (Put_undo b e) = 1"
| "steps_left (Put_index b) = 1"
| "steps_left (Get_start oid) = 3"
| "steps_left (Get_meta oid) = 2"
| "steps_left (Get_data oid m) = 1"
| "steps_left (Del_start oid) = 5"
| "steps_left (Del_keys oid ks n) = length ks + 2"
| "steps_left (Del_index oid) = 1"
| "steps_left _ = 0"

lemma steps_left_0: "steps_left t = 0 \<longleftrightarrow> thread_done t"
  by (cases t) simp_all

lemma step_decreases: "\<not> thread_done t \<Longrightarrow> steps_left (fst (thread_step E now t st)) < steps_left t"
  by (cases "(E, now, t, st)" rule: thread_step.cases) (auto split: sum.splits prod.splits option.splits)

fun run_alone ::
    "('s, 'h, 'a, 'b) StoreEnv \<Rightarrow> rat \<Rightarrow> nat \<Rightarrow> ('a, 'b) Thread \<times> ('s, 'h) UnifiedObjectStore
       \<Rightarrow> ('a, 'b) Thread \<times> ('s, 'h) UnifiedObjectStore" where
  "run_alone E now 0 p = p"
| "run_alone E now (Suc n) p = run_alone E now n (thread_step E now (fst p) (snd p))"


lemma put_kv_unfold:
  assumes "fill_token_hash E b = Inr b1"
  shows "put_kv_block E b k v st =
    (case put_pair E (kv_meta_key E (object_id (kv_meta b))) (serialize_kv_block_meta (env_codec E) (sized E k v b1))
        (kv_data_key E (object_id (kv_meta b))) (serialize_kv_tensors (env_codec E) k v) (os_storage st) of
       (Inl e, s') \<Rightarrow> (Inl e, sized E k v b1, st\<lparr>os_storage := s'\<rparr>)
     | (Inr _, s') \<Rightarrow> (Inr (object_id (kv_meta b)), sized E k v b1, st\<lparr>os_storage := s',
         os_metadata := on_object_added (env_runtime E) KV_CACHE (object_id (kv_meta b))
           (if kv_token_ids (sized E k v b1) = [] then None else Some (kv_token_ids (sized E k v b1))) (os_metadata st)\<rparr>))"
  unfolding put_kv_block_def Let_def assms sum.case sized_def kv_meta_key_def kv_data_key_def ..

lemma put_alone:
  "run_alone E now 4 (Put_start b k v, st) = (case put_kv_block E b k v st of (r, b', st') \<Rightarrow> (Put_done b' r, st'))"
proof (cases "fill_token_hash E b")
  case (Inl e)
  then show ?thesis by (simp add: eval_nat_numeral put_kv_block_def)
next
  case (Inr b1)
  let ?b = "sized E k v b1" and ?mk = "kv_meta_key E (object_id (kv_meta b))" and ?dk = "kv_data_key E (object_id (kv_meta b))"
  have id: "object_id (kv_meta ?b) = object_id (kv_meta b)"
    using fill_keeps_id [OF Inr] by (simp add: sized_def)
  note put = put_kv_unfold [OF Inr, of k v st]
  obtain r1 s1 where p1: "be_put (env_backend E) ?mk (serialize_kv_block_meta (env_codec E) ?b) None (os_storage st) = (r1, s1)"
    by fastforce
  obtain r2 s2 where p2: "be_put (env_backend E) ?dk (serialize_kv_tensors (env_codec E) k v) None s1 = (r2, s2)"
    by fastforce
  obtain r3 s3 where p3: "be_delete (env_backend E) ?mk s2 = (r3, s3)" by fastforce
  show ?thesis
    unfolding put
    by (cases r1; cases r2; cases r3) (simp_all add: eval_nat_numeral put_pair_def Inr id p1 p2 p3)
qed

lemma get_alone:
  "run_alone E now 3 (Get_start oid, st) = (Get_done oid (get_kv_block E now oid st), st)"
  by (auto simp: eval_nat_numeral get_kv_block_def get_pair_def Let_def kv_meta_key_def kv_data_key_def read_kv_def
      split: sum.splits prod.splits option.splits)

lemma delete_alone:
  assumes "be_delete_many (env_backend E) = delete_many (be_delete (env_backend E))"
  shows "run_alone E now 5 (Del_start oid, st) =
    (case delete_kv_block E oid st of (d, st') \<Rightarrow> (Del_done oid d, st'))"
  by (auto simp: eval_nat_numeral delete_kv_block_def delete_pair_def after_delete_def assms delete_many_def
      kv_meta_key_def kv_data_key_def split: sum.splits prod.splits option.splits)

section \<open>Requests together\<close>

text \<open>One step of a pool lets one unfinished request make its next call, at some time.\<close>

inductive pool_step ::
    "('s, 'h, 'a, 'b) StoreEnv \<Rightarrow> ('a, 'b) Thread list \<times> ('s, 'h) UnifiedObjectStore
       \<Rightarrow> ('a, 'b) Thread list \<times> ('s, 'h) UnifiedObjectStore \<Rightarrow> bool" for E where
  go: "i < length ts \<Longrightarrow> \<not> thread_done (ts ! i) \<Longrightarrow> thread_step E now (ts ! i) st = (t', st') \<Longrightarrow>
     pool_step E (ts, st) (ts[i := t'], st')"

inductive_cases pool_stepE: "pool_step E (ts, st) p"




definition pool_work :: "('a, 'b) Thread list \<Rightarrow> nat" where
  "pool_work ts = (\<Sum>t \<leftarrow> ts. steps_left t)"

lemma pool_work_update:
  "i < length ts \<Longrightarrow> steps_left t' < steps_left (ts ! i) \<Longrightarrow> pool_work (ts[i := t']) < pool_work ts"
  unfolding pool_work_def by (induction ts arbitrary: i) (auto split: nat.split simp: nth_Cons')

lemma pool_step_work: "pool_step E p q \<Longrightarrow> pool_work (fst q) < pool_work (fst p)"
proof (induction rule: pool_step.induct)
  case (go i ts now st t' st')
  with step_decreases [of "ts ! i" E now st] show ?case by (simp add: pool_work_update)
qed

lemma pool_steps_work: "(pool_step E ^^ n) p q \<Longrightarrow> n + pool_work (fst q) \<le> pool_work (fst p)"
proof (induction n arbitrary: q)
  case 0
  then show ?case by simp
next
  case (Suc n)
  from Suc.prems obtain r where "(pool_step E ^^ n) p r" "pool_step E r q" by (rule relpowp_Suc_E)
  with Suc.IH [of r] pool_step_work [of E r q] show ?case by simp
qed

lemma pool_progress: "i < length ts \<Longrightarrow> \<not> thread_done (ts ! i) \<Longrightarrow> \<exists>q. pool_step E (ts, st) q"
  using pool_step.go [of i ts E 0 st] by (metis prod.collapse)

lemma pool_stuck: "(\<nexists>q. pool_step E (ts, st) q) \<longleftrightarrow> (\<forall>t \<in> set ts. thread_done t)"
proof
  assume "\<nexists>q. pool_step E (ts, st) q"
  then have "thread_done (ts ! i)" if "i < length ts" for i
    using pool_progress [OF that, of E st] by blast
  then show "\<forall>t \<in> set ts. thread_done t" by (auto simp: in_set_conv_nth)
next
  assume ended: "\<forall>t \<in> set ts. thread_done t"
  show "\<nexists>q. pool_step E (ts, st) q"
  proof (intro notI, elim exE pool_stepE)
    fix i
    assume "i < length ts" and "\<not> thread_done (ts ! i)"
    with ended nth_mem show False by blast
  qed
qed

section \<open>What requests write\<close>

lemma kv_key_inj [simp]:
  "kv_meta_key E i = kv_meta_key E j \<longleftrightarrow> i = j" "kv_data_key E i = kv_data_key E j \<longleftrightarrow> i = j"
  by (simp_all add: kv_meta_key_def kv_data_key_def meta_key_def data_key_def)

lemma kv_keys_neq [simp]: "kv_meta_key E i \<noteq> kv_data_key E j" "kv_data_key E j \<noteq> kv_meta_key E i"
  using meta_main_neq [of KV_CACHE "env_config E" i j] by (auto simp: kv_meta_key_def kv_data_key_def main_key_def)






text \<open>A version of a block: the metadata and the two tensors of one put.\<close>

type_synonym 'a version = "KVCacheBlock \<times> 'a \<times> 'a"


section \<open>What reads answer while others run\<close>





text \<open>
  An answer drawn from a set of versions: the metadata of one, touched, with the tensors of one; or
  nothing; or an exception of the backend.
\<close>

definition drawn :: "('s, 'h, 'a, 'b) StoreEnv \<Rightarrow> 'a version set \<Rightarrow> (KVCacheBlock \<times> 'a \<times> 'a) option res \<Rightarrow> bool" where
  "drawn E V r =
     (case r of
        Inl e \<Rightarrow> \<exists>k s. be_get (env_backend E) k s = Inl e
      | Inr None \<Rightarrow> True
      | Inr (Some (b, k, v)) \<Rightarrow> (\<exists>b1 k1 v1 b2 now. (b1, k1, v1) \<in> V \<and> (b2, k, v) \<in> V
          \<and> b = b1\<lparr>kv_meta := touch now (kv_meta b1)\<rparr>))"

lemma drawn_simps [simp]:
  "drawn E V (Inr None)"
  "be_get (env_backend E) k s = Inl e \<Longrightarrow> drawn E V (Inl e)"
  by (auto simp: drawn_def)





section \<open>What a finished put guarantees\<close>

fun thread_starts :: "('a, 'b) Thread \<Rightarrow> bool" where
  "thread_starts (Put_start b k v) = True"
| "thread_starts (Get_start oid) = True"
| "thread_starts (Del_start oid) = True"
| "thread_starts _ = False"




lemma starts_work: "\<forall>t \<in> set ts. thread_starts t \<Longrightarrow> pool_work ts \<le> 5 * length ts"
proof (induction ts)
  case Nil
  then show ?case by (simp add: pool_work_def)
next
  case (Cons t ts)
  then have "steps_left t \<le> 5" by (cases t) simp_all
  with Cons show ?case by (simp add: pool_work_def)
qed









section \<open>Overlapping puts\<close>

lemma added_known:
  assumes "md_bloom_wf md"
  shows "md_bloom_wf (on_object_added R ty oid ts md)" and "might_exist R oid (on_object_added R ty oid ts md)"
  using on_object_added_grows [OF assms, of R ty oid ts] by (simp_all add: md_grows_def)

text \<open>
  Two puts of one id can both succeed and leave the metadata of one with the tensors of the other: no
  lock covers the two writes of a put.
\<close>

context total_store
begin

lemma overlapping_puts_tear:
  assumes K: "codec_ok (env_codec E)" and wf: "md_bloom_wf (os_metadata st)"
    and b: "fill_token_hash E b = Inr b1" and c: "fill_token_hash E c = Inr c1"
    and same: "object_id (kv_meta c) = object_id (kv_meta b)"
  shows "\<exists>b' c' st'. (pool_step E)\<^sup>*\<^sup>* ([Put_start b k v, Put_start c k' v'], st)
      ([Put_done b' (Inr (object_id (kv_meta b))), Put_done c' (Inr (object_id (kv_meta b)))], st')
    \<and> get_kv_block E now (object_id (kv_meta b)) st' =
        Inr (Some ((sized E k' v' c1)\<lparr>kv_meta := touch now (kv_meta (sized E k' v' c1))\<rparr>, k, v))"
proof -
  let ?i = "object_id (kv_meta b)" and ?b = "sized E k v b1" and ?c = "sized E k' v' c1"
  let ?mk = "kv_meta_key E ?i" and ?dk = "kv_data_key E ?i"
  let ?add = "\<lambda>x md. on_object_added (env_runtime E) KV_CACHE ?i (if kv_token_ids x = [] then None else Some (kv_token_ids x)) md"
  have id: "object_id (kv_meta ?b) = ?i" "object_id (kv_meta ?c) = ?i"
    using fill_keeps_id [OF b] fill_keeps_id [OF c] same by (simp_all add: sized_def)
  obtain s1 where s1: "be_put (env_backend E) ?mk (serialize_kv_block_meta (env_codec E) ?b) None (os_storage st) = (Inr (), s1)"
    using put_total by blast
  obtain s2 where s2: "be_put (env_backend E) ?mk (serialize_kv_block_meta (env_codec E) ?c) None s1 = (Inr (), s2)"
    using put_total by blast
  obtain s3 where s3: "be_put (env_backend E) ?dk (serialize_kv_tensors (env_codec E) k' v') None s2 = (Inr (), s3)"
    using put_total by blast
  obtain s4 where s4: "be_put (env_backend E) ?dk (serialize_kv_tensors (env_codec E) k v) None s3 = (Inr (), s4)"
    using put_total by blast
  let ?md1 = "?add ?b (os_metadata st)"
  let ?st' = "st\<lparr>os_storage := s4, os_metadata := ?add ?c ?md1\<rparr>"
  note go0 = pool_step.go [where i = 0 and now = 0 and E = E] and go1 = pool_step.go [where i = 1 and now = 0 and E = E]
  note [trans] = rtranclp.rtrancl_into_rtrancl
  have "(pool_step E)\<^sup>*\<^sup>* ([Put_start b k v, Put_start c k' v'], st) ([Put_start b k v, Put_start c k' v'], st)" by simp
  also have "pool_step E \<dots> ([Put_meta ?b k v, Put_start c k' v'], st)"
    using go0 [of "[Put_start b k v, Put_start c k' v']"] b by simp
  also have "pool_step E \<dots> ([Put_meta ?b k v, Put_meta ?c k' v'], st)"
    using go1 [of "[Put_meta ?b k v, Put_start c k' v']"] c by simp
  also have "pool_step E \<dots> ([Put_data ?b k v, Put_meta ?c k' v'], st\<lparr>os_storage := s1\<rparr>)"
    using go0 [of "[Put_meta ?b k v, Put_meta ?c k' v']"] id s1 by simp
  also have "pool_step E \<dots> ([Put_data ?b k v, Put_data ?c k' v'], st\<lparr>os_storage := s2\<rparr>)"
    using go1 [of "[Put_data ?b k v, Put_meta ?c k' v']" "st\<lparr>os_storage := s1\<rparr>"] id s2 by simp
  also have "pool_step E \<dots> ([Put_data ?b k v, Put_index ?c], st\<lparr>os_storage := s3\<rparr>)"
    using go1 [of "[Put_data ?b k v, Put_data ?c k' v']" "st\<lparr>os_storage := s2\<rparr>"] id s3 by simp
  also have "pool_step E \<dots> ([Put_index ?b, Put_index ?c], st\<lparr>os_storage := s4\<rparr>)"
    using go0 [of "[Put_data ?b k v, Put_index ?c]" "st\<lparr>os_storage := s3\<rparr>"] id s4 by simp
  also have "pool_step E \<dots> ([Put_done ?b (Inr ?i), Put_index ?c], st\<lparr>os_storage := s4, os_metadata := ?md1\<rparr>)"
    using go0 [of "[Put_index ?b, Put_index ?c]" "st\<lparr>os_storage := s4\<rparr>"] id by simp
  also have "pool_step E \<dots> ([Put_done ?b (Inr ?i), Put_done ?c (Inr ?i)], ?st')"
    using go1 [of "[Put_done ?b (Inr ?i), Put_index ?c]" "st\<lparr>os_storage := s4, os_metadata := ?md1\<rparr>"] id by simp
  finally have run: "(pool_step E)\<^sup>*\<^sup>* ([Put_start b k v, Put_start c k' v'], st)
      ([Put_done ?b (Inr ?i), Put_done ?c (Inr ?i)], ?st')" .
  have "contents s4 = (contents (os_storage st))(?mk \<mapsto> serialize_kv_block_meta (env_codec E) ?c, ?dk \<mapsto> serialize_kv_tensors (env_codec E) k v)"
    using put_ok [OF s1] put_ok [OF s2] put_ok [OF s3] put_ok [OF s4] by (simp add: fun_upd_twist)
  then have "stored_pair contents (env_config E) KV_CACHE ?i (os_storage ?st') =
      Some (serialize_kv_block_meta (env_codec E) ?c, serialize_kv_tensors (env_codec E) k v)"
    using kv_keys_neq(1) [of E ?i ?i]
    by (simp add: stored_pair_def object_meta_key_def main_key_def kv_meta_key_def kv_data_key_def)
  moreover have "might_exist (env_runtime E) ?i (os_metadata ?st')"
    by (simp add: added_known wf)
  ultimately have "get_kv_block E now ?i ?st' = Inr (Some (?c\<lparr>kv_meta := touch now (kv_meta ?c)\<rparr>, k, v))"
    by (simp add: get_kv_refines read_kv_def codec_okD [OF K])
  with run show ?thesis by blast
qed

end

section \<open>Properties\<close>

text \<open>Running alone, a request is the operation of the store: \<^verbatim>\<open>put_kv_block\<close>, \<^verbatim>\<open>get_kv_block\<close>, and \<^verbatim>\<open>delete_kv_block\<close> over a
  backend with the default \<^verbatim>\<open>delete_many\<close>.\<close>

theorem alone_is_sequential:
  assumes "be_delete_many (env_backend E) = delete_many (be_delete (env_backend E))"
  shows "run_alone E now 4 (Put_start b k v, st) = (case put_kv_block E b k v st of (r, b', st') \<Rightarrow> (Put_done b' r, st'))
    \<and> run_alone E now 3 (Get_start oid, st) = (Get_done oid (get_kv_block E now oid st), st)
    \<and> run_alone E now 5 (Del_start oid, st) = (case delete_kv_block E oid st of (d, st') \<Rightarrow> (Del_done oid d, st'))"
  by (intro conjI put_alone get_alone delete_alone [OF assms])

text \<open>However the requests of a pool are scheduled, every unfinished one can go on, so none waits for another; a run makes no
  more steps than there is work, which is at most five per request; and where the run cannot go on every request is answered.\<close>

theorem requests_answer:
  "(\<forall>i < length ts. \<not> thread_done (ts ! i) \<longrightarrow> (\<exists>t' st'. pool_step E (ts, st) (ts[i := t'], st')))
   \<and> (\<forall>n ts' st'. (pool_step E ^^ n) (ts, st) (ts', st') \<longrightarrow> n + pool_work ts' \<le> pool_work ts)
   \<and> ((\<forall>t \<in> set ts. thread_starts t) \<longrightarrow> pool_work ts \<le> 5 * length ts)
   \<and> ((\<nexists>q. pool_step E (ts, st) q) \<longleftrightarrow> (\<forall>t \<in> set ts. thread_done t))"
proof (intro conjI allI impI)
  fix i
  assume "i < length ts" and "\<not> thread_done (ts ! i)"
  then show "\<exists>t' st'. pool_step E (ts, st) (ts[i := t'], st')"
    using pool_step.go [of i ts E 0 st] by (metis prod.collapse)
next
  show "n + pool_work ts' \<le> pool_work ts" if "(pool_step E ^^ n) (ts, st) (ts', st')" for n ts' st'
    using pool_steps_work [OF that] by simp
next
  show "pool_work ts \<le> 5 * length ts" if "\<forall>t \<in> set ts. thread_starts t" by (rule starts_work [OF that])
qed (rule pool_stuck)



text \<open>C8: Without the restriction to one put of an id this fails: on a backend that never raises, two puts of blocks with one id have a
  schedule under which both answer success and the block that is read back has the metadata of one and the tensors of the other.\<close>

theorem concurrent_puts_can_tear:
  assumes "total_store E contents" and "codec_ok (env_codec E)" and "md_bloom_wf (os_metadata st)"
    and "fill_token_hash E b = Inr b1" and "fill_token_hash E c = Inr c1" and "object_id (kv_meta c) = object_id (kv_meta b)"
  shows "\<exists>b' c' st'. (pool_step E)\<^sup>*\<^sup>* ([Put_start b k v, Put_start c k' v'], st)
      ([Put_done b' (Inr (object_id (kv_meta b))), Put_done c' (Inr (object_id (kv_meta b)))], st')
    \<and> get_kv_block E now (object_id (kv_meta b)) st' =
        Inr (Some ((sized E k' v' c1)\<lparr>kv_meta := touch now (kv_meta (sized E k' v' c1))\<rparr>, k, v))"
  by (rule total_store.overlapping_puts_tear [OF assms])

lemma concurrent_puts_can_tear_witness:
  "\<exists>b' c' st' r. (pool_step sample_env)\<^sup>*\<^sup>*
      ([Put_start (sample_block ''blk'' [1, 2]) [1] [2], Put_start (sample_block ''blk'' [3, 4]) [5] [6]], sample_store)
      ([Put_done b' (Inr ''blk''), Put_done c' (Inr ''blk'')], st')
    \<and> get_kv_block sample_env 7 ''blk'' st' = Inr (Some (r, [1], [2])) \<and> kv_token_ids r = [3, 4]"
proof -
  have fill: "fill_token_hash sample_env (sample_block ''blk'' ts) = Inr (sample_block ''blk'' ts)" for ts
    by (simp add: fill_token_hash_def sample_block_def)
  have id: "object_id (kv_meta (sample_block ''blk'' ts)) = ''blk''" for ts by (simp add: sample_block_def new_meta_def)
  have "md_bloom_wf (os_metadata sample_store)" using sample_fresh by (simp add: fresh_store_def)
  with concurrent_puts_can_tear [OF sample_total _ _ fill [of "[1, 2]"] fill [of "[3, 4]"], of sample_store "[1]" "[2]" "[5]" "[6]" 7]
  obtain b' c' st' where run: "(pool_step sample_env)\<^sup>*\<^sup>*
      ([Put_start (sample_block ''blk'' [1, 2]) [1] [2], Put_start (sample_block ''blk'' [3, 4]) [5] [6]], sample_store)
      ([Put_done b' (Inr ''blk''), Put_done c' (Inr ''blk'')], st')"
    and get: "get_kv_block sample_env 7 ''blk'' st' = Inr (Some ((sized sample_env [5] [6] (sample_block ''blk'' [3, 4]))\<lparr>kv_meta :=
        touch 7 (kv_meta (sized sample_env [5] [6] (sample_block ''blk'' [3, 4])))\<rparr>, [1], [2]))"
    unfolding id by auto
  have "kv_token_ids (sized sample_env [5] [6] (sample_block ''blk'' [3, 4])) = [3, 4]" by (simp add: sized_def sample_block_def)
  with run get show ?thesis by fastforce
qed

end
