(* ===== verification/Rpc.thy ===== *)
theory Rpc
  imports Grpc
begin

text \<open>
  The generated RPC layer \<^verbatim>\<open>src/l3store/api/proto/l3_service_pb2_grpc.py\<close>: the stub, the servicer whose
  methods are not implemented, the table of handlers, and the static methods of the experimental API.
  Under it are gRPC and protobuf, which are parameters: \<open>Protobuf\<close> writes and parses messages of a class,
  a \<open>Channel\<close> makes unary calls by path, and \<open>grpc_link\<close> says what a channel to a server does.  Over any
  such channel the generated stub is the \<open>service_stub\<close> of \<open>Grpc\<close>, with no assumption on the stub.
\<close>

section \<open>Messages and methods\<close>

datatype MessageType =
    T_PutKVBlockRequest
  | T_PutKVBlockResponse
  | T_GetKVBlockRequest
  | T_GetKVBlockResponse
  | T_DeleteKVBlockRequest
  | T_DeleteKVBlockResponse
  | T_ListKVBlocksRequest
  | T_ListKVBlocksResponse
  | T_PutRAGObjectRequest
  | T_PutRAGObjectResponse
  | T_GetRAGObjectRequest
  | T_GetRAGObjectResponse
  | T_PutSemanticEntryRequest
  | T_PutSemanticEntryResponse
  | T_GetSemanticEntryRequest
  | T_GetSemanticEntryResponse
  | T_SearchSimilarPromptsRequest
  | T_SearchSimilarPromptsResponse
  | T_PrefetchBatchRequest
  | T_PrefetchBatchResponse
  | T_GetStatsRequest
  | T_GetStatsResponse

text \<open>A message of each class; a class with one field is that field, one without fields has no argument.\<close>

datatype 'b Message =
    M_PutKVBlockRequest "'b PutKVBlockRequest"
  | M_PutKVBlockResponse string
  | M_GetKVBlockRequest string
  | M_GetKVBlockResponse "'b GetKVBlockResponse"
  | M_DeleteKVBlockRequest string
  | M_DeleteKVBlockResponse bool
  | M_ListKVBlocksRequest
  | M_ListKVBlocksResponse "string list"
  | M_PutRAGObjectRequest "'b PutRAGObjectRequest"
  | M_PutRAGObjectResponse string
  | M_GetRAGObjectRequest string
  | M_GetRAGObjectResponse "'b GetRAGObjectResponse"
  | M_PutSemanticEntryRequest "'b PutSemanticEntryRequest"
  | M_PutSemanticEntryResponse string
  | M_GetSemanticEntryRequest string
  | M_GetSemanticEntryResponse "'b GetSemanticEntryResponse"
  | M_SearchSimilarPromptsRequest "'b SearchSimilarPromptsRequest"
  | M_SearchSimilarPromptsResponse "SimilarPromptProto list"
  | M_PrefetchBatchRequest "PrefetchDecisionProto list"
  | M_PrefetchBatchResponse "'b PrefetchObjectProto list"
  | M_GetStatsRequest
  | M_GetStatsResponse string

fun message_type :: "'b Message \<Rightarrow> MessageType" where
  "message_type (M_PutKVBlockRequest x) = T_PutKVBlockRequest"
| "message_type (M_PutKVBlockResponse x) = T_PutKVBlockResponse"
| "message_type (M_GetKVBlockRequest x) = T_GetKVBlockRequest"
| "message_type (M_GetKVBlockResponse x) = T_GetKVBlockResponse"
| "message_type (M_DeleteKVBlockRequest x) = T_DeleteKVBlockRequest"
| "message_type (M_DeleteKVBlockResponse x) = T_DeleteKVBlockResponse"
| "message_type (M_ListKVBlocksRequest) = T_ListKVBlocksRequest"
| "message_type (M_ListKVBlocksResponse x) = T_ListKVBlocksResponse"
| "message_type (M_PutRAGObjectRequest x) = T_PutRAGObjectRequest"
| "message_type (M_PutRAGObjectResponse x) = T_PutRAGObjectResponse"
| "message_type (M_GetRAGObjectRequest x) = T_GetRAGObjectRequest"
| "message_type (M_GetRAGObjectResponse x) = T_GetRAGObjectResponse"
| "message_type (M_PutSemanticEntryRequest x) = T_PutSemanticEntryRequest"
| "message_type (M_PutSemanticEntryResponse x) = T_PutSemanticEntryResponse"
| "message_type (M_GetSemanticEntryRequest x) = T_GetSemanticEntryRequest"
| "message_type (M_GetSemanticEntryResponse x) = T_GetSemanticEntryResponse"
| "message_type (M_SearchSimilarPromptsRequest x) = T_SearchSimilarPromptsRequest"
| "message_type (M_SearchSimilarPromptsResponse x) = T_SearchSimilarPromptsResponse"
| "message_type (M_PrefetchBatchRequest x) = T_PrefetchBatchRequest"
| "message_type (M_PrefetchBatchResponse x) = T_PrefetchBatchResponse"
| "message_type (M_GetStatsRequest) = T_GetStatsRequest"
| "message_type (M_GetStatsResponse x) = T_GetStatsResponse"

datatype Method =
    Meth_PutKVBlock
  | Meth_GetKVBlock
  | Meth_DeleteKVBlock
  | Meth_ListKVBlocks
  | Meth_PutRAGObject
  | Meth_GetRAGObject
  | Meth_PutSemanticEntry
  | Meth_GetSemanticEntry
  | Meth_SearchSimilarPrompts
  | Meth_PrefetchBatch
  | Meth_GetStats

definition all_methods :: "Method list" where
  "all_methods = [Meth_PutKVBlock, Meth_GetKVBlock, Meth_DeleteKVBlock, Meth_ListKVBlocks, Meth_PutRAGObject, Meth_GetRAGObject, Meth_PutSemanticEntry, Meth_GetSemanticEntry, Meth_SearchSimilarPrompts, Meth_PrefetchBatch, Meth_GetStats]"

fun method_name :: "Method \<Rightarrow> string" where
  "method_name Meth_PutKVBlock = ''PutKVBlock''"
| "method_name Meth_GetKVBlock = ''GetKVBlock''"
| "method_name Meth_DeleteKVBlock = ''DeleteKVBlock''"
| "method_name Meth_ListKVBlocks = ''ListKVBlocks''"
| "method_name Meth_PutRAGObject = ''PutRAGObject''"
| "method_name Meth_GetRAGObject = ''GetRAGObject''"
| "method_name Meth_PutSemanticEntry = ''PutSemanticEntry''"
| "method_name Meth_GetSemanticEntry = ''GetSemanticEntry''"
| "method_name Meth_SearchSimilarPrompts = ''SearchSimilarPrompts''"
| "method_name Meth_PrefetchBatch = ''PrefetchBatch''"
| "method_name Meth_GetStats = ''GetStats''"

lemma all_methods_complete [simp]: "m \<in> set all_methods"
  by (cases m) (simp_all add: all_methods_def)

lemma method_name_inj: "method_name m = method_name m' \<Longrightarrow> m = m'"
  by (cases m; cases m'; simp)

section \<open>What is under the generated code\<close>

text \<open>Writing a message of a class to wire bytes \<open>'w\<close> and parsing them as a class.\<close>

record ('b, 'w) Protobuf =
  SerializeToString :: "MessageType \<Rightarrow> 'b Message \<Rightarrow> 'w"
  FromString :: "MessageType \<Rightarrow> 'w \<Rightarrow> 'b Message res"

definition protobuf_ok :: "('b, 'w) Protobuf \<Rightarrow> bool" where
  "protobuf_ok P \<longleftrightarrow> (\<forall>m. FromString P (message_type m) (SerializeToString P (message_type m) m) = Inr m)"

text \<open>\<^verbatim>\<open>channel.unary_unary(path, ...)\<close> over wire bytes; \<open>'c\<close> is the state of what the channel leads to.\<close>

record ('w, 'c) Channel =
  unary_unary :: "string \<Rightarrow> 'w \<Rightarrow> 'c \<Rightarrow> 'w res \<times> 'c"

text \<open>The status a servicer sets on its context.\<close>

record ServicerContext =
  cx_code :: "string option"
  cx_details :: "string option"

definition new_context :: ServicerContext where
  "new_context = \<lparr>cx_code = None, cx_details = None\<rparr>"

type_synonym ('b, 'c) behavior = "'b Message \<Rightarrow> ServicerContext \<Rightarrow> 'c \<Rightarrow> 'b Message res \<times> ServicerContext \<times> 'c"

record ('b, 'c) RpcMethodHandler =
  rh_behavior :: "('b, 'c) behavior"
  rh_request_deserializer :: MessageType
  rh_response_serializer :: MessageType

record ('b, 'c) Server =
  sv_generic :: "(string \<times> (string, ('b, 'c) RpcMethodHandler) dict) list"
  sv_registered :: "(string, (string, ('b, 'c) RpcMethodHandler) dict) dict"

definition new_server :: "('b, 'c) Server" where
  "new_server = \<lparr>sv_generic = [], sv_registered = []\<rparr>"

section \<open>The stub\<close>

record RpcRoute =
  ro_path :: string
  ro_request :: MessageType
  ro_response :: MessageType

text \<open>The path and the classes of request and response of each attribute of \<^verbatim>\<open>L3ServiceStub\<close>.\<close>

fun stub_route :: "Method \<Rightarrow> RpcRoute" where
  "stub_route Meth_PutKVBlock = \<lparr>ro_path = ''/l3store.v1.L3Service/PutKVBlock'',
     ro_request = T_PutKVBlockRequest, ro_response = T_PutKVBlockResponse\<rparr>"
| "stub_route Meth_GetKVBlock = \<lparr>ro_path = ''/l3store.v1.L3Service/GetKVBlock'',
     ro_request = T_GetKVBlockRequest, ro_response = T_GetKVBlockResponse\<rparr>"
| "stub_route Meth_DeleteKVBlock = \<lparr>ro_path = ''/l3store.v1.L3Service/DeleteKVBlock'',
     ro_request = T_DeleteKVBlockRequest, ro_response = T_DeleteKVBlockResponse\<rparr>"
| "stub_route Meth_ListKVBlocks = \<lparr>ro_path = ''/l3store.v1.L3Service/ListKVBlocks'',
     ro_request = T_ListKVBlocksRequest, ro_response = T_ListKVBlocksResponse\<rparr>"
| "stub_route Meth_PutRAGObject = \<lparr>ro_path = ''/l3store.v1.L3Service/PutRAGObject'',
     ro_request = T_PutRAGObjectRequest, ro_response = T_PutRAGObjectResponse\<rparr>"
| "stub_route Meth_GetRAGObject = \<lparr>ro_path = ''/l3store.v1.L3Service/GetRAGObject'',
     ro_request = T_GetRAGObjectRequest, ro_response = T_GetRAGObjectResponse\<rparr>"
| "stub_route Meth_PutSemanticEntry = \<lparr>ro_path = ''/l3store.v1.L3Service/PutSemanticEntry'',
     ro_request = T_PutSemanticEntryRequest, ro_response = T_PutSemanticEntryResponse\<rparr>"
| "stub_route Meth_GetSemanticEntry = \<lparr>ro_path = ''/l3store.v1.L3Service/GetSemanticEntry'',
     ro_request = T_GetSemanticEntryRequest, ro_response = T_GetSemanticEntryResponse\<rparr>"
| "stub_route Meth_SearchSimilarPrompts = \<lparr>ro_path = ''/l3store.v1.L3Service/SearchSimilarPrompts'',
     ro_request = T_SearchSimilarPromptsRequest, ro_response = T_SearchSimilarPromptsResponse\<rparr>"
| "stub_route Meth_PrefetchBatch = \<lparr>ro_path = ''/l3store.v1.L3Service/PrefetchBatch'',
     ro_request = T_PrefetchBatchRequest, ro_response = T_PrefetchBatchResponse\<rparr>"
| "stub_route Meth_GetStats = \<lparr>ro_path = ''/l3store.v1.L3Service/GetStats'',
     ro_request = T_GetStatsRequest, ro_response = T_GetStatsResponse\<rparr>"

text \<open>A call of one of them: write the request, send it to the path, parse the answer.\<close>

definition call_route ::
    "('b, 'w) Protobuf \<Rightarrow> (string \<Rightarrow> 'w \<Rightarrow> 'c \<Rightarrow> 'w res \<times> 'c) \<Rightarrow> RpcRoute \<Rightarrow> 'b Message \<Rightarrow> 'c \<Rightarrow> 'b Message res \<times> 'c" where
  "call_route P send route request c =
     (case send (ro_path route) (SerializeToString P (ro_request route) request) c of
        (Inl e, c') \<Rightarrow> (Inl e, c')
      | (Inr w, c') \<Rightarrow> (FromString P (ro_response route) w, c'))"

definition stub_call ::
    "('b, 'w) Protobuf \<Rightarrow> ('w, 'c) Channel \<Rightarrow> Method \<Rightarrow> 'b Message \<Rightarrow> 'c \<Rightarrow> 'b Message res \<times> 'c" where
  "stub_call P channel m request c = call_route P (unary_unary channel) (stub_route m) request c"

section \<open>The servicer and its table\<close>

text \<open>Every method of \<^verbatim>\<open>L3ServiceServicer\<close> sets the status and raises; a subclass overrides some.\<close>

definition servicer_default :: "('b, 'c) behavior" where
  "servicer_default request context c =
     (Inl (LibError ''NotImplementedError: Method not implemented!''),
      context\<lparr>cx_code := Some ''UNIMPLEMENTED'', cx_details := Some ''Method not implemented!''\<rparr>, c)"

definition servicer_method :: "(Method \<Rightarrow> ('b, 'c) behavior option) \<Rightarrow> Method \<Rightarrow> ('b, 'c) behavior" where
  "servicer_method overrides m = (case overrides m of Some h \<Rightarrow> h | None \<Rightarrow> servicer_default)"

definition rpc_method_handlers ::
    "(Method \<Rightarrow> ('b, 'c) behavior) \<Rightarrow> (string, ('b, 'c) RpcMethodHandler) dict" where
  "rpc_method_handlers servicer = [
     (''PutKVBlock'', \<lparr>rh_behavior = servicer Meth_PutKVBlock,
        rh_request_deserializer = T_PutKVBlockRequest, rh_response_serializer = T_PutKVBlockResponse\<rparr>),
     (''GetKVBlock'', \<lparr>rh_behavior = servicer Meth_GetKVBlock,
        rh_request_deserializer = T_GetKVBlockRequest, rh_response_serializer = T_GetKVBlockResponse\<rparr>),
     (''DeleteKVBlock'', \<lparr>rh_behavior = servicer Meth_DeleteKVBlock,
        rh_request_deserializer = T_DeleteKVBlockRequest, rh_response_serializer = T_DeleteKVBlockResponse\<rparr>),
     (''ListKVBlocks'', \<lparr>rh_behavior = servicer Meth_ListKVBlocks,
        rh_request_deserializer = T_ListKVBlocksRequest, rh_response_serializer = T_ListKVBlocksResponse\<rparr>),
     (''PutRAGObject'', \<lparr>rh_behavior = servicer Meth_PutRAGObject,
        rh_request_deserializer = T_PutRAGObjectRequest, rh_response_serializer = T_PutRAGObjectResponse\<rparr>),
     (''GetRAGObject'', \<lparr>rh_behavior = servicer Meth_GetRAGObject,
        rh_request_deserializer = T_GetRAGObjectRequest, rh_response_serializer = T_GetRAGObjectResponse\<rparr>),
     (''PutSemanticEntry'', \<lparr>rh_behavior = servicer Meth_PutSemanticEntry,
        rh_request_deserializer = T_PutSemanticEntryRequest, rh_response_serializer = T_PutSemanticEntryResponse\<rparr>),
     (''GetSemanticEntry'', \<lparr>rh_behavior = servicer Meth_GetSemanticEntry,
        rh_request_deserializer = T_GetSemanticEntryRequest, rh_response_serializer = T_GetSemanticEntryResponse\<rparr>),
     (''SearchSimilarPrompts'', \<lparr>rh_behavior = servicer Meth_SearchSimilarPrompts,
        rh_request_deserializer = T_SearchSimilarPromptsRequest, rh_response_serializer = T_SearchSimilarPromptsResponse\<rparr>),
     (''PrefetchBatch'', \<lparr>rh_behavior = servicer Meth_PrefetchBatch,
        rh_request_deserializer = T_PrefetchBatchRequest, rh_response_serializer = T_PrefetchBatchResponse\<rparr>),
     (''GetStats'', \<lparr>rh_behavior = servicer Meth_GetStats,
        rh_request_deserializer = T_GetStatsRequest, rh_response_serializer = T_GetStatsResponse\<rparr>)]"

definition add_L3ServiceServicer_to_server ::
    "(Method \<Rightarrow> ('b, 'c) behavior) \<Rightarrow> ('b, 'c) Server \<Rightarrow> ('b, 'c) Server" where
  "add_L3ServiceServicer_to_server servicer server =
     (let handlers = rpc_method_handlers servicer
      in server\<lparr>sv_generic := sv_generic server @ [(''l3store.v1.L3Service'', handlers)],
           sv_registered := dset (sv_registered server) ''l3store.v1.L3Service'' handlers\<rparr>)"

section \<open>The service on the server\<close>

text \<open>The methods of \<^verbatim>\<open>L3ServiceImpl\<close>, which override all of them, on messages; another class of message lacks the fields.\<close>

definition wrong_message :: pyerr where
  "wrong_message = AttributeError ''message has no such field''"

fun L3ServiceImpl ::
    "('s, 'h, 'a, 'b) StoreEnv \<Rightarrow> 'b \<Rightarrow> rat \<Rightarrow> (rat \<Rightarrow> string) \<Rightarrow> Method
       \<Rightarrow> ('b, ('s, 'h) UnifiedObjectStore) behavior option" where
  "L3ServiceImpl E nb now fr Meth_PutKVBlock = Some (\<lambda>req cx st. case req of
     M_PutKVBlockRequest r \<Rightarrow> (case PutKVBlock E r st of (x, st') \<Rightarrow> (map_sum id M_PutKVBlockResponse x, cx, st'))
   | _ \<Rightarrow> (Inl wrong_message, cx, st))"
| "L3ServiceImpl E nb now fr Meth_GetKVBlock = Some (\<lambda>req cx st. case req of
     M_GetKVBlockRequest r \<Rightarrow> (map_sum id M_GetKVBlockResponse (GetKVBlock E nb now r st), cx, st)
   | _ \<Rightarrow> (Inl wrong_message, cx, st))"
| "L3ServiceImpl E nb now fr Meth_DeleteKVBlock = Some (\<lambda>req cx st. case req of
     M_DeleteKVBlockRequest r \<Rightarrow> (case DeleteKVBlock E r st of (x, st') \<Rightarrow> (map_sum id M_DeleteKVBlockResponse x, cx, st'))
   | _ \<Rightarrow> (Inl wrong_message, cx, st))"
| "L3ServiceImpl E nb now fr Meth_ListKVBlocks = Some (\<lambda>req cx st. case req of
     M_ListKVBlocksRequest \<Rightarrow> (map_sum id M_ListKVBlocksResponse (ListKVBlocks E st), cx, st)
   | _ \<Rightarrow> (Inl wrong_message, cx, st))"
| "L3ServiceImpl E nb now fr Meth_PutRAGObject = Some (\<lambda>req cx st. case req of
     M_PutRAGObjectRequest r \<Rightarrow> (case PutRAGObject E r st of (x, st') \<Rightarrow> (map_sum id M_PutRAGObjectResponse x, cx, st'))
   | _ \<Rightarrow> (Inl wrong_message, cx, st))"
| "L3ServiceImpl E nb now fr Meth_GetRAGObject = Some (\<lambda>req cx st. case req of
     M_GetRAGObjectRequest r \<Rightarrow> (map_sum id M_GetRAGObjectResponse (GetRAGObject E nb now r st), cx, st)
   | _ \<Rightarrow> (Inl wrong_message, cx, st))"
| "L3ServiceImpl E nb now fr Meth_PutSemanticEntry = Some (\<lambda>req cx st. case req of
     M_PutSemanticEntryRequest r \<Rightarrow> (case PutSemanticEntry E r st of (x, st') \<Rightarrow> (map_sum id M_PutSemanticEntryResponse x, cx, st'))
   | _ \<Rightarrow> (Inl wrong_message, cx, st))"
| "L3ServiceImpl E nb now fr Meth_GetSemanticEntry = Some (\<lambda>req cx st. case req of
     M_GetSemanticEntryRequest r \<Rightarrow> (map_sum id M_GetSemanticEntryResponse (GetSemanticEntry E nb now r st), cx, st)
   | _ \<Rightarrow> (Inl wrong_message, cx, st))"
| "L3ServiceImpl E nb now fr Meth_SearchSimilarPrompts = Some (\<lambda>req cx st. case req of
     M_SearchSimilarPromptsRequest r \<Rightarrow> (map_sum id M_SearchSimilarPromptsResponse (SearchSimilarPrompts E r st), cx, st)
   | _ \<Rightarrow> (Inl wrong_message, cx, st))"
| "L3ServiceImpl E nb now fr Meth_PrefetchBatch = Some (\<lambda>req cx st. case req of
     M_PrefetchBatchRequest r \<Rightarrow> (map_sum id M_PrefetchBatchResponse (PrefetchBatch E now r st), cx, st)
   | _ \<Rightarrow> (Inl wrong_message, cx, st))"
| "L3ServiceImpl E nb now fr Meth_GetStats = Some (\<lambda>req cx st. case req of
     M_GetStatsRequest \<Rightarrow> (map_sum id M_GetStatsResponse (GetStats E fr st), cx, st)
   | _ \<Rightarrow> (Inl wrong_message, cx, st))"

section \<open>Channels to a server\<close>

text \<open>
  What gRPC does with a call: the handler registered for the path, of a service the server knows, parses
  the request, runs with a new context, and writes its answer; an exception becomes the status that
  was set on the context, else \<^verbatim>\<open>UNKNOWN\<close>.
\<close>

definition rpc_status :: "string \<Rightarrow> pyerr" where
  "rpc_status code = LibError (''RpcError: '' @ code)"

lemma rpc_error_status: "rpc_error = rpc_status ''UNKNOWN''"
  by (simp add: rpc_error_def rpc_status_def)

definition find_handler :: "('b, 'c) Server \<Rightarrow> string \<Rightarrow> ('b, 'c) RpcMethodHandler option" where
  "find_handler server path =
     (case concat (map (\<lambda>(service, handlers). map snd (filter (\<lambda>(name, h). path = ''/'' @ service @ ''/'' @ name) handlers))
         (sv_registered server @ sv_generic server)) of
        [] \<Rightarrow> None
      | h # _ \<Rightarrow> Some h)"

definition serve_call ::
    "('b, 'w) Protobuf \<Rightarrow> ('b, 'c) RpcMethodHandler \<Rightarrow> 'w \<Rightarrow> 'c \<Rightarrow> 'w res \<times> 'c" where
  "serve_call P h w c =
     (case FromString P (rh_request_deserializer h) w of
        Inl e \<Rightarrow> (Inl (rpc_status ''INTERNAL''), c)
      | Inr request \<Rightarrow>
          (case rh_behavior h request new_context c of
             (Inl e, cx, c') \<Rightarrow> (Inl (rpc_status (case cx_code cx of None \<Rightarrow> ''UNKNOWN'' | Some code \<Rightarrow> code)), c')
           | (Inr response, cx, c') \<Rightarrow>
               (case cx_code cx of
                  None \<Rightarrow> (Inr (SerializeToString P (rh_response_serializer h) response), c')
                | Some code \<Rightarrow> (Inl (rpc_status code), c'))))"

locale grpc_link =
  fixes P :: "('b, 'w) Protobuf" and channel :: "('w, 'c) Channel" and server :: "('b, 'c) Server"
  assumes protobuf: "protobuf_ok P"
    and known: "find_handler server path = Some h \<Longrightarrow> unary_unary channel path w c = serve_call P h w c"
    and unknown: "find_handler server path = None \<Longrightarrow> unary_unary channel path w c = (Inl (rpc_status ''UNIMPLEMENTED''), c)"
begin

lemma parse_written [simp]: "message_type m = t \<Longrightarrow> FromString P t (SerializeToString P t m) = Inr m"
  using protobuf by (auto simp: protobuf_ok_def)

end

text \<open>A channel that hands the calls to a server in the same process.\<close>

definition in_process :: "('b, 'w) Protobuf \<Rightarrow> ('b, 'c) Server \<Rightarrow> ('w, 'c) Channel" where
  "in_process P server = \<lparr>unary_unary = (\<lambda>path w c.
     case find_handler server path of
       None \<Rightarrow> (Inl (rpc_status ''UNIMPLEMENTED''), c)
     | Some h \<Rightarrow> serve_call P h w c)\<rparr>"

lemma in_process_link: "protobuf_ok P \<Longrightarrow> grpc_link P (in_process P server) server"
  by unfold_locales (simp_all add: in_process_def)

text \<open>Wire bytes that remember the message are a protobuf of this kind.\<close>

definition message_protobuf :: "('b, 'b Message) Protobuf" where
  "message_protobuf = \<lparr>SerializeToString = (\<lambda>t m. m),
     FromString = (\<lambda>t m. if message_type m = t then Inr m else Inl (ValueError ''DecodeError''))\<rparr>"

lemma message_protobuf_ok [simp]: "protobuf_ok message_protobuf"
  by (simp add: protobuf_ok_def message_protobuf_def)

interpretation local_link: grpc_link message_protobuf "in_process message_protobuf server" server
  for server :: "('b, 'c) Server"
  by (rule in_process_link) simp

section \<open>Routing\<close>

lemma stub_path: "ro_path (stub_route m) = ''/'' @ ''l3store.v1.L3Service'' @ ''/'' @ method_name m"
  by (cases m) simp_all

definition method_handler :: "(Method \<Rightarrow> ('b, 'c) behavior) \<Rightarrow> Method \<Rightarrow> ('b, 'c) RpcMethodHandler" where
  "method_handler servicer m = \<lparr>rh_behavior = servicer m, rh_request_deserializer = ro_request (stub_route m),
     rh_response_serializer = ro_response (stub_route m)\<rparr>"

text \<open>The table has a row for each method, under its name and with the classes that the stub uses.\<close>

lemma handlers_by_method:
  "rpc_method_handlers servicer = map (\<lambda>m. (method_name m, method_handler servicer m)) all_methods"
  by (simp add: rpc_method_handlers_def all_methods_def method_handler_def)

lemma all_methods_distinct: "distinct all_methods"
  by (simp add: all_methods_def)

lemma filter_one: "distinct xs \<Longrightarrow> x \<in> set xs \<Longrightarrow> filter (\<lambda>y. y = x) xs = [x]"
  by (induction xs) (auto simp: filter_empty_conv)

lemma server_handler:
  "find_handler (add_L3ServiceServicer_to_server servicer new_server) (ro_path (stub_route m)) = Some (method_handler servicer m)"
proof -
  let ?row = "\<lambda>m. (method_name m, method_handler servicer m)"
  have "filter (\<lambda>(name, h). ro_path (stub_route m) = ''/'' @ ''l3store.v1.L3Service'' @ ''/'' @ name) (rpc_method_handlers servicer)
      = map ?row (filter (\<lambda>n. n = m) all_methods)"
    unfolding handlers_by_method filter_map comp_def stub_path
    by (intro arg_cong [where f = "map ?row"] filter_cong) (auto dest: method_name_inj)
  also have "\<dots> = [?row m]" using filter_one [OF all_methods_distinct, of m] by simp
  finally show ?thesis
    by (simp add: find_handler_def add_L3ServiceServicer_to_server_def new_server_def Let_def)
qed

text \<open>A call of the stub runs the servicer's method of that name.\<close>

lemma link_call:
  assumes "grpc_link P channel (add_L3ServiceServicer_to_server servicer new_server)"
    and "message_type request = ro_request (stub_route m)"
    and "\<And>response cx c'. servicer m request new_context c = (Inr response, cx, c') \<Longrightarrow> message_type response = ro_response (stub_route m)"
  shows "stub_call P channel m request c =
    (case servicer m request new_context c of
       (Inl e, cx, c') \<Rightarrow> (Inl (rpc_status (case cx_code cx of None \<Rightarrow> ''UNKNOWN'' | Some code \<Rightarrow> code)), c')
     | (Inr response, cx, c') \<Rightarrow> (case cx_code cx of None \<Rightarrow> Inr response | Some code \<Rightarrow> Inl (rpc_status code), c'))"
proof -
  note serve = grpc_link.known [OF assms(1) server_handler]
  note parse = grpc_link.parse_written [OF assms(1)]
  obtain r cx c' where run: "servicer m request new_context c = (r, cx, c')" by (cases "servicer m request new_context c")
  show ?thesis
  proof (cases r)
    case (Inl e)
    then show ?thesis
      by (simp add: stub_call_def call_route_def serve serve_call_def method_handler_def parse [OF assms(2)] run)
  next
    case (Inr x)
    with assms(3) run have "message_type x = ro_response (stub_route m)" by simp
    then show ?thesis
      by (simp add: stub_call_def call_route_def serve serve_call_def method_handler_def parse [OF assms(2)] parse run Inr
          split: option.split)
  qed
qed

section \<open>The generated stub over a channel\<close>

text \<open>Reading the answer of a call as the class of its response.\<close>

definition answer :: "('b Message \<Rightarrow> 'r option) \<Rightarrow> 'b Message res \<times> 'c \<Rightarrow> 'r res \<times> 'c" where
  "answer proj p =
     (case p of
        (Inl e, c) \<Rightarrow> (Inl e, c)
      | (Inr m, c) \<Rightarrow> (case proj m of None \<Rightarrow> Inl wrong_message | Some x \<Rightarrow> Inr x, c))"

definition generated_stub :: "('b, 'w) Protobuf \<Rightarrow> ('w, 'c) Channel \<Rightarrow> ('c, 'b) L3ServiceStub" where
  "generated_stub P channel = \<lparr>
     sb_PutKVBlock = (\<lambda>r c. answer (\<lambda>x. case x of M_PutKVBlockResponse y \<Rightarrow> Some y | _ \<Rightarrow> None)
        (stub_call P channel Meth_PutKVBlock (M_PutKVBlockRequest r) c)),
     sb_GetKVBlock = (\<lambda>r c. answer (\<lambda>x. case x of M_GetKVBlockResponse y \<Rightarrow> Some y | _ \<Rightarrow> None)
        (stub_call P channel Meth_GetKVBlock (M_GetKVBlockRequest r) c)),
     sb_DeleteKVBlock = (\<lambda>r c. answer (\<lambda>x. case x of M_DeleteKVBlockResponse y \<Rightarrow> Some y | _ \<Rightarrow> None)
        (stub_call P channel Meth_DeleteKVBlock (M_DeleteKVBlockRequest r) c)),
     sb_ListKVBlocks = (\<lambda>c. answer (\<lambda>x. case x of M_ListKVBlocksResponse y \<Rightarrow> Some y | _ \<Rightarrow> None)
        (stub_call P channel Meth_ListKVBlocks M_ListKVBlocksRequest c)),
     sb_PutRAGObject = (\<lambda>r c. answer (\<lambda>x. case x of M_PutRAGObjectResponse y \<Rightarrow> Some y | _ \<Rightarrow> None)
        (stub_call P channel Meth_PutRAGObject (M_PutRAGObjectRequest r) c)),
     sb_GetRAGObject = (\<lambda>r c. answer (\<lambda>x. case x of M_GetRAGObjectResponse y \<Rightarrow> Some y | _ \<Rightarrow> None)
        (stub_call P channel Meth_GetRAGObject (M_GetRAGObjectRequest r) c)),
     sb_PutSemanticEntry = (\<lambda>r c. answer (\<lambda>x. case x of M_PutSemanticEntryResponse y \<Rightarrow> Some y | _ \<Rightarrow> None)
        (stub_call P channel Meth_PutSemanticEntry (M_PutSemanticEntryRequest r) c)),
     sb_GetSemanticEntry = (\<lambda>r c. answer (\<lambda>x. case x of M_GetSemanticEntryResponse y \<Rightarrow> Some y | _ \<Rightarrow> None)
        (stub_call P channel Meth_GetSemanticEntry (M_GetSemanticEntryRequest r) c)),
     sb_SearchSimilarPrompts = (\<lambda>r c. answer (\<lambda>x. case x of M_SearchSimilarPromptsResponse y \<Rightarrow> Some y | _ \<Rightarrow> None)
        (stub_call P channel Meth_SearchSimilarPrompts (M_SearchSimilarPromptsRequest r) c)),
     sb_PrefetchBatch = (\<lambda>r c. answer (\<lambda>x. case x of M_PrefetchBatchResponse y \<Rightarrow> Some y | _ \<Rightarrow> None)
        (stub_call P channel Meth_PrefetchBatch (M_PrefetchBatchRequest r) c)),
     sb_GetStats = (\<lambda>c. answer (\<lambda>x. case x of M_GetStatsResponse y \<Rightarrow> Some y | _ \<Rightarrow> None)
        (stub_call P channel Meth_GetStats M_GetStatsRequest c))\<rparr>"

lemma impl_overrides: "servicer_method (L3ServiceImpl E nb now fr) m = the (L3ServiceImpl E nb now fr m)"
  by (cases m) (simp_all add: servicer_method_def)

lemma new_context_code [simp]: "cx_code new_context = None"
  by (simp add: new_context_def)

lemma impl_call:
  assumes "grpc_link P channel (add_L3ServiceServicer_to_server (servicer_method (L3ServiceImpl E nb now fr)) new_server)"
    and "the (L3ServiceImpl E nb now fr m) request new_context st = (map_sum id wrap r, new_context, st')"
    and "message_type request = ro_request (stub_route m)" and "\<And>x. message_type (wrap x) = ro_response (stub_route m)"
    and "\<And>x. proj (wrap x) = Some x"
  shows "answer proj (stub_call P channel m request st) = (rpc r, st')"
proof (cases r)
  case (Inl e)
  then show ?thesis
    using link_call [OF assms(1,3), of st] assms(2) by (simp add: impl_overrides answer_def rpc_error_status)
next
  case (Inr x)
  then show ?thesis
    using link_call [OF assms(1,3), of st] assms(2,4,5) by (simp add: impl_overrides answer_def)
qed

section \<open>The experimental API\<close>

text \<open>
  The static methods of \<^verbatim>\<open>L3Service\<close> hand their arguments to \<^verbatim>\<open>grpc.experimental.unary_unary\<close>, which is a
  parameter: request, target, path, the two classes, then options, channel credentials, \<^verbatim>\<open>insecure\<close>, call
  credentials, compression, \<^verbatim>\<open>wait_for_ready\<close>, timeout, metadata and whether the method is registered.
\<close>

type_synonym ('b, 'o, 'k, 'l, 'z, 'd, 'r) experimental =
  "'b Message \<Rightarrow> string \<Rightarrow> string \<Rightarrow> MessageType \<Rightarrow> MessageType \<Rightarrow> 'o list \<Rightarrow> 'k option \<Rightarrow> bool \<Rightarrow> 'l option
     \<Rightarrow> 'z option \<Rightarrow> bool option \<Rightarrow> rat option \<Rightarrow> 'd option \<Rightarrow> bool \<Rightarrow> 'r"

type_synonym ('b, 'o, 'k, 'l, 'z, 'd, 'r) static_method =
  "'b Message \<Rightarrow> string \<Rightarrow> 'o list \<Rightarrow> 'k option \<Rightarrow> 'l option \<Rightarrow> bool \<Rightarrow> 'z option \<Rightarrow> bool option
     \<Rightarrow> rat option \<Rightarrow> 'd option \<Rightarrow> 'r"

definition L3Service_PutKVBlock ::
    "('b, 'o, 'k, 'l, 'z, 'd, 'r) experimental \<Rightarrow> ('b, 'o, 'k, 'l, 'z, 'd, 'r) static_method" where
  "L3Service_PutKVBlock X request target options channel_credentials call_credentials insecure compression
       wait_for_ready timeout metadata =
     X request target ''/l3store.v1.L3Service/PutKVBlock'' T_PutKVBlockRequest T_PutKVBlockResponse
       options channel_credentials insecure call_credentials compression wait_for_ready timeout metadata True"

definition L3Service_GetKVBlock ::
    "('b, 'o, 'k, 'l, 'z, 'd, 'r) experimental \<Rightarrow> ('b, 'o, 'k, 'l, 'z, 'd, 'r) static_method" where
  "L3Service_GetKVBlock X request target options channel_credentials call_credentials insecure compression
       wait_for_ready timeout metadata =
     X request target ''/l3store.v1.L3Service/GetKVBlock'' T_GetKVBlockRequest T_GetKVBlockResponse
       options channel_credentials insecure call_credentials compression wait_for_ready timeout metadata True"

definition L3Service_DeleteKVBlock ::
    "('b, 'o, 'k, 'l, 'z, 'd, 'r) experimental \<Rightarrow> ('b, 'o, 'k, 'l, 'z, 'd, 'r) static_method" where
  "L3Service_DeleteKVBlock X request target options channel_credentials call_credentials insecure compression
       wait_for_ready timeout metadata =
     X request target ''/l3store.v1.L3Service/DeleteKVBlock'' T_DeleteKVBlockRequest T_DeleteKVBlockResponse
       options channel_credentials insecure call_credentials compression wait_for_ready timeout metadata True"

definition L3Service_ListKVBlocks ::
    "('b, 'o, 'k, 'l, 'z, 'd, 'r) experimental \<Rightarrow> ('b, 'o, 'k, 'l, 'z, 'd, 'r) static_method" where
  "L3Service_ListKVBlocks X request target options channel_credentials call_credentials insecure compression
       wait_for_ready timeout metadata =
     X request target ''/l3store.v1.L3Service/ListKVBlocks'' T_ListKVBlocksRequest T_ListKVBlocksResponse
       options channel_credentials insecure call_credentials compression wait_for_ready timeout metadata True"

definition L3Service_PutRAGObject ::
    "('b, 'o, 'k, 'l, 'z, 'd, 'r) experimental \<Rightarrow> ('b, 'o, 'k, 'l, 'z, 'd, 'r) static_method" where
  "L3Service_PutRAGObject X request target options channel_credentials call_credentials insecure compression
       wait_for_ready timeout metadata =
     X request target ''/l3store.v1.L3Service/PutRAGObject'' T_PutRAGObjectRequest T_PutRAGObjectResponse
       options channel_credentials insecure call_credentials compression wait_for_ready timeout metadata True"

definition L3Service_GetRAGObject ::
    "('b, 'o, 'k, 'l, 'z, 'd, 'r) experimental \<Rightarrow> ('b, 'o, 'k, 'l, 'z, 'd, 'r) static_method" where
  "L3Service_GetRAGObject X request target options channel_credentials call_credentials insecure compression
       wait_for_ready timeout metadata =
     X request target ''/l3store.v1.L3Service/GetRAGObject'' T_GetRAGObjectRequest T_GetRAGObjectResponse
       options channel_credentials insecure call_credentials compression wait_for_ready timeout metadata True"

definition L3Service_PutSemanticEntry ::
    "('b, 'o, 'k, 'l, 'z, 'd, 'r) experimental \<Rightarrow> ('b, 'o, 'k, 'l, 'z, 'd, 'r) static_method" where
  "L3Service_PutSemanticEntry X request target options channel_credentials call_credentials insecure compression
       wait_for_ready timeout metadata =
     X request target ''/l3store.v1.L3Service/PutSemanticEntry'' T_PutSemanticEntryRequest T_PutSemanticEntryResponse
       options channel_credentials insecure call_credentials compression wait_for_ready timeout metadata True"

definition L3Service_GetSemanticEntry ::
    "('b, 'o, 'k, 'l, 'z, 'd, 'r) experimental \<Rightarrow> ('b, 'o, 'k, 'l, 'z, 'd, 'r) static_method" where
  "L3Service_GetSemanticEntry X request target options channel_credentials call_credentials insecure compression
       wait_for_ready timeout metadata =
     X request target ''/l3store.v1.L3Service/GetSemanticEntry'' T_GetSemanticEntryRequest T_GetSemanticEntryResponse
       options channel_credentials insecure call_credentials compression wait_for_ready timeout metadata True"

definition L3Service_SearchSimilarPrompts ::
    "('b, 'o, 'k, 'l, 'z, 'd, 'r) experimental \<Rightarrow> ('b, 'o, 'k, 'l, 'z, 'd, 'r) static_method" where
  "L3Service_SearchSimilarPrompts X request target options channel_credentials call_credentials insecure compression
       wait_for_ready timeout metadata =
     X request target ''/l3store.v1.L3Service/SearchSimilarPrompts'' T_SearchSimilarPromptsRequest T_SearchSimilarPromptsResponse
       options channel_credentials insecure call_credentials compression wait_for_ready timeout metadata True"

definition L3Service_PrefetchBatch ::
    "('b, 'o, 'k, 'l, 'z, 'd, 'r) experimental \<Rightarrow> ('b, 'o, 'k, 'l, 'z, 'd, 'r) static_method" where
  "L3Service_PrefetchBatch X request target options channel_credentials call_credentials insecure compression
       wait_for_ready timeout metadata =
     X request target ''/l3store.v1.L3Service/PrefetchBatch'' T_PrefetchBatchRequest T_PrefetchBatchResponse
       options channel_credentials insecure call_credentials compression wait_for_ready timeout metadata True"

definition L3Service_GetStats ::
    "('b, 'o, 'k, 'l, 'z, 'd, 'r) experimental \<Rightarrow> ('b, 'o, 'k, 'l, 'z, 'd, 'r) static_method" where
  "L3Service_GetStats X request target options channel_credentials call_credentials insecure compression
       wait_for_ready timeout metadata =
     X request target ''/l3store.v1.L3Service/GetStats'' T_GetStatsRequest T_GetStatsResponse
       options channel_credentials insecure call_credentials compression wait_for_ready timeout metadata True"

text \<open>The static method of each name.\<close>

fun static_method :: "Method \<Rightarrow> ('b, 'o, 'k, 'l, 'z, 'd, 'r) experimental \<Rightarrow> ('b, 'o, 'k, 'l, 'z, 'd, 'r) static_method" where
  "static_method Meth_PutKVBlock = L3Service_PutKVBlock"
| "static_method Meth_GetKVBlock = L3Service_GetKVBlock"
| "static_method Meth_DeleteKVBlock = L3Service_DeleteKVBlock"
| "static_method Meth_ListKVBlocks = L3Service_ListKVBlocks"
| "static_method Meth_PutRAGObject = L3Service_PutRAGObject"
| "static_method Meth_GetRAGObject = L3Service_GetRAGObject"
| "static_method Meth_PutSemanticEntry = L3Service_PutSemanticEntry"
| "static_method Meth_GetSemanticEntry = L3Service_GetSemanticEntry"
| "static_method Meth_SearchSimilarPrompts = L3Service_SearchSimilarPrompts"
| "static_method Meth_PrefetchBatch = L3Service_PrefetchBatch"
| "static_method Meth_GetStats = L3Service_GetStats"

lemmas static_method_defs =
  L3Service_PutKVBlock_def
  L3Service_GetKVBlock_def
  L3Service_DeleteKVBlock_def
  L3Service_ListKVBlocks_def
  L3Service_PutRAGObject_def
  L3Service_GetRAGObject_def
  L3Service_PutSemanticEntry_def
  L3Service_GetSemanticEntry_def
  L3Service_SearchSimilarPrompts_def
  L3Service_PrefetchBatch_def
  L3Service_GetStats_def

section \<open>The version check\<close>

text \<open>
  Importing the module raises when the installed gRPC is older than the code was generated for.
  \<^verbatim>\<open>first_version_is_lower\<close> is gRPC's, and missing from old versions of it.
\<close>

definition GRPC_GENERATED_VERSION :: string where
  "GRPC_GENERATED_VERSION = ''1.80.0''"

definition version_not_supported :: "(string \<Rightarrow> string \<Rightarrow> bool) option \<Rightarrow> string \<Rightarrow> bool" where
  "version_not_supported first_version_is_lower grpc_version =
     (case first_version_is_lower of
        None \<Rightarrow> True
      | Some lower \<Rightarrow> lower grpc_version GRPC_GENERATED_VERSION)"

definition import_generated :: "(string \<Rightarrow> string \<Rightarrow> bool) option \<Rightarrow> string \<Rightarrow> unit res" where
  "import_generated first_version_is_lower grpc_version =
     (if version_not_supported first_version_is_lower grpc_version
      then Inl (LibError (''RuntimeError: The grpc package installed is at version '' @ grpc_version @
        '', but the generated code in l3store/api/proto/l3_service_pb2_grpc.py depends on grpcio>='' @ GRPC_GENERATED_VERSION @
        ''. Please upgrade your grpc module to grpcio>='' @ GRPC_GENERATED_VERSION @
        '' or downgrade your generated code using grpcio-tools<='' @ grpc_version @ ''.''))
      else Inr ())"

lemma stub_routes:
  assumes "grpc_link P channel (add_L3ServiceServicer_to_server (servicer_method (L3ServiceImpl E nb now fr)) new_server)"
  shows "generated_stub P channel = service_stub E nb now"
proof -
  note call = impl_call [OF assms]
  have sums: "(case p of (x, st') \<Rightarrow> (map_sum id w x, new_context, st')) = (map_sum id w (fst p), new_context, snd p)" for p w
    by (cases p) simp
  have pairs: "(rpc (fst p), snd p) = apfst rpc p" for p :: "'x res \<times> 'y" by (cases p) simp
  show ?thesis
    unfolding generated_stub_def service_stub_def
    by (simp add: fun_eq_iff sums flip: pairs, intro conjI allI)
      (rule call, (simp add: sums stats_without_floats [of E fr _ "\<lambda>q. []"])+)+
qed

section \<open>The life of a client\<close>

text \<open>
  \<^verbatim>\<open>L3Client\<close> of \<^verbatim>\<open>grpc_client.py\<close>: its channel and the stub that calls over it.  \<open>open_channel\<close> is \<^verbatim>\<open>grpc.insecure_channel\<close> and
  \<open>close\<close> gives what a channel is after \<^verbatim>\<open>channel.close()\<close>; the stub holds the same channel, so it calls over the closed one.
\<close>

record ('b, 'w, 'c) L3Client =
  lc_channel :: "('w, 'c) Channel"
  lc_stub :: "('c, 'b) L3ServiceStub"

definition client_init :: "('b, 'w) Protobuf \<Rightarrow> (string \<Rightarrow> ('w, 'c) Channel) \<Rightarrow> string \<Rightarrow> ('b, 'w, 'c) L3Client" where
  "client_init P open_channel endpoint =
     (let channel = open_channel endpoint in \<lparr>lc_channel = channel, lc_stub = generated_stub P channel\<rparr>)"

definition client_close ::
    "('b, 'w) Protobuf \<Rightarrow> (('w, 'c) Channel \<Rightarrow> ('w, 'c) Channel) \<Rightarrow> ('b, 'w, 'c) L3Client \<Rightarrow> ('b, 'w, 'c) L3Client" where
  "client_close P close c = (let channel = close (lc_channel c) in \<lparr>lc_channel = channel, lc_stub = generated_stub P channel\<rparr>)"

definition client_enter :: "('b, 'w, 'c) L3Client \<Rightarrow> ('b, 'w, 'c) L3Client" where
  "client_enter c = c"

definition client_exit ::
    "('b, 'w) Protobuf \<Rightarrow> (('w, 'c) Channel \<Rightarrow> ('w, 'c) Channel) \<Rightarrow> ('b, 'w, 'c) L3Client \<Rightarrow> ('b, 'w, 'c) L3Client" where
  "client_exit P close c = client_close P close c"

text \<open>Inside a \<^verbatim>\<open>with\<close> statement the client of a served endpoint is the client that \<open>Grpc\<close> proves correct; after it, a call
  answers what the closed channel answers, and the store does not change if that raises.\<close>

lemma client_in_with:
  assumes "grpc_link P (open_channel endpoint) (add_L3ServiceServicer_to_server (servicer_method (L3ServiceImpl E nb now fr)) new_server)"
  shows "lc_stub (client_enter (client_init P open_channel endpoint)) = service_stub E nb now"
  using stub_routes [OF assms] by (simp add: client_enter_def client_init_def)

lemma client_after_with:
  assumes "\<And>path w st. unary_unary (close (lc_channel c)) path w st = (Inl e, st)"
  shows "sb_GetKVBlock (lc_stub (client_exit P close c)) oid st = (Inl e, st)"
    and "sb_PutKVBlock (lc_stub (client_exit P close c)) r st = (Inl e, st)"
    and "sb_DeleteKVBlock (lc_stub (client_exit P close c)) oid st = (Inl e, st)"
  by (simp_all add: client_exit_def client_close_def Let_def generated_stub_def stub_call_def call_route_def assms answer_def)

section \<open>Properties\<close>

text \<open>C37: Over any channel to a server with the handlers of the service, where gRPC and protobuf behave as documented, the
  generated stub runs the handler of each name on the store: it is the stub the client was proved correct for.\<close>

theorem generated_stub_routes:
  assumes "grpc_link P channel (add_L3ServiceServicer_to_server (servicer_method (L3ServiceImpl E nb now fr)) new_server)"
  shows "generated_stub P channel = service_stub E nb now"
  by (rule stub_routes [OF assms])

lemma generated_stub_routes_witness:
  "generated_stub message_protobuf
     (in_process message_protobuf
        (add_L3ServiceServicer_to_server (servicer_method (L3ServiceImpl sample_env (Blob_array []) 7 (\<lambda>q. []))) new_server))
   = service_stub sample_env (Blob_array []) 7"
  by (rule generated_stub_routes [OF local_link.grpc_link_axioms])

lemma servicer_reached:
  assumes "grpc_link P channel (add_L3ServiceServicer_to_server (servicer_method overrides) new_server)"
    and "message_type request = ro_request (stub_route m)" and "overrides m = None"
  shows "stub_call P channel m request c = (Inl (rpc_status ''UNIMPLEMENTED''), c)"
  using link_call [OF assms(1,2), of c] assms(3) by (simp add: servicer_method_def servicer_default_def new_context_def)

text \<open>The three tables of the generated module agree: for each method the stub, the server's table and the static method use the same
  path and classes, the static method passes its arguments on in gRPC's order, and a method that a servicer does not override answers
  \<^verbatim>\<open>UNIMPLEMENTED\<close> and changes nothing.\<close>

theorem generated_tables_agree:
  "find_handler (add_L3ServiceServicer_to_server (servicer_method overrides) new_server) (ro_path (stub_route m)) =
     Some \<lparr>rh_behavior = servicer_method overrides m, rh_request_deserializer = ro_request (stub_route m),
       rh_response_serializer = ro_response (stub_route m)\<rparr>
   \<and> static_method m X request target options channel_credentials call_credentials insecure compression wait_for_ready timeout metadata =
     X request target (ro_path (stub_route m)) (ro_request (stub_route m)) (ro_response (stub_route m)) options channel_credentials
       insecure call_credentials compression wait_for_ready timeout metadata True
   \<and> (message_type request = ro_request (stub_route m) \<and> overrides m = None \<longrightarrow>
        stub_call message_protobuf (in_process message_protobuf
          (add_L3ServiceServicer_to_server (servicer_method overrides) new_server)) m request c
        = (Inl (rpc_status ''UNIMPLEMENTED''), c))"
proof (intro conjI impI)
  show "static_method m X request target options channel_credentials call_credentials insecure compression wait_for_ready timeout metadata =
     X request target (ro_path (stub_route m)) (ro_request (stub_route m)) (ro_response (stub_route m)) options channel_credentials
       insecure call_credentials compression wait_for_ready timeout metadata True"
    by (cases m) (simp_all add: static_method_defs)
qed (auto simp: server_handler method_handler_def intro: servicer_reached local_link.grpc_link_axioms)

lemma generated_tables_agree_witness:
  "stub_call message_protobuf (in_process message_protobuf (add_L3ServiceServicer_to_server (servicer_method (\<lambda>m. None)) new_server))
     Meth_GetStats M_GetStatsRequest (0 :: nat) = (Inl (rpc_status ''UNIMPLEMENTED''), 0)"
  using generated_tables_agree [where overrides = "\<lambda>m. None" and m = Meth_GetStats and request = M_GetStatsRequest and c = "0 :: nat",
      THEN conjunct2, THEN conjunct2] by simp

end
