(* ===== verification/Interleave.thy ===== *)
theory Interleave
  imports Prelude
begin

text \<open>
  Requests that run concurrently on a shared state.  A request has been answered, or makes one more
  call: the state after the call, and what is left to do, both depend on the state it finds.  The
  pool of a server lets any request make its next call (\<open>served\<close>).  A request always makes finitely
  many calls, so a pool comes to its end under every schedule; and what holds of one request against
  an environment that keeps to a relation (\<open>achieves\<close>) holds in a pool whose other requests keep to it
  (\<open>keeps\<close>).
\<close>

section \<open>Requests\<close>

datatype ('s, 'r) request =
    Answered 'r
  | Call "'s \<Rightarrow> 's" "'s \<Rightarrow> ('s, 'r) request"

text \<open>A call \<open>f\<close> that gives a value and a new state, and what is done with the value.\<close>

definition call :: "('s \<Rightarrow> 'x \<times> 's) \<Rightarrow> ('x \<Rightarrow> ('s, 'r) request) \<Rightarrow> ('s, 'r) request" where
  "call f k = Call (\<lambda>s. snd (f s)) (\<lambda>s. k (fst (f s)))"

primrec and_then :: "('s, 'r) request \<Rightarrow> ('r \<Rightarrow> ('s, 'q) request) \<Rightarrow> ('s, 'q) request" where
  "and_then (Answered r) k = k r"
| "and_then (Call f g) k = Call f (\<lambda>s. and_then (g s) k)"

definition map_request :: "('r \<Rightarrow> 'q) \<Rightarrow> ('s, 'r) request \<Rightarrow> ('s, 'q) request" where
  "map_request h p = and_then p (\<lambda>r. Answered (h r))"

primrec answered :: "('s, 'r) request \<Rightarrow> bool" where
  "answered (Answered r) = True"
| "answered (Call f g) = False"

text \<open>A request that runs alone.\<close>

primrec alone :: "('s, 'r) request \<Rightarrow> 's \<Rightarrow> 'r \<times> 's" where
  "alone (Answered r) = (\<lambda>s. (r, s))"
| "alone (Call f g) = (\<lambda>s. alone (g s) (f s))"

named_theorems request_simps "equations of the predicates on requests for calls and sequences"

lemma and_then_call [request_simps]: "and_then (call f k) k' = call f (\<lambda>x. and_then (k x) k')"
  by (simp add: call_def)

lemma answered_call [simp]: "\<not> answered (call f k)"
  by (simp add: call_def)

lemma alone_call [request_simps]: "alone (call f k) s = alone (k (fst (f s))) (snd (f s))"
  by (simp add: call_def)

lemma alone_and_then [request_simps]: "alone (and_then p k) s = (case alone p s of (r, s') \<Rightarrow> alone (k r) s')"
  by (induction p arbitrary: s) simp_all

lemma alone_map [request_simps]: "alone (map_request h p) s = apfst h (alone p s)"
  by (simp add: map_request_def alone_and_then split: prod.split)

lemma and_then_assoc: "and_then (and_then p k) k' = and_then p (\<lambda>r. and_then (k r) k')"
  by (induction p) simp_all

lemma map_request_call [request_simps]: "map_request h (call f k) = call f (\<lambda>x. map_request h (k x))"
  by (simp add: map_request_def call_def)

lemma map_request_answered [simp]: "map_request h (Answered r) = Answered (h r)"
  by (simp add: map_request_def)

section \<open>The number of calls\<close>

primrec calls_at_most :: "('s, 'r) request \<Rightarrow> nat \<Rightarrow> bool" where
  "calls_at_most (Answered r) = (\<lambda>n. True)"
| "calls_at_most (Call f g) = (\<lambda>n. 0 < n \<and> (\<forall>s. calls_at_most (g s) (n - 1)))"

lemma calls_call [request_simps]: "calls_at_most (call f k) (Suc n) \<longleftrightarrow> (\<forall>s. calls_at_most (k (fst (f s))) n)"
  by (simp add: call_def)

lemma calls_callI: "0 < n \<Longrightarrow> (\<And>x. calls_at_most (k x) (n - 1)) \<Longrightarrow> calls_at_most (call f k) n"
  by (simp add: call_def)

lemma calls_mono: "calls_at_most p m \<Longrightarrow> m \<le> n \<Longrightarrow> calls_at_most p n"
proof (induction p arbitrary: m n)
  case (Answered r)
  show ?case by simp
next
  case (Call f g)
  then have m: "0 < m" and g: "calls_at_most (g s) (m - 1)" for s by simp_all
  have "calls_at_most (g s) (n - 1)" for s by (rule Call.IH [OF _ g]) (use Call.prems(2) in simp_all)
  with m Call.prems(2) show ?case by simp
qed

lemma calls_and_then: "calls_at_most p m \<Longrightarrow> (\<And>r. calls_at_most (k r) n) \<Longrightarrow> calls_at_most (and_then p k) (m + n)"
proof (induction p arbitrary: m)
  case (Answered r)
  then show ?case using calls_mono [of "k r" n "m + n"] by simp
next
  case (Call f g)
  then have m: "0 < m" and g: "calls_at_most (g s) (m - 1)" for s by simp_all
  have "calls_at_most (and_then (g s) k) (m - 1 + n)" for s by (rule Call.IH [OF _ g Call.prems(2)]) simp
  with m show ?case by simp
qed

lemma calls_map [request_simps]: "calls_at_most (map_request h p) n = calls_at_most p n"
  by (induction p arbitrary: n) (simp_all add: map_request_def)

section \<open>Pools\<close>

inductive served :: "('s, 'r) request list \<times> 's \<Rightarrow> ('s, 'r) request list \<times> 's \<Rightarrow> bool" where
  next_call: "i < length ps \<Longrightarrow> ps ! i = Call f g \<Longrightarrow> served (ps, s) (ps[i := g s], f s)"

inductive_cases servedE: "served (ps, s) q"

lemma served_length: "served p q \<Longrightarrow> length (fst q) = length (fst p)"
  by (induction rule: served.induct) simp

lemma served_progress: "i < length ps \<Longrightarrow> \<not> answered (ps ! i) \<Longrightarrow> \<exists>p' s'. served (ps, s) (ps[i := p'], s')"
  by (cases "ps ! i") (auto intro: served.intros)

lemma served_stuck: "(\<nexists>q. served (ps, s) q) \<longleftrightarrow> (\<forall>p \<in> set ps. answered p)"
proof
  assume stuck: "\<nexists>q. served (ps, s) q"
  show "\<forall>p \<in> set ps. answered p"
  proof
    fix p
    assume "p \<in> set ps"
    then obtain i where i: "i < length ps" "ps ! i = p" by (auto simp: in_set_conv_nth)
    with stuck served_progress [of i ps s] show "answered p" by auto
  qed
next
  assume all: "\<forall>p \<in> set ps. answered p"
  show "\<nexists>q. served (ps, s) q"
  proof (intro notI, elim exE servedE)
    fix i f g
    assume "i < length ps" and i: "ps ! i = Call f g"
    then have "Call f g \<in> set ps" by (metis nth_mem)
    with all show False by auto
  qed
qed

text \<open>Every step replaces one request by a part of it, so pools terminate.\<close>

definition rest_of :: "(('s, 'r) request \<times> ('s, 'r) request) set" where
  "rest_of = {(q, p). \<exists>f g s. p = Call f g \<and> q = g s}"

lemma wf_rest_of: "wf rest_of"
proof (rule wfUNIVI)
  fix P :: "('s, 'r) request \<Rightarrow> bool" and p
  assume step: "\<forall>x. (\<forall>y. (y, x) \<in> rest_of \<longrightarrow> P y) \<longrightarrow> P x"
  have P: "P x" if "\<And>y. (y, x) \<in> rest_of \<Longrightarrow> P y" for x using step that by blast
  have parts: "(y, Answered r) \<notin> rest_of" "(y, Call f g) \<in> rest_of \<Longrightarrow> y \<in> range g"
    for y r f and g :: "'s \<Rightarrow> ('s, 'r) request" by (auto simp: rest_of_def)
  show "P p"
  proof (induction p)
    case (Answered r)
    show ?case by (rule P) (simp add: parts(1))
  next
    case (Call f g)
    show ?case by (rule P) (rule Call.IH [OF parts(2)])
  qed
qed

lemma lex_update: "i < length xs \<Longrightarrow> (y, xs ! i) \<in> r \<Longrightarrow> (xs[i := y], xs) \<in> lex r"
proof (induction xs arbitrary: i)
  case Nil
  then show ?case by simp
next
  case (Cons x xs)
  then show ?case by (cases i) simp_all
qed

lemma served_lex: "served p q \<Longrightarrow> (fst q, fst p) \<in> lex rest_of"
  by (induction rule: served.induct) (auto intro!: lex_update simp: rest_of_def)

lemma served_terminates: "wf {(q, p). served p q}"
proof (rule wf_subset)
  show "wf (inv_image (lex rest_of) fst)" by (intro wf_inv_image wf_lex wf_rest_of)
  show "{(q, p). served p q} \<subseteq> inv_image (lex rest_of) fst" using served_lex by auto
qed

lemma sum_list_update_less:
  "i < length ns \<Longrightarrow> 0 < ns ! i \<Longrightarrow> Suc (sum_list (ns[i := ns ! i - 1])) = sum_list (ns :: nat list)"
proof (induction ns arbitrary: i)
  case Nil
  then show ?case by simp
next
  case (Cons n ns)
  then show ?case by (cases i) auto
qed

lemma served_bounded:
  "(served ^^ n) (ps, s) (qs, t) \<Longrightarrow> list_all2 calls_at_most ps ns \<Longrightarrow> n \<le> sum_list ns"
proof (induction n arbitrary: ps s ns)
  case 0
  show ?case by simp
next
  case (Suc n)
  from relpowp_Suc_D2 [OF Suc.prems(1)] obtain q where q: "served (ps, s) q" "(served ^^ n) q (qs, t)" by blast
  from q(1) obtain i f g where i: "i < length ps" "ps ! i = Call f g" "q = (ps[i := g s], f s)" by (rule servedE)
  from Suc.prems(2) i have len: "length ns = length ps" and "calls_at_most (Call f g) (ns ! i)"
    by (auto simp: list_all2_conv_all_nth)
  then have pos: "0 < ns ! i" and rest: "calls_at_most (g s) (ns ! i - 1)" by simp_all
  have "list_all2 calls_at_most (ps[i := g s]) (ns[i := ns ! i - 1])"
    using Suc.prems(2) rest by (rule list_all2_update_cong)
  from Suc.IH [OF _ this] q(2) i have "n \<le> sum_list (ns[i := ns ! i - 1])" by blast
  with sum_list_update_less [of i ns] pos i(1) len show ?case by linarith
qed

text \<open>One request of a pool may run on alone.\<close>

lemma served_alone:
  "ps ! i = p \<Longrightarrow> i < length ps \<Longrightarrow> served\<^sup>*\<^sup>* (ps, s) (ps[i := Answered (fst (alone p s))], snd (alone p s))"
proof (induction p arbitrary: ps s)
  case (Answered r)
  then have "ps[i := Answered r] = ps" by (metis list_update_id)
  then show ?case by simp
next
  case (Call f g)
  have one: "served (ps, s) (ps[i := g s], f s)" by (rule served.next_call) (use Call in simp_all)
  from Call.IH [of "g s" "ps[i := g s]" "f s"] Call.prems
  have "served\<^sup>*\<^sup>* (ps[i := g s], f s) (ps[i := Answered (fst (alone (g s) (f s)))], snd (alone (g s) (f s)))" by simp
  with one show ?case by (simp add: converse_rtranclp_into_rtranclp)
qed

section \<open>Invariants\<close>

text \<open>Every call keeps the invariant, and the answer is good if every state that was found satisfies it.\<close>

primrec safe :: "('s \<Rightarrow> bool) \<Rightarrow> ('r \<Rightarrow> bool) \<Rightarrow> ('s, 'r) request \<Rightarrow> bool" where
  "safe I Q (Answered r) = Q r"
| "safe I Q (Call f g) = (\<forall>s. I s \<longrightarrow> I (f s) \<and> safe I Q (g s))"

lemma safe_callI: "(\<And>s. I s \<Longrightarrow> I (snd (f s)) \<and> safe I Q (k (fst (f s)))) \<Longrightarrow> safe I Q (call f k)"
  by (simp add: call_def)

lemma safe_and_then: "safe I P p \<Longrightarrow> (\<And>r. P r \<Longrightarrow> safe I Q (k r)) \<Longrightarrow> safe I Q (and_then p k)"
  by (induction p) simp_all

lemma safe_map: "safe I (\<lambda>r. Q (h r)) p \<Longrightarrow> safe I Q (map_request h p)"
  unfolding map_request_def by (erule safe_and_then) simp

lemma safe_mono: "safe I P p \<Longrightarrow> (\<And>r. P r \<Longrightarrow> Q r) \<Longrightarrow> safe I Q p"
  by (induction p) simp_all

lemma served_safe:
  assumes "served\<^sup>*\<^sup>* p q" and "I (snd p)" and "list_all2 (safe I) Qs (fst p)"
  shows "I (snd q) \<and> list_all2 (safe I) Qs (fst q)"
  using assms(1)
proof (induction rule: rtranclp_induct)
  case base
  with assms(2,3) show ?case by simp
next
  case (step p q)
  from step(2) show ?case
  proof cases
    case (next_call i ps f g s)
    with step.IH have all: "list_all2 (safe I) Qs ps" and s: "I s" by simp_all
    from all next_call(3,4) have "safe I (Qs ! i) (Call f g)" by (metis list_all2_nthD2)
    with s have "I (f s)" "safe I (Qs ! i) (g s)" by simp_all
    with all next_call show ?thesis using list_all2_update_cong [OF all, of "Qs ! i" "g s" i] by simp
  qed
qed

section \<open>Rely and guarantee\<close>

primrec keeps :: "('s \<Rightarrow> 's \<Rightarrow> bool) \<Rightarrow> ('s, 'r) request \<Rightarrow> bool" where
  "keeps R (Answered r) = True"
| "keeps R (Call f g) = (\<forall>s. R s (f s) \<and> keeps R (g s))"

primrec achieves :: "('s \<Rightarrow> 's \<Rightarrow> bool) \<Rightarrow> ('r \<Rightarrow> 's \<Rightarrow> bool) \<Rightarrow> ('s, 'r) request \<Rightarrow> 's \<Rightarrow> bool" where
  "achieves R Q (Answered r) = (\<lambda>s. \<forall>s'. R s s' \<longrightarrow> Q r s')"
| "achieves R Q (Call f g) = (\<lambda>s. \<forall>s'. R s s' \<longrightarrow> achieves R Q (g s') (f s'))"

lemma keeps_callI: "(\<And>s. R s (snd (f s))) \<Longrightarrow> (\<And>x. keeps R (k x)) \<Longrightarrow> keeps R (call f k)"
  by (simp add: call_def)

lemma keeps_and_then: "keeps R p \<Longrightarrow> (\<And>r. keeps R (k r)) \<Longrightarrow> keeps R (and_then p k)"
  by (induction p) simp_all

lemma keeps_map [request_simps]: "keeps R (map_request h p) = keeps R p"
  by (induction p) (simp_all add: map_request_def)

lemma achieves_callI: "(\<And>s'. R s s' \<Longrightarrow> achieves R Q (k (fst (f s'))) (snd (f s'))) \<Longrightarrow> achieves R Q (call f k) s"
  by (simp add: call_def)

lemma achieves_mono: "achieves R P p s \<Longrightarrow> (\<And>r s. P r s \<Longrightarrow> Q r s) \<Longrightarrow> achieves R Q p s"
  by (induction p arbitrary: s) auto

lemma achieves_map: "achieves R (\<lambda>r. Q (h r)) p s \<Longrightarrow> achieves R Q (map_request h p) s"
  by (induction p arbitrary: s) (simp_all add: map_request_def)

locale rely =
  fixes R :: "'s \<Rightarrow> 's \<Rightarrow> bool"
  assumes rely_refl: "R s s"
    and rely_trans: "R s t \<Longrightarrow> R t u \<Longrightarrow> R s u"
begin

lemma achieves_rely: "achieves R Q p s \<Longrightarrow> R s s' \<Longrightarrow> achieves R Q p s'"
  by (cases p) (auto intro: rely_trans)

lemma achieves_answered: "achieves R Q (Answered r) s \<Longrightarrow> Q r s"
  using rely_refl by simp

text \<open>The request \<open>j\<close> of a pool whose other requests keep to the relation.\<close>

lemma served_achieves:
  assumes "served\<^sup>*\<^sup>* p q" and "j < length (fst p)" and "achieves R Q (fst p ! j) (snd p)"
    and "\<forall>i < length (fst p). i \<noteq> j \<longrightarrow> keeps R (fst p ! i)"
  shows "achieves R Q (fst q ! j) (snd q) \<and> length (fst q) = length (fst p)
    \<and> (\<forall>i < length (fst q). i \<noteq> j \<longrightarrow> keeps R (fst q ! i))"
  using assms(1)
proof (induction rule: rtranclp_induct)
  case base
  with assms(3,4) show ?case by simp
next
  case (step p' q)
  from step(2) show ?case
  proof cases
    case (next_call i ps f g s)
    with step.IH have IH: "achieves R Q (ps ! j) s" "length ps = length (fst p)"
      "\<And>i. i < length ps \<Longrightarrow> i \<noteq> j \<Longrightarrow> keeps R (ps ! i)" by auto
    show ?thesis
    proof (cases "i = j")
      case True
      with IH(1) next_call(4) rely_refl have "achieves R Q (g s) (f s)" by auto
      with True IH next_call show ?thesis by simp
    next
      case False
      with IH(3) [of i] next_call(3,4) have "R s (f s)" and g: "keeps R (g s)" by simp_all
      with IH(1) have "achieves R Q (ps ! j) (f s)" by (blast intro: achieves_rely)
      with False IH g next_call assms(2) show ?thesis by (simp add: nth_list_update)
    qed
  qed
qed

text \<open>In a pool that keeps to the relation as a whole, the state moves by it.\<close>

lemma served_keeps:
  assumes "served\<^sup>*\<^sup>* p q" and "\<forall>r \<in> set (fst p). keeps R r"
  shows "R (snd p) (snd q) \<and> (\<forall>r \<in> set (fst q). keeps R r)"
  using assms(1)
proof (induction rule: rtranclp_induct)
  case base
  with assms(2) rely_refl show ?case by simp
next
  case (step p' q)
  from step(2) show ?case
  proof cases
    case (next_call i ps f g s)
    with step.IH have s: "R (snd p) s" and all: "\<forall>r \<in> set ps. keeps R r" by simp_all
    from all next_call(3,4) have "keeps R (Call f g)" by (metis nth_mem)
    then have "R s (f s)" and g: "keeps R (g s)" by simp_all
    with s have "R (snd p) (f s)" by (blast intro: rely_trans)
    moreover have "\<forall>r \<in> set (ps[i := g s]). keeps R r" using all g set_update_subset_insert [of ps i "g s"] by blast
    ultimately show ?thesis using next_call(2) by simp
  qed
qed

end

end
