(* ===== verification/Requests.thy ===== *)
theory Requests
  imports Concurrency Rpc Interleave
begin

text \<open>
  The service's requests on the worker threads of the server.  \<^verbatim>\<open>serve\<close> gives the server a pool of
  threads and nothing in the store takes a lock, so the handlers interleave between any two calls to the
  backend or to the metadata store.  Each of the eleven handlers is a \<open>request\<close>: a call to the backend or
  to the metadata store is one step, the code between two calls none.  A call of \<^verbatim>\<open>delete_many\<close> is one step
  here; \<open>Concurrency\<close> takes it apart.  A request alone is the handler of \<open>Grpc\<close>.
\<close>

type_synonym ('s, 'h, 'r) store_request = "(('s, 'h) UnifiedObjectStore, 'r) request"

section \<open>Calls\<close>

text \<open>A call to the backend that may change it, one that may change the metadata store, one that reads.\<close>

definition backend_call ::
    "('s \<Rightarrow> 'x \<times> 's) \<Rightarrow> ('s, 'h) UnifiedObjectStore \<Rightarrow> 'x \<times> ('s, 'h) UnifiedObjectStore" where
  "backend_call f st = (case f (os_storage st) of (x, s') \<Rightarrow> (x, st\<lparr>os_storage := s'\<rparr>))"

definition index_call ::
    "('h MetadataStore \<Rightarrow> 'x \<times> 'h MetadataStore) \<Rightarrow> ('s, 'h) UnifiedObjectStore \<Rightarrow> 'x \<times> ('s, 'h) UnifiedObjectStore" where
  "index_call f st = (case f (os_metadata st) of (x, md') \<Rightarrow> (x, st\<lparr>os_metadata := md'\<rparr>))"

definition reading :: "('st \<Rightarrow> 'x) \<Rightarrow> 'st \<Rightarrow> 'x \<times> 'st" where
  "reading f st = (f st, st)"

lemma calls [simp]:
  "snd (backend_call f st) = st\<lparr>os_storage := snd (f (os_storage st))\<rparr>" "fst (backend_call f st) = fst (f (os_storage st))"
  "snd (index_call g st) = st\<lparr>os_metadata := snd (g (os_metadata st))\<rparr>" "fst (index_call g st) = fst (g (os_metadata st))"
  "fst (reading h x) = h x" "snd (reading h x) = x"
  by (simp_all add: backend_call_def index_call_def reading_def split: prod.splits)

text \<open>An exception ends the request.\<close>

definition unless_raised :: "'x res \<Rightarrow> ('x \<Rightarrow> ('st, 'r res) request) \<Rightarrow> ('st, 'r res) request" where
  "unless_raised r k = (case r of Inl e \<Rightarrow> Answered (Inl e) | Inr x \<Rightarrow> k x)"

lemma unless_raised_simps [simp]: "unless_raised (Inl e) k = Answered (Inl e)" "unless_raised (Inr x) k = k x"
  by (simp_all add: unless_raised_def)

lemma and_then_unless [request_simps]:
  "and_then (unless_raised r k) k' = (case r of Inl e \<Rightarrow> k' (Inl e) | Inr x \<Rightarrow> and_then (k x) k')"
  by (simp add: unless_raised_def split: sum.split)

lemma alone_unless [request_simps]: "alone (unless_raised r k) s = (case r of Inl e \<Rightarrow> (Inl e, s) | Inr x \<Rightarrow> alone (k x) s)"
  by (simp add: unless_raised_def split: sum.split)

lemma calls_unless: "(\<And>x. r = Inr x \<Longrightarrow> calls_at_most (k x) n) \<Longrightarrow> calls_at_most (unless_raised r k) n"
  by (cases r) simp_all

lemma safe_unless:
  "(\<And>e. r = Inl e \<Longrightarrow> Q (Inl e)) \<Longrightarrow> (\<And>x. r = Inr x \<Longrightarrow> safe I Q (k x)) \<Longrightarrow> safe I Q (unless_raised r k)"
  by (cases r) simp_all

lemma keeps_unless: "(\<And>x. keeps R (k x)) \<Longrightarrow> keeps R (unless_raised r k)"
  by (cases r) simp_all

section \<open>The operations of the store\<close>

definition put_pair_request ::
    "('s, 'h, 'a, 'b) StoreEnv \<Rightarrow> string \<Rightarrow> 'b \<Rightarrow> string \<Rightarrow> 'b \<Rightarrow> ('s, 'h, unit res) store_request" where
  "put_pair_request E mk meta_bytes dk data_bytes =
     call (backend_call (be_put (env_backend E) mk meta_bytes None)) (\<lambda>r. unless_raised r (\<lambda>_.
     call (backend_call (be_put (env_backend E) dk data_bytes None)) (\<lambda>r. case r of
       Inr _ \<Rightarrow> Answered (Inr ())
     | Inl e \<Rightarrow> call (backend_call (be_delete (env_backend E) mk)) (\<lambda>q. unless_raised q (\<lambda>_. Answered (Inl e))))))"

definition get_pair_request ::
    "('s, 'h, 'a, 'b) StoreEnv \<Rightarrow> string \<Rightarrow> string \<Rightarrow> ('s, 'h, ('b \<times> 'b) option res) store_request" where
  "get_pair_request E mk dk =
     call (reading (\<lambda>st. be_get (env_backend E) mk (os_storage st))) (\<lambda>r. unless_raised r (\<lambda>m. case m of
       None \<Rightarrow> Answered (Inr None)
     | Some meta_data \<Rightarrow> call (reading (\<lambda>st. be_get (env_backend E) dk (os_storage st))) (\<lambda>r. unless_raised r (\<lambda>d. case d of
         None \<Rightarrow> Answered (Inr None)
       | Some data \<Rightarrow> Answered (Inr (Some (meta_data, data)))))))"

text \<open>What the three puts of pairs share: both blobs are written, then the metadata store is told.\<close>

definition put_object_request ::
    "('s, 'h, 'a, 'b) StoreEnv \<Rightarrow> ObjectType \<Rightarrow> string \<Rightarrow> 'b \<Rightarrow> 'b \<Rightarrow> ('h MetadataStore \<Rightarrow> unit res \<times> 'h MetadataStore)
       \<Rightarrow> ('s, 'h, string res) store_request" where
  "put_object_request E ty oid mb db idx =
     and_then (put_pair_request E (object_meta_key (env_config E) ty oid) mb (main_key (env_config E) ty oid) db)
       (\<lambda>r. unless_raised r (\<lambda>_. call (index_call idx) (\<lambda>q. unless_raised q (\<lambda>_. Answered (Inr oid)))))"

text \<open>What the reads of pairs share: the filter is asked first, then both blobs are read and decoded.\<close>

definition get_object_request ::
    "('s, 'h, 'a, 'b) StoreEnv \<Rightarrow> ObjectType \<Rightarrow> string \<Rightarrow> ('b \<times> 'b \<Rightarrow> 'o res) \<Rightarrow> ('s, 'h, 'o option res) store_request" where
  "get_object_request E ty oid rd =
     call (reading (\<lambda>st. might_exist (env_runtime E) oid (os_metadata st))) (\<lambda>known.
       if \<not> known then Answered (Inr None)
       else map_request (\<lambda>r. case r of Inl e \<Rightarrow> Inl e | Inr p \<Rightarrow> lookup rd p)
         (get_pair_request E (object_meta_key (env_config E) ty oid) (main_key (env_config E) ty oid)))"

definition get_meta_request ::
    "('s, 'h, 'a, 'b) StoreEnv \<Rightarrow> ObjectType \<Rightarrow> string \<Rightarrow> ('b \<Rightarrow> 'o res) \<Rightarrow> ('s, 'h, 'o option res) store_request" where
  "get_meta_request E ty oid rd =
     call (reading (\<lambda>st. might_exist (env_runtime E) oid (os_metadata st))) (\<lambda>known.
       if \<not> known then Answered (Inr None)
       else call (reading (\<lambda>st. be_get (env_backend E) (object_meta_key (env_config E) ty oid) (os_storage st)))
         (\<lambda>r. unless_raised r (\<lambda>p. Answered (lookup rd p))))"

definition list_request :: "('s, 'h, 'a, 'b) StoreEnv \<Rightarrow> ObjectType \<Rightarrow> ('s, 'h, string list res) store_request" where
  "list_request E ty = call (reading (list_ids E (type_prefix (env_config E) ty))) Answered"

definition put_kv_request ::
    "('s, 'h, 'a, 'b) StoreEnv \<Rightarrow> KVCacheBlock \<Rightarrow> 'a \<Rightarrow> 'a \<Rightarrow> ('s, 'h, string res) store_request" where
  "put_kv_request E b k v =
     unless_raised (fill_token_hash E b) (\<lambda>b1.
       let b2 = sized E k v b1; oid = object_id (kv_meta b)
       in put_object_request E KV_CACHE oid (serialize_kv_block_meta (env_codec E) b2) (serialize_kv_tensors (env_codec E) k v)
            (\<lambda>md. (Inr (), on_object_added (env_runtime E) KV_CACHE oid
               (if kv_token_ids b2 = [] then None else Some (kv_token_ids b2)) md)))"

text \<open>The chunk and the entry as they are written.\<close>

definition rag_written :: "('s, 'h, 'a, 'b) StoreEnv \<Rightarrow> RAGObject \<Rightarrow> 'a \<Rightarrow> int \<Rightarrow> RAGObject" where
  "rag_written E r v d = r\<lparr>rg_embedding_dim := d,
     rg_meta := (rg_meta r)\<lparr>size_bytes := int (nd_nbytes (rt_numpy (env_runtime E)) v)\<rparr>\<rparr>"

definition entry_written :: "('s, 'h, 'a, 'b) StoreEnv \<Rightarrow> SemanticCacheEntry \<Rightarrow> 'a \<Rightarrow> int \<Rightarrow> SemanticCacheEntry" where
  "entry_written E x v d = x\<lparr>se_embedding_dim := d,
     se_meta := (se_meta x)\<lparr>size_bytes := int (nd_nbytes (rt_numpy (env_runtime E)) v)\<rparr>\<rparr>"

definition put_rag_request ::
    "('s, 'h, 'a, 'b) StoreEnv \<Rightarrow> RAGObject \<Rightarrow> 'a \<Rightarrow> ('s, 'h, string res) store_request" where
  "put_rag_request E r v =
     unless_raised (last_axis (rt_numpy (env_runtime E)) v) (\<lambda>d.
       let oid = object_id (rg_meta r)
       in put_object_request E RAG oid (serialize_rag_meta (env_codec E) (rag_written E r v d)) (serialize_embedding (env_codec E) v)
            (\<lambda>md. (Inr (), on_object_added (env_runtime E) RAG oid None md)))"

definition put_semantic_request ::
    "('s, 'h, 'a, 'b) StoreEnv \<Rightarrow> SemanticCacheEntry \<Rightarrow> 'a \<Rightarrow> ('s, 'h, string res) store_request" where
  "put_semantic_request E x v =
     unless_raised (last_axis (rt_numpy (env_runtime E)) v) (\<lambda>d.
       let oid = object_id (se_meta x)
       in put_object_request E SEMANTIC_CACHE oid (serialize_semantic_entry (env_codec E) (entry_written E x v d))
            (serialize_embedding (env_codec E) v) (on_semantic_entry_added (env_runtime E) oid v))"

definition delete_kv_request :: "('s, 'h, 'a, 'b) StoreEnv \<Rightarrow> string \<Rightarrow> ('s, 'h, bool res) store_request" where
  "delete_kv_request E oid =
     call (backend_call (be_delete_many (env_backend E)
         [object_meta_key (env_config E) KV_CACHE oid, main_key (env_config E) KV_CACHE oid])) (\<lambda>r. unless_raised r (\<lambda>n.
       if n > 0
       then call (index_call (on_object_removed (env_runtime E) KV_CACHE oid)) (\<lambda>q. unless_raised q (\<lambda>_. Answered (Inr True)))
       else Answered (Inr False)))"

definition get_kv_request ::
    "('s, 'h, 'a, 'b) StoreEnv \<Rightarrow> rat \<Rightarrow> string \<Rightarrow> ('s, 'h, (KVCacheBlock \<times> 'a \<times> 'a) option res) store_request" where
  "get_kv_request E now oid = get_object_request E KV_CACHE oid (read_kv (env_codec E) now)"

definition get_rag_request ::
    "('s, 'h, 'a, 'b) StoreEnv \<Rightarrow> rat \<Rightarrow> string \<Rightarrow> ('s, 'h, (RAGObject \<times> 'a) option res) store_request" where
  "get_rag_request E now oid = get_object_request E RAG oid
     (read_array_pair (env_codec E) (deserialize_rag_meta (env_codec E)) (\<lambda>x. x\<lparr>rg_meta := touch now (rg_meta x)\<rparr>))"

definition get_semantic_request ::
    "('s, 'h, 'a, 'b) StoreEnv \<Rightarrow> rat \<Rightarrow> string \<Rightarrow> ('s, 'h, (SemanticCacheEntry \<times> 'a) option res) store_request" where
  "get_semantic_request E now oid = get_object_request E SEMANTIC_CACHE oid
     (read_array_pair (env_codec E) (deserialize_semantic_entry (env_codec E)) (\<lambda>x. x\<lparr>se_meta := touch now (se_meta x)\<rparr>))"

text \<open>Plans have their own format for the embedding.\<close>

definition read_plan :: "('a, 'b) Codec \<Rightarrow> rat \<Rightarrow> 'b \<times> 'b \<Rightarrow> (PlanCacheEntry \<times> 'a) res" where
  "read_plan K now p =
     (case deserialize_plan_cache_entry K (fst p) of
        Inl e \<Rightarrow> Inl e
      | Inr x \<Rightarrow> map_sum id (\<lambda>v. (x\<lparr>pl_meta := touch now (pl_meta x)\<rparr>, v)) (deserialize_plan_embedding K (snd p)))"

definition get_plan_request ::
    "('s, 'h, 'a, 'b) StoreEnv \<Rightarrow> rat \<Rightarrow> string \<Rightarrow> ('s, 'h, (PlanCacheEntry \<times> 'a) option res) store_request" where
  "get_plan_request E now oid = get_object_request E PLAN_CACHE oid (read_plan (env_codec E) now)"

definition get_tool_request ::
    "('s, 'h, 'a, 'b) StoreEnv \<Rightarrow> rat \<Rightarrow> string \<Rightarrow> ('s, 'h, ToolCallArtifact option res) store_request" where
  "get_tool_request E now oid = get_meta_request E TOOL_CALL_ARTIFACT oid
     (\<lambda>b. map_sum id (\<lambda>x. x\<lparr>ta_meta := touch now (ta_meta x)\<rparr>) (deserialize_tool_artifact (env_codec E) b))"

definition prefetch_one_request ::
    "('s, 'h, 'a, 'b) StoreEnv \<Rightarrow> rat \<Rightarrow> string \<Rightarrow> string option \<Rightarrow> ('s, 'h, 'a Loaded option res) store_request" where
  "prefetch_one_request E now oid prefetch_type =
     (if prefetch_type = Some ''kv_cache''
      then map_request (map_sum id (map_option (\<lambda>(b, k, v). Loaded_kv b k v))) (get_kv_request E now oid)
      else if prefetch_type = Some ''rag''
      then map_request (map_sum id (map_option (\<lambda>(r, v). Loaded_rag r v))) (get_rag_request E now oid)
      else if prefetch_type = Some ''semantic''
      then map_request (map_sum id (map_option (\<lambda>(r, v). Loaded_semantic r v))) (get_semantic_request E now oid)
      else if prefetch_type = Some ''tool_artifact''
      then map_request (map_sum id (map_option Loaded_tool)) (get_tool_request E now oid)
      else if prefetch_type = Some ''plan_cache''
      then map_request (map_sum id (map_option (\<lambda>(r, v). Loaded_plan r v))) (get_plan_request E now oid)
      else Answered (Inr None))"

fun prefetch_request ::
    "('s, 'h, 'a, 'b) StoreEnv \<Rightarrow> rat \<Rightarrow> (string option \<times> string option) list \<Rightarrow> string set \<Rightarrow> (string, 'a Loaded) dict
       \<Rightarrow> ('s, 'h, (string, 'a Loaded) dict res) store_request" where
  "prefetch_request E now [] seen results = Answered (Inr results)"
| "prefetch_request E now ((object_ref, prefetch_type) # rest) seen results =
     (case object_ref of
        None \<Rightarrow> prefetch_request E now rest seen results
      | Some oid \<Rightarrow>
          if oid = [] \<or> oid \<in> seen then prefetch_request E now rest seen results
          else and_then (prefetch_one_request E now oid prefetch_type) (\<lambda>r. unless_raised r (\<lambda>x.
            prefetch_request E now rest (insert oid seen) (case x of None \<Rightarrow> results | Some l \<Rightarrow> dset results oid l))))"

definition counting ::
    "('s, 'h, 'a, 'b) StoreEnv \<Rightarrow> ObjectType \<Rightarrow> (nat \<Rightarrow> ('s, 'h, 'r res) store_request) \<Rightarrow> ('s, 'h, 'r res) store_request" where
  "counting E ty k = and_then (list_request E ty) (\<lambda>r. unless_raised r (\<lambda>ids. k (length ids)))"

definition stats_request :: "('s, 'h, 'a, 'b) StoreEnv \<Rightarrow> ('s, 'h, StoreStats res) store_request" where
  "stats_request E =
     counting E KV_CACHE (\<lambda>kvs. counting E RAG (\<lambda>rags. counting E SEMANTIC_CACHE (\<lambda>sems.
     counting E AGENT_WORKFLOW (\<lambda>wfs. counting E AGENT_STEP (\<lambda>steps. counting E TOOL_CALL_ARTIFACT (\<lambda>tools.
     counting E PLAN_CACHE (\<lambda>plans. counting E WORKFLOW_TRACE (\<lambda>traces.
     call (reading (\<lambda>st. metadata_stats (os_metadata st))) (\<lambda>m. Answered (Inr
       \<lparr>kv_cache_blocks = kvs, rag_objects = rags, semantic_cache_entries = sems, agent_workflows = wfs,
        agent_steps = steps, tool_artifacts = tools, plan_cache_entries = plans, workflow_traces = traces,
        ss_metadata = m\<rparr>))))))))))"

section \<open>The handlers\<close>

definition PutKVBlock_request ::
    "('s, 'h, 'a, 'b) StoreEnv \<Rightarrow> 'b PutKVBlockRequest \<Rightarrow> ('s, 'h, string res) store_request" where
  "PutKVBlock_request E r =
     unless_raised (proto_to_kv_block (qk_block r)) (\<lambda>block.
     unless_raised (bytes_to_ndarray (env_codec E) (qk_key_states r)) (\<lambda>key_states.
     unless_raised (bytes_to_ndarray (env_codec E) (qk_value_states r)) (\<lambda>value_states.
       put_kv_request E block key_states value_states)))"

definition PutRAGObject_request ::
    "('s, 'h, 'a, 'b) StoreEnv \<Rightarrow> 'b PutRAGObjectRequest \<Rightarrow> ('s, 'h, string res) store_request" where
  "PutRAGObject_request E r =
     unless_raised (proto_to_rag_object (qr_object r)) (\<lambda>obj.
     unless_raised (bytes_to_ndarray (env_codec E) (qr_embedding r)) (\<lambda>embedding. put_rag_request E obj embedding))"

definition PutSemanticEntry_request ::
    "('s, 'h, 'a, 'b) StoreEnv \<Rightarrow> 'b PutSemanticEntryRequest \<Rightarrow> ('s, 'h, string res) store_request" where
  "PutSemanticEntry_request E r =
     unless_raised (proto_to_semantic_entry (qs_entry r)) (\<lambda>entry.
     unless_raised (bytes_to_ndarray (env_codec E) (qs_prompt_embedding r)) (\<lambda>prompt_embedding.
       put_semantic_request E entry prompt_embedding))"

text \<open>What a read becomes on the wire.\<close>

definition found_response :: "'m \<Rightarrow> ('o \<Rightarrow> 'm res) \<Rightarrow> 'o option res \<Rightarrow> 'm res" where
  "found_response absent present r =
     (case r of Inl e \<Rightarrow> Inl e | Inr None \<Rightarrow> Inr absent | Inr (Some x) \<Rightarrow> present x)"

definition GetKVBlock_request ::
    "('s, 'h, 'a, 'b) StoreEnv \<Rightarrow> 'b \<Rightarrow> rat \<Rightarrow> string \<Rightarrow> ('s, 'h, 'b GetKVBlockResponse res) store_request" where
  "GetKVBlock_request E nb now oid = map_request
     (found_response (not_found_kv nb) (\<lambda>(b, k, v). kv_response (env_codec E) b k v True)) (get_kv_request E now oid)"

definition GetRAGObject_request ::
    "('s, 'h, 'a, 'b) StoreEnv \<Rightarrow> 'b \<Rightarrow> rat \<Rightarrow> string \<Rightarrow> ('s, 'h, 'b GetRAGObjectResponse res) store_request" where
  "GetRAGObject_request E nb now oid = map_request
     (found_response (not_found_rag nb) (\<lambda>(x, v). rag_response (env_codec E) x v True)) (get_rag_request E now oid)"

definition GetSemanticEntry_request ::
    "('s, 'h, 'a, 'b) StoreEnv \<Rightarrow> 'b \<Rightarrow> rat \<Rightarrow> string \<Rightarrow> ('s, 'h, 'b GetSemanticEntryResponse res) store_request" where
  "GetSemanticEntry_request E nb now oid = map_request
     (found_response (not_found_semantic nb) (\<lambda>(x, v). semantic_response (env_codec E) x v True)) (get_semantic_request E now oid)"

definition SearchSimilarPrompts_request ::
    "('s, 'h, 'a, 'b) StoreEnv \<Rightarrow> 'b SearchSimilarPromptsRequest \<Rightarrow> ('s, 'h, SimilarPromptProto list res) store_request" where
  "SearchSimilarPrompts_request E r =
     unless_raised (bytes_to_ndarray (env_codec E) (qp_query_embedding r)) (\<lambda>query_embedding.
       call (reading (\<lambda>st. search_similar_prompts (env_runtime E) query_embedding
           (if sint (qp_top_k r) = 0 then 5 else sint (qp_top_k r)) (qp_threshold r) (os_metadata st)))
         (\<lambda>q. unless_raised q (\<lambda>matches. Answered (Inr (map (\<lambda>(oid, similarity).
            \<lparr>pl_object_id = oid, pl_prompt_similarity = similarity\<rparr>) matches)))))"

definition PrefetchBatch_request ::
    "('s, 'h, 'a, 'b) StoreEnv \<Rightarrow> rat \<Rightarrow> PrefetchDecisionProto list \<Rightarrow> ('s, 'h, 'b PrefetchObjectProto list res) store_request" where
  "PrefetchBatch_request E now r =
     (let decisions = map proto_to_prefetch_decision r
      in and_then (prefetch_request E now (map (\<lambda>d. (Some (pd_object_id d), Some (pd_prefetch_type d))) decisions) {} [])
           (\<lambda>q. unless_raised q (\<lambda>prefetched. Answered (prefetch_responses (env_codec E) prefetched decisions))))"

definition GetStats_request ::
    "('s, 'h, 'a, 'b) StoreEnv \<Rightarrow> (rat \<Rightarrow> string) \<Rightarrow> ('s, 'h, string res) store_request" where
  "GetStats_request E fr = map_request (map_sum id (\<lambda>s. json_text fr (stats_dict s))) (stats_request E)"

text \<open>The request of a method on a message; a message of another class lacks the fields.\<close>

fun service_request ::
    "('s, 'h, 'a, 'b) StoreEnv \<Rightarrow> 'b \<Rightarrow> (rat \<Rightarrow> string) \<Rightarrow> rat \<Rightarrow> Method \<Rightarrow> 'b Message
       \<Rightarrow> ('s, 'h, 'b Message res) store_request" where
  "service_request E nb fr now Meth_PutKVBlock message = (case message of
     M_PutKVBlockRequest r \<Rightarrow> map_request (map_sum id M_PutKVBlockResponse) (PutKVBlock_request E r)
   | _ \<Rightarrow> Answered (Inl wrong_message))"
| "service_request E nb fr now Meth_GetKVBlock message = (case message of
     M_GetKVBlockRequest oid \<Rightarrow> map_request (map_sum id M_GetKVBlockResponse) (GetKVBlock_request E nb now oid)
   | _ \<Rightarrow> Answered (Inl wrong_message))"
| "service_request E nb fr now Meth_DeleteKVBlock message = (case message of
     M_DeleteKVBlockRequest oid \<Rightarrow> map_request (map_sum id M_DeleteKVBlockResponse) (delete_kv_request E oid)
   | _ \<Rightarrow> Answered (Inl wrong_message))"
| "service_request E nb fr now Meth_ListKVBlocks message = (case message of
     M_ListKVBlocksRequest \<Rightarrow> map_request (map_sum id M_ListKVBlocksResponse) (list_request E KV_CACHE)
   | _ \<Rightarrow> Answered (Inl wrong_message))"
| "service_request E nb fr now Meth_PutRAGObject message = (case message of
     M_PutRAGObjectRequest r \<Rightarrow> map_request (map_sum id M_PutRAGObjectResponse) (PutRAGObject_request E r)
   | _ \<Rightarrow> Answered (Inl wrong_message))"
| "service_request E nb fr now Meth_GetRAGObject message = (case message of
     M_GetRAGObjectRequest oid \<Rightarrow> map_request (map_sum id M_GetRAGObjectResponse) (GetRAGObject_request E nb now oid)
   | _ \<Rightarrow> Answered (Inl wrong_message))"
| "service_request E nb fr now Meth_PutSemanticEntry message = (case message of
     M_PutSemanticEntryRequest r \<Rightarrow> map_request (map_sum id M_PutSemanticEntryResponse) (PutSemanticEntry_request E r)
   | _ \<Rightarrow> Answered (Inl wrong_message))"
| "service_request E nb fr now Meth_GetSemanticEntry message = (case message of
     M_GetSemanticEntryRequest oid \<Rightarrow> map_request (map_sum id M_GetSemanticEntryResponse) (GetSemanticEntry_request E nb now oid)
   | _ \<Rightarrow> Answered (Inl wrong_message))"
| "service_request E nb fr now Meth_SearchSimilarPrompts message = (case message of
     M_SearchSimilarPromptsRequest r \<Rightarrow> map_request (map_sum id M_SearchSimilarPromptsResponse) (SearchSimilarPrompts_request E r)
   | _ \<Rightarrow> Answered (Inl wrong_message))"
| "service_request E nb fr now Meth_PrefetchBatch message = (case message of
     M_PrefetchBatchRequest r \<Rightarrow> map_request (map_sum id M_PrefetchBatchResponse) (PrefetchBatch_request E now r)
   | _ \<Rightarrow> Answered (Inl wrong_message))"
| "service_request E nb fr now Meth_GetStats message = (case message of
     M_GetStatsRequest \<Rightarrow> map_request (map_sum id M_GetStatsResponse) (GetStats_request E fr)
   | _ \<Rightarrow> Answered (Inl wrong_message))"

section \<open>A request alone\<close>

lemma put_pair_alone [request_simps]:
  "alone (put_pair_request E mk mb dk db) st = (case put_pair E mk mb dk db (os_storage st) of (r, s') \<Rightarrow> (r, st\<lparr>os_storage := s'\<rparr>))"
  by (auto simp: put_pair_request_def put_pair_def request_simps split: prod.splits sum.splits)

lemma get_pair_alone [request_simps]:
  "alone (get_pair_request E mk dk) st = (get_pair E mk dk (os_storage st), st)"
  by (auto simp: get_pair_request_def get_pair_def request_simps split: sum.splits option.splits)

lemma put_object_alone [request_simps]:
  "alone (put_object_request E ty oid mb db idx) st =
     (case put_pair E (object_meta_key (env_config E) ty oid) mb (main_key (env_config E) ty oid) db (os_storage st) of
        (Inl e, s') \<Rightarrow> (Inl e, st\<lparr>os_storage := s'\<rparr>)
      | (Inr _, s') \<Rightarrow> (case idx (os_metadata st) of
          (q, md') \<Rightarrow> (map_sum id (\<lambda>_. oid) q, st\<lparr>os_storage := s', os_metadata := md'\<rparr>)))"
  by (auto simp: put_object_request_def request_simps split: prod.splits sum.splits)

lemma get_object_alone [request_simps]:
  "alone (get_object_request E ty oid rd) st =
     ((if \<not> might_exist (env_runtime E) oid (os_metadata st) then Inr None
       else case get_pair E (object_meta_key (env_config E) ty oid) (main_key (env_config E) ty oid) (os_storage st) of
              Inl e \<Rightarrow> Inl e | Inr p \<Rightarrow> lookup rd p), st)"
  by (simp add: get_object_request_def request_simps)

lemmas pair_keys = object_meta_key_def main_key_def

lemma put_kv_alone [request_simps]:
  "alone (put_kv_request E b k v) st = (case put_kv_block E b k v st of (r, _, st') \<Rightarrow> (r, st'))"
  by (auto simp: put_kv_request_def put_kv_block_def request_simps pair_keys sized_def Let_def split: prod.splits sum.splits)

lemma put_rag_alone [request_simps]:
  "alone (put_rag_request E r v) st = (case put_rag_object E r v st of (q, _, st') \<Rightarrow> (q, st'))"
  by (auto simp: put_rag_request_def put_rag_object_def request_simps pair_keys rag_written_def Let_def split: prod.splits sum.splits)

lemma put_semantic_alone [request_simps]:
  "alone (put_semantic_request E r v) st = (case put_semantic_entry E r v st of (q, _, st') \<Rightarrow> (q, st'))"
  by (auto simp: put_semantic_request_def put_semantic_entry_def request_simps pair_keys entry_written_def Let_def
      split: prod.splits sum.splits)

lemma delete_kv_alone [request_simps]: "alone (delete_kv_request E oid) st = delete_kv_block E oid st"
  by (auto simp: delete_kv_request_def delete_kv_block_def delete_pair_def after_delete_def request_simps pair_keys
      split: prod.splits sum.splits)

lemma get_alone_requests [request_simps]:
  "alone (get_kv_request E now oid) st = (get_kv_block E now oid st, st)"
  "alone (get_rag_request E now oid) st = (get_rag_object E now oid st, st)"
  "alone (get_semantic_request E now oid) st = (get_semantic_entry E now oid st, st)"
  "alone (get_plan_request E now oid) st = (get_plan_cache_entry E now oid st, st)"
  "alone (get_tool_request E now oid) st = (get_tool_artifact E now oid st, st)"
  by (auto simp: get_kv_request_def get_kv_block_def get_rag_request_def get_rag_object_def get_semantic_request_def
      get_semantic_entry_def get_plan_request_def get_plan_cache_entry_def get_tool_request_def get_tool_artifact_def
      get_meta_request_def get_meta_object_def read_kv_def read_array_pair_def read_plan_def request_simps pair_keys Let_def
      split: sum.splits option.splits prod.splits)

lemma prefetch_alone [request_simps]:
  "alone (prefetch_one_request E now oid t) st = (prefetch_one E now oid t st, st)"
  by (simp add: prefetch_one_request_def prefetch_one_def request_simps)

lemma prefetch_loop_alone [request_simps]:
  "alone (prefetch_request E now ds seen results) st = (prefetch_loop E now st ds seen results, st)"
  by (induction ds arbitrary: seen results) (auto simp: request_simps split: option.split sum.split)

lemma counting_alone [request_simps]:
  "alone (counting E ty k) st = (case list_ids E (type_prefix (env_config E) ty) st of
     Inl e \<Rightarrow> (Inl e, st) | Inr ids \<Rightarrow> alone (k (length ids)) st)"
  by (simp add: counting_def list_request_def request_simps)

lemma list_alone [request_simps]: "alone (list_request E ty) st = (list_ids E (type_prefix (env_config E) ty) st, st)"
  by (simp add: list_request_def request_simps)

lemma stats_alone [request_simps]: "alone (stats_request E) st = (store_stats E st, st)"
  by (simp add: stats_request_def store_stats_def request_simps list_kv_blocks_def list_rag_objects_def list_semantic_entries_def
      list_agent_workflows_def list_agent_steps_def list_tool_artifacts_def list_plan_cache_entries_def list_workflow_traces_def
      split: sum.split)

lemma put_handlers_alone [request_simps]:
  "alone (PutKVBlock_request E r1) st = PutKVBlock E r1 st"
  "alone (PutRAGObject_request E r2) st = PutRAGObject E r2 st"
  "alone (PutSemanticEntry_request E r3) st = PutSemanticEntry E r3 st"
  by (auto simp: PutKVBlock_request_def PutKVBlock_def PutRAGObject_request_def PutRAGObject_def PutSemanticEntry_request_def
      PutSemanticEntry_def request_simps split: sum.split)

lemma get_handlers_alone [request_simps]:
  "alone (GetKVBlock_request E nb now oid) st = (GetKVBlock E nb now oid st, st)"
  "alone (GetRAGObject_request E nb now oid) st = (GetRAGObject E nb now oid st, st)"
  "alone (GetSemanticEntry_request E nb now oid) st = (GetSemanticEntry E nb now oid st, st)"
  "alone (SearchSimilarPrompts_request E r) st = (SearchSimilarPrompts E r st, st)"
  "alone (PrefetchBatch_request E now ds) st = (PrefetchBatch E now ds st, st)"
  "alone (GetStats_request E fr) st = (GetStats E fr st, st)"
  by (auto simp: GetKVBlock_request_def GetKVBlock_def GetRAGObject_request_def GetRAGObject_def GetSemanticEntry_request_def
      GetSemanticEntry_def SearchSimilarPrompts_request_def SearchSimilarPrompts_def PrefetchBatch_request_def PrefetchBatch_def
      GetStats_request_def GetStats_def prefetch_batch_def found_response_def Let_def request_simps split: sum.split option.split)

lemma service_alone:
  "the (L3ServiceImpl E nb now fr m) message cx st = (case alone (service_request E nb fr now m message) st of (r, st') \<Rightarrow> (r, cx, st'))"
  by (cases m; cases message)
    (simp_all add: request_simps DeleteKVBlock_def ListKVBlocks_def list_kv_blocks_def apfst_def map_prod_def split: prod.split)

section \<open>The number of calls\<close>

text \<open>What a handler calls at most: a put writes two blobs and tells the metadata store, or rolls back; statistics list eight types.\<close>

fun most_calls :: "'b Message \<Rightarrow> nat" where
  "most_calls (M_PutKVBlockRequest r) = 3"
| "most_calls (M_GetKVBlockRequest oid) = 3"
| "most_calls (M_DeleteKVBlockRequest oid) = 2"
| "most_calls M_ListKVBlocksRequest = 1"
| "most_calls (M_PutRAGObjectRequest r) = 3"
| "most_calls (M_GetRAGObjectRequest oid) = 3"
| "most_calls (M_PutSemanticEntryRequest r) = 3"
| "most_calls (M_GetSemanticEntryRequest oid) = 3"
| "most_calls (M_SearchSimilarPromptsRequest r) = 1"
| "most_calls (M_PrefetchBatchRequest ds) = 3 * length ds"
| "most_calls M_GetStatsRequest = 9"
| "most_calls _ = 0"

lemma put_object_calls: "calls_at_most (put_object_request E ty oid mb db idx) 3"
  by (auto simp: put_object_request_def put_pair_request_def request_simps unless_raised_def eval_nat_numeral
      split: sum.split)

lemma get_object_calls: "calls_at_most (get_object_request E ty oid rd) 3"
  by (auto simp: get_object_request_def get_pair_request_def request_simps unless_raised_def eval_nat_numeral
      split: sum.split option.split)

lemma get_meta_calls: "calls_at_most (get_meta_request E ty oid rd) 3"
  by (auto simp: get_meta_request_def request_simps unless_raised_def eval_nat_numeral split: sum.split)

lemmas object_calls = put_object_calls get_object_calls get_meta_calls

lemma prefetch_one_calls: "calls_at_most (prefetch_one_request E now oid t) 3"
  by (simp add: prefetch_one_request_def request_simps get_kv_request_def get_rag_request_def get_semantic_request_def
      get_tool_request_def get_plan_request_def object_calls)

lemma prefetch_calls: "calls_at_most (prefetch_request E now ds seen results) (3 * length ds)"
proof (induction E now ds seen results rule: prefetch_request.induct)
  case (1 E now seen results)
  show ?case by simp
next
  case (2 E now object_ref t rest seen results)
  let ?p = "prefetch_request E now ((object_ref, t) # rest) seen results"
  show ?case
  proof (cases "object_ref = None \<or> (\<exists>oid. object_ref = Some oid \<and> (oid = [] \<or> oid \<in> seen))")
    case True
    then have "?p = prefetch_request E now rest seen results" by auto
    moreover have "calls_at_most (prefetch_request E now rest seen results) (3 * length rest)" using True 2 by auto
    ultimately show ?thesis by (auto intro: calls_mono)
  next
    case False
    then obtain oid where oid: "object_ref = Some oid" "oid \<noteq> []" "oid \<notin> seen" by auto
    have "calls_at_most ?p (3 + 3 * length rest)"
      using oid 2(3) [OF oid(1)] by (auto intro!: calls_and_then prefetch_one_calls calls_unless)
    then show ?thesis by simp
  qed
qed

lemma counting_calls: "0 < m \<Longrightarrow> (\<And>n. calls_at_most (k n) (m - 1)) \<Longrightarrow> calls_at_most (counting E ty k) m"
  unfolding counting_def list_request_def and_then_call and_then.simps by (intro calls_callI calls_unless) simp

lemma stats_calls: "calls_at_most (stats_request E) 9"
  unfolding stats_request_def by (intro counting_calls calls_callI) simp_all

lemma delete_calls: "calls_at_most (delete_kv_request E oid) 2"
  by (auto simp: delete_kv_request_def request_simps unless_raised_def eval_nat_numeral split: sum.split)

lemma prefetch_batch_calls: "calls_at_most (PrefetchBatch_request E now ds) (3 * length ds)"
proof -
  let ?p = "prefetch_request E now (map (\<lambda>d. (Some (pd_object_id d), Some (pd_prefetch_type d))) (map proto_to_prefetch_decision ds)) {} []"
  have "calls_at_most ?p (3 * length ds)" using prefetch_calls [of E now _ "{}" "[]"] by (metis length_map)
  then have "calls_at_most (PrefetchBatch_request E now ds) (3 * length ds + 0)"
    unfolding PrefetchBatch_request_def Let_def by (rule calls_and_then) (auto intro: calls_unless)
  then show ?thesis by simp
qed

lemma service_calls: "calls_at_most (service_request E nb fr now m message) (most_calls message)"
  by (cases m; cases message)
    (auto simp: request_simps PutKVBlock_request_def PutRAGObject_request_def PutSemanticEntry_request_def put_kv_request_def
      put_rag_request_def put_semantic_request_def GetKVBlock_request_def GetRAGObject_request_def GetSemanticEntry_request_def
      get_kv_request_def get_rag_request_def get_semantic_request_def delete_calls list_request_def
      SearchSimilarPrompts_request_def prefetch_batch_calls GetStats_request_def stats_calls Let_def object_calls
      intro!: calls_unless calls_callI)

section \<open>Pools of requests\<close>

text \<open>What arrives: the time at which the handler reads the clock, the method and the message.\<close>

type_synonym 'b incoming = "rat \<times> Method \<times> 'b Message"

definition request_of ::
    "('s, 'h, 'a, 'b) StoreEnv \<Rightarrow> 'b \<Rightarrow> (rat \<Rightarrow> string) \<Rightarrow> 'b incoming \<Rightarrow> ('s, 'h, 'b Message res) store_request" where
  "request_of E nb fr r = (case r of (now, m, message) \<Rightarrow> service_request E nb fr now m message)"

definition most_work :: "'b incoming list \<Rightarrow> nat" where
  "most_work rs = (\<Sum>(now, m, message) \<leftarrow> rs. most_calls message)"

lemma pool_calls:
  "list_all2 calls_at_most (map (request_of E nb fr) rs) (map (\<lambda>(now, m, message). most_calls message) rs)"
  by (auto simp: list_all2_conv_all_nth request_of_def service_calls split: prod.split)

lemma served_steps_length: "(served ^^ n) p q \<Longrightarrow> length (fst q) = length (fst p)"
proof (induction n arbitrary: q)
  case 0
  then show ?case by simp
next
  case (Suc n)
  from Suc.prems obtain r where "(served ^^ n) p r" "served r q" by (rule relpowp_Suc_E)
  with Suc.IH [of r] served_length [of r q] show ?case by simp
qed

section \<open>Requests and handlers\<close>

text \<open>A handler of the service is its request run alone: for each of the eleven methods, on every message, over any backend, the
  calls of the request one after the other give the answer and the state that the method gives.\<close>

theorem handlers_alone:
  "the (L3ServiceImpl E nb now fr m) message cx st = (r, cx', st') \<longleftrightarrow>
     cx' = cx \<and> alone (service_request E nb fr now m message) st = (r, st')"
  by (auto simp: service_alone [of E nb now fr m message cx] split: prod.splits)

end
