(* ===== verification/RequestSafety.thy ===== *)
theory RequestSafety
  imports Requests
begin

text \<open>
  What the service's requests guarantee under every schedule, over any backend.  Every blob that is written
  belongs to the object it is written for, so a read that runs among any other requests answers an object with
  the id it was asked for (\<open>answer_typed\<close>); and a put whose id no other request writes is read as a whole or not
  at all, and for good once it has answered.
\<close>

section \<open>Invariants of the blobs\<close>

definition blobs_satisfy ::
    "('s \<Rightarrow> string \<Rightarrow> 'b option) \<Rightarrow> (string \<Rightarrow> 'b \<Rightarrow> bool) \<Rightarrow> ('s, 'h) UnifiedObjectStore \<Rightarrow> bool" where
  "blobs_satisfy contents B st \<longleftrightarrow> (\<forall>k b. contents (os_storage st) k = Some b \<longrightarrow> B k b)"

lemma blobs_metadata [simp]: "blobs_satisfy contents B (st\<lparr>os_metadata := md\<rparr>) = blobs_satisfy contents B st"
  by (simp add: blobs_satisfy_def)

lemma blobs_update:
  assumes "blobs_satisfy contents B st"
    and "\<And>k. contents s' k = contents (os_storage st) k \<or> contents s' k = None \<or> (\<exists>b. contents s' k = Some b \<and> B k b)"
  shows "blobs_satisfy contents B (st\<lparr>os_storage := s'\<rparr>)"
  unfolding blobs_satisfy_def
proof (intro allI impI)
  fix k b
  assume "contents (os_storage (st\<lparr>os_storage := s'\<rparr>)) k = Some b"
  with assms(1) assms(2) [of k] show "B k b" by (auto simp: blobs_satisfy_def)
qed

text \<open>An exception that the backend raises on reading some key.\<close>

definition backend_raises :: "('s, 'h, 'a, 'b) StoreEnv \<Rightarrow> pyerr \<Rightarrow> bool" where
  "backend_raises E e \<longleftrightarrow> (\<exists>k s. be_get (env_backend E) k s = Inl e)"

lemma backend_raisesI: "be_get (env_backend E) k s = Inl e \<Longrightarrow> backend_raises E e"
  by (auto simp: backend_raises_def)

text \<open>What a read answers: an exception of the backend, nothing, or what two blobs that satisfy the invariant decode to.\<close>

definition read_from ::
    "('s, 'h, 'a, 'b) StoreEnv \<Rightarrow> (string \<Rightarrow> 'b \<Rightarrow> bool) \<Rightarrow> ObjectType \<Rightarrow> string \<Rightarrow> ('b \<times> 'b \<Rightarrow> 'o res) \<Rightarrow> 'o option res \<Rightarrow> bool" where
  "read_from E B ty oid rd r \<longleftrightarrow> (\<exists>e. r = Inl e \<and> backend_raises E e) \<or> r = Inr None
     \<or> (\<exists>m d. B (object_meta_key (env_config E) ty oid) m \<and> B (main_key (env_config E) ty oid) d \<and> r = map_sum id Some (rd (m, d)))"

definition meta_from ::
    "('s, 'h, 'a, 'b) StoreEnv \<Rightarrow> (string \<Rightarrow> 'b \<Rightarrow> bool) \<Rightarrow> ObjectType \<Rightarrow> string \<Rightarrow> ('b \<Rightarrow> 'o res) \<Rightarrow> 'o option res \<Rightarrow> bool" where
  "meta_from E B ty oid rd r \<longleftrightarrow> (\<exists>e. r = Inl e \<and> backend_raises E e) \<or> r = Inr None
     \<or> (\<exists>m. B (object_meta_key (env_config E) ty oid) m \<and> r = map_sum id Some (rd m))"

context object_store
begin

lemma blobs_put:
  assumes "blobs_satisfy contents B st" and "B k b"
  shows "blobs_satisfy contents B (st\<lparr>os_storage := snd (be_put (env_backend E) k b m (os_storage st))\<rparr>)"
proof -
  obtain r s' where put: "be_put (env_backend E) k b m (os_storage st) = (r, s')" by fastforce
  have "contents s' = contents (os_storage st) \<or> contents s' = (contents (os_storage st))(k \<mapsto> b)"
    by (rule put_any [OF put])
  with assms show ?thesis unfolding put snd_conv by (intro blobs_update) auto
qed

lemma blobs_delete:
  assumes "blobs_satisfy contents B st"
  shows "blobs_satisfy contents B (st\<lparr>os_storage := snd (be_delete (env_backend E) k (os_storage st))\<rparr>)"
proof -
  obtain r s' where del: "be_delete (env_backend E) k (os_storage st) = (r, s')" by fastforce
  have "contents s' = contents (os_storage st) \<or> contents s' = (contents (os_storage st))(k := None)"
    by (rule deleted_any [OF del])
  with assms show ?thesis unfolding del snd_conv by (intro blobs_update) auto
qed

lemma blobs_delete_many:
  assumes "blobs_satisfy contents B st"
  shows "blobs_satisfy contents B (st\<lparr>os_storage := snd (be_delete_many (env_backend E) ks (os_storage st))\<rparr>)"
proof -
  obtain r s' where del: "be_delete_many (env_backend E) ks (os_storage st) = (r, s')" by fastforce
  show ?thesis unfolding del snd_conv by (rule blobs_update [OF assms]) (use many_frame [OF del] in blast)
qed

lemmas blobs_calls = blobs_put blobs_delete blobs_delete_many

lemma safe_put_object:
  assumes "B (object_meta_key (env_config E) ty oid) mb" and "B (main_key (env_config E) ty oid) db"
  shows "safe (blobs_satisfy contents B) (\<lambda>r. \<forall>i. r = Inr i \<longrightarrow> i = oid) (put_object_request E ty oid mb db idx)"
  unfolding put_object_request_def put_pair_request_def and_then_call
  using assms
  by (auto simp: and_then_unless and_then_call blobs_calls intro!: safe_callI safe_unless split: sum.split)

lemma blobs_got: "blobs_satisfy contents B st \<Longrightarrow> be_get (env_backend E) k (os_storage st) = Inr (Some b) \<Longrightarrow> B k b"
  using get_ok [of k "os_storage st" "Some b"] by (auto simp: blobs_satisfy_def)

lemma safe_get_object: "safe (blobs_satisfy contents B) (read_from E B ty oid rd) (get_object_request E ty oid rd)"
  unfolding get_object_request_def get_pair_request_def
  by (auto simp: request_simps unless_raised_def read_from_def blobs_got intro!: safe_callI split: sum.split option.split
      dest!: backend_raisesI) (use blobs_got in blast)

lemma safe_get_meta: "safe (blobs_satisfy contents B) (meta_from E B ty oid rd) (get_meta_request E ty oid rd)"
proof -
  have "meta_from E B ty oid rd (lookup rd p)"
    if "blobs_satisfy contents B st" "be_get (env_backend E) (object_meta_key (env_config E) ty oid) (os_storage st) = Inr p" for st p
    using blobs_got [OF that(1)] that(2) by (cases p) (auto simp: meta_from_def)
  then show ?thesis
    unfolding get_meta_request_def
    by (auto simp: unless_raised_def intro!: safe_callI split: sum.split) (auto simp: meta_from_def backend_raises_def)
qed

lemma safe_delete: "safe (blobs_satisfy contents B) (\<lambda>r. True) (delete_kv_request E oid)"
  unfolding delete_kv_request_def by (auto simp: blobs_calls intro!: safe_callI safe_unless)

end

lemma safe_list: "safe I (\<lambda>r. True) (list_request E ty)"
  by (auto simp: list_request_def intro!: safe_callI)

lemma safe_counting: "(\<And>n. safe I (\<lambda>r. True) (k n)) \<Longrightarrow> safe I (\<lambda>r. True) (counting E ty k)"
  unfolding counting_def by (rule safe_and_then [OF safe_list]) (simp add: safe_unless)

lemma safe_stats: "safe I (\<lambda>r. True) (stats_request E)"
  unfolding stats_request_def by (intro safe_counting safe_callI) simp

lemma safe_search: "safe I (\<lambda>r. True) (SearchSimilarPrompts_request E q)"
  unfolding SearchSimilarPrompts_request_def by (auto intro!: safe_unless safe_callI)

section \<open>Ids on the wire\<close>

lemma map_res_eq:
  "map_sum id f r = Inr y \<longleftrightarrow> (\<exists>x. r = Inr x \<and> y = f x)" "map_sum id f r = Inl e \<longleftrightarrow> r = Inl e"
  by (cases r; auto)+

lemma meta_to_proto_id: "meta_to_proto m = Inr p \<Longrightarrow> pm_object_id p = object_id m"
  by (auto simp: meta_to_proto_def split: sum.splits)

lemma proto_to_meta_id: "proto_to_meta p = Inr m \<Longrightarrow> object_id m = pm_object_id p"
  by (auto simp: proto_to_meta_def split: sum.splits)

lemma to_proto_id:
  "kv_block_to_proto b = Inr p1 \<Longrightarrow> pm_object_id (pk_meta p1) = object_id (kv_meta b)"
  "rag_object_to_proto r = Inr p2 \<Longrightarrow> pm_object_id (pr_meta p2) = object_id (rg_meta r)"
  "semantic_entry_to_proto x = Inr p3 \<Longrightarrow> pm_object_id (ps_meta p3) = object_id (se_meta x)"
  by (auto simp: kv_block_to_proto_def rag_object_to_proto_def semantic_entry_to_proto_def dest: meta_to_proto_id split: sum.splits)

lemma from_proto_id:
  "proto_to_kv_block p1 = Inr b \<Longrightarrow> object_id (kv_meta b) = pm_object_id (pk_meta p1)"
  "proto_to_rag_object p2 = Inr r \<Longrightarrow> object_id (rg_meta r) = pm_object_id (pr_meta p2)"
  "proto_to_semantic_entry p3 = Inr x \<Longrightarrow> object_id (se_meta x) = pm_object_id (ps_meta p3)"
  by (auto simp: proto_to_kv_block_def proto_to_rag_object_def proto_to_semantic_entry_def dest: proto_to_meta_id split: sum.splits)

lemma meta_to_proto_raises: "meta_to_proto m = Inl e \<Longrightarrow> e = out_of_range"
  by (auto simp: meta_to_proto_def wire_simps split: if_splits sum.splits)

lemma to_proto_raises:
  "kv_block_to_proto b = Inl e \<Longrightarrow> e = out_of_range"
  "rag_object_to_proto r = Inl e \<Longrightarrow> e = out_of_range"
  "semantic_entry_to_proto x = Inl e \<Longrightarrow> e = out_of_range"
  by (auto simp: kv_block_to_proto_def rag_object_to_proto_def semantic_entry_to_proto_def wire_simps dest: meta_to_proto_raises
      split: sum.splits if_splits)

text \<open>The id of the object in a payload, and of an object that was loaded.\<close>

fun payload_id :: "'b Payload \<Rightarrow> string" where
  "payload_id (Payload_kv_cache r) = pm_object_id (pk_meta (ak_block r))"
| "payload_id (Payload_rag r) = pm_object_id (pr_meta (ar_object r))"
| "payload_id (Payload_semantic r) = pm_object_id (ps_meta (as_entry r))"

fun loaded_id :: "'a Loaded \<Rightarrow> string" where
  "loaded_id (Loaded_kv b k v) = object_id (kv_meta b)"
| "loaded_id (Loaded_rag r v) = object_id (rg_meta r)"
| "loaded_id (Loaded_semantic x v) = object_id (se_meta x)"
| "loaded_id (Loaded_tool a) = object_id (ta_meta a)"
| "loaded_id (Loaded_plan p v) = object_id (pl_meta p)"

lemma response_id:
  "kv_response K b k v found = Inr r1 \<Longrightarrow> pm_object_id (pk_meta (ak_block r1)) = object_id (kv_meta b)"
  "rag_response K x w found = Inr r2 \<Longrightarrow> pm_object_id (pr_meta (ar_object r2)) = object_id (rg_meta x)"
  "semantic_response K y w found = Inr r3 \<Longrightarrow> pm_object_id (ps_meta (as_entry r3)) = object_id (se_meta y)"
  by (auto simp: kv_response_def rag_response_def semantic_response_def dest: to_proto_id split: sum.splits)

lemma response_raises:
  "kv_response K b k v found = Inl e \<Longrightarrow> e = out_of_range"
  "rag_response K x w found = Inl e \<Longrightarrow> e = out_of_range"
  "semantic_response K y w found = Inl e \<Longrightarrow> e = out_of_range"
  by (auto simp: kv_response_def rag_response_def semantic_response_def dest: to_proto_raises split: sum.splits)

lemma object_response_id:
  assumes "prefetch_object_response K d l = Inr (Some p)"
  shows "po_object_id p = pd_object_id d \<and> map_option payload_id (po_payload p) = Some (loaded_id l)"
  using assms
  by (cases l) (auto simp: prefetch_object_response_def Let_def wrong_class_def map_res_eq dest: response_id split: if_splits sum.splits)

definition loads_right :: "(string, 'a Loaded) dict \<Rightarrow> bool" where
  "loads_right loaded \<longleftrightarrow> (\<forall>oid l. dget loaded oid = Some l \<longrightarrow> loaded_id l = oid)"

lemma loads_right_simps [simp]:
  "loads_right []"
  "loads_right loaded \<Longrightarrow> loaded_id l = oid \<Longrightarrow> loads_right (dset loaded oid l)"
  by (auto simp: loads_right_def dget_dset simp del: map_of_eq_Some_iff Some_eq_map_of_iff)

lemma responses_id:
  "loads_right prefetched \<Longrightarrow> prefetch_responses K prefetched ds = Inr ps \<Longrightarrow>
     \<forall>p \<in> set ps. po_object_id p \<in> pd_object_id ` set ds \<and> map_option payload_id (po_payload p) = Some (po_object_id p)"
proof (induction ds arbitrary: ps)
  case Nil
  then show ?case by simp
next
  case (Cons d ds)
  show ?case
  proof (cases "dget prefetched (pd_object_id d)")
    case None
    with Cons show ?thesis by (auto simp del: map_of_eq_None_iff)
  next
    case (Some l)
    with Cons.prems(1) have "loaded_id l = pd_object_id d" unfolding loads_right_def by blast
    with Some Cons show ?thesis
      by (auto simp del: map_of_eq_Some_iff Some_eq_map_of_iff simp: map_res_eq split: sum.splits option.splits dest!: object_response_id)
  qed
qed

section \<open>What messages write and ask for\<close>

text \<open>The type, the id and the two blobs that a put writes, unless it raises before it writes.\<close>

fun written :: "('s, 'h, 'a, 'b) StoreEnv \<Rightarrow> 'b Message \<Rightarrow> (ObjectType \<times> string \<times> 'b \<times> 'b) option" where
  "written E (M_PutKVBlockRequest r) =
     (case proto_to_kv_block (qk_block r) of Inl e \<Rightarrow> None | Inr b \<Rightarrow>
     (case bytes_to_ndarray (env_codec E) (qk_key_states r) of Inl e \<Rightarrow> None | Inr k \<Rightarrow>
     (case bytes_to_ndarray (env_codec E) (qk_value_states r) of Inl e \<Rightarrow> None | Inr v \<Rightarrow>
     (case fill_token_hash E b of Inl e \<Rightarrow> None | Inr b1 \<Rightarrow>
        Some (KV_CACHE, object_id (kv_meta b), serialize_kv_block_meta (env_codec E) (sized E k v b1),
          serialize_kv_tensors (env_codec E) k v)))))"
| "written E (M_PutRAGObjectRequest r) =
     (case proto_to_rag_object (qr_object r) of Inl e \<Rightarrow> None | Inr x \<Rightarrow>
     (case bytes_to_ndarray (env_codec E) (qr_embedding r) of Inl e \<Rightarrow> None | Inr v \<Rightarrow>
     (case last_axis (rt_numpy (env_runtime E)) v of Inl e \<Rightarrow> None | Inr d \<Rightarrow>
        Some (RAG, object_id (rg_meta x), serialize_rag_meta (env_codec E) (rag_written E x v d),
          serialize_embedding (env_codec E) v))))"
| "written E (M_PutSemanticEntryRequest r) =
     (case proto_to_semantic_entry (qs_entry r) of Inl e \<Rightarrow> None | Inr x \<Rightarrow>
     (case bytes_to_ndarray (env_codec E) (qs_prompt_embedding r) of Inl e \<Rightarrow> None | Inr v \<Rightarrow>
     (case last_axis (rt_numpy (env_runtime E)) v of Inl e \<Rightarrow> None | Inr d \<Rightarrow>
        Some (SEMANTIC_CACHE, object_id (se_meta x), serialize_semantic_entry (env_codec E) (entry_written E x v d),
          serialize_embedding (env_codec E) v))))"
| "written E _ = None"

fun puts :: "'b Message \<Rightarrow> bool" where
  "puts (M_PutKVBlockRequest r) = True"
| "puts (M_PutRAGObjectRequest r) = True"
| "puts (M_PutSemanticEntryRequest r) = True"
| "puts _ = False"

fun asked :: "'b Message \<Rightarrow> (ObjectType \<times> string) option" where
  "asked (M_GetKVBlockRequest oid) = Some (KV_CACHE, oid)"
| "asked (M_GetRAGObjectRequest oid) = Some (RAG, oid)"
| "asked (M_GetSemanticEntryRequest oid) = Some (SEMANTIC_CACHE, oid)"
| "asked _ = None"

text \<open>The response of a get when the store holds these two blobs.\<close>

fun response_for :: "('s, 'h, 'a, 'b) StoreEnv \<Rightarrow> 'b \<Rightarrow> rat \<Rightarrow> 'b Message \<Rightarrow> ('b \<times> 'b) option \<Rightarrow> 'b Message res" where
  "response_for E nb now (M_GetKVBlockRequest oid) p = map_sum id M_GetKVBlockResponse
     (found_response (not_found_kv nb) (\<lambda>(b, k, v). kv_response (env_codec E) b k v True) (lookup (read_kv (env_codec E) now) p))"
| "response_for E nb now (M_GetRAGObjectRequest oid) p = map_sum id M_GetRAGObjectResponse
     (found_response (not_found_rag nb) (\<lambda>(x, v). rag_response (env_codec E) x v True)
       (lookup (read_array_pair (env_codec E) (deserialize_rag_meta (env_codec E)) (\<lambda>x. x\<lparr>rg_meta := touch now (rg_meta x)\<rparr>)) p))"
| "response_for E nb now (M_GetSemanticEntryRequest oid) p = map_sum id M_GetSemanticEntryResponse
     (found_response (not_found_semantic nb) (\<lambda>(x, v). semantic_response (env_codec E) x v True)
       (lookup (read_array_pair (env_codec E) (deserialize_semantic_entry (env_codec E)) (\<lambda>x. x\<lparr>se_meta := touch now (se_meta x)\<rparr>)) p))"
| "response_for E nb now _ p = Inl wrong_message"

text \<open>gRPC parsed the request as the class of its method.\<close>

definition routed :: "'b incoming \<Rightarrow> bool" where
  "routed r \<longleftrightarrow> (case r of (now, m, message) \<Rightarrow> message_type message = ro_request (stub_route m))"

definition indexing :: "('s, 'h, 'a, 'b) StoreEnv \<Rightarrow> string \<Rightarrow> ('h MetadataStore \<Rightarrow> unit res \<times> 'h MetadataStore) \<Rightarrow> bool" where
  "indexing E oid idx \<longleftrightarrow> (\<forall>md. indexes (env_runtime E) oid md (snd (idx md)))"

lemma indexing_intros [simp]:
  "indexing E oid (\<lambda>md. (q, on_object_added (env_runtime E) ty oid ts md))"
  "indexing E oid (on_semantic_entry_added (env_runtime E) oid v)"
  by (auto simp: indexing_def intro: indexes_semantic prod.collapse [symmetric])

fun put_response :: "'b Message \<Rightarrow> string \<Rightarrow> 'b Message" where
  "put_response (M_PutKVBlockRequest r) = M_PutKVBlockResponse"
| "put_response (M_PutRAGObjectRequest r) = M_PutRAGObjectResponse"
| "put_response _ = M_PutSemanticEntryResponse"

text \<open>Every put of the service is a put of an object, or raises at once; every get reads an object.\<close>

lemma put_request_written:
  assumes "written E message = Some (ty, oid, mb, db)" and "routed (now, m, message)"
  shows "\<exists>idx. service_request E nb fr now m message = map_request (map_sum id (put_response message)) (put_object_request E ty oid mb db idx)
    \<and> indexing E oid idx"
proof (cases message)
  case (M_PutKVBlockRequest r)
  with assms show ?thesis
    by (cases m) (auto simp: routed_def PutKVBlock_request_def put_kv_request_def Let_def split: sum.splits intro: indexing_intros)
next
  case (M_PutRAGObjectRequest r)
  with assms show ?thesis
    by (cases m) (auto simp: routed_def PutRAGObject_request_def put_rag_request_def Let_def split: sum.splits intro: indexing_intros)
next
  case (M_PutSemanticEntryRequest r)
  with assms show ?thesis
    by (cases m) (auto simp: routed_def PutSemanticEntry_request_def put_semantic_request_def Let_def split: sum.splits intro: indexing_intros)
qed (use assms in simp_all)

text \<open>Telling the metadata store of a block or a chunk does not raise; the index may refuse the embedding of an entry.\<close>

definition surely_indexes :: "ObjectType \<Rightarrow> ('h MetadataStore \<Rightarrow> unit res \<times> 'h MetadataStore) \<Rightarrow> bool" where
  "surely_indexes ty idx \<longleftrightarrow> ty = SEMANTIC_CACHE \<or> (\<forall>md. fst (idx md) = Inr ())"

lemma put_request_surely:
  assumes "written E message = Some (ty, oid, mb, db)" and "routed (now, m, message)"
  shows "\<exists>idx. service_request E nb fr now m message = map_request (map_sum id (put_response message)) (put_object_request E ty oid mb db idx)
    \<and> indexing E oid idx \<and> surely_indexes ty idx"
proof (cases message)
  case (M_PutKVBlockRequest r)
  with assms show ?thesis
    by (cases m) (auto simp: routed_def PutKVBlock_request_def put_kv_request_def Let_def surely_indexes_def split: sum.splits
        intro!: exI [of _ "\<lambda>md. (Inr (), on_object_added (env_runtime E) KV_CACHE oid _ md)"])
next
  case (M_PutRAGObjectRequest r)
  with assms show ?thesis
    by (cases m) (auto simp: routed_def PutRAGObject_request_def put_rag_request_def Let_def surely_indexes_def split: sum.splits
        intro!: exI [of _ "\<lambda>md. (Inr (), on_object_added (env_runtime E) RAG oid _ md)"])
next
  case (M_PutSemanticEntryRequest r)
  then have "ty = SEMANTIC_CACHE" using assms(1) by (auto split: sum.splits)
  with put_request_written [OF assms] show ?thesis by (simp add: surely_indexes_def)
qed (use assms in simp_all)

lemma put_request_raises:
  assumes "written E message = None" and "puts message" and "routed (now, m, message)"
  shows "\<exists>e. service_request E nb fr now m message = Answered (Inl e)"
  using assms
  by (cases message; cases m) (auto simp: routed_def PutKVBlock_request_def PutRAGObject_request_def PutSemanticEntry_request_def
      put_kv_request_def put_rag_request_def put_semantic_request_def split: sum.splits)

lemma map_request_map: "map_request h (map_request g p) = map_request (\<lambda>r. h (g r)) p"
  by (simp add: map_request_def and_then_assoc)

lemma get_object_raw:
  "get_object_request E ty oid rd = map_request (\<lambda>r. case r of Inl e \<Rightarrow> Inl e | Inr p \<Rightarrow> lookup rd p) (get_object_request E ty oid Inr)"
proof -
  have *: "(\<lambda>r. case (case r of Inl e \<Rightarrow> Inl e | Inr p \<Rightarrow> lookup Inr p) of Inl e \<Rightarrow> Inl e | Inr p \<Rightarrow> lookup rd p) =
      (\<lambda>r. case r of Inl e \<Rightarrow> Inl e | Inr p \<Rightarrow> lookup rd p)"
    by (auto simp: lookup_def fun_eq_iff split: sum.split option.split)
  show ?thesis
    unfolding get_object_request_def map_request_call
    by (rule arg_cong [where f = "call _"]) (auto simp: map_request_map * fun_eq_iff)
qed

lemma get_request_asked:
  assumes "asked message = Some (ty, oid)" and "routed (now, m, message)"
  shows "service_request E nb fr now m message =
    map_request (\<lambda>r. case r of Inl e \<Rightarrow> Inl e | Inr p \<Rightarrow> response_for E nb now message p) (get_object_request E ty oid Inr)"
proof (cases message)
  case (M_GetKVBlockRequest i)
  with assms have "m = Meth_GetKVBlock" "ty = KV_CACHE" "i = oid" by (cases m; simp add: routed_def)+
  with M_GetKVBlockRequest show ?thesis
    by (simp add: GetKVBlock_request_def get_kv_request_def map_request_map get_object_raw [where rd = "read_kv _ _"]
        get_object_raw [where rd = "read_array_pair _ _ _"])
      (rule arg_cong [where f = "\<lambda>h. map_request h _"], auto simp: found_response_def split: sum.split)
next
  case (M_GetRAGObjectRequest i)
  with assms have "m = Meth_GetRAGObject" "ty = RAG" "i = oid" by (cases m; simp add: routed_def)+
  with M_GetRAGObjectRequest show ?thesis
    by (simp add: GetRAGObject_request_def get_rag_request_def map_request_map get_object_raw [where rd = "read_kv _ _"]
        get_object_raw [where rd = "read_array_pair _ _ _"])
      (rule arg_cong [where f = "\<lambda>h. map_request h _"], auto simp: found_response_def split: sum.split)
next
  case (M_GetSemanticEntryRequest i)
  with assms have "m = Meth_GetSemanticEntry" "ty = SEMANTIC_CACHE" "i = oid" by (cases m; simp add: routed_def)+
  with M_GetSemanticEntryRequest show ?thesis
    by (simp add: GetSemanticEntry_request_def get_semantic_request_def map_request_map get_object_raw [where rd = "read_kv _ _"]
        get_object_raw [where rd = "read_array_pair _ _ _"])
      (rule arg_cong [where f = "\<lambda>h. map_request h _"], auto simp: found_response_def split: sum.split)
qed (use assms in simp_all)

section \<open>Every schedule keeps the store well typed\<close>

definition typed_at :: "('s, 'h, 'a, 'b) StoreEnv \<Rightarrow> string \<Rightarrow> 'b \<Rightarrow> bool" where
  "typed_at E k b \<longleftrightarrow> (\<forall>ty oid. k \<in> object_keys (env_config E) ty oid \<longrightarrow> blob_typed E ty oid k b)"

lemma store_typed_blobs: "store_typed E contents = blobs_satisfy contents (typed_at E)"
  by (auto simp: fun_eq_iff store_typed_def blobs_satisfy_def typed_at_def)

lemma typed_atI:
  assumes "prefixes_ok (env_config E)" and "k \<in> object_keys (env_config E) ty oid" and "blob_typed E ty oid k b"
  shows "typed_at E k b"
  unfolding typed_at_def using object_keys_disjoint [OF assms(1,2)] assms(3) by blast

lemma typed_atD: "typed_at E k b \<Longrightarrow> k \<in> object_keys (env_config E) ty oid \<Longrightarrow> blob_typed E ty oid k b"
  unfolding typed_at_def by blast

lemma typed_at_keys:
  "typed_at E (object_meta_key (env_config E) ty oid) m \<Longrightarrow> meta_typed (env_codec E) ty oid m"
  "typed_at E (main_key (env_config E) ty oid) d \<Longrightarrow> data_ext ty \<noteq> None \<Longrightarrow> data_typed (env_codec E) ty d"
  by (rule blob_typed_meta, erule typed_atD, simp add: object_keys_def)
    (rule blob_typed_data, erule typed_atD, simp_all add: object_keys_def)

lemma written_typed:
  assumes "written E message = Some (ty, oid, mb, db)"
  shows "meta_typed (env_codec E) ty oid mb \<and> data_typed (env_codec E) ty db"
  using assms
  by (cases message)
    (auto simp: sized_def rag_written_def entry_written_def fill_keeps_id split: sum.splits
      intro: exI [where P = "\<lambda>x. serialize_kv_block_meta _ y = serialize_kv_block_meta _ x \<and> _ x" for y]
        exI [where P = "\<lambda>x. serialize_rag_meta _ y = serialize_rag_meta _ x \<and> _ x" for y]
        exI [where P = "\<lambda>x. serialize_semantic_entry _ y = serialize_semantic_entry _ x \<and> _ x" for y])

lemma written_at:
  assumes "prefixes_ok (env_config E)" and "written E message = Some (ty, oid, mb, db)"
  shows "typed_at E (object_meta_key (env_config E) ty oid) mb" and "typed_at E (main_key (env_config E) ty oid) db"
  using written_typed [OF assms(2)]
  by (auto intro!: typed_atI [OF assms(1), of _ ty oid] simp: object_keys_def blob_typed_def)

text \<open>What a read of a well-typed store answers: an exception of the backend, or one that is expected, or an object with its id.\<close>

definition reads ::
    "('s, 'h, 'a, 'b) StoreEnv \<Rightarrow> (pyerr \<Rightarrow> bool) \<Rightarrow> ('o \<Rightarrow> bool) \<Rightarrow> 'o option res \<Rightarrow> bool" where
  "reads E may_raise ok r =
     (case r of Inl e \<Rightarrow> may_raise e \<or> backend_raises E e | Inr None \<Rightarrow> True | Inr (Some x) \<Rightarrow> ok x)"

lemma read_from_typed:
  assumes K: "codec_ok (env_codec E)" and "data_ext ty \<noteq> None" and "read_from E (typed_at E) ty oid rd r"
    and "\<And>m d. meta_typed (env_codec E) ty oid m \<Longrightarrow> data_typed (env_codec E) ty d \<Longrightarrow> reads E may_raise ok (map_sum id Some (rd (m, d)))"
  shows "reads E may_raise ok r"
  using assms(3) typed_at_keys(1) [of E ty oid] typed_at_keys(2) [of E ty oid, OF _ assms(2)] assms(4)
  by (auto simp: read_from_def reads_def)

lemma kv_reads:
  "codec_ok (env_codec E) \<Longrightarrow> read_from E (typed_at E) KV_CACHE oid (read_kv (env_codec E) now) r \<Longrightarrow>
     reads E (\<lambda>e. False) (\<lambda>(b, k, v). object_id (kv_meta b) = oid) r"
  by (erule read_from_typed [rotated 2]) (auto simp: reads_def read_kv_def codec_okD)

lemma rag_reads:
  "codec_ok (env_codec E) \<Longrightarrow> read_from E (typed_at E) RAG oid
       (read_array_pair (env_codec E) (deserialize_rag_meta (env_codec E)) (\<lambda>x. x\<lparr>rg_meta := touch now (rg_meta x)\<rparr>)) r \<Longrightarrow>
     reads E (\<lambda>e. False) (\<lambda>(x, v). object_id (rg_meta x) = oid) r"
  by (erule read_from_typed [rotated 2]) (auto simp: reads_def read_array_pair_def codec_okD)

lemma semantic_reads:
  "codec_ok (env_codec E) \<Longrightarrow> read_from E (typed_at E) SEMANTIC_CACHE oid
       (read_array_pair (env_codec E) (deserialize_semantic_entry (env_codec E)) (\<lambda>x. x\<lparr>se_meta := touch now (se_meta x)\<rparr>)) r \<Longrightarrow>
     reads E (\<lambda>e. False) (\<lambda>(x, v). object_id (se_meta x) = oid) r"
  by (erule read_from_typed [rotated 2]) (auto simp: reads_def read_array_pair_def codec_okD)

lemma plan_reads:
  "codec_ok (env_codec E) \<Longrightarrow> read_from E (typed_at E) PLAN_CACHE oid (read_plan (env_codec E) now) r \<Longrightarrow>
     reads E (\<lambda>e. True) (\<lambda>(p, v). object_id (pl_meta p) = oid) r"
  by (erule read_from_typed [rotated 2])
    (auto simp: reads_def read_plan_def codec_okD split: sum.split dest!: validated)

lemma tool_reads:
  assumes K: "codec_ok (env_codec E)" and "meta_from E (typed_at E) TOOL_CALL_ARTIFACT oid
       (\<lambda>b. map_sum id (\<lambda>x. x\<lparr>ta_meta := touch now (ta_meta x)\<rparr>) (deserialize_tool_artifact (env_codec E) b)) r"
  shows "reads E (\<lambda>e. True) (\<lambda>a. object_id (ta_meta a) = oid) r"
proof -
  have "reads E (\<lambda>e. True) (\<lambda>a. object_id (ta_meta a) = oid)
      (map_sum id Some (map_sum id (\<lambda>x. x\<lparr>ta_meta := touch now (ta_meta x)\<rparr>) (deserialize_tool_artifact (env_codec E) m)))"
    if typed: "typed_at E (object_meta_key (env_config E) TOOL_CALL_ARTIFACT oid) m" for m
  proof -
    obtain x where m: "m = serialize_tool_artifact (env_codec E) x" "object_id (ta_meta x) = oid"
      using typed_at_keys(1) [OF typed] by auto
    then show ?thesis
      by (cases "validate_tool_artifact x") (auto simp: reads_def codec_okD [OF K] dest!: validated)
  qed
  with assms(2) show ?thesis by (auto simp: meta_from_def reads_def)
qed

text \<open>The response names the object that the request was about.\<close>

definition right_object :: "'b Message \<Rightarrow> 'b Message \<Rightarrow> bool" where
  "right_object request response =
     (case request of
        M_PutKVBlockRequest r \<Rightarrow> response = M_PutKVBlockResponse (pm_object_id (pk_meta (qk_block r)))
      | M_PutRAGObjectRequest r \<Rightarrow> response = M_PutRAGObjectResponse (pm_object_id (pr_meta (qr_object r)))
      | M_PutSemanticEntryRequest r \<Rightarrow> response = M_PutSemanticEntryResponse (pm_object_id (ps_meta (qs_entry r)))
      | M_GetKVBlockRequest oid \<Rightarrow> (\<exists>p. response = M_GetKVBlockResponse p \<and> (ak_found p \<longrightarrow> pm_object_id (pk_meta (ak_block p)) = oid))
      | M_GetRAGObjectRequest oid \<Rightarrow> (\<exists>p. response = M_GetRAGObjectResponse p \<and> (ar_found p \<longrightarrow> pm_object_id (pr_meta (ar_object p)) = oid))
      | M_GetSemanticEntryRequest oid \<Rightarrow>
          (\<exists>p. response = M_GetSemanticEntryResponse p \<and> (as_found p \<longrightarrow> pm_object_id (ps_meta (as_entry p)) = oid))
      | M_PrefetchBatchRequest ds \<Rightarrow> (\<exists>ps. response = M_PrefetchBatchResponse ps
          \<and> (\<forall>p \<in> set ps. po_object_id p \<in> pd_object_id ` proto_to_prefetch_decision ` set ds
               \<and> map_option payload_id (po_payload p) = Some (po_object_id p)))
      | _ \<Rightarrow> True)"

text \<open>An answer has the class of its method and is about the right object; a get raises what the backend raises, or that a value does not fit.\<close>

definition right_answer :: "('s, 'h, 'a, 'b) StoreEnv \<Rightarrow> 'b incoming \<Rightarrow> 'b Message res \<Rightarrow> bool" where
  "right_answer E r a =
     (case r of (now, m, message) \<Rightarrow>
        (case a of
           Inl e \<Rightarrow> asked message \<noteq> None \<longrightarrow> e = out_of_range \<or> backend_raises E e
         | Inr x \<Rightarrow> message_type x = ro_response (stub_route m) \<and> right_object message x))"

context object_store
begin

lemma safe_put_service:
  assumes "prefixes_ok (env_config E)" and "puts message" and "routed (now, m, message)"
  shows "safe (blobs_satisfy contents (typed_at E)) (right_answer E (now, m, message)) (service_request E nb fr now m message)"
proof (cases "written E message")
  case None
  then obtain e where e: "service_request E nb fr now m message = Answered (Inl e)" using put_request_raises [OF _ assms(2,3)] by blast
  have "asked message = None" using assms(2) by (cases message) simp_all
  with e show ?thesis by (simp add: right_answer_def)
next
  case (Some w)
  obtain ty oid mb db where w: "written E message = Some (ty, oid, mb, db)" using Some by (cases w) auto
  obtain idx where p: "service_request E nb fr now m message = map_request (map_sum id (put_response message)) (put_object_request E ty oid mb db idx)"
    using put_request_written [OF w assms(3)] by blast
  have "right_answer E (now, m, message) (map_sum id (put_response message) r)" if "\<forall>i. r = Inr i \<longrightarrow> i = oid" for r
    using assms(2,3) w that
    by (cases r; cases message; cases m)
      (auto simp: right_answer_def right_object_def routed_def from_proto_id split: sum.splits)
  then show ?thesis
    unfolding p by (intro safe_map safe_mono [OF safe_put_object [OF written_at [OF assms(1) w]]])
qed

lemma safe_get_service:
  assumes K: "codec_ok (env_codec E)" and "asked message \<noteq> None" and "routed (now, m, message)"
  shows "safe (blobs_satisfy contents (typed_at E)) (right_answer E (now, m, message)) (service_request E nb fr now m message)"
proof (cases message)
  case (M_GetKVBlockRequest oid)
  with assms(3) have m: "m = Meth_GetKVBlock" by (cases m; simp add: routed_def)
  show ?thesis
    unfolding m M_GetKVBlockRequest
    by (auto simp: GetKVBlock_request_def get_kv_request_def right_answer_def right_object_def found_response_def not_found_kv_def
        reads_def map_res_eq dest!: kv_reads [OF K] response_id response_raises
        split: sum.splits option.splits intro!: safe_map safe_mono [OF safe_get_object])
next
  case (M_GetRAGObjectRequest oid)
  with assms(3) have m: "m = Meth_GetRAGObject" by (cases m; simp add: routed_def)
  show ?thesis
    unfolding m M_GetRAGObjectRequest
    by (auto simp: GetRAGObject_request_def get_rag_request_def right_answer_def right_object_def found_response_def not_found_rag_def
        reads_def map_res_eq dest!: rag_reads [OF K] response_id response_raises
        split: sum.splits option.splits intro!: safe_map safe_mono [OF safe_get_object])
next
  case (M_GetSemanticEntryRequest oid)
  with assms(3) have m: "m = Meth_GetSemanticEntry" by (cases m; simp add: routed_def)
  show ?thesis
    unfolding m M_GetSemanticEntryRequest
    by (auto simp: GetSemanticEntry_request_def get_semantic_request_def right_answer_def right_object_def found_response_def not_found_semantic_def
        reads_def map_res_eq dest!: semantic_reads [OF K] response_id response_raises
        split: sum.splits option.splits intro!: safe_map safe_mono [OF safe_get_object])
qed (use assms in simp_all)

lemma right_batch:
  "loads_right loaded \<Longrightarrow> prefetch_responses K loaded (map proto_to_prefetch_decision ds) = Inr ps \<Longrightarrow>
     right_object (M_PrefetchBatchRequest ds) (M_PrefetchBatchResponse ps)"
  using responses_id [of loaded K "map proto_to_prefetch_decision ds" ps] by (simp add: right_object_def)

lemma safe_loading:
  assumes "safe I P p" and "\<And>r. P r \<Longrightarrow> reads E may_raise ok r" and "\<And>x. ok x \<Longrightarrow> loaded_id (f x) = oid"
  shows "safe I (\<lambda>r. \<forall>l. r = Inr (Some l) \<longrightarrow> loaded_id l = oid) (map_request (map_sum id (map_option f)) p)"
proof (rule safe_map, rule safe_mono [OF assms(1)])
  fix r
  assume "P r"
  from assms(2) [OF this] assms(3) show "\<forall>l. map_sum id (map_option f) r = Inr (Some l) \<longrightarrow> loaded_id l = oid"
    by (cases r) (auto simp: reads_def split: option.splits)
qed

lemma safe_prefetch_one:
  assumes K: "codec_ok (env_codec E)"
  shows "safe (blobs_satisfy contents (typed_at E)) (\<lambda>r. \<forall>l. r = Inr (Some l) \<longrightarrow> loaded_id l = oid) (prefetch_one_request E now oid t)"
proof -
  let ?I = "blobs_satisfy contents (typed_at E)"
  let ?loads = "\<lambda>p. safe ?I (\<lambda>r. \<forall>l. r = Inr (Some l) \<longrightarrow> loaded_id l = oid) p"
  have kv: "?loads (map_request (map_sum id (map_option (\<lambda>(b, k, v). Loaded_kv b k v))) (get_kv_request E now oid))"
    unfolding get_kv_request_def by (rule safe_loading [OF safe_get_object], erule kv_reads [OF K]) (simp split: prod.splits)
  have rag: "?loads (map_request (map_sum id (map_option (\<lambda>(r, v). Loaded_rag r v))) (get_rag_request E now oid))"
    unfolding get_rag_request_def by (rule safe_loading [OF safe_get_object], erule rag_reads [OF K]) (simp split: prod.splits)
  have semantic: "?loads (map_request (map_sum id (map_option (\<lambda>(r, v). Loaded_semantic r v))) (get_semantic_request E now oid))"
    unfolding get_semantic_request_def by (rule safe_loading [OF safe_get_object], erule semantic_reads [OF K]) (simp split: prod.splits)
  have tool: "?loads (map_request (map_sum id (map_option Loaded_tool)) (get_tool_request E now oid))"
    unfolding get_tool_request_def by (rule safe_loading [OF safe_get_meta], erule tool_reads [OF K]) simp
  have plan: "?loads (map_request (map_sum id (map_option (\<lambda>(r, v). Loaded_plan r v))) (get_plan_request E now oid))"
    unfolding get_plan_request_def by (rule safe_loading [OF safe_get_object], erule plan_reads [OF K]) (simp split: prod.splits)
  show ?thesis
    by (simp add: prefetch_one_request_def kv rag semantic tool plan)
qed

lemma safe_prefetch:
  assumes K: "codec_ok (env_codec E)"
  shows "loads_right results \<Longrightarrow>
     safe (blobs_satisfy contents (typed_at E)) (\<lambda>r. \<forall>loaded. r = Inr loaded \<longrightarrow> loads_right loaded) (prefetch_request E now ds seen results)"
proof (induction ds arbitrary: seen results)
  case Nil
  then show ?case by simp
next
  case (Cons d ds)
  obtain object_ref t where d: "d = (object_ref, t)" by (cases d)
  show ?case
  proof (cases object_ref)
    case None
    with Cons d show ?thesis by simp
  next
    case (Some oid)
    have "safe (blobs_satisfy contents (typed_at E)) (\<lambda>r. \<forall>loaded. r = Inr loaded \<longrightarrow> loads_right loaded)
        (unless_raised r (\<lambda>x. prefetch_request E now ds (insert oid seen) (case x of None \<Rightarrow> results | Some l \<Rightarrow> dset results oid l)))"
      if "\<forall>l. r = Inr (Some l) \<longrightarrow> loaded_id l = oid" for r
      using that Cons.prems by (intro safe_unless Cons.IH) (auto split: option.split)
    then have "safe (blobs_satisfy contents (typed_at E)) (\<lambda>r. \<forall>loaded. r = Inr loaded \<longrightarrow> loads_right loaded)
        (and_then (prefetch_one_request E now oid t) (\<lambda>r. unless_raised r (\<lambda>x.
          prefetch_request E now ds (insert oid seen) (case x of None \<Rightarrow> results | Some l \<Rightarrow> dset results oid l))))"
      by (rule safe_and_then [OF safe_prefetch_one [OF K]])
    with Some d Cons show ?thesis by simp
  qed
qed

lemma safe_service:
  assumes K: "codec_ok (env_codec E)" and pre: "prefixes_ok (env_config E)" and routed: "routed r"
  shows "safe (blobs_satisfy contents (typed_at E)) (right_answer E r) (request_of E nb fr r)"
proof -
  obtain now m message where r: "r = (now, m, message)" by (cases r)
  have "safe (blobs_satisfy contents (typed_at E)) (right_answer E (now, m, message)) (service_request E nb fr now m message)"
  proof (cases "puts message \<or> asked message \<noteq> None")
    case True
    with safe_put_service [OF pre] safe_get_service [OF K] routed r show ?thesis by blast
  next
    case other: False
    note right = right_answer_def right_object_def map_res_eq
    show ?thesis
    proof (cases message)
      case (M_DeleteKVBlockRequest oid)
      with routed r show ?thesis
        by (cases m) (auto simp: routed_def right split: sum.split intro!: safe_map safe_mono [OF safe_delete])
    next
      case M_ListKVBlocksRequest
      with routed r show ?thesis
        by (cases m) (auto simp: routed_def right split: sum.split intro!: safe_map safe_mono [OF safe_list])
    next
      case (M_SearchSimilarPromptsRequest q)
      with routed r show ?thesis
        by (cases m) (auto simp: routed_def right split: sum.split intro!: safe_map safe_mono [OF safe_search])
    next
      case (M_PrefetchBatchRequest ds)
      have "safe (blobs_satisfy contents (typed_at E)) (right_answer E (now, m, message))
          (map_request (map_sum id M_PrefetchBatchResponse) (PrefetchBatch_request E now ds))" if "m = Meth_PrefetchBatch"
        unfolding PrefetchBatch_request_def Let_def
        by (rule safe_map, rule safe_and_then [OF safe_prefetch [OF K]])
          (auto simp: that M_PrefetchBatchRequest right_answer_def map_res_eq right_batch split: sum.split intro!: safe_unless)
      with M_PrefetchBatchRequest routed r show ?thesis by (cases m) (simp_all add: routed_def)
    next
      case M_GetStatsRequest
      with routed r show ?thesis
        by (cases m) (auto simp: routed_def right GetStats_request_def split: sum.split intro!: safe_map safe_mono [OF safe_stats])
    qed (use other routed r in \<open>cases m; simp add: routed_def\<close>)+
  qed
  then show ?thesis by (simp add: r request_of_def)
qed

lemma pool_typed:
  assumes K: "codec_ok (env_codec E)" and pre: "prefixes_ok (env_config E)" and "\<forall>r \<in> set rs. routed r"
    and typed: "store_typed E contents st" and run: "served\<^sup>*\<^sup>* (map (request_of E nb fr) rs, st) (qs, st')"
  shows "store_typed E contents st' \<and> (\<forall>i < length rs. \<forall>a. qs ! i = Answered a \<longrightarrow> right_answer E (rs ! i) a)"
proof -
  have "list_all2 (safe (blobs_satisfy contents (typed_at E))) (map (right_answer E) rs) (map (request_of E nb fr) rs)"
    using assms(3) by (auto simp: list_all2_conv_all_nth intro: safe_service [OF K pre])
  from served_safe [OF run, of "blobs_satisfy contents (typed_at E)" "map (right_answer E) rs"] typed this
  have "store_typed E contents st'" and all: "list_all2 (safe (blobs_satisfy contents (typed_at E))) (map (right_answer E) rs) qs"
    by (simp_all add: store_typed_blobs)
  moreover have "right_answer E (rs ! i) a" if "i < length rs" "qs ! i = Answered a" for i a
    using list_all2_nthD [OF all, of i] that by simp
  ultimately show ?thesis by blast
qed

end

section \<open>Example\<close>

text \<open>A put of a block and a get of it, as they arrive.\<close>

definition sample_put :: "rat list blob PutKVBlockRequest" where
  "sample_put = \<lparr>qk_block = projr (kv_block_to_proto (sample_block ''blk'' [1, 2])),
     qk_key_states = ndarray_to_bytes blob_codec [1], qk_value_states = ndarray_to_bytes blob_codec [2]\<rparr>"

definition sample_pool :: "rat list blob incoming list" where
  "sample_pool = [(7, Meth_PutKVBlock, M_PutKVBlockRequest sample_put), (7, Meth_GetKVBlock, M_GetKVBlockRequest ''blk'')]"

abbreviation sample_request :: "rat list blob incoming \<Rightarrow> _" where
  "sample_request \<equiv> request_of sample_env (Blob_array []) (\<lambda>q. [])"

lemma sample_put_arrives:
  "proto_to_kv_block (qk_block sample_put) = Inr (wire_kv (sample_block ''blk'' [1, 2]))"
  "bytes_to_ndarray blob_codec (qk_key_states sample_put) = Inr [1]" "bytes_to_ndarray blob_codec (qk_value_states sample_put) = Inr [2]"
  "fill_token_hash sample_env (wire_kv (sample_block ''blk'' [1, 2])) = Inr (wire_kv (sample_block ''blk'' [1, 2]))"
  "object_id (kv_meta (wire_kv (sample_block ''blk'' [1, 2]))) = ''blk''"
proof -
  have "kv_fits (sample_block ''blk'' [1, 2])"
    by (simp add: kv_fits_def meta_fits_def sample_block_def new_meta_def fits_int32_def fits_uint64_def)
  then show "proto_to_kv_block (qk_block sample_put) = Inr (wire_kv (sample_block ''blk'' [1, 2]))"
    by (cases rule: deliversE [OF kv_delivers, of "sample_block ''blk'' [1, 2]"]) (simp_all add: sample_put_def)
qed (simp_all add: sample_put_def array_wire fill_token_hash_def sample_block_def wire_kv_def wire_meta_def new_meta_def)

lemma sample_written:
  "\<exists>mb db. written sample_env (M_PutKVBlockRequest sample_put) = Some (KV_CACHE, ''blk'', mb, db)"
  by (simp add: sample_put_arrives)

lemma sample_put_answers:
  "\<exists>st'. alone (sample_request (7, Meth_PutKVBlock, M_PutKVBlockRequest sample_put)) st = (Inr (M_PutKVBlockResponse ''blk''), st')"
proof -
  from total_store.put_kv_total [OF sample_total sample_put_arrives(4), of "[1]" "[2]" st] sample_put_arrives(5)
  obtain b' st' where "put_kv_block sample_env (wire_kv (sample_block ''blk'' [1, 2])) [1] [2] st = (Inr ''blk'', b', st')" by auto
  then have "PutKVBlock sample_env sample_put st = (Inr ''blk'', st')" by (simp add: PutKVBlock_def sample_put_arrives)
  then show ?thesis by (simp add: request_of_def request_simps)
qed

text \<open>One schedule: the put runs to its end, then the get.\<close>

lemma sample_run:
  "\<exists>st1 a st2. served\<^sup>*\<^sup>* (map sample_request sample_pool, sample_store)
       ([Answered (Inr (M_PutKVBlockResponse ''blk'')), sample_request (7, Meth_GetKVBlock, M_GetKVBlockRequest ''blk'')], st1)
     \<and> served\<^sup>*\<^sup>* ([Answered (Inr (M_PutKVBlockResponse ''blk'')), sample_request (7, Meth_GetKVBlock, M_GetKVBlockRequest ''blk'')], st1)
       ([Answered (Inr (M_PutKVBlockResponse ''blk'')), Answered a], st2)"
proof -
  let ?put = "sample_request (7, Meth_PutKVBlock, M_PutKVBlockRequest sample_put)"
  let ?get = "sample_request (7, Meth_GetKVBlock, M_GetKVBlockRequest ''blk'')"
  let ?done = "Answered (Inr (M_PutKVBlockResponse ''blk'')) :: (_, rat list blob Message res) request"
  obtain st1 where st1: "alone ?put sample_store = (Inr (M_PutKVBlockResponse ''blk''), st1)" using sample_put_answers by blast
  have "served\<^sup>*\<^sup>* ([?put, ?get], sample_store) ([?done, ?get], st1)"
    using served_alone [of "[?put, ?get]" 0 ?put sample_store] st1 by simp
  moreover have "served\<^sup>*\<^sup>* ([?done, ?get], st1) ([?done, Answered (fst (alone ?get st1))], snd (alone ?get st1))"
    using served_alone [of "[?done, ?get]" 1 ?get st1] by simp
  ultimately show ?thesis unfolding sample_pool_def list.map by blast
qed

section \<open>Properties\<close>

text \<open>C9: Whatever requests of the service run under whatever schedule over any backend, from any store that operations can reach, each blob stays of the type and of the object
  whose key it has; a response has the class of its method and names the object that was asked for, also every object of a batch; and a get raises only what
  the backend raises on reading, or that a number does not fit its field: never a decoding error.\<close>

theorem service_type_safety:
  assumes "object_store E contents" and "codec_ok (env_codec E)" and "prefixes_ok (env_config E)"
    and "fresh_store contents st0" and "store_reachable E st0 st" and "\<forall>r \<in> set rs. routed r"
    and "served\<^sup>*\<^sup>* (map (request_of E nb fr) rs, st) (qs, st')"
  shows "store_typed E contents st' \<and> (\<forall>i < length rs. \<forall>a. qs ! i = Answered a \<longrightarrow> right_answer E (rs ! i) a)"
proof -
  have "store_typed E contents st"
    using object_store.reachable_typed [OF assms(1,3,5)] fresh_typed [OF assms(4)] by blast
  from object_store.pool_typed [OF assms(1,2,3,6) this assms(7)] show ?thesis .
qed

lemma service_type_safety_witness:
  "\<exists>a st2. served\<^sup>*\<^sup>* (map sample_request sample_pool, sample_store) ([Answered (Inr (M_PutKVBlockResponse ''blk'')), Answered a], st2)
     \<and> store_typed sample_env memory_contents st2 \<and> right_answer sample_env (7, Meth_GetKVBlock, M_GetKVBlockRequest ''blk'') a"
proof -
  obtain st1 a st2 where run: "served\<^sup>*\<^sup>* (map sample_request sample_pool, sample_store)
      ([Answered (Inr (M_PutKVBlockResponse ''blk'')), Answered a], st2)"
    using sample_run by (meson rtranclp_trans)
  have "\<forall>r \<in> set sample_pool. routed r" by (simp add: sample_pool_def routed_def)
  from service_type_safety [OF sample_objects _ _ sample_fresh store_reachable.start this run]
  have "store_typed sample_env memory_contents st2" "right_answer sample_env (sample_pool ! 1) a"
    by (auto simp: sample_pool_def)
  with run show ?thesis by (auto simp: sample_pool_def)
qed

end
