(* ===== verification/Atomicity.thy ===== *)
theory Atomicity
  imports RequestSafety
begin

text \<open>
  Puts among other requests of the service, by rely and guarantee: \<open>undisturbed\<close> is what the other requests keep to when
  none of them writes or deletes the object, and a put leaves both blobs stored and the id known whatever they do in between.
\<close>

section \<open>What the other requests keep to\<close>

definition undisturbed ::
    "('s, 'h, 'a, 'b) StoreEnv \<Rightarrow> ('s \<Rightarrow> string \<Rightarrow> 'b option) \<Rightarrow> ObjectType \<Rightarrow> string
       \<Rightarrow> ('s, 'h) UnifiedObjectStore \<Rightarrow> ('s, 'h) UnifiedObjectStore \<Rightarrow> bool" where
  "undisturbed E contents ty oid st st' \<longleftrightarrow>
     (\<forall>k \<in> object_keys (env_config E) ty oid. contents (os_storage st') k = contents (os_storage st) k)
     \<and> (md_bloom_wf (os_metadata st) \<longrightarrow> md_grows (env_runtime E) (os_metadata st) (os_metadata st'))"

interpretation calm: rely "undisturbed E contents ty oid"
  for E :: "('s, 'h, 'a, 'b) StoreEnv" and contents :: "'s \<Rightarrow> string \<Rightarrow> 'b option" and ty oid
proof unfold_locales
  show "undisturbed E contents ty oid s s" for s by (simp add: undisturbed_def md_grows_refl)
  show "undisturbed E contents ty oid s u" if "undisturbed E contents ty oid s t" "undisturbed E contents ty oid t u" for s t u
    using that by (auto simp: undisturbed_def md_grows_def)
qed

lemma undisturbed_metadata:
  "(md_bloom_wf (os_metadata st) \<Longrightarrow> md_grows (env_runtime E) (os_metadata st) md') \<Longrightarrow>
     undisturbed E contents ty oid st (st\<lparr>os_metadata := md'\<rparr>)"
  by (simp add: undisturbed_def)

lemma undisturbed_storage:
  "(\<And>k. k \<in> object_keys (env_config E) ty oid \<Longrightarrow> contents s' k = contents (os_storage st) k) \<Longrightarrow>
     undisturbed E contents ty oid st (st\<lparr>os_storage := s'\<rparr>)"
  by (simp add: undisturbed_def md_grows_refl)

text \<open>A request that only reads keeps to every relation of this kind.\<close>

lemma keeps_reading: "(\<And>x. keeps (undisturbed E contents ty oid) (k x)) \<Longrightarrow> keeps (undisturbed E contents ty oid) (call (reading f) k)"
  by (rule keeps_callI) (simp_all add: calm.rely_refl)

lemma keeps_get_object: "keeps (undisturbed E contents ty oid) (get_object_request E ty' oid' rd)"
  unfolding get_object_request_def get_pair_request_def
  by (auto simp: keeps_map intro!: keeps_reading keeps_unless split: option.split)

lemma keeps_get_meta: "keeps (undisturbed E contents ty oid) (get_meta_request E ty' oid' rd)"
  unfolding get_meta_request_def by (auto intro!: keeps_reading keeps_unless)

lemmas keeps_gets = keeps_get_object keeps_get_meta

lemma keeps_prefetch: "keeps (undisturbed E contents ty oid) (prefetch_request E now ds seen results)"
proof (induction ds arbitrary: seen results)
  case Nil
  show ?case by simp
next
  case (Cons d ds)
  have one: "keeps (undisturbed E contents ty oid) (prefetch_one_request E now i t)" for i t
    by (simp add: prefetch_one_request_def keeps_map get_kv_request_def get_rag_request_def get_semantic_request_def
        get_tool_request_def get_plan_request_def keeps_gets)
  show ?case
    by (cases d) (auto simp: Cons.IH split: option.split intro!: keeps_and_then [OF one] keeps_unless)
qed

lemma keeps_list: "keeps (undisturbed E contents ty oid) (list_request E t)"
  unfolding list_request_def by (rule keeps_reading) simp

lemma keeps_counting:
  "(\<And>n. keeps (undisturbed E contents ty oid) (k n)) \<Longrightarrow> keeps (undisturbed E contents ty oid) (counting E t k)"
  unfolding counting_def by (intro keeps_and_then keeps_list keeps_unless)

lemma keeps_stats: "keeps (undisturbed E contents ty oid) (stats_request E)"
  unfolding stats_request_def by (intro keeps_counting keeps_reading) simp

lemma keeps_search: "keeps (undisturbed E contents ty oid) (SearchSimilarPrompts_request E q)"
  unfolding SearchSimilarPrompts_request_def by (auto intro!: keeps_unless keeps_reading)

lemma keeps_batch: "keeps (undisturbed E contents ty oid) (PrefetchBatch_request E now ds)"
  unfolding PrefetchBatch_request_def Let_def by (auto intro!: keeps_and_then keeps_prefetch keeps_unless)

lemma keeps_index:
  assumes "indexing E oid' idx" and "\<And>x. keeps (undisturbed E contents ty oid) (k x)"
  shows "keeps (undisturbed E contents ty oid) (call (index_call idx) k)"
proof (rule keeps_callI)
  show "undisturbed E contents ty oid st (snd (index_call idx st))" for st
    using assms(1) unfolding calls by (intro undisturbed_metadata) (simp add: indexing_def indexes_def)
qed (rule assms(2))

context object_store
begin

lemma keys_apart:
  assumes "prefixes_ok (env_config E)" and "(ty', oid') \<noteq> (ty, oid)" and "k \<in> object_keys (env_config E) ty oid"
  shows "k \<notin> object_keys (env_config E) ty' oid'"
  using object_keys_disjoint [OF assms(1,3)] assms(2) by blast

lemma keeps_backend_put:
  assumes "k' \<notin> object_keys (env_config E) ty oid" and "\<And>x. keeps (undisturbed E contents ty oid) (k x)"
  shows "keeps (undisturbed E contents ty oid) (call (backend_call (be_put (env_backend E) k' b x)) k)"
proof (rule keeps_callI)
  fix st :: "('s, 'h) UnifiedObjectStore"
  obtain r s' where put: "be_put (env_backend E) k' b x (os_storage st) = (r, s')" by fastforce
  have "contents s' = contents (os_storage st) \<or> contents s' = (contents (os_storage st))(k' \<mapsto> b)"
    by (rule put_any [OF put])
  with assms(1) show "undisturbed E contents ty oid st (snd (backend_call (be_put (env_backend E) k' b x) st))"
    unfolding calls put snd_conv by (intro undisturbed_storage) auto
qed (rule assms(2))

lemma keeps_backend_delete:
  assumes "k' \<notin> object_keys (env_config E) ty oid" and "\<And>x. keeps (undisturbed E contents ty oid) (k x)"
  shows "keeps (undisturbed E contents ty oid) (call (backend_call (be_delete (env_backend E) k')) k)"
proof (rule keeps_callI)
  fix st :: "('s, 'h) UnifiedObjectStore"
  obtain r s' where del: "be_delete (env_backend E) k' (os_storage st) = (r, s')" by fastforce
  have "contents s' = contents (os_storage st) \<or> contents s' = (contents (os_storage st))(k' := None)"
    by (rule deleted_any [OF del])
  with assms(1) show "undisturbed E contents ty oid st (snd (backend_call (be_delete (env_backend E) k') st))"
    unfolding calls del snd_conv by (intro undisturbed_storage) auto
qed (rule assms(2))

lemma keeps_put_object:
  assumes "prefixes_ok (env_config E)" and "(ty', oid') \<noteq> (ty, oid)" and "indexing E oid' idx"
  shows "keeps (undisturbed E contents ty oid) (put_object_request E ty' oid' mb db idx)"
proof -
  have keys: "object_meta_key (env_config E) ty' oid' \<notin> object_keys (env_config E) ty oid"
    "main_key (env_config E) ty' oid' \<notin> object_keys (env_config E) ty oid"
    using keys_apart [OF assms(1,2)] by (auto simp: object_keys_def)
  show ?thesis
    unfolding put_object_request_def put_pair_request_def
    by (auto intro!: keeps_and_then keeps_backend_put [OF keys(1)] keeps_backend_put [OF keys(2)]
        keeps_backend_delete [OF keys(1)] keeps_unless keeps_index [OF assms(3)] split: sum.split)
qed

lemma keeps_delete:
  assumes "prefixes_ok (env_config E)" and "(KV_CACHE, oid') \<noteq> (ty, oid)"
  shows "keeps (undisturbed E contents ty oid) (delete_kv_request E oid')"
  unfolding delete_kv_request_def
proof (intro keeps_callI keeps_unless, goal_cases)
  case (1 st)
  let ?ks = "[object_meta_key (env_config E) KV_CACHE oid', main_key (env_config E) KV_CACHE oid']"
  obtain r s' where del: "be_delete_many (env_backend E) ?ks (os_storage st) = (r, s')" by fastforce
  show ?case
    unfolding calls del snd_conv
  proof (rule undisturbed_storage)
    fix k
    assume k: "k \<in> object_keys (env_config E) ty oid"
    have "k \<notin> set ?ks" using keys_apart [OF assms k] by (simp add: object_keys_def)
    with many_frame [OF del, of k] show "contents s' k = contents (os_storage st) k" by blast
  qed
next
  case (2 x n)
  have "undisturbed E contents ty oid st (snd (index_call (on_object_removed (env_runtime E) KV_CACHE oid') st))" for st
    unfolding calls by (rule undisturbed_metadata) (metis on_object_removed_grows prod.collapse)
  then show ?case by (auto intro!: keeps_callI keeps_unless)
qed

end

section \<open>What messages leave alone\<close>

fun deleted :: "'b Message \<Rightarrow> (ObjectType \<times> string) option" where
  "deleted (M_DeleteKVBlockRequest oid) = Some (KV_CACHE, oid)"
| "deleted _ = None"

text \<open>The message writes no blob of the object.\<close>

definition writes_elsewhere :: "('s, 'h, 'a, 'b) StoreEnv \<Rightarrow> ObjectType \<Rightarrow> string \<Rightarrow> 'b incoming \<Rightarrow> bool" where
  "writes_elsewhere E ty oid r \<longleftrightarrow> (case r of (now, m, message) \<Rightarrow> \<forall>mb db. written E message \<noteq> Some (ty, oid, mb, db))"

definition deletes_elsewhere :: "ObjectType \<Rightarrow> string \<Rightarrow> 'b incoming \<Rightarrow> bool" where
  "deletes_elsewhere ty oid r \<longleftrightarrow> (case r of (now, m, message) \<Rightarrow> deleted message \<noteq> Some (ty, oid))"

lemma put_cases [consumes 2, case_names raises writes]:
  assumes "puts message" and "routed (now, m, message)"
  obtains e where "written E message = None" "service_request E nb fr now m message = Answered (Inl e)"
  | ty oid mb db idx where "written E message = Some (ty, oid, mb, db)" "indexing E oid idx"
      "service_request E nb fr now m message = map_request (map_sum id (put_response message)) (put_object_request E ty oid mb db idx)"
proof (cases "written E message")
  case None
  with put_request_raises [OF None assms] that(1) show ?thesis by blast
next
  case (Some w)
  obtain ty oid mb db where "w = (ty, oid, mb, db)" by (cases w)
  with Some put_request_written [OF _ assms(2)] that(2) show ?thesis by blast
qed

lemma get_keeps:
  assumes "asked message = Some (ty', oid')" and "routed (now, m, message)"
  shows "keeps (undisturbed E contents ty oid) (service_request E nb fr now m message)"
  unfolding get_request_asked [OF assms] keeps_map by (rule keeps_get_object)

context object_store
begin

lemma keeps_service:
  assumes pre: "prefixes_ok (env_config E)" and routed: "routed r"
    and "writes_elsewhere E ty oid r" and "deletes_elsewhere ty oid r"
  shows "keeps (undisturbed E contents ty oid) (request_of E nb fr r)"
proof -
  obtain now m message where r: "r = (now, m, message)" by (cases r)
  let ?p = "service_request E nb fr now m message"
  have "keeps (undisturbed E contents ty oid) ?p"
  proof (cases "puts message")
    case True
    from True routed [unfolded r] show ?thesis
    proof (cases rule: put_cases [where E = E and nb = nb and fr = fr])
      case (raises e)
      then show ?thesis by simp
    next
      case (writes ty' oid' mb db idx)
      then have "(ty', oid') \<noteq> (ty, oid)" using assms(3) by (auto simp: r writes_elsewhere_def)
      then show ?thesis unfolding writes(3) keeps_map by (rule keeps_put_object [OF pre _ writes(2)])
    qed
  next
    case put: False
    show ?thesis
    proof (cases "asked message")
      case (Some t)
      with routed r show ?thesis by (cases t) (simp add: get_keeps)
    next
      case None
      with put routed assms(4) r show ?thesis
        by (cases message; cases m) (auto simp: routed_def deletes_elsewhere_def keeps_map keeps_list keeps_search keeps_batch
            GetStats_request_def keeps_stats intro!: keeps_delete [OF pre])
    qed
  qed
  then show ?thesis by (simp add: r request_of_def)
qed

end

section \<open>What a put leaves\<close>

definition both_held ::
    "('s, 'h, 'a, 'b) StoreEnv \<Rightarrow> ('s \<Rightarrow> string \<Rightarrow> 'b option) \<Rightarrow> ObjectType \<Rightarrow> string \<Rightarrow> 'b \<Rightarrow> 'b \<Rightarrow> ('s, 'h) UnifiedObjectStore \<Rightarrow> bool" where
  "both_held E contents ty oid mb db st \<longleftrightarrow>
     contents (os_storage st) (object_meta_key (env_config E) ty oid) = Some mb
     \<and> contents (os_storage st) (main_key (env_config E) ty oid) = Some db
     \<and> md_bloom_wf (os_metadata st) \<and> might_exist (env_runtime E) oid (os_metadata st)"

lemma undisturbed_keys:
  assumes "undisturbed E contents ty oid st st'"
  shows "contents (os_storage st') (object_meta_key (env_config E) ty oid) = contents (os_storage st) (object_meta_key (env_config E) ty oid)"
    and "contents (os_storage st') (main_key (env_config E) ty oid) = contents (os_storage st) (main_key (env_config E) ty oid)"
    and "md_bloom_wf (os_metadata st) \<Longrightarrow> md_bloom_wf (os_metadata st')"
    and "md_bloom_wf (os_metadata st) \<Longrightarrow> might_exist (env_runtime E) i (os_metadata st) \<Longrightarrow> might_exist (env_runtime E) i (os_metadata st')"
  using assms by (simp_all add: undisturbed_def object_keys_def md_grows_def)

lemma held_undisturbed:
  "both_held E contents ty oid mb db st \<Longrightarrow> undisturbed E contents ty oid st st' \<Longrightarrow> both_held E contents ty oid mb db st'"
  using undisturbed_keys [of E contents ty oid st st'] by (simp add: both_held_def)

context object_store
begin

lemma achieves_put:
  assumes ty: "data_ext ty \<noteq> None" and idx: "indexing E oid idx" and wf: "md_bloom_wf (os_metadata st)"
  shows "achieves (undisturbed E contents ty oid) (\<lambda>r st. \<forall>i. r = Inr i \<longrightarrow> both_held E contents ty oid mb db st)
    (put_object_request E ty oid mb db idx) st"
    (is "achieves ?R ?Q _ _")
proof -
  let ?mk = "object_meta_key (env_config E) ty oid" and ?dk = "main_key (env_config E) ty oid"
  have neq: "?dk \<noteq> ?mk" using meta_main_neq [OF ty, of "env_config E" oid oid] by (simp add: object_meta_key_def)
  have failed: "achieves ?R ?Q (Answered (Inl e)) st" for e st by simp
  have index: "achieves ?R ?Q (call (index_call idx) (\<lambda>q. unless_raised q (\<lambda>_. Answered (Inr oid)))) st"
    if st: "contents (os_storage st) ?mk = Some mb" "contents (os_storage st) ?dk = Some db" "md_bloom_wf (os_metadata st)" for st
  proof (rule achieves_callI)
    fix st'
    assume go: "?R st st'"
    obtain q md' where q: "idx (os_metadata st') = (q, md')" by fastforce
    have "indexes (env_runtime E) oid (os_metadata st') md'" using idx [unfolded indexing_def, rule_format, of "os_metadata st'"] q by simp
    with undisturbed_keys [OF go] st have "both_held E contents ty oid mb db (st'\<lparr>os_metadata := md'\<rparr>)"
      by (simp add: both_held_def indexes_def md_grows_def)
    then have "achieves ?R ?Q (Answered (Inr oid)) (st'\<lparr>os_metadata := md'\<rparr>)" using held_undisturbed by auto
    then show "achieves ?R ?Q (unless_raised (fst (index_call idx st')) (\<lambda>_. Answered (Inr oid))) (snd (index_call idx st'))"
      unfolding calls q prod.sel using failed by (cases q) auto
  qed
  have undo: "achieves ?R ?Q (and_then (call (backend_call (be_delete (env_backend E) ?mk)) (\<lambda>q. unless_raised q (\<lambda>_. Answered (Inl e))))
      (\<lambda>r. unless_raised r k)) st" for e st k
    unfolding and_then_call and_then_unless by (rule achieves_callI) (auto split: sum.split)
  have data: "achieves ?R ?Q (call (backend_call (be_put (env_backend E) ?dk db None)) (\<lambda>r. and_then (case r of
       Inr _ \<Rightarrow> Answered (Inr ())
     | Inl e \<Rightarrow> call (backend_call (be_delete (env_backend E) ?mk)) (\<lambda>q. unless_raised q (\<lambda>_. Answered (Inl e))))
      (\<lambda>r. unless_raised r (\<lambda>_. call (index_call idx) (\<lambda>q. unless_raised q (\<lambda>_. Answered (Inr oid))))))) st"
    if st: "contents (os_storage st) ?mk = Some mb" "md_bloom_wf (os_metadata st)" for st
  proof (rule achieves_callI, goal_cases)
    case (1 st')
    obtain r s' where put: "be_put (env_backend E) ?dk db None (os_storage st') = (r, s')" by fastforce
    show ?case
    proof (cases r)
      case (Inl e)
      then show ?thesis using undo by (simp add: put)
    next
      case (Inr u)
      with put_ok [of ?dk db None "os_storage st'" s'] put have "contents s' = (contents (os_storage st'))(?dk \<mapsto> db)" by simp
      with undisturbed_keys [OF 1] st neq have "achieves ?R ?Q (call (index_call idx) (\<lambda>q. unless_raised q (\<lambda>_. Answered (Inr oid))))
          (st'\<lparr>os_storage := s'\<rparr>)" by (intro index) simp_all
      with Inr put show ?thesis by simp
    qed
  qed
  show ?thesis
    unfolding put_object_request_def put_pair_request_def and_then_call
  proof (rule achieves_callI, goal_cases)
    case (1 st')
    obtain r s' where put: "be_put (env_backend E) ?mk mb None (os_storage st') = (r, s')" by fastforce
    show ?case
    proof (cases r)
      case (Inl e)
      then show ?thesis using failed by (simp add: put)
    next
      case (Inr u)
      with put_ok [of ?mk mb None "os_storage st'" s'] put undisturbed_keys(3) [OF 1 wf]
      have "contents (os_storage (st'\<lparr>os_storage := s'\<rparr>)) ?mk = Some mb" "md_bloom_wf (os_metadata (st'\<lparr>os_storage := s'\<rparr>))"
        by simp_all
      from data [OF this] Inr put show ?thesis by (simp add: and_then_call)
    qed
  qed
qed

lemma achieves_get:
  assumes held: "both_held E contents ty oid mb db st"
  shows "achieves (undisturbed E contents ty oid) (\<lambda>r st. r = Inr (Some (mb, db)) \<or> (\<exists>e. r = Inl e \<and> backend_raises E e))
    (get_object_request E ty oid Inr) st"
    (is "achieves ?R ?Q _ _")
proof -
  let ?mk = "object_meta_key (env_config E) ty oid" and ?dk = "main_key (env_config E) ty oid"
  have got: "r = Some mb" if "be_get (env_backend E) ?mk (os_storage st) = Inr r" "both_held E contents ty oid mb db st" for r st
    using get_ok [OF that(1)] that(2) by (simp add: both_held_def)
  have got': "r = Some db" if "be_get (env_backend E) ?dk (os_storage st) = Inr r" "both_held E contents ty oid mb db st" for r st
    using get_ok [OF that(1)] that(2) by (simp add: both_held_def)
  have known: "might_exist (env_runtime E) oid (os_metadata st)" if "both_held E contents ty oid mb db st" for st
    using that by (simp add: both_held_def)
  have raise: "achieves ?R ?Q (Answered (Inl e)) st" if "be_get (env_backend E) k s = Inl e" for e k s st
    using that by (auto dest: backend_raisesI)
  have second: "achieves ?R ?Q (map_request (\<lambda>r. case r of Inl e \<Rightarrow> Inl e | Inr p \<Rightarrow> lookup Inr p)
      (call (reading (\<lambda>st. be_get (env_backend E) ?dk (os_storage st))) (\<lambda>r. unless_raised r (\<lambda>d. case d of
         None \<Rightarrow> Answered (Inr None) | Some data \<Rightarrow> Answered (Inr (Some (mb, data))))))) st"
    if st: "both_held E contents ty oid mb db st" for st
    unfolding map_request_call
  proof (rule achieves_callI, goal_cases)
    case (1 st')
    from got' [OF _ held_undisturbed [OF st 1]] raise show ?case
      by (cases "be_get (env_backend E) ?dk (os_storage st')") fastforce+
  qed
  have first: "achieves ?R ?Q (map_request (\<lambda>r. case r of Inl e \<Rightarrow> Inl e | Inr p \<Rightarrow> lookup Inr p) (get_pair_request E ?mk ?dk)) st"
    if st: "both_held E contents ty oid mb db st" for st
    unfolding get_pair_request_def map_request_call
  proof (rule achieves_callI, goal_cases)
    case (1 st')
    note held = held_undisturbed [OF st 1]
    from got [OF _ held] raise second [OF held] show ?case
      by (cases "be_get (env_backend E) ?mk (os_storage st')") fastforce+
  qed
  show ?thesis
    unfolding get_object_request_def
  proof (rule achieves_callI, goal_cases)
    case (1 st')
    note held' = held_undisturbed [OF held 1]
    from known [OF held'] first [OF held'] show ?case by simp
  qed
qed

end

section \<open>No torn read\<close>

text \<open>Every blob at a key of the object is the one that the put writes there.\<close>

definition only_version :: "('s, 'h, 'a, 'b) StoreEnv \<Rightarrow> ObjectType \<Rightarrow> string \<Rightarrow> 'b \<Rightarrow> 'b \<Rightarrow> string \<Rightarrow> 'b \<Rightarrow> bool" where
  "only_version E ty oid mb db k b \<longleftrightarrow>
     (k = object_meta_key (env_config E) ty oid \<longrightarrow> b = mb) \<and> (k = main_key (env_config E) ty oid \<longrightarrow> b = db)"

text \<open>An answer to a get of the object: an exception of the backend, or the response for these contents.\<close>

definition answers_from ::
    "('s, 'h, 'a, 'b) StoreEnv \<Rightarrow> 'b \<Rightarrow> ('b \<times> 'b) option set \<Rightarrow> 'b incoming \<Rightarrow> 'b Message res \<Rightarrow> bool" where
  "answers_from E nb versions r a \<longleftrightarrow> (case r of (now, m, message) \<Rightarrow>
     (\<exists>e. a = Inl e \<and> backend_raises E e) \<or> a \<in> response_for E nb now message ` versions)"

context object_store
begin

lemma safe_all: "puts message \<or> asked message \<noteq> None \<or> safe (blobs_satisfy contents B) (\<lambda>a. True) (service_request E nb fr now m message)"
proof -
  have one: "safe (blobs_satisfy contents B) (\<lambda>a. True) (prefetch_one_request E now oid t)" for oid t
    by (auto simp: prefetch_one_request_def get_kv_request_def get_rag_request_def get_semantic_request_def get_tool_request_def
        get_plan_request_def intro!: safe_map safe_mono [OF safe_get_object] safe_mono [OF safe_get_meta])
  have "safe (blobs_satisfy contents B) (\<lambda>a. True) (prefetch_request E now ds seen results)" for ds seen results
    by (induction ds arbitrary: seen results) (auto split: option.split intro!: safe_and_then [OF one] safe_unless)
  then have "safe (blobs_satisfy contents B) (\<lambda>a. True) (PrefetchBatch_request E now ds)" for ds
    unfolding PrefetchBatch_request_def Let_def by (rule safe_and_then) (auto intro: safe_unless)
  then show ?thesis
    by (cases m; cases message) (auto simp: GetStats_request_def intro!: safe_map safe_mono [OF safe_delete]
        safe_mono [OF safe_list] safe_mono [OF safe_search] safe_mono [OF safe_stats])
qed

lemma safe_version:
  assumes pre: "prefixes_ok (env_config E)" and routed: "routed r" and ty: "data_ext ty \<noteq> None"
    and own: "\<And>now m message mb' db'. r = (now, m, message) \<Longrightarrow> written E message = Some (ty, oid, mb', db') \<Longrightarrow> mb' = mb \<and> db' = db"
  shows "safe (blobs_satisfy contents (only_version E ty oid mb db))
    (\<lambda>a. asked (snd (snd r)) = Some (ty, oid) \<longrightarrow> answers_from E nb {None, Some (mb, db)} r a) (request_of E nb fr r)"
proof -
  obtain now m message where r: "r = (now, m, message)" by (cases r)
  let ?I = "blobs_satisfy contents (only_version E ty oid mb db)"
  let ?Q = "\<lambda>a. asked message = Some (ty, oid) \<longrightarrow> answers_from E nb {None, Some (mb, db)} (now, m, message) a"
  have "safe ?I ?Q (service_request E nb fr now m message)"
  proof (cases "puts message")
    case True
    then have not_asked: "asked message = None" by (cases message) simp_all
    from True routed [unfolded r] show ?thesis
    proof (cases rule: put_cases [where E = E and nb = nb and fr = fr])
      case (raises e)
      then show ?thesis by (simp add: not_asked)
    next
      case (writes ty' oid' mb' db' idx)
      have "only_version E ty oid mb db (object_meta_key (env_config E) ty' oid') mb'
          \<and> only_version E ty oid mb db (main_key (env_config E) ty' oid') db'"
      proof (cases "(ty', oid') = (ty, oid)")
        case True
        with own [OF r, of mb' db'] writes(1) meta_main_neq [OF ty, of "env_config E" oid oid] show ?thesis
          by (auto simp: only_version_def object_meta_key_def)
      next
        case False
        have "k \<notin> object_keys (env_config E) ty' oid'" if "k \<in> object_keys (env_config E) ty oid" for k
          by (rule keys_apart [OF pre False that])
        then show ?thesis by (auto simp: only_version_def object_keys_def)
      qed
      then show ?thesis
        unfolding writes(3) by (intro safe_map safe_mono [OF safe_put_object]) (simp_all add: not_asked)
    qed
  next
    case put: False
    show ?thesis
    proof (cases "asked message")
      case None
      with put safe_all [of message "only_version E ty oid mb db" nb fr now m] show ?thesis by simp
    next
      case (Some t)
      obtain ty' oid' where t: "asked message = Some (ty', oid')" using Some by (cases t) simp
      show ?thesis
        unfolding get_request_asked [OF t routed [unfolded r]]
      proof (intro safe_map safe_mono [OF safe_get_object] impI)
        fix a
        assume "read_from E (only_version E ty oid mb db) ty' oid' Inr a" and "asked message = Some (ty, oid)"
        with t have "read_from E (only_version E ty oid mb db) ty oid Inr a" by simp
        then consider e where "a = Inl e" "backend_raises E e" | "a = Inr None" | "a = Inr (Some (mb, db))"
          by (auto simp: read_from_def only_version_def)
        then show "answers_from E nb {None, Some (mb, db)} (now, m, message)
            (case a of Inl e \<Rightarrow> Inl e | Inr p \<Rightarrow> response_for E nb now message p)"
          by cases (auto simp: answers_from_def)
      qed
    qed
  qed
  then show ?thesis by (simp add: r request_of_def)
qed

end

lemma written_pair: "written E message = Some (ty, oid, mb, db) \<Longrightarrow> data_ext ty \<noteq> None"
  by (drule written_typed, elim conjE, erule data_typed_pair)

context object_store
begin

lemma pool_untorn:
  assumes pre: "prefixes_ok (env_config E)" and "md_bloom_wf (os_metadata st)"
    and routed: "\<forall>r \<in> set rs. routed r" and "j < length rs" and put: "rs ! j = (now, m, message)" "written E message = Some (ty, oid, mb, db)"
    and others: "\<forall>i < length rs. i \<noteq> j \<longrightarrow> writes_elsewhere E ty oid (rs ! i)"
    and run: "served\<^sup>*\<^sup>* (map (request_of E nb fr) rs, st) (us, st2)"
    and absent: "\<forall>k \<in> object_keys (env_config E) ty oid. contents (os_storage st) k = None"
    and i: "i < length rs" "asked (snd (snd (rs ! i))) = Some (ty, oid)" "us ! i = Answered a"
  shows "answers_from E nb {None, Some (mb, db)} (rs ! i) a"
proof -
  let ?I = "blobs_satisfy contents (only_version E ty oid mb db)"
  let ?Q = "\<lambda>r a. asked (snd (snd r)) = Some (ty, oid) \<longrightarrow> answers_from E nb {None, Some (mb, db)} r a"
  have "safe ?I (?Q (rs ! l)) (request_of E nb fr (rs ! l))" if "l < length rs" for l
  proof (rule safe_version [OF pre _ written_pair [OF put(2)]])
    show "routed (rs ! l)" using routed that by simp
    show "mb' = mb \<and> db' = db" if "rs ! l = (now', m', message')" "written E message' = Some (ty, oid, mb', db')" for now' m' message' mb' db'
      using others \<open>l < length rs\<close> that put by (cases "l = j") (fastforce simp: writes_elsewhere_def)+
  qed
  then have all: "list_all2 (safe ?I) (map ?Q rs) (map (request_of E nb fr) rs)"
    by (simp add: list_all2_conv_all_nth)
  have start: "?I st" using absent by (auto simp: blobs_satisfy_def only_version_def object_keys_def)
  from served_safe [OF run, of ?I "map ?Q rs"] start all have "list_all2 (safe ?I) (map ?Q rs) us" by simp
  from list_all2_nthD [OF this, of i] i show ?thesis by simp
qed

lemma pool_settled:
  assumes pre: "prefixes_ok (env_config E)" and wf: "md_bloom_wf (os_metadata st)"
    and routed: "\<forall>r \<in> set rs. routed r" and j: "j < length rs" and put: "rs ! j = (now, m, message)" "written E message = Some (ty, oid, mb, db)"
    and others: "\<forall>i < length rs. i \<noteq> j \<longrightarrow> writes_elsewhere E ty oid (rs ! i)"
    and run1: "served\<^sup>*\<^sup>* (map (request_of E nb fr) rs, st) (qs, st1)" and run2: "served\<^sup>*\<^sup>* (qs, st1) (us, st2)"
    and kept: "\<forall>r \<in> set rs. deletes_elsewhere ty oid r" and answered: "qs ! j = Answered (Inr x)"
    and i: "i < length rs" "qs ! i = request_of E nb fr (rs ! i)" "asked (snd (snd (rs ! i))) = Some (ty, oid)" "us ! i = Answered a"
  shows "answers_from E nb {Some (mb, db)} (rs ! i) a"
proof -
  let ?R = "undisturbed E contents ty oid"
  obtain idx where p: "service_request E nb fr now m message = map_request (map_sum id (put_response message)) (put_object_request E ty oid mb db idx)"
    and idx: "indexing E oid idx"
    using put_request_written [OF put(2)] routed j put(1) by (metis nth_mem)
  have start: "achieves ?R (\<lambda>r st. \<forall>y. r = Inr y \<longrightarrow> both_held E contents ty oid mb db st) (map (request_of E nb fr) rs ! j) st"
    using j put(1) p achieves_put [OF written_pair [OF put(2)] idx wf, of mb db]
    by (auto simp: request_of_def map_res_eq intro!: achieves_map elim!: achieves_mono)
  have keeps: "keeps ?R (request_of E nb fr (rs ! l))" if "l < length rs" "l \<noteq> j" for l
    using that routed others kept by (intro keeps_service [OF pre]) simp_all
  from calm.served_achieves [OF run1, of j E contents ty oid] start keeps j
  have mid: "achieves ?R (\<lambda>r st. \<forall>y. r = Inr y \<longrightarrow> both_held E contents ty oid mb db st) (qs ! j) st1"
    and len: "length qs = length rs" and rest: "\<And>l. l < length qs \<Longrightarrow> l \<noteq> j \<Longrightarrow> keeps ?R (qs ! l)" by simp_all
  have held: "both_held E contents ty oid mb db st1" using calm.achieves_answered [OF mid [unfolded answered]] by simp
  obtain now' m' message' where r: "rs ! i = (now', m', message')" by (cases "rs ! i")
  let ?Q = "\<lambda>a (st :: ('s, 'h) UnifiedObjectStore). answers_from E nb {Some (mb, db)} (rs ! i) a"
  have g: "request_of E nb fr (rs ! i) = map_request (\<lambda>r. case r of Inl e \<Rightarrow> Inl e | Inr p \<Rightarrow> response_for E nb now' message' p)
      (get_object_request E ty oid Inr)"
    using get_request_asked [of message' ty oid now' m' E nb fr] routed i r by (metis nth_mem request_of_def prod.case snd_conv)
  have "achieves ?R ?Q (qs ! i) st1"
    unfolding i(2) g by (rule achieves_map, rule achieves_mono [OF achieves_get [OF held]]) (auto simp: answers_from_def r)
  moreover have "keeps ?R (qs ! l)" if "l < length qs" "l \<noteq> i" for l
    using rest [OF that(1)] answered by (cases "l = j") simp_all
  ultimately have "achieves ?R ?Q (us ! i) st2"
    using calm.served_achieves [OF run2, of i E contents ty oid ?Q] len i(1) by simp
  from calm.achieves_answered [OF this [unfolded i(4)]] show ?thesis .
qed

end

section \<open>Puts on a backend that does not raise\<close>

context total_store
begin

lemma achieves_put_total:
  assumes ty: "data_ext ty \<noteq> None" and idx: "indexing E oid idx" "surely_indexes ty idx" and wf: "md_bloom_wf (os_metadata st)"
  shows "achieves (undisturbed E contents ty oid)
    (\<lambda>r st. both_held E contents ty oid mb db st \<and> (r = Inr oid \<or> (ty = SEMANTIC_CACHE \<and> (\<exists>e. r = Inl e))))
    (put_object_request E ty oid mb db idx) st"
    (is "achieves ?R ?Q _ _")
proof -
  let ?mk = "object_meta_key (env_config E) ty oid" and ?dk = "main_key (env_config E) ty oid"
  have neq: "?dk \<noteq> ?mk" using meta_main_neq [OF ty, of "env_config E" oid oid] by (simp add: object_meta_key_def)
  have index: "achieves ?R ?Q (call (index_call idx) (\<lambda>q. unless_raised q (\<lambda>_. Answered (Inr oid)))) st"
    if st: "contents (os_storage st) ?mk = Some mb" "contents (os_storage st) ?dk = Some db" "md_bloom_wf (os_metadata st)" for st
  proof (rule achieves_callI)
    fix st'
    assume go: "?R st st'"
    obtain q md' where q: "idx (os_metadata st') = (q, md')" by fastforce
    have "indexes (env_runtime E) oid (os_metadata st') md'" using idx(1) [unfolded indexing_def, rule_format, of "os_metadata st'"] q by simp
    with undisturbed_keys [OF go] st have held: "both_held E contents ty oid mb db (st'\<lparr>os_metadata := md'\<rparr>)"
      by (simp add: both_held_def indexes_def md_grows_def)
    have sure: "ty = SEMANTIC_CACHE \<or> q = Inr ()" using idx(2) q unfolding surely_indexes_def by (metis fst_conv)
    have later: "\<forall>s'. ?R (st'\<lparr>os_metadata := md'\<rparr>) s' \<longrightarrow> both_held E contents ty oid mb db s'"
      using held_undisturbed [OF held] by blast
    show "achieves ?R ?Q (unless_raised (fst (index_call idx st')) (\<lambda>_. Answered (Inr oid))) (snd (index_call idx st'))"
      unfolding calls q prod.sel using sure later by (cases q) simp_all
  qed
  have data: "achieves ?R ?Q (call (backend_call (be_put (env_backend E) ?dk db None)) (\<lambda>r. and_then (case r of
       Inr _ \<Rightarrow> Answered (Inr ())
     | Inl e \<Rightarrow> call (backend_call (be_delete (env_backend E) ?mk)) (\<lambda>q. unless_raised q (\<lambda>_. Answered (Inl e))))
      (\<lambda>r. unless_raised r (\<lambda>_. call (index_call idx) (\<lambda>q. unless_raised q (\<lambda>_. Answered (Inr oid))))))) st"
    if st: "contents (os_storage st) ?mk = Some mb" "md_bloom_wf (os_metadata st)" for st
  proof (rule achieves_callI, goal_cases)
    case (1 st')
    obtain s' where put: "be_put (env_backend E) ?dk db None (os_storage st') = (Inr (), s')"
      and "contents s' = (contents (os_storage st'))(?dk \<mapsto> db)" using put_eq by blast
    with undisturbed_keys [OF 1] st neq have "achieves ?R ?Q (call (index_call idx) (\<lambda>q. unless_raised q (\<lambda>_. Answered (Inr oid))))
        (st'\<lparr>os_storage := s'\<rparr>)" by (intro index) simp_all
    with put show ?case by simp
  qed
  show ?thesis
    unfolding put_object_request_def put_pair_request_def and_then_call
  proof (rule achieves_callI, goal_cases)
    case (1 st')
    obtain s' where put: "be_put (env_backend E) ?mk mb None (os_storage st') = (Inr (), s')"
      and "contents s' = (contents (os_storage st'))(?mk \<mapsto> mb)" using put_eq by blast
    with undisturbed_keys(3) [OF 1 wf]
    have "contents (os_storage (st'\<lparr>os_storage := s'\<rparr>)) ?mk = Some mb" "md_bloom_wf (os_metadata (st'\<lparr>os_storage := s'\<rparr>))"
      by simp_all
    from data [OF this] put show ?case by (simp add: and_then_call)
  qed
qed

lemma get_held_alone:
  assumes "both_held E contents ty oid mb db st" and "asked message = Some (ty, oid)" and "routed (now, m, message)"
  shows "alone (service_request E nb fr now m message) st = (response_for E nb now message (Some (mb, db)), st)"
  unfolding get_request_asked [OF assms(2,3)] using assms(1)
  by (simp add: alone_map get_object_request_def get_pair_request_def request_simps both_held_def get_eq)

lemma pool_put_settles:
  assumes pre: "prefixes_ok (env_config E)" and wf: "md_bloom_wf (os_metadata st)"
    and routed: "\<forall>r \<in> set rs. routed r" and j: "j < length rs" and put: "rs ! j = (now, m, message)" "written E message = Some (ty, oid, mb, db)"
    and others: "\<forall>i < length rs. i \<noteq> j \<longrightarrow> writes_elsewhere E ty oid (rs ! i)" and kept: "\<forall>r \<in> set rs. deletes_elsewhere ty oid r"
    and run: "served\<^sup>*\<^sup>* (map (request_of E nb fr) rs, st) (qs, st')" and at: "qs ! j = Answered a"
  shows "both_held E contents ty oid mb db st' \<and> (a = Inr (put_response message oid) \<or> (ty = SEMANTIC_CACHE \<and> (\<exists>e. a = Inl e)))"
proof -
  let ?R = "undisturbed E contents ty oid"
  let ?Q = "\<lambda>a st. both_held E contents ty oid mb db st \<and> (a = Inr (put_response message oid) \<or> (ty = SEMANTIC_CACHE \<and> (\<exists>e. a = Inl e)))"
  have "routed (now, m, message)" using routed j put(1) by (metis nth_mem)
  from put_request_surely [OF put(2) this, of nb fr] obtain idx where
    p: "service_request E nb fr now m message = map_request (map_sum id (put_response message)) (put_object_request E ty oid mb db idx)"
    and idx: "indexing E oid idx" "surely_indexes ty idx" by blast
  have "achieves ?R ?Q (map (request_of E nb fr) rs ! j) st"
    using j put(1) p achieves_put_total [OF written_pair [OF put(2)] idx wf, of mb db]
    by (auto simp: request_of_def intro!: achieves_map elim!: achieves_mono)
  moreover have "keeps ?R (request_of E nb fr (rs ! l))" if "l < length rs" "l \<noteq> j" for l
    using that routed others kept by (intro objs.keeps_service [OF pre]) simp_all
  ultimately have "achieves ?R ?Q (qs ! j) st'"
    using calm.served_achieves [OF run, of j E contents ty oid ?Q] j by simp
  from calm.achieves_answered [OF this [unfolded at]] show ?thesis .
qed

end

section \<open>Properties\<close>

text \<open>C5: Among any requests of the service under any schedule, over any backend, S3 included, one puts a KV block, a chunk or an entry, and no other
  request puts that id.  When the object was not stored before, a get of it answers that there is none or the whole object, both blobs of the put,
  unless the backend raises or a number of it does not fit its field of the response, also when requests delete it.  Whether or not it was stored before, when no request deletes it, a get that starts after the
  put has answered its id gives the whole object that was put, with the same exceptions.\<close>

theorem service_put_atomic:
  assumes "object_store E contents" and "prefixes_ok (env_config E)" and "md_bloom_wf (os_metadata st)"
    and "\<forall>r \<in> set rs. routed r" and "j < length rs" and "rs ! j = (now, m, message)" and "written E message = Some (ty, oid, mb, db)"
    and "\<forall>i < length rs. i \<noteq> j \<longrightarrow> writes_elsewhere E ty oid (rs ! i)"
    and "served\<^sup>*\<^sup>* (map (request_of E nb fr) rs, st) (qs, st1)" and "served\<^sup>*\<^sup>* (qs, st1) (us, st2)"
    and "i < length rs" and "asked (snd (snd (rs ! i))) = Some (ty, oid)" and "us ! i = Answered a"
  shows "((\<forall>k \<in> object_keys (env_config E) ty oid. contents (os_storage st) k = None) \<longrightarrow>
      answers_from E nb {None, Some (mb, db)} (rs ! i) a)
    \<and> ((\<forall>r \<in> set rs. deletes_elsewhere ty oid r) \<and> (\<exists>x. qs ! j = Answered (Inr x)) \<and> qs ! i = request_of E nb fr (rs ! i) \<longrightarrow>
      answers_from E nb {Some (mb, db)} (rs ! i) a)"
proof (intro conjI impI)
  assume absent: "\<forall>k \<in> object_keys (env_config E) ty oid. contents (os_storage st) k = None"
  show "answers_from E nb {None, Some (mb, db)} (rs ! i) a"
    by (rule object_store.pool_untorn [OF assms(1-8) rtranclp_trans [OF assms(9,10)] absent assms(11-13)])
next
  assume "(\<forall>r \<in> set rs. deletes_elsewhere ty oid r) \<and> (\<exists>x. qs ! j = Answered (Inr x)) \<and> qs ! i = request_of E nb fr (rs ! i)"
  then obtain x where "\<forall>r \<in> set rs. deletes_elsewhere ty oid r" "qs ! j = Answered (Inr x)" "qs ! i = request_of E nb fr (rs ! i)" by blast
  from object_store.pool_settled [OF assms(1-10) this(1,2) assms(11) this(3) assms(12,13)]
  show "answers_from E nb {Some (mb, db)} (rs ! i) a" .
qed

lemma service_put_atomic_witness:
  "\<exists>a st2 mb db. served\<^sup>*\<^sup>* (map sample_request sample_pool, sample_store) ([Answered (Inr (M_PutKVBlockResponse ''blk'')), Answered a], st2)
     \<and> written sample_env (M_PutKVBlockRequest sample_put) = Some (KV_CACHE, ''blk'', mb, db)
     \<and> answers_from sample_env (Blob_array []) {Some (mb, db)} (7, Meth_GetKVBlock, M_GetKVBlockRequest ''blk'') a"
proof -
  obtain st1 a st2 where run1: "served\<^sup>*\<^sup>* (map sample_request sample_pool, sample_store)
       ([Answered (Inr (M_PutKVBlockResponse ''blk'')), sample_request (7, Meth_GetKVBlock, M_GetKVBlockRequest ''blk'')], st1)"
    and run2: "served\<^sup>*\<^sup>* ([Answered (Inr (M_PutKVBlockResponse ''blk'')), sample_request (7, Meth_GetKVBlock, M_GetKVBlockRequest ''blk'')], st1)
       ([Answered (Inr (M_PutKVBlockResponse ''blk'')), Answered a], st2)"
    using sample_run by blast
  obtain mb db where w: "written sample_env (M_PutKVBlockRequest sample_put) = Some (KV_CACHE, ''blk'', mb, db)"
    using sample_written by blast
  have wf: "md_bloom_wf (os_metadata sample_store)" using sample_fresh by (simp add: fresh_store_def)
  have routed: "\<forall>r \<in> set sample_pool. routed r" by (simp add: sample_pool_def routed_def)
  have others: "\<forall>i < length sample_pool. i \<noteq> 0 \<longrightarrow> writes_elsewhere sample_env KV_CACHE ''blk'' (sample_pool ! i)"
    by (auto simp: sample_pool_def writes_elsewhere_def less_Suc_eq)
  have "answers_from sample_env (Blob_array []) {Some (mb, db)} (sample_pool ! 1) a"
    using service_put_atomic [OF sample_objects _ wf routed _ _ w others run1 run2, of 7 Meth_PutKVBlock 1 a]
    by (auto simp: sample_pool_def deletes_elsewhere_def)
  moreover have "sample_pool ! 1 = (7, Meth_GetKVBlock, M_GetKVBlockRequest ''blk'')" by (simp add: sample_pool_def)
  ultimately show ?thesis using w rtranclp_trans [OF run1 run2] by auto
qed

text \<open>C7: Among requests of the service, over a backend that never raises, one puts a KV block, a chunk or an entry, the only put of its id, and none
  deletes it.  Under every schedule the requests come to an end, after no more calls than the bound of each message allows; and where no request
  can go on, the put has answered the id (only that of an entry may instead raise, when the index refuses its embedding), both its blobs are stored
  as they were sent, the filter knows the id, and any get of it is answered with the object, or with the error that a number of it does not fit its
  field of the response.\<close>

theorem service_put_settles:
  assumes "total_store E contents" and "prefixes_ok (env_config E)" and "md_bloom_wf (os_metadata st)"
    and "\<forall>r \<in> set rs. routed r" and "j < length rs" and "rs ! j = (now, m, message)" and "written E message = Some (ty, oid, mb, db)"
    and "\<forall>i < length rs. i \<noteq> j \<longrightarrow> writes_elsewhere E ty oid (rs ! i)" and "\<forall>r \<in> set rs. deletes_elsewhere ty oid r"
    and "(served ^^ n) (map (request_of E nb fr) rs, st) (qs, st')"
  shows "n \<le> most_work rs
    \<and> ((\<nexists>q. served (qs, st') q) \<longrightarrow>
        (qs ! j = Answered (Inr (put_response message oid)) \<or> (ty = SEMANTIC_CACHE \<and> (\<exists>e. qs ! j = Answered (Inl e))))
        \<and> stored_pair contents (env_config E) ty oid (os_storage st') = Some (mb, db)
        \<and> might_exist (env_runtime E) oid (os_metadata st')
        \<and> (\<forall>now' m' message'. asked message' = Some (ty, oid) \<and> routed (now', m', message') \<longrightarrow>
             fst (alone (service_request E nb fr now' m' message') st') = response_for E nb now' message' (Some (mb, db))))"
proof (rule conjI)
  show "n \<le> most_work rs" using served_bounded [OF assms(10) pool_calls] by (simp add: most_work_def)
next
  have run: "served\<^sup>*\<^sup>* (map (request_of E nb fr) rs, st) (qs, st')" using assms(10) by (rule relpowp_imp_rtranclp)
  have len: "length qs = length rs" using served_steps_length [OF assms(10)] by simp
  show "(\<nexists>q. served (qs, st') q) \<longrightarrow>
        (qs ! j = Answered (Inr (put_response message oid)) \<or> (ty = SEMANTIC_CACHE \<and> (\<exists>e. qs ! j = Answered (Inl e))))
        \<and> stored_pair contents (env_config E) ty oid (os_storage st') = Some (mb, db)
        \<and> might_exist (env_runtime E) oid (os_metadata st')
        \<and> (\<forall>now' m' message'. asked message' = Some (ty, oid) \<and> routed (now', m', message') \<longrightarrow>
             fst (alone (service_request E nb fr now' m' message') st') = response_for E nb now' message' (Some (mb, db)))"
  proof
    assume "\<nexists>q. served (qs, st') q"
    then have "answered (qs ! j)" unfolding served_stuck using len assms(5) by (metis nth_mem)
    then obtain a where a: "qs ! j = Answered a" by (cases "qs ! j") simp_all
    note settled = total_store.pool_put_settles [OF assms(1-9) run a]
    then have held: "both_held E contents ty oid mb db st'" by blast
    then show "(qs ! j = Answered (Inr (put_response message oid)) \<or> (ty = SEMANTIC_CACHE \<and> (\<exists>e. qs ! j = Answered (Inl e))))
        \<and> stored_pair contents (env_config E) ty oid (os_storage st') = Some (mb, db)
        \<and> might_exist (env_runtime E) oid (os_metadata st')
        \<and> (\<forall>now' m' message'. asked message' = Some (ty, oid) \<and> routed (now', m', message') \<longrightarrow>
             fst (alone (service_request E nb fr now' m' message') st') = response_for E nb now' message' (Some (mb, db)))"
      using settled a total_store.get_held_alone [OF assms(1) held] by (auto simp: both_held_def stored_pair_def)
  qed
qed

lemma service_put_settles_witness:
  "\<exists>n a st2 mb db. (served ^^ n) (map sample_request sample_pool, sample_store) ([Answered (Inr (M_PutKVBlockResponse ''blk'')), Answered a], st2)
     \<and> n \<le> 6 \<and> written sample_env (M_PutKVBlockRequest sample_put) = Some (KV_CACHE, ''blk'', mb, db)
     \<and> fst (alone (sample_request (9, Meth_GetKVBlock, M_GetKVBlockRequest ''blk'')) st2)
         = response_for sample_env (Blob_array []) 9 (M_GetKVBlockRequest ''blk'') (Some (mb, db))"
proof -
  obtain a st2 where "served\<^sup>*\<^sup>* (map sample_request sample_pool, sample_store) ([Answered (Inr (M_PutKVBlockResponse ''blk'')), Answered a], st2)"
    using sample_run by (meson rtranclp_trans)
  then obtain n where run: "(served ^^ n) (map sample_request sample_pool, sample_store)
      ([Answered (Inr (M_PutKVBlockResponse ''blk'')), Answered a], st2)" using rtranclp_imp_relpowp by metis
  obtain mb db where w: "written sample_env (M_PutKVBlockRequest sample_put) = Some (KV_CACHE, ''blk'', mb, db)"
    using sample_written by blast
  have wf: "md_bloom_wf (os_metadata sample_store)" using sample_fresh by (simp add: fresh_store_def)
  have routed: "\<forall>r \<in> set sample_pool. routed r" by (simp add: sample_pool_def routed_def)
  have others: "\<forall>i < length sample_pool. i \<noteq> 0 \<longrightarrow> writes_elsewhere sample_env KV_CACHE ''blk'' (sample_pool ! i)"
    by (auto simp: sample_pool_def writes_elsewhere_def less_Suc_eq)
  have kept: "\<forall>r \<in> set sample_pool. deletes_elsewhere KV_CACHE ''blk'' r" by (auto simp: sample_pool_def deletes_elsewhere_def)
  have stuck: "\<nexists>q. served ([Answered (Inr (M_PutKVBlockResponse ''blk'')), Answered a], st2) q"
    by (rule served_stuck [THEN iffD2]) simp
  have at: "prefixes_ok (env_config sample_env)" "0 < length sample_pool"
    "sample_pool ! 0 = (7, Meth_PutKVBlock, M_PutKVBlockRequest sample_put)" by (simp_all add: sample_pool_def)
  note settled = service_put_settles [OF sample_total at(1) wf routed at(2,3) w others kept run]
  have "most_work sample_pool = 6" by (simp add: most_work_def sample_pool_def)
  with settled have "n \<le> 6" by simp
  moreover have "fst (alone (service_request sample_env (Blob_array []) (\<lambda>q. []) 9 Meth_GetKVBlock (M_GetKVBlockRequest ''blk'')) st2)
      = response_for sample_env (Blob_array []) 9 (M_GetKVBlockRequest ''blk'') (Some (mb, db))"
    by (rule settled [THEN conjunct2, THEN mp, OF stuck, THEN conjunct2, THEN conjunct2, THEN conjunct2, rule_format])
      (simp add: routed_def)
  ultimately show ?thesis using run w by (auto simp: request_of_def)
qed

end
