(* ===== verification/Server.thy ===== *)
theory Server
  imports Rpc
begin

text \<open>
  Start-up: \<^verbatim>\<open>L3Config.from_yaml\<close> of \<^verbatim>\<open>utils/config.py\<close>, \<^verbatim>\<open>build_store\<close> and \<^verbatim>\<open>serve\<close> of \<^verbatim>\<open>api/grpc_server.py\<close>, and the
  command line of \<^verbatim>\<open>server.py\<close>.  The YAML parser, pydantic's conversion of single fields, \<^verbatim>\<open>argparse\<close>'s reading of
  the arguments by the parser that \<open>build_parser\<close> describes, and boto3's client are parameters.
\<close>

section \<open>Reading a configuration\<close>

text \<open>What pydantic makes of a value for a field of type \<^verbatim>\<open>str\<close> or \<^verbatim>\<open>int\<close>; a value of that type is kept.\<close>

record Pydantic =
  str_field :: "json \<Rightarrow> string res"
  int_field :: "json \<Rightarrow> int res"

definition pydantic_ok :: "Pydantic \<Rightarrow> bool" where
  "pydantic_ok V \<longleftrightarrow> (\<forall>s. str_field V (JStr s) = Inr s) \<and> (\<forall>i. int_field V (JInt i) = Inr i)"

text \<open>A field of a model: the default when it is missing; keys that are no field are ignored; a model is read from a mapping.\<close>

definition read_field :: "(json \<Rightarrow> 'x res) \<Rightarrow> 'x \<Rightarrow> string \<Rightarrow> (string, json) dict \<Rightarrow> 'x res" where
  "read_field conv def name d = (case dget d name of None \<Rightarrow> Inr def | Some j \<Rightarrow> conv j)"

definition read_model :: "((string, json) dict \<Rightarrow> 'm res) \<Rightarrow> json \<Rightarrow> 'm res" where
  "read_model f raw = (case raw of JDict d \<Rightarrow> f d | _ \<Rightarrow> Inl (ValueError ''ValidationError: Input should be a valid dictionary''))"

definition read_storage :: "Pydantic \<Rightarrow> json \<Rightarrow> StorageConfig res" where
  "read_storage V = read_model (\<lambda>d. let def = l3_storage default_config in
     case read_field (str_field V) (cf_backend def) ''backend'' d of Inl e \<Rightarrow> Inl e | Inr backend \<Rightarrow>
     (case read_field (str_field V) (cf_endpoint_url def) ''endpoint_url'' d of Inl e \<Rightarrow> Inl e | Inr endpoint_url \<Rightarrow>
     (case read_field (str_field V) (cf_access_key def) ''access_key'' d of Inl e \<Rightarrow> Inl e | Inr access_key \<Rightarrow>
     (case read_field (str_field V) (cf_secret_key def) ''secret_key'' d of Inl e \<Rightarrow> Inl e | Inr secret_key \<Rightarrow>
     (case read_field (str_field V) (cf_bucket def) ''bucket'' d of Inl e \<Rightarrow> Inl e | Inr bucket \<Rightarrow>
     (case read_field (str_field V) (cf_region def) ''region'' d of Inl e \<Rightarrow> Inl e | Inr region \<Rightarrow>
        Inr \<lparr>cf_backend = backend, cf_endpoint_url = endpoint_url, cf_access_key = access_key,
          cf_secret_key = secret_key, cf_bucket = bucket, cf_region = region\<rparr>))))))"

definition read_kv_cache :: "Pydantic \<Rightarrow> json \<Rightarrow> KVCacheConfig res" where
  "read_kv_cache V = read_model (\<lambda>d. let def = oc_kv_cache (l3_objects default_config) in
     case read_field (int_field V) (kvc_block_size def) ''block_size'' d of Inl e \<Rightarrow> Inl e | Inr block_size \<Rightarrow>
     (case read_field (str_field V) (kvc_key_prefix def) ''key_prefix'' d of Inl e \<Rightarrow> Inl e | Inr key_prefix \<Rightarrow>
        Inr \<lparr>kvc_block_size = block_size, kvc_key_prefix = key_prefix\<rparr>))"

definition read_rag :: "Pydantic \<Rightarrow> json \<Rightarrow> RAGConfig res" where
  "read_rag V = read_model (\<lambda>d. map_sum id (\<lambda>p. \<lparr>ragc_key_prefix = p\<rparr>)
     (read_field (str_field V) (ragc_key_prefix (oc_rag (l3_objects default_config))) ''key_prefix'' d))"

definition read_semantic_cache :: "Pydantic \<Rightarrow> json \<Rightarrow> SemanticCacheConfig res" where
  "read_semantic_cache V = read_model (\<lambda>d. map_sum id (\<lambda>p. \<lparr>semc_key_prefix = p\<rparr>)
     (read_field (str_field V) (semc_key_prefix (oc_semantic_cache (l3_objects default_config))) ''key_prefix'' d))"

definition read_agent :: "Pydantic \<Rightarrow> json \<Rightarrow> AgentObjectsConfig res" where
  "read_agent V = read_model (\<lambda>d. let def = oc_agent (l3_objects default_config) in
     case read_field (str_field V) (workflows_prefix def) ''workflows_prefix'' d of Inl e \<Rightarrow> Inl e | Inr w \<Rightarrow>
     (case read_field (str_field V) (steps_prefix def) ''steps_prefix'' d of Inl e \<Rightarrow> Inl e | Inr s \<Rightarrow>
     (case read_field (str_field V) (tools_prefix def) ''tools_prefix'' d of Inl e \<Rightarrow> Inl e | Inr t \<Rightarrow>
     (case read_field (str_field V) (plans_prefix def) ''plans_prefix'' d of Inl e \<Rightarrow> Inl e | Inr p \<Rightarrow>
     (case read_field (str_field V) (traces_prefix def) ''traces_prefix'' d of Inl e \<Rightarrow> Inl e | Inr r \<Rightarrow>
        Inr \<lparr>workflows_prefix = w, steps_prefix = s, tools_prefix = t, plans_prefix = p, traces_prefix = r\<rparr>)))))"

definition read_objects :: "Pydantic \<Rightarrow> json \<Rightarrow> ObjectsConfig res" where
  "read_objects V = read_model (\<lambda>d. let def = l3_objects default_config in
     case read_field (read_kv_cache V) (oc_kv_cache def) ''kv_cache'' d of Inl e \<Rightarrow> Inl e | Inr kv_cache \<Rightarrow>
     (case read_field (read_rag V) (oc_rag def) ''rag'' d of Inl e \<Rightarrow> Inl e | Inr rag \<Rightarrow>
     (case read_field (read_semantic_cache V) (oc_semantic_cache def) ''semantic_cache'' d of Inl e \<Rightarrow> Inl e | Inr sem \<Rightarrow>
     (case read_field (read_agent V) (oc_agent def) ''agent'' d of Inl e \<Rightarrow> Inl e | Inr agent \<Rightarrow>
        Inr \<lparr>oc_kv_cache = kv_cache, oc_rag = rag, oc_semantic_cache = sem, oc_agent = agent\<rparr>))))"

definition model_validate :: "Pydantic \<Rightarrow> json \<Rightarrow> L3Config res" where
  "model_validate V = read_model (\<lambda>d.
     case read_field (read_storage V) (l3_storage default_config) ''storage'' d of Inl e \<Rightarrow> Inl e | Inr st \<Rightarrow>
     (case read_field (read_objects V) (l3_objects default_config) ''objects'' d of Inl e \<Rightarrow> Inl e | Inr objs \<Rightarrow>
        Inr \<lparr>l3_storage = st, l3_objects = objs\<rparr>))"

text \<open>\<open>open_file\<close> is the text of a file, \<open>safe_load\<close> is \<^verbatim>\<open>yaml.safe_load\<close>.\<close>

definition from_yaml :: "Pydantic \<Rightarrow> (string \<Rightarrow> string res) \<Rightarrow> (string \<Rightarrow> json res) \<Rightarrow> string \<Rightarrow> L3Config res" where
  "from_yaml V open_file safe_load path =
     (case open_file path of Inl e \<Rightarrow> Inl e | Inr txt \<Rightarrow>
     (case safe_load txt of Inl e \<Rightarrow> Inl e | Inr raw \<Rightarrow> model_validate V raw))"

text \<open>The file \<^verbatim>\<open>configs/default.yaml\<close> as it is loaded.\<close>

definition default_yaml :: json where
  "default_yaml = JDict [
     (''storage'', JDict [(''backend'', JStr ''s3''), (''endpoint_url'', JStr ''http://localhost:9000''),
        (''access_key'', JStr ''minioadmin''), (''secret_key'', JStr ''minioadmin''),
        (''bucket'', JStr ''l3-llm-store''), (''region'', JStr ''us-east-1'')]),
     (''objects'', JDict [
        (''kv_cache'', JDict [(''block_size'', JInt 16), (''key_prefix'', JStr ''kv/'')]),
        (''rag'', JDict [(''key_prefix'', JStr ''rag/'')]),
        (''semantic_cache'', JDict [(''key_prefix'', JStr ''sem/'')]),
        (''agent'', JDict [(''workflows_prefix'', JStr ''agent/workflows/''), (''steps_prefix'', JStr ''agent/steps/''),
           (''tools_prefix'', JStr ''agent/tools/''), (''plans_prefix'', JStr ''agent/plans/''),
           (''traces_prefix'', JStr ''agent/traces/'')])])]"

lemmas read_defs = model_validate_def read_objects_def read_agent_def read_semantic_cache_def read_rag_def
  read_kv_cache_def read_storage_def read_model_def read_field_def

text \<open>The shipped file, and a file with an empty mapping, give the defaults; an empty file is refused.\<close>

lemma shipped_config:
  assumes "pydantic_ok V"
  shows "model_validate V default_yaml = Inr default_config"
    and "model_validate V (JDict []) = Inr default_config"
    and "\<exists>e. model_validate V JNull = Inl e"
  using assms by (simp_all add: read_defs default_yaml_def default_config_def pydantic_ok_def)

section \<open>Serving\<close>

text \<open>The environment is what the process was built with, less the backend and the configuration.\<close>

definition build_store ::
    "('c, 'h, 'a, 'b) StoreEnv \<Rightarrow> ('c, 'b) S3Client \<Rightarrow> 'c boto3_client \<Rightarrow> ('b \<Rightarrow> nat)
       \<Rightarrow> (json \<Rightarrow> string) \<Rightarrow> L3Config \<Rightarrow> (('c, 'h, 'a, 'b) StoreEnv \<times> ('c, 'h) UnifiedObjectStore) res" where
  "build_store E C make_client blen py_str config =
     (let st = l3_storage config
      in case s3_init make_client C blen py_str (cf_endpoint_url st) (cf_access_key st) (cf_secret_key st) (cf_bucket st)
                (cf_region st) of
           Inl e \<Rightarrow> Inl e
         | Inr (c, backend) \<Rightarrow>
             (let E' = E\<lparr>env_backend := backend, env_config := config\<rparr>
              in map_sum id (\<lambda>store. (E', store)) (store_init E' c None)))"

record ('c, 'h, 'a, 'b) RunningServer =
  rs_env :: "('c, 'h, 'a, 'b) StoreEnv"
  rs_store :: "('c, 'h) UnifiedObjectStore"
  rs_server :: "('b, ('c, 'h) UnifiedObjectStore) Server"
  rs_workers :: int
  rs_address :: string
  rs_waited :: bool

text \<open>\<open>nb\<close> is the empty byte string, \<open>fr\<close> prints floats, \<open>now\<close> is the time of a call; \<open>add_port\<close> is \<^verbatim>\<open>add_insecure_port\<close>.\<close>

definition serve ::
    "('c, 'h, 'a, 'b) StoreEnv \<Rightarrow> ('c, 'b) S3Client \<Rightarrow> 'c boto3_client \<Rightarrow> ('b \<Rightarrow> nat)
       \<Rightarrow> (json \<Rightarrow> string) \<Rightarrow> 'b \<Rightarrow> (rat \<Rightarrow> string) \<Rightarrow> rat \<Rightarrow> (string \<Rightarrow> unit res)
       \<Rightarrow> L3Config \<Rightarrow> string \<Rightarrow> int \<Rightarrow> int \<Rightarrow> bool \<Rightarrow> ('c, 'h, 'a, 'b) RunningServer res" where
  "serve E C make_client blen py_str nb fr now add_port config host port max_workers wait =
     (case build_store E C make_client blen py_str config of
        Inl e \<Rightarrow> Inl e
      | Inr (E', store) \<Rightarrow>
          if max_workers \<le> 0 then Inl (ValueError ''max_workers must be greater than 0'')
          else (let server = add_L3ServiceServicer_to_server (servicer_method (L3ServiceImpl E' nb now fr)) new_server;
                    address = host @ '':'' @ int_str port
                in case add_port address of
                     Inl e \<Rightarrow> Inl e
                   | Inr _ \<Rightarrow> Inr \<lparr>rs_env = E', rs_store = store, rs_server = server, rs_workers = max_workers,
                       rs_address = address, rs_waited = wait\<rparr>))"

section \<open>The command line\<close>

record OptionSpec =
  op_flag :: string
  op_type :: string
  op_default :: json
  op_choices :: "string list option"

record ParserSpec =
  ps_prog :: string
  ps_dest :: string
  ps_commands :: "(string, OptionSpec list) dict"

definition build_parser :: ParserSpec where
  "build_parser = \<lparr>ps_prog = ''l3-store'', ps_dest = ''command'', ps_commands = [(''serve'', [
     \<lparr>op_flag = ''--config'', op_type = ''Path'', op_default = JStr ''configs/default.yaml'', op_choices = None\<rparr>,
     \<lparr>op_flag = ''--host'', op_type = ''str'', op_default = JStr ''[::]'', op_choices = None\<rparr>,
     \<lparr>op_flag = ''--port'', op_type = ''int'', op_default = JInt 50051, op_choices = None\<rparr>,
     \<lparr>op_flag = ''--max-workers'', op_type = ''int'', op_default = JInt 10, op_choices = None\<rparr>,
     \<lparr>op_flag = ''--log-level'', op_type = ''str'', op_default = JStr ''INFO'',
       op_choices = Some [''DEBUG'', ''INFO'', ''WARNING'', ''ERROR'', ''CRITICAL'']\<rparr>])]\<rparr>"

record Namespace =
  ns_command :: "string option"
  ns_config :: string
  ns_host :: string
  ns_port :: int
  ns_max_workers :: int
  ns_log_level :: string

text \<open>\<open>parse_args\<close> reads the arguments as \<^verbatim>\<open>argparse\<close> does for a parser; without a command the program prints its help.\<close>

definition main ::
    "(ParserSpec \<Rightarrow> string list \<Rightarrow> Namespace res) \<Rightarrow> Pydantic \<Rightarrow> (string \<Rightarrow> string res) \<Rightarrow> (string \<Rightarrow> json res)
       \<Rightarrow> ('c, 'h, 'a, 'b) StoreEnv \<Rightarrow> ('c, 'b) S3Client \<Rightarrow> 'c boto3_client \<Rightarrow> ('b \<Rightarrow> nat)
       \<Rightarrow> (json \<Rightarrow> string) \<Rightarrow> 'b \<Rightarrow> (rat \<Rightarrow> string) \<Rightarrow> rat \<Rightarrow> (string \<Rightarrow> unit res)
       \<Rightarrow> string list \<Rightarrow> ('c, 'h, 'a, 'b) RunningServer option res" where
  "main parse_args V open_file safe_load E C make_client blen py_str nb fr now add_port argv =
     (case parse_args build_parser argv of
        Inl e \<Rightarrow> Inl e
      | Inr args \<Rightarrow>
          if ns_command args \<noteq> Some ''serve'' then Inr None
          else (case from_yaml V open_file safe_load (ns_config args) of
                  Inl e \<Rightarrow> Inl e
                | Inr config \<Rightarrow>
                    map_sum id Some (serve E C make_client blen py_str nb fr now add_port config
                      (ns_host args) (ns_port args) (ns_max_workers args) True)))"

lemma map_sum_Inr: "map_sum id f r = Inr x \<longleftrightarrow> (\<exists>y. r = Inr y \<and> x = f y)"
  by (cases r) auto

text \<open>
  A server that came up answers calls of the generated stub with the service on the store that was
  built from the configuration, over the bucket the configuration names.
\<close>

lemma serve_answers:
  assumes "serve E C make_client blen py_str nb fr now add_port config host port workers wait = Inr rs"
    and "grpc_link P channel (rs_server rs)"
  shows "generated_stub P channel = service_stub (rs_env rs) nb now
    \<and> env_config (rs_env rs) = config
    \<and> env_backend (rs_env rs) = s3_backend C (cf_bucket (l3_storage config)) blen py_str
    \<and> rs_address rs = host @ '':'' @ int_str port"
proof -
  from assms(1) have "rs_server rs = add_L3ServiceServicer_to_server (servicer_method (L3ServiceImpl (rs_env rs) nb now fr)) new_server
      \<and> env_config (rs_env rs) = config \<and> env_backend (rs_env rs) = s3_backend C (cf_bucket (l3_storage config)) blen py_str
      \<and> rs_address rs = host @ '':'' @ int_str port"
    by (auto simp: serve_def build_store_def s3_init_def Let_def map_sum_Inr split: sum.splits if_splits)
  with stub_routes [of P channel "rs_env rs" nb now fr] assms(2) show ?thesis by simp
qed

lemma default_filter: "\<exists>md. metadata_init R 100000 (1 / 100) None = Inr md \<and> md_bloom_wf md"
proof -
  obtain bf where bf: "bloom_init 100000 (1 / 100) = Inr bf" by (simp add: bloom_init_def optimal_size_def optimal_hashes_def)
  with bloom_init_wf [OF bf] show ?thesis by (simp add: metadata_init_def md_bloom_wf_def)
qed

lemma build_store_defaults:
  assumes "make_client ''s3'' ''http://localhost:9000'' ''minioadmin'' ''minioadmin'' ''us-east-1''
      \<lparr>bc_signature_version = ''s3v4'', bc_retries = (3, ''adaptive''), bc_max_pool_connections = 50\<rparr> = Inr c"
    and "s3_ensure_bucket C ''l3-llm-store'' c = (Inr (), c')"
  shows "\<exists>md. md_bloom_wf md \<and> build_store E C make_client blen py_str default_config =
    Inr (E\<lparr>env_backend := s3_backend C ''l3-llm-store'' blen py_str, env_config := default_config\<rparr>,
      \<lparr>os_storage = c', os_metadata = md\<rparr>)"
proof -
  obtain md where md: "metadata_init (env_runtime E) 100000 (1 / 100) None = Inr md" "md_bloom_wf md"
    using default_filter by blast
  have cf: "l3_storage default_config = \<lparr>cf_backend = ''s3'', cf_endpoint_url = ''http://localhost:9000'',
      cf_access_key = ''minioadmin'', cf_secret_key = ''minioadmin'', cf_bucket = ''l3-llm-store'', cf_region = ''us-east-1''\<rparr>"
    by (simp add: default_config_def)
  have "be_ensure_bucket (s3_backend C ''l3-llm-store'' blen py_str) c = (Inr (), c')"
    using assms(2) by (simp add: s3_backend_def)
  with md show ?thesis by (simp add: build_store_def s3_init_def cf assms(1) store_init_def)
qed

text \<open>C39: Run with the command \<^verbatim>\<open>serve\<close> and the shipped configuration file, the program comes up when boto3, the bucket, the thread
  pool and the port allow it: it serves on the address of its arguments a new store over the bucket of the file, and over any
  channel to it the generated stub runs the service on that store.\<close>

theorem main_serves:
  assumes "pydantic_ok V" and "parse_args build_parser argv = Inr args" and "ns_command args = Some ''serve''"
    and "open_file (ns_config args) = Inr txt" and "safe_load txt = Inr default_yaml"
    and "make_client ''s3'' ''http://localhost:9000'' ''minioadmin'' ''minioadmin'' ''us-east-1''
      \<lparr>bc_signature_version = ''s3v4'', bc_retries = (3, ''adaptive''), bc_max_pool_connections = 50\<rparr> = Inr c"
    and "s3_ensure_bucket C ''l3-llm-store'' c = (Inr (), c')"
    and "0 < ns_max_workers args" and "add_port (ns_host args @ '':'' @ int_str (ns_port args)) = Inr ()"
  shows "\<exists>rs. main parse_args V open_file safe_load E C make_client blen py_str nb fr now add_port argv = Inr (Some rs)
    \<and> env_config (rs_env rs) = default_config
    \<and> env_backend (rs_env rs) = s3_backend C ''l3-llm-store'' blen py_str
    \<and> os_storage (rs_store rs) = c' \<and> md_bloom_wf (os_metadata (rs_store rs))
    \<and> rs_address rs = ns_host args @ '':'' @ int_str (ns_port args) \<and> rs_workers rs = ns_max_workers args
    \<and> (\<forall>P channel. grpc_link P channel (rs_server rs) \<longrightarrow> generated_stub P channel = service_stub (rs_env rs) nb now)"
proof -
  have config: "from_yaml V open_file safe_load (ns_config args) = Inr default_config"
    by (simp add: from_yaml_def assms(4,5) shipped_config(1) [OF assms(1)])
  obtain md where md: "md_bloom_wf md" and store: "build_store E C make_client blen py_str default_config =
      Inr (E\<lparr>env_backend := s3_backend C ''l3-llm-store'' blen py_str, env_config := default_config\<rparr>,
        \<lparr>os_storage = c', os_metadata = md\<rparr>)"
    using build_store_defaults [where make_client = make_client, OF assms(6,7)] by blast
  from assms(8,9) store obtain rs where rs: "serve E C make_client blen py_str nb fr now add_port default_config
      (ns_host args) (ns_port args) (ns_max_workers args) True = Inr rs"
    and fields: "rs_store rs = \<lparr>os_storage = c', os_metadata = md\<rparr>" "rs_workers rs = ns_max_workers args"
      "env_backend (rs_env rs) = s3_backend C ''l3-llm-store'' blen py_str" "env_config (rs_env rs) = default_config"
      "rs_address rs = ns_host args @ '':'' @ int_str (ns_port args)"
    by (simp add: serve_def Let_def)
  have "main parse_args V open_file safe_load E C make_client blen py_str nb fr now add_port argv = Inr (Some rs)"
    by (simp add: main_def assms(2,3) config rs)
  with md fields serve_answers [OF rs] show ?thesis by fastforce
qed

lemma main_serves_witness:
  "\<exists>rs. main (\<lambda>p argv. Inr \<lparr>ns_command = Some (hd argv), ns_config = ''f'', ns_host = ''[::]'', ns_port = 50051,
          ns_max_workers = 10, ns_log_level = ''INFO''\<rparr>)
        \<lparr>str_field = (\<lambda>j. case j of JStr s \<Rightarrow> Inr s | _ \<Rightarrow> Inl (ValueError [])),
          int_field = (\<lambda>j. case j of JInt i \<Rightarrow> Inr i | _ \<Rightarrow> Inl (ValueError []))\<rparr>
        Inr (\<lambda>t. Inr default_yaml) quota_env bucket_client (\<lambda>s u a k r cfg. Inr (os_storage quota_store)) (\<lambda>b. 1) (\<lambda>j. [])
        (Blob_array []) (\<lambda>q. []) 7 (\<lambda>a. Inr ()) [''serve''] = Inr (Some rs)
     \<and> os_storage (rs_store rs) = os_storage quota_store \<and> rs_workers rs = 10"
proof -
  have bucket: "s3_ensure_bucket bucket_client ''l3-llm-store'' (os_storage quota_store) = (Inr (), os_storage quota_store)"
    by (simp add: s3_ensure_bucket_def bucket_client_def)
  show ?thesis
    by (rule exE [OF main_serves [where make_client = "\<lambda>s u a k r cfg. Inr (os_storage quota_store)", OF _ refl _ refl refl refl bucket,
        where add_port = "\<lambda>a. Inr ()" and V = "\<lparr>str_field = (\<lambda>j. case j of JStr s \<Rightarrow> Inr s | _ \<Rightarrow> Inl (ValueError [])),
          int_field = (\<lambda>j. case j of JInt i \<Rightarrow> Inr i | _ \<Rightarrow> Inl (ValueError []))\<rparr>"]])
      (auto simp: pydantic_ok_def)
qed

end
