(* ===== verification/Json.thy ===== *)
theory Json
  imports Grpc
begin

text \<open>
  \<^verbatim>\<open>json.loads\<close> as the client uses it to read the statistics: a recursive-descent reader of the grammar that
  Python accepts.  Positions in error messages are left out, and so are the tokens \<^verbatim>\<open>NaN\<close> and \<^verbatim>\<open>Infinity\<close> and
  code points above 255, which the model of values does not have: reading them is an error.  The depth
  of recursion is bounded by fuel; twice the length of the text is enough for every text that \<open>json_text\<close> prints.
\<close>

section \<open>Tokens\<close>

definition is_json_space :: "char \<Rightarrow> bool" where
  "is_json_space c \<longleftrightarrow> (let n = (of_char c :: nat) in n = 32 \<or> n = 9 \<or> n = 10 \<or> n = 13)"

definition skip_ws :: "string \<Rightarrow> string" where
  "skip_ws s = dropWhile is_json_space s"

definition hex_value_of :: "char \<Rightarrow> nat option" where
  "hex_value_of c =
     (let n = (of_char c :: nat)
      in if 48 \<le> n \<and> n \<le> 57 then Some (n - 48)
         else if 97 \<le> n \<and> n \<le> 102 then Some (n - 87)
         else if 65 \<le> n \<and> n \<le> 70 then Some (n - 55) else None)"

definition simple_escape :: "char \<Rightarrow> char option" where
  "simple_escape c =
     (let n = (of_char c :: nat)
      in if n = 34 \<or> n = 92 \<or> n = 47 then Some c
         else if c = CHR ''b'' then Some (char_of (8 :: nat)) else if c = CHR ''f'' then Some (char_of (12 :: nat))
         else if c = CHR ''n'' then Some (char_of (10 :: nat)) else if c = CHR ''r'' then Some (char_of (13 :: nat))
         else if c = CHR ''t'' then Some (char_of (9 :: nat)) else None)"

text \<open>The characters of a string, after the opening quote.\<close>

fun scan_string :: "string \<Rightarrow> string \<Rightarrow> (string \<times> string) res" where
  "scan_string acc [] = Inl (ValueError ''Unterminated string starting at'')"
| "scan_string acc (c # s) =
     (if (of_char c :: nat) = 34 then Inr (rev acc, s)
      else if (of_char c :: nat) = 92 then
        (case s of
           [] \<Rightarrow> Inl (ValueError ''Unterminated string starting at'')
         | e # s1 \<Rightarrow>
             if e = CHR ''u'' then
               (case s1 of
                  p # q # x # y # s2 \<Rightarrow>
                    (case (hex_value_of p, hex_value_of q, hex_value_of x, hex_value_of y) of
                       (Some a, Some b, Some d, Some f) \<Rightarrow>
                         if 4096 * a + 256 * b + 16 * d + f < 256
                         then scan_string (char_of (16 * d + f) # acc) s2
                         else Inl (ValueError ''code point above 255'')
                     | _ \<Rightarrow> Inl (ValueError ''Invalid uXXXX escape''))
                | _ \<Rightarrow> Inl (ValueError ''Invalid uXXXX escape''))
             else (case simple_escape e of
                     None \<Rightarrow> Inl (ValueError ''Invalid escape'')
                   | Some d \<Rightarrow> scan_string (d # acc) s1))
      else if (of_char c :: nat) < 32 then Inl (ValueError ''Invalid control character at'')
      else scan_string (c # acc) s)"

definition digits_value :: "string \<Rightarrow> nat" where
  "digits_value ds = foldl (\<lambda>acc c. 10 * acc + digit_value c) 0 ds"

text \<open>
  The number that a text starts with, if it starts with one: an optional minus, digits without leading
  zeros, and then optionally a fraction and an exponent, which make it a float.
\<close>

definition scan_exponent :: "string \<Rightarrow> (int \<times> string) option" where
  "scan_exponent s =
     (case s of
        e # s1 \<Rightarrow>
          if e = CHR ''e'' \<or> e = CHR ''E'' then
            (case take_sign s1 of (neg, s2) \<Rightarrow>
               let ds = takeWhile is_digit s2
               in if ds = [] then None
                  else Some (if neg then - int (digits_value ds) else int (digits_value ds), dropWhile is_digit s2))
          else None
      | [] \<Rightarrow> None)"

definition int_digits :: "string \<Rightarrow> string" where
  "int_digits s = (if s \<noteq> [] \<and> hd s = CHR ''0'' then ''0'' else takeWhile is_digit s)"

definition scan_number :: "string \<Rightarrow> (json \<times> string) option" where
  "scan_number s =
     (let neg = (s \<noteq> [] \<and> hd s = CHR ''-'');
          s1 = (if neg then tl s else s);
          ds = int_digits s1;
          s2 = drop (length ds) s1;
          sign = (if neg then -1 else 1)
      in if ds = [] then None
         else
           (let fs = (if s2 \<noteq> [] \<and> hd s2 = CHR ''.'' then takeWhile is_digit (tl s2) else []);
                s3 = (if fs = [] then s2 else drop (Suc (length fs)) s2)
            in case scan_exponent s3 of
                 None \<Rightarrow>
                   if fs = [] then Some (JInt (sign * int (digits_value ds)), s2)
                   else Some (JFloat (of_int sign * (of_nat (digits_value ds) + of_nat (digits_value fs) / 10 ^ length fs)), s3)
               | Some (e, s4) \<Rightarrow>
                   Some (JFloat (of_int sign * (of_nat (digits_value ds) + of_nat (digits_value fs) / 10 ^ length fs)
                     * (if 0 \<le> e then 10 ^ nat e else 1 / 10 ^ nat (- e))), s4)))"

section \<open>Values\<close>

definition json_error :: "string \<Rightarrow> 'x res" where
  "json_error msg = Inl (ValueError msg)"

fun json_value :: "nat \<Rightarrow> string \<Rightarrow> (json \<times> string) res"
  and json_items :: "nat \<Rightarrow> json list \<Rightarrow> string \<Rightarrow> (json \<times> string) res"
  and json_members :: "nat \<Rightarrow> (string, json) dict \<Rightarrow> string \<Rightarrow> (json \<times> string) res" where
  "json_value 0 s = json_error ''out of fuel''"
| "json_value (Suc n) s =
     (case s of
        [] \<Rightarrow> json_error ''Expecting value''
      | c # r \<Rightarrow>
          if (of_char c :: nat) = 34 then map_sum id (apfst JStr) (scan_string [] r)
          else if c = CHR ''{'' then
            (case skip_ws r of
               [] \<Rightarrow> json_error ''Expecting property name enclosed in double quotes''
             | d # t \<Rightarrow> if d = CHR ''}'' then Inr (JDict [], t) else json_members n [] (d # t))
          else if c = CHR ''['' then
            (case skip_ws r of
               [] \<Rightarrow> json_error ''Expecting value''
             | d # t \<Rightarrow> if d = CHR '']'' then Inr (JList [], t) else json_items n [] (d # t))
          else if starts_with s ''null'' then Inr (JNull, drop 4 s)
          else if starts_with s ''true'' then Inr (JBool True, drop 4 s)
          else if starts_with s ''false'' then Inr (JBool False, drop 5 s)
          else (case scan_number s of
                  Some p \<Rightarrow> Inr p
                | None \<Rightarrow> json_error ''Expecting value''))"
| "json_items 0 acc s = json_error ''out of fuel''"
| "json_items (Suc n) acc s =
     (case json_value n s of
        Inl e \<Rightarrow> Inl e
      | Inr (v, r) \<Rightarrow>
          (case skip_ws r of
             [] \<Rightarrow> json_error ''Expecting comma delimiter''
           | d # t \<Rightarrow>
               if d = CHR '']'' then Inr (JList (rev (v # acc)), t)
               else if d = CHR '','' then json_items n (v # acc) (skip_ws t)
               else json_error ''Expecting comma delimiter''))"
| "json_members 0 acc s = json_error ''out of fuel''"
| "json_members (Suc n) acc s =
     (case s of
        [] \<Rightarrow> json_error ''Expecting property name enclosed in double quotes''
      | q # r \<Rightarrow>
          if (of_char q :: nat) \<noteq> 34 then json_error ''Expecting property name enclosed in double quotes''
          else (case scan_string [] r of
                  Inl e \<Rightarrow> Inl e
                | Inr (k, r1) \<Rightarrow>
                    (case skip_ws r1 of
                       [] \<Rightarrow> json_error ''Expecting colon delimiter''
                     | c # r2 \<Rightarrow>
                         if c \<noteq> CHR '':'' then json_error ''Expecting colon delimiter''
                         else (case json_value n (skip_ws r2) of
                                 Inl e \<Rightarrow> Inl e
                               | Inr (v, r3) \<Rightarrow>
                                   (case skip_ws r3 of
                                      [] \<Rightarrow> json_error ''Expecting comma delimiter''
                                    | d # t \<Rightarrow>
                                        if d = CHR ''}'' then Inr (JDict (dset acc k v), t)
                                        else if d = CHR '','' then json_members n (dset acc k v) (skip_ws t)
                                        else json_error ''Expecting comma delimiter'')))))"

definition json_loads :: "string \<Rightarrow> json res" where
  "json_loads s =
     (case json_value (2 * length s + 2) (skip_ws s) of
        Inl e \<Rightarrow> Inl e
      | Inr (v, r) \<Rightarrow> if skip_ws r = [] then Inr v else json_error ''Extra data'')"

section \<open>The client's statistics\<close>

definition client_stats :: "('c, 'b) L3ServiceStub \<Rightarrow> 'c \<Rightarrow> json res \<times> 'c" where
  "client_stats S c =
     (case sb_GetStats S c of
        (Inl e, c') \<Rightarrow> (Inl e, c')
      | (Inr stats_json, c') \<Rightarrow> (json_loads stats_json, c'))"

section \<open>Reading what was printed\<close>

lemma hex_value_digit: "d < 16 \<Longrightarrow> hex_value_of (hex_digit d) = Some d"
  by (auto simp: hex_value_of_def hex_digit_def digit_char_def)

lemma div16: "m < 256 \<Longrightarrow> m div 16 < (16 :: nat)"
  by arith

lemma scan_escape: "scan_string acc (json_escape c @ s) = scan_string (c # acc) s"
proof -
  let ?n = "of_char c :: nat"
  have n: "?n < 256" by simp
  have c: "c = char_of ?n" by simp
  have hex: "hex_value_of (hex_digit (?n div 16)) = Some (?n div 16)" "hex_value_of (hex_digit (?n mod 16)) = Some (?n mod 16)"
    using n div16 [of ?n] by (auto intro: hex_value_digit)
  have zero: "hex_value_of CHR ''0'' = Some 0" by (simp add: hex_value_of_def)
  have whole_char: "16 * (?n div 16) + ?n mod 16 = ?n" by simp
  consider "?n = 34 \<or> ?n = 92" | "?n = 10" | "?n = 13" | "?n = 9" | "?n = 12" | "?n = 8"
    | "?n \<noteq> 34" "?n \<noteq> 92" "32 \<le> ?n" "?n \<le> 126"
    | "?n \<notin> {34, 92, 10, 13, 9, 12, 8}" "\<not> (32 \<le> ?n \<and> ?n \<le> 126)" by fastforce
  then show ?thesis
  proof cases
    case 1
    then have "c \<noteq> CHR ''u''" by auto
    with 1 show ?thesis by (elim disjE) (simp_all add: json_escape_def simple_escape_def Let_def)
  next
    case 8
    then show ?thesis using n by (simp add: json_escape_def Let_def hex zero whole_char)
  qed (subst (2) c, simp add: json_escape_def simple_escape_def Let_def)+
qed

lemma scan_printed: "scan_string acc (concat (map json_escape s) @ char_of (34 :: nat) # r) = Inr (rev acc @ s, r)"
  by (induction s arbitrary: acc) (simp_all add: scan_escape)

text \<open>Numbers.\<close>

lemma digit_char_digit [simp]: "d < 10 \<Longrightarrow> is_digit (digit_char d)" "d < 10 \<Longrightarrow> digit_value (digit_char d) = d"
  by (simp_all add: is_digit_def digit_char_def digit_value_def)

lemma nat_str_digits: "c \<in> set (nat_str n) \<Longrightarrow> is_digit c"
proof (induction n rule: nat_str.induct)
  case (1 n)
  then show ?case by (subst (asm) (2) nat_str.simps) (auto split: if_splits)
qed

lemma digits_value_append: "digits_value (ds @ [c]) = 10 * digits_value ds + digit_value c"
  by (simp add: digits_value_def)

lemma nat_str_value [simp]: "digits_value (nat_str n) = n"
proof (induction n rule: nat_str.induct)
  case (1 n)
  show ?case
  proof (cases "n < 10")
    case True
    then show ?thesis by (subst nat_str.simps) (simp add: digits_value_def)
  next
    case False
    with 1 show ?thesis by (subst nat_str.simps) (simp add: digits_value_append)
  qed
qed

lemma nat_str_zero: "hd (nat_str n) = CHR ''0'' \<Longrightarrow> n = 0"
proof (induction n rule: nat_str.induct)
  case (1 n)
  show ?case
  proof (cases "n < 10")
    case True
    have "n = digit_value (digit_char n)" using True by simp
    also have "digit_char n = CHR ''0''" using 1(2) True by (subst (asm) nat_str.simps) simp
    finally show ?thesis by (simp add: digit_value_def)
  next
    case False
    with 1(2) have "hd (nat_str (n div 10)) = CHR ''0''" by (subst (asm) nat_str.simps) simp
    with 1(1) False have "n div 10 = 0" by simp
    with False show ?thesis by simp
  qed
qed

definition number_ends :: "string \<Rightarrow> bool" where
  "number_ends r \<longleftrightarrow> r = [] \<or> \<not> is_digit (hd r) \<and> hd r \<notin> {CHR ''.'', CHR ''e'', CHR ''E''}"

lemma digits_taken: "number_ends r \<Longrightarrow> takeWhile is_digit (nat_str n @ r) = nat_str n"
  by (cases r) (auto simp: number_ends_def takeWhile_append dest: nat_str_digits)

lemma no_exponent: "number_ends r \<Longrightarrow> scan_exponent r = None"
  by (cases r) (auto simp: scan_exponent_def number_ends_def)

lemma nat_str_head: "nat_str n \<noteq> []" "is_digit (hd (nat_str n))"
  using nat_str_digits [of "hd (nat_str n)" n] by simp_all

lemma scan_nat:
  assumes "number_ends r"
  shows "scan_number (nat_str n @ r) = Some (JInt (int n), r)"
    and "scan_number (CHR ''-'' # nat_str n @ r) = Some (JInt (- int n), r)"
proof -
  have minus: "hd (nat_str n) \<noteq> CHR ''-''" using nat_str_head(2) [of n] by (auto simp: is_digit_def)
  have zero: "int_digits (nat_str n @ r) = nat_str n"
    using nat_str_zero [of n] digits_taken [OF assms] by (auto simp: int_digits_def nat_str.simps [of 0] digit_char_def)
  have dot: "\<not> (r \<noteq> [] \<and> hd r = CHR ''.'')" using assms by (auto simp: number_ends_def)
  show "scan_number (nat_str n @ r) = Some (JInt (int n), r)"
    and "scan_number (CHR ''-'' # nat_str n @ r) = Some (JInt (- int n), r)"
    unfolding scan_number_def Let_def
    by (simp_all add: minus zero dot no_exponent [OF assms])
qed

lemma scan_int: "number_ends r \<Longrightarrow> scan_number (int_str i @ r) = Some (JInt i, r)"
  by (cases "i < 0") (simp_all add: int_str_def scan_nat)

text \<open>The values that are printed as they are read: without floats, and dictionaries with their keys once each.\<close>

fun json_exact :: "json \<Rightarrow> bool" where
  "json_exact (JFloat q) = False"
| "json_exact (JList xs) = (\<forall>x \<in> set xs. json_exact x)"
| "json_exact (JDict d) = (dwf d \<and> (\<forall>p \<in> set d. json_exact (snd p)))"
| "json_exact _ = True"

text \<open>The fuel that reading a printed value takes.\<close>

fun json_depth :: "json \<Rightarrow> nat" where
  "json_depth (JList xs) = Suc (\<Sum>x \<leftarrow> xs. Suc (json_depth x))"
| "json_depth (JDict d) = Suc (\<Sum>p \<leftarrow> d. Suc (json_depth (snd p)))"
| "json_depth _ = 1"

lemma int_str_head: "\<exists>c t. int_str i = c # t \<and> (is_digit c \<or> c = CHR ''-'')"
proof -
  have "\<exists>c t. nat_str n = c # t \<and> is_digit c" for n
    using nat_str_head [of n] by (cases "nat_str n") auto
  then show ?thesis unfolding int_str_def by fastforce
qed

lemma quote_eq: "char_of (34 :: nat) = c \<longleftrightarrow> (of_char c :: nat) = 34"
proof
  assume "char_of (34 :: nat) = c"
  then have "(of_char (char_of (34 :: nat)) :: nat) = of_char c" by simp
  then show "(of_char c :: nat) = 34" by simp
next
  assume "(of_char c :: nat) = 34"
  then have "char_of (34 :: nat) = char_of (of_char c :: nat)" by simp
  then show "char_of (34 :: nat) = c" by simp
qed

lemma text_head:
  "json_exact v \<Longrightarrow> \<exists>c t. json_text fr v = c # t \<and> \<not> is_json_space c \<and> c \<noteq> CHR '']'' \<and> c \<noteq> CHR ''}''"
proof (cases v)
  case (JInt i)
  then show ?thesis using int_str_head [of i] by (auto simp: is_json_space_def is_digit_def Let_def)
qed (auto simp: is_json_space_def json_string_def quote_eq [of "CHR '']''"] quote_eq [of "CHR ''}''"])

lemma skip_text [simp]: "json_exact v \<Longrightarrow> skip_ws (json_text fr v @ r) = json_text fr v @ r"
  using text_head [of v fr] by (auto simp: skip_ws_def)

lemma skip_simps [simp]:
  "skip_ws [] = []" "skip_ws (CHR '','' # s) = CHR '','' # s" "skip_ws (CHR '']'' # s) = CHR '']'' # s"
  "skip_ws (CHR ''}'' # s) = CHR ''}'' # s" "skip_ws (CHR '':'' # s) = CHR '':'' # s" "skip_ws (CHR '' '' # s) = skip_ws s"
  "skip_ws (json_string k @ s) = json_string k @ s"
  by (simp_all add: skip_ws_def is_json_space_def json_string_def)

lemma number_ends_simps [simp]:
  "number_ends []" "number_ends (CHR '','' # s)" "number_ends (CHR '']'' # s)" "number_ends (CHR ''}'' # s)"
  by (simp_all add: number_ends_def is_digit_def)

lemma value_int:
  assumes "number_ends r"
  shows "json_value (Suc n) (int_str i @ r) = Inr (JInt i, r)"
proof -
  obtain c t where c: "int_str i = c # t" "is_digit c \<or> c = CHR ''-''" using int_str_head by blast
  have "(of_char c :: nat) \<noteq> 34" "c \<noteq> CHR ''{''" "c \<noteq> CHR ''[''" "c \<noteq> CHR ''n''" "c \<noteq> CHR ''t''" "c \<noteq> CHR ''f''"
    using c(2) by (auto simp: is_digit_def)
  with scan_int [OF assms, of i] c(1) show ?thesis by (simp add: starts_with_def)
qed

text \<open>Reading the elements of a printed list, and the members of a printed dictionary.\<close>

lemma items_read:
  assumes "\<And>x n r. x \<in> set (x1 # xs) \<Longrightarrow> json_depth x \<le> n \<Longrightarrow> number_ends r \<Longrightarrow> json_value n (json_text fr x @ r) = Inr (x, r)"
    and "\<forall>x \<in> set (x1 # xs). json_exact x" and "(\<Sum>x \<leftarrow> x1 # xs. Suc (json_depth x)) \<le> n"
  shows "json_items n acc (join_with '', '' (map (json_text fr) (x1 # xs)) @ CHR '']'' # r) = Inr (JList (rev acc @ x1 # xs), r)"
  using assms
proof (induction xs arbitrary: x1 n acc)
  case Nil
  then obtain m where "n = Suc m" "json_depth x1 \<le> m" by (cases n) auto
  with Nil show ?case by simp
next
  case (Cons x2 xs)
  then obtain m where m: "n = Suc m" "json_depth x1 \<le> m" "(\<Sum>x \<leftarrow> x2 # xs. Suc (json_depth x)) \<le> m" by (cases n) auto
  have "json_items m (x1 # acc) (join_with '', '' (map (json_text fr) (x2 # xs)) @ CHR '']'' # r)
      = Inr (JList (rev (x1 # acc) @ x2 # xs), r)"
    using Cons.prems m(3) by (intro Cons.IH) auto
  moreover have "skip_ws (join_with '', '' (map (json_text fr) (x2 # xs)) @ CHR '']'' # r)
      = join_with '', '' (map (json_text fr) (x2 # xs)) @ CHR '']'' # r"
    using Cons.prems(2) by (cases xs) simp_all
  ultimately show ?case using Cons.prems(1) [of x1] m(1,2) by simp
qed

lemma string_read: "json_string k @ s = char_of (34 :: nat) # concat (map json_escape k) @ char_of (34 :: nat) # s"
  by (simp add: json_string_def)

lemma members_read:
  assumes "\<And>p n r. p \<in> set (p1 # d) \<Longrightarrow> json_depth (snd p) \<le> n \<Longrightarrow> number_ends r \<Longrightarrow>
      json_value n (json_text fr (snd p) @ r) = Inr (snd p, r)"
    and "\<forall>p \<in> set (p1 # d). json_exact (snd p)" and "(\<Sum>p \<leftarrow> p1 # d. Suc (json_depth (snd p))) \<le> n"
    and "distinct (map fst (acc @ p1 # d))"
  shows "json_members n acc (join_with '', '' (map (\<lambda>(k, v). json_string k @ '': '' @ json_text fr v) (p1 # d)) @ CHR ''}'' # r)
    = Inr (JDict (acc @ p1 # d), r)"
  using assms
proof (induction d arbitrary: p1 n acc)
  case Nil
  then obtain m where m: "n = Suc m" "json_depth (snd p1) \<le> m" by (cases n) auto
  obtain k v where p: "p1 = (k, v)" by (cases p1)
  have "dset acc k v = acc @ [(k, v)]" using Nil.prems(4) p by (induction acc) auto
  with Nil m p show ?case by (simp add: string_read scan_printed)
next
  case (Cons p2 d)
  then obtain m where m: "n = Suc m" "json_depth (snd p1) \<le> m" "(\<Sum>p \<leftarrow> p2 # d. Suc (json_depth (snd p))) \<le> m"
    by (cases n) auto
  obtain k v where p: "p1 = (k, v)" by (cases p1)
  let ?show = "\<lambda>(k, v). json_string k @ '': '' @ json_text fr v"
  have new: "dset acc k v = acc @ [(k, v)]" using Cons.prems(4) p by (induction acc) auto
  have "json_members m (acc @ [p1]) (join_with '', '' (map ?show (p2 # d)) @ CHR ''}'' # r) = Inr (JDict ((acc @ [p1]) @ p2 # d), r)"
    using Cons.prems m(3) by (intro Cons.IH) auto
  moreover have "skip_ws (join_with '', '' (map ?show (p2 # d)) @ CHR ''}'' # r) = join_with '', '' (map ?show (p2 # d)) @ CHR ''}'' # r"
    by (cases d) (simp_all split: prod.split)
  ultimately show ?case using Cons.prems(1) [of p1] Cons.prems(2) m(1,2) p new by (simp add: string_read scan_printed)
qed

lemma value_read:
  "json_exact v \<Longrightarrow> json_depth v \<le> n \<Longrightarrow> number_ends r \<Longrightarrow> json_value n (json_text fr v @ r) = Inr (v, r)"
proof (induction fr v arbitrary: n r rule: json_text.induct)
  case (1 fr)
  then show ?case by (cases n) (simp_all add: starts_with_def)
next
  case (2 fr b)
  then show ?case by (cases n) (simp_all add: starts_with_def)
next
  case (3 fr i)
  then obtain m where "n = Suc m" by (cases n) auto
  with value_int [OF 3(3), of m i] show ?case by (simp del: json_value.simps)
next
  case (4 fr q)
  then show ?case by simp
next
  case (5 fr s)
  then show ?case by (cases n) (simp_all add: string_read scan_printed)
next
  case (6 fr xs)
  then obtain m where n: "n = Suc m" by (cases n) auto
  show ?case
  proof (cases xs)
    case Nil
    then show ?thesis by (simp add: n)
  next
    case (Cons x1 ys)
    have read: "json_items m [] (join_with '', '' (map (json_text fr) (x1 # ys)) @ CHR '']'' # r) = Inr (JList (rev [] @ x1 # ys), r)"
      using 6 n unfolding Cons by (intro items_read) auto
    obtain c t where c: "join_with '', '' (map (json_text fr) (x1 # ys)) = c # t" "\<not> is_json_space c" "c \<noteq> CHR '']''"
      using text_head [of x1 fr] 6(2) Cons by (cases ys) auto
    from read show ?thesis unfolding n json_text.simps Cons c(1) using c(2,3) by (simp add: skip_ws_def)
  qed
next
  case (7 fr d)
  then obtain m where n: "n = Suc m" by (cases n) auto
  show ?case
  proof (cases d)
    case Nil
    then show ?thesis by (simp add: n)
  next
    case (Cons p1 ys)
    let ?show = "\<lambda>(k, v). json_string k @ '': '' @ json_text fr v"
    have read: "json_members m [] (join_with '', '' (map ?show (p1 # ys)) @ CHR ''}'' # r) = Inr (JDict ([] @ p1 # ys), r)"
      using 7 n unfolding Cons by (intro members_read) fastforce+
    obtain c t where c: "join_with '', '' (map ?show (p1 # ys)) = c # t" "c = char_of (34 :: nat)"
      by (cases p1; cases ys) (auto simp: json_string_def)
    from read show ?thesis unfolding n json_text.simps Cons c(1)
      by (simp add: skip_ws_def c(2) is_json_space_def quote_eq [of "CHR ''}''"])
  qed
qed

text \<open>Enough fuel.\<close>

lemma join_length: "(\<Sum>t \<leftarrow> ts. Suc (2 * length t)) \<le> Suc (2 * length (join_with '', '' ts))"
  by (induction ts rule: induct_list012) simp_all

lemma depth_bound: "json_exact v \<Longrightarrow> json_depth v \<le> 2 * length (json_text fr v)"
proof (induction fr v rule: json_text.induct)
  case (3 fr i)
  then show ?case using int_str_head [of i] by auto
next
  case (6 fr xs)
  have "(\<Sum>x \<leftarrow> xs. Suc (json_depth x)) \<le> (\<Sum>x \<leftarrow> xs. Suc (2 * length (json_text fr x)))"
    using 6 by (intro sum_list_mono) simp
  also have "\<dots> \<le> Suc (2 * length (join_with '', '' (map (json_text fr) xs)))"
    using join_length [of "map (json_text fr) xs"] by (simp add: comp_def)
  finally show ?case by simp
next
  case (7 fr d)
  let ?show = "\<lambda>(k, v). json_string k @ '': '' @ json_text fr v"
  have "(\<Sum>p \<leftarrow> d. Suc (json_depth (snd p))) \<le> (\<Sum>p \<leftarrow> d. Suc (2 * length (?show p)))"
    using 7 by (intro sum_list_mono) fastforce
  also have "\<dots> \<le> Suc (2 * length (join_with '', '' (map ?show d)))"
    using join_length [of "map ?show d"] by (simp add: comp_def)
  finally show ?case by simp
qed (simp_all add: json_string_def)

lemma loads_text:
  assumes "json_exact v"
  shows "json_loads (json_text fr v) = Inr v"
proof -
  have "json_value (2 * length (json_text fr v) + 2) (json_text fr v @ []) = Inr (v, [])"
    using depth_bound [OF assms, of fr] by (intro value_read [OF assms]) simp_all
  with skip_text [OF assms, of fr "[]"] show ?thesis by (simp add: json_loads_def)
qed

lemma stats_exact: "json_exact (stats_dict s)"
  by (simp add: stats_dict_def)

section \<open>Properties\<close>

text \<open>C38: \<^verbatim>\<open>json.loads\<close> restores every value without floats whose dictionaries have distinct keys from what \<^verbatim>\<open>json.dumps\<close> printed,
  whatever characters its strings hold; so the statistics that the client reads over a channel to the service are the
  statistics of the store.\<close>

theorem client_stats_exact:
  assumes "json_exact v" and "l3_channel stub E nb now"
  shows "json_loads (json_text fr v) = Inr v
    \<and> client_stats stub st = (map_sum (\<lambda>e. rpc_error) stats_dict (store_stats E st), st)"
proof
  show "json_loads (json_text fr v) = Inr v" by (rule loads_text [OF assms(1)])
  show "client_stats stub st = (map_sum (\<lambda>e. rpc_error) stats_dict (store_stats E st), st)"
    by (cases "store_stats E st")
      (simp_all add: client_stats_def l3_channel.get_stats [OF assms(2), of st "\<lambda>q. []"] GetStats_def loads_text stats_exact)
qed

lemma client_stats_exact_witness:
  "json_loads (json_text (\<lambda>q. []) (JDict [(''a'', JList [JInt 5, JNull]), (''b'', JStr [char_of (10 :: nat), CHR ''x''])]))
     = Inr (JDict [(''a'', JList [JInt 5, JNull]), (''b'', JStr [char_of (10 :: nat), CHR ''x''])])
   \<and> snd (client_stats (service_stub sample_env (Blob_array []) 7) sample_filled) = sample_filled"
  using client_stats_exact [of "JDict [(''a'', JList [JInt 5, JNull]), (''b'', JStr [char_of (10 :: nat), CHR ''x''])]",
      OF _ service_channel, of sample_env] by simp

end
