(* ===== verification/Demos.thy ===== *)
theory Demos
  imports Eviction Embeddings Server
begin

text \<open>
  The programs of \<^verbatim>\<open>examples\<close>: the eviction demonstration \<^verbatim>\<open>02_eviction_demo.py\<close>, the quick start
  \<^verbatim>\<open>01_quickstart.py\<close> and the embeddings demonstration \<^verbatim>\<open>03_embeddings_demo.py\<close>.  Each demonstration prints whether the policy chose the block that the author
  expected; the definitions return what it prints as matching.  \<open>u\<close> gives the \<^verbatim>\<open>uuid4\<close> of each block,
  \<open>t\<close> the successive times that the policies read; sleeping only makes the clock go on.  The quick start
  writes a block, a chunk and a semantic entry and reads each back; the random arrays are arguments, and
  \<open>same\<close> is \<^verbatim>\<open>np.array_equal\<close>.
\<close>

section \<open>Blocks as the examples make them\<close>

definition demo_block :: "string \<Rightarrow> string \<Rightarrow> int \<Rightarrow> int list \<Rightarrow> string list \<Rightarrow> KVCacheBlock" where
  "demo_block oid model index tokens sessions = \<lparr>kv_meta = new_meta oid 0 KV_CACHE, kv_model_name = model,
     kv_token_ids = tokens, kv_block_index = index, kv_token_hash = [], kv_parent_block_id = None,
     kv_shared_by_sessions = sessions\<rparr>"

lemma demo_block_simps [simp]:
  "block_id (demo_block oid model index tokens sessions) = oid"
  "kv_shared_by_sessions (demo_block oid model index tokens sessions) = sessions"
  by (simp_all add: demo_block_def new_meta_def)

text \<open>Reading \<^verbatim>\<open>victim.object_id\<close> raises when there is no victim.\<close>

definition victim_id :: "EvictionDecision option \<Rightarrow> string res" where
  "victim_id v =
     (case v of None \<Rightarrow> Inl (AttributeError ''NoneType object has no attribute object_id'') | Some d \<Rightarrow> Inr (ed_object_id d))"

section \<open>The eviction demonstration\<close>

definition demo_lru :: "(nat \<Rightarrow> string) \<Rightarrow> (nat \<Rightarrow> rat) \<Rightarrow> bool res" where
  "demo_lru u t =
     (let blocks = map (\<lambda>i. demo_block (u i) ''llama-3'' (int i) [int i * 10 .. (int i + 1) * 10 - 1] []) [0, 1, 2, 3, 4];
          policy = fold (\<lambda>i st. lru_added (t i) (blocks ! i) st) [0, 1, 2, 3, 4] lru_init;
          policy1 = lru_accessed (t 5) (blocks ! 2) policy
      in case victim_id (lru_select_victim blocks policy1) of
           Inl e \<Rightarrow> Inl e
         | Inr victim \<Rightarrow> Inr (victim = block_id (blocks ! 0)))"

definition demo_prefix_reuse :: "(nat \<Rightarrow> string) \<Rightarrow> (nat \<Rightarrow> rat) \<Rightarrow> bool res" where
  "demo_prefix_reuse u t =
     (let policy = prefix_reuse_init (95 / 100) (1 / 10) (3 / 10) (6 / 10);
          b0 = demo_block (u 0) ''llama-3'' 0 [0 .. 9] [''user_a''];
          b1 = demo_block (u 1) ''llama-3'' 1 [0 .. 9] [''user_a'', ''user_b'', ''user_c''];
          policy1 = prefix_reuse_added (t 1) b1 (prefix_reuse_added (t 0) b0 policy);
          policy2 = fold (\<lambda>i st. prefix_reuse_accessed (t (i + 2)) b1 st) [0, 1, 2, 3, 4, 5, 6, 7, 8, 9] policy1
      in case prefix_reuse_select_victim (t 12) [b0, b1] policy2 of
           Inl e \<Rightarrow> Inl e
         | Inr v \<Rightarrow>
             (case victim_id v of
                Inl e \<Rightarrow> Inl e
              | Inr victim \<Rightarrow> Inr (victim = block_id b0)))"

text \<open>Both policies are told of the same blocks, one after the other; the two lines that compare are returned.\<close>

definition demo_comparison :: "(nat \<Rightarrow> string) \<Rightarrow> (nat \<Rightarrow> rat) \<Rightarrow> (bool \<times> bool) res" where
  "demo_comparison u t =
     (let b0 = demo_block (u 0) [] 0 [] [''s1'', ''s2'', ''s3''];
          b1 = demo_block (u 1) [] 1 [] [''s1''];
          b2 = demo_block (u 2) [] 2 [] [''s1''];
          lru = lru_added (t 2) b2 (lru_added (t 1) b1 (lru_added (t 0) b0 lru_init));
          reuse = prefix_reuse_added (t 5) b2 (prefix_reuse_added (t 4) b1 (prefix_reuse_added (t 3) b0
                    (prefix_reuse_init (95 / 100) (1 / 10) (1 / 10) (8 / 10))))
      in case prefix_reuse_select_victim (t 6) [b0, b1, b2] reuse of
           Inl e \<Rightarrow> Inl e
         | Inr v \<Rightarrow>
             (case (victim_id (lru_select_victim [b0, b1, b2] lru), victim_id v) of
                (Inr lru_victim, Inr pr_victim) \<Rightarrow> Inr (lru_victim = block_id b0, pr_victim \<noteq> block_id b0)
              | (Inl e, _) \<Rightarrow> Inl e
              | (_, Inl e) \<Rightarrow> Inl e))"

lemma demo_lru_match:
  assumes "inj u"
  shows "demo_lru u t = Inr True"
proof -
  have u: "u i = u j \<longleftrightarrow> i = j" for i j using assms by (auto dest: injD)
  show ?thesis
    by (simp add: demo_lru_def Let_def lru_added_def lru_accessed_def lru_init_def lru_select_victim_def victim_id_def
        dmem_def move_to_end_def u)
qed

text \<open>With two scores the victim is the one of the lesser, and with three it is never the greatest.\<close>

lemma lowest_two: "s < s' \<Longrightarrow> ed_object_id (lowest [(i, s), (j, s')]) = i"
  by (simp add: lowest_def)

lemma lowest_three: "b < a \<Longrightarrow> c < a \<Longrightarrow> ed_object_id (lowest [(i, a), (j, b), (k, c)]) \<in> {j, k}"
  by (simp add: lowest_def)

lemma recency_mono: "(x :: rat) \<le> y \<Longrightarrow> y \<le> now \<Longrightarrow> 1 / (1 + (now - x)) \<le> 1 / (1 + (now - y))"
  by (intro divide_left_mono) (auto intro!: mult_pos_pos)

lemma recency_range:
  assumes "x \<le> now"
  obtains r where "py_div 1 (1 + (now - x)) = Inr r" and "0 < r" and "r \<le> 1"
proof -
  have "1 + (now - x) \<noteq> 0" using assms by auto
  with assms show ?thesis by (intro that [of "1 / (1 + (now - x))"]) (simp_all add: py_div_def)
qed

lemma recency_pair:
  assumes "x \<le> y" and "y \<le> now"
  obtains r s where "py_div 1 (1 + (now - x)) = Inr r" and "py_div 1 (1 + (now - y)) = Inr s" and "r \<le> s"
proof -
  have "1 + (now - x) \<noteq> 0" "1 + (now - y) \<noteq> 0" using assms by auto
  with recency_mono [OF assms] show ?thesis
    by (intro that [of "1 / (1 + (now - x))" "1 / (1 + (now - y))"]) (simp_all add: py_div_def)
qed

text \<open>The state after accesses to one block: its last time, its count, the most sessions.\<close>

definition access_all :: "('i \<Rightarrow> rat) \<Rightarrow> KVCacheBlock \<Rightarrow> 'i list \<Rightarrow> PrefixReuseEviction \<Rightarrow> PrefixReuseEviction" where
  "access_all f b is st = fold (\<lambda>i st. prefix_reuse_accessed (f i) b st) is st"

lemma access_all_simps:
  "access_all f b [] st = st"
  "access_all f b (i # is) st = access_all f b is (prefix_reuse_accessed (f i) b st)"
  by (simp_all add: access_all_def)

lemma accessed_fields:
  "dget (pr_access_times (prefix_reuse_accessed now b st)) k = (if k = block_id b then Some now else dget (pr_access_times st) k)"
  "dget (pr_access_counts (prefix_reuse_accessed now b st)) k =
     (if k = block_id b then Some ((case dget (pr_access_counts st) k of None \<Rightarrow> 0 | Some n \<Rightarrow> n) + 1) else dget (pr_access_counts st) k)"
  "pr_max_shared (prefix_reuse_accessed now b st) = max (pr_max_shared st) (length (kv_shared_by_sessions b))"
  "pr_w_recency (prefix_reuse_accessed now b st) = pr_w_recency st"
  "pr_w_frequency (prefix_reuse_accessed now b st) = pr_w_frequency st"
  "pr_w_shared (prefix_reuse_accessed now b st) = pr_w_shared st"
  by (simp_all add: prefix_reuse_accessed_def Let_def dget_dset)

lemma added_fields:
  "dget (pr_access_times (prefix_reuse_added now b st)) k = (if k = block_id b then Some now else dget (pr_access_times st) k)"
  "dget (pr_access_counts (prefix_reuse_added now b st)) k = (if k = block_id b then Some 1 else dget (pr_access_counts st) k)"
  "pr_max_shared (prefix_reuse_added now b st) = pr_max_shared st"
  "pr_w_recency (prefix_reuse_added now b st) = pr_w_recency st"
  "pr_w_frequency (prefix_reuse_added now b st) = pr_w_frequency st"
  "pr_w_shared (prefix_reuse_added now b st) = pr_w_shared st"
  by (simp_all add: prefix_reuse_added_def dget_dset)

lemma access_all_fields:
  "is \<noteq> [] \<Longrightarrow> dget (pr_access_times (access_all f b is st)) k = (if k = block_id b then Some (f (last is)) else dget (pr_access_times st) k)"
  "dget (pr_access_counts st) (block_id b) = Some n \<Longrightarrow>
     dget (pr_access_counts (access_all f b is st)) k = (if k = block_id b then Some (n + int (length is)) else dget (pr_access_counts st) k)"
  "pr_w_recency (access_all f b is st) = pr_w_recency st"
  "pr_w_frequency (access_all f b is st) = pr_w_frequency st"
  "pr_w_shared (access_all f b is st) = pr_w_shared st"
  by (induction "is" arbitrary: st n)
    (auto simp: access_all_simps accessed_fields simp del: map_of_eq_Some_iff Some_eq_map_of_iff)

lemma access_all_shared:
  "pr_max_shared (access_all f b is st) = (if is = [] then pr_max_shared st else max (pr_max_shared st) (length (kv_shared_by_sessions b)))"
  by (induction "is" arbitrary: st) (simp_all add: access_all_simps accessed_fields)

lemma demo_prefix_reuse_match:
  assumes "u 0 \<noteq> u 1" and "mono t"
  shows "demo_prefix_reuse u t = Inr True"
proof -
  let ?b0 = "demo_block (u 0) ''llama-3'' 0 [0 .. 9] [''user_a'']"
  let ?b1 = "demo_block (u 1) ''llama-3'' 1 [0 .. 9] [''user_a'', ''user_b'', ''user_c'']"
  define f where "f = (\<lambda>i :: nat. t (i + 2))"
  define p1 where "p1 = prefix_reuse_added (t 1) ?b1 (prefix_reuse_added (t 0) ?b0 (prefix_reuse_init (95 / 100) (1 / 10) (3 / 10) (6 / 10)))"
  define p2 where "p2 = access_all f ?b1 [0, 1, 2, 3, 4, 5, 6, 7, 8, 9] p1"
  have p1: "dget (pr_access_times p1) (u 0) = Some (t 0)" "dget (pr_access_counts p1) (u 0) = Some 1"
    "dget (pr_access_counts p1) (block_id ?b1) = Some 1"
    "pr_w_recency p1 = 1 / 10" "pr_w_frequency p1 = 3 / 10" "pr_w_shared p1 = 6 / 10" "pr_max_shared p1 = 1"
    using assms(1) by (simp_all add: p1_def added_fields prefix_reuse_init_def del: map_of_eq_Some_iff Some_eq_map_of_iff)
  have p2: "dget (pr_access_times p2) (u 0) = Some (t 0)" "dget (pr_access_times p2) (u 1) = Some (f 9)"
    "dget (pr_access_counts p2) (u 0) = Some 1" "dget (pr_access_counts p2) (u 1) = Some 11"
    "pr_w_recency p2 = 1 / 10" "pr_w_frequency p2 = 3 / 10" "pr_w_shared p2 = 6 / 10" "pr_max_shared p2 = 3"
    using assms(1) unfolding p2_def
    by (simp_all add: access_all_fields(1,3-) access_all_fields(2) [OF p1(3)] access_all_shared p1
        del: map_of_eq_Some_iff Some_eq_map_of_iff One_nat_def)
  have f9: "f 9 = t 11" by (simp add: f_def)
  have later: "t i \<le> t j" if "i \<le> j" for i j using assms(2) that by (rule monoD)
  have order: "t 0 \<le> t 11" "t 11 \<le> t 12" by (rule later, simp)+
  obtain r s where rs: "py_div 1 (1 + (t 12 - t 0)) = Inr r" "py_div 1 (1 + (t 12 - t 11)) = Inr s" "r \<le> s"
    using recency_pair [OF order] .
  have "ed_object_id (lowest [(u 0, 1 / 10 * r + 3 / 10 * (1 / 10) + 6 / 10 * (1 / 3)), (u 1, 1 / 10 * s + 3 / 10 * 1 + 6 / 10 * (3 / 3))]) = u 0"
    using rs(3) by (intro lowest_two) simp
  then have "\<exists>v. prefix_reuse_select_victim (t 12) [?b0, ?b1] p2 = Inr (Some v) \<and> ed_object_id v = u 0"
    by (simp add: prefix_reuse_select_victim_def prefix_reuse_score_def prefix_reuse_shared_def p2 f9 rs
        del: map_of_eq_Some_iff Some_eq_map_of_iff One_nat_def)
  then show ?thesis
    unfolding p2_def p1_def f_def access_all_def
    by (auto simp: demo_prefix_reuse_def Let_def victim_id_def simp del: fold_simps)
qed

lemma demo_comparison_match:
  assumes "u 0 \<noteq> u 1" "u 0 \<noteq> u 2" "u 1 \<noteq> u 2" and "mono t"
  shows "demo_comparison u t = Inr (True, True)"
proof -
  let ?b0 = "demo_block (u 0) [] 0 [] [''s1'', ''s2'', ''s3'']"
  let ?b1 = "demo_block (u 1) [] 1 [] [''s1'']" and ?b2 = "demo_block (u 2) [] 2 [] [''s1'']"
  define p where "p = prefix_reuse_added (t 5) ?b2 (prefix_reuse_added (t 4) ?b1 (prefix_reuse_added (t 3) ?b0
      (prefix_reuse_init (95 / 100) (1 / 10) (1 / 10) (8 / 10))))"
  have fields: "dget (pr_access_times p) (u 0) = Some (t 3)" "dget (pr_access_times p) (u 1) = Some (t 4)"
    "dget (pr_access_times p) (u 2) = Some (t 5)" "dget (pr_access_counts p) (u 0) = Some 1"
    "dget (pr_access_counts p) (u 1) = Some 1" "dget (pr_access_counts p) (u 2) = Some 1"
    "pr_w_recency p = 1 / 10" "pr_w_frequency p = 1 / 10" "pr_w_shared p = 8 / 10" "pr_max_shared p = 1"
    using assms(1-3) by (simp_all add: p_def added_fields prefix_reuse_init_def del: map_of_eq_Some_iff Some_eq_map_of_iff)
  have later: "t i \<le> t j" if "i \<le> j" for i j using assms(4) that by (rule monoD)
  have order: "t 3 \<le> t 6" "t 4 \<le> t 6" "t 5 \<le> t 6" by (rule later, simp)+
  obtain r0 where r0: "py_div 1 (1 + (t 6 - t 3)) = Inr r0" "0 < r0" using recency_range [OF order(1)] .
  obtain r1 where r1: "py_div 1 (1 + (t 6 - t 4)) = Inr r1" "r1 \<le> 1" using recency_range [OF order(2)] .
  obtain r2 where r2: "py_div 1 (1 + (t 6 - t 5)) = Inr r2" "r2 \<le> 1" using recency_range [OF order(3)] .
  have "\<exists>v. prefix_reuse_select_victim (t 6) [?b0, ?b1, ?b2] p = Inr (Some v) \<and> ed_object_id v \<in> {u 1, u 2}"
    by (simp add: fields r0 r1 r2 prefix_reuse_select_victim_def prefix_reuse_score_def prefix_reuse_shared_def
        del: map_of_eq_Some_iff Some_eq_map_of_iff insert_iff One_nat_def) (insert r0(2) r1(2) r2(2), intro lowest_three; linarith)
  moreover have "\<exists>w. lru_select_victim [?b0, ?b1, ?b2] (lru_added (t 2) ?b2 (lru_added (t 1) ?b1 (lru_added (t 0) ?b0 lru_init))) = Some w
      \<and> ed_object_id w = u 0"
    using assms(1-3) by (simp add: lru_added_def lru_init_def lru_select_victim_def)
  ultimately show ?thesis using assms(1-3) unfolding p_def by (auto simp: demo_comparison_def Let_def victim_id_def)
qed

section \<open>The quick start\<close>

record QuickstartReport =
  qs_obj_id :: string
  qs_nbytes :: nat
  qs_token_hash :: string
  qs_rag_id :: string
  qs_document_id :: string
  qs_dim :: int
  qs_sem_id :: string
  qs_prompt :: string
  qs_stats :: StoreStats

definition unpack_none :: pyerr where
  "unpack_none = TypeError ''cannot unpack non-iterable NoneType object''"

definition quickstart_rag :: "string \<Rightarrow> RAGObject" where
  "quickstart_rag oid = \<lparr>rg_meta = new_meta oid 0 RAG, rg_document_id = ''doc_quantum_001'', rg_chunk_index = 3,
     rg_chunk_text = ''Quantum entanglement allows particles to be correlated...'', rg_embedding_dim = 0,
     rg_source = ''arxiv:2401.12345'', rg_page_number = None\<rparr>"

definition quickstart_entry :: "string \<Rightarrow> SemanticCacheEntry" where
  "quickstart_entry oid = \<lparr>se_meta = new_meta oid 0 SEMANTIC_CACHE,
     se_prompt_text = ''Explain quantum computing in simple terms'',
     se_response_text = ''Quantum computing uses quantum bits (qubits)...'',
     se_model_name = ''meta-llama/Llama-3-8B'', se_embedding_dim = 0, se_reuse_count = 0, se_similarity_threshold = 95 / 100\<rparr>"

definition quickstart_block :: "string \<Rightarrow> KVCacheBlock" where
  "quickstart_block oid = demo_block oid ''meta-llama/Llama-3-8B'' 0 [100 .. 115] [''user_alice_session_1'']"

definition quickstart ::
    "('s, 'h, 'a, 'b) StoreEnv \<Rightarrow> ('a \<Rightarrow> 'a \<Rightarrow> bool) \<Rightarrow> (nat \<Rightarrow> string) \<Rightarrow> (nat \<Rightarrow> rat) \<Rightarrow> 'a \<Rightarrow> 'a \<Rightarrow> 'a \<Rightarrow> 'a
       \<Rightarrow> ('s, 'h) UnifiedObjectStore \<Rightarrow> QuickstartReport res \<times> ('s, 'h) UnifiedObjectStore" where
  "quickstart E same u t key_states value_states embedding prompt_emb st =
     (case put_kv_block E (quickstart_block (u 0)) key_states value_states st of
        (Inl e, _, st1) \<Rightarrow> (Inl e, st1)
      | (Inr obj_id, _, st1) \<Rightarrow>
     (case get_kv_block E (t 0) obj_id st1 of
        Inl e \<Rightarrow> (Inl e, st1)
      | Inr None \<Rightarrow> (Inl unpack_none, st1)
      | Inr (Some (loaded_block, loaded_keys, loaded_values)) \<Rightarrow>
     if \<not> same loaded_keys key_states then (Inl (LibError ''AssertionError''), st1) else
     (case put_rag_object E (quickstart_rag (u 1)) embedding st1 of
        (Inl e, _, st2) \<Rightarrow> (Inl e, st2)
      | (Inr rag_id, _, st2) \<Rightarrow>
     (case get_rag_object E (t 1) rag_id st2 of
        Inl e \<Rightarrow> (Inl e, st2)
      | Inr None \<Rightarrow> (Inl unpack_none, st2)
      | Inr (Some (loaded_rag, _)) \<Rightarrow>
     (case put_semantic_entry E (quickstart_entry (u 2)) prompt_emb st2 of
        (Inl e, _, st3) \<Rightarrow> (Inl e, st3)
      | (Inr sem_id, _, st3) \<Rightarrow>
     (case get_semantic_entry E (t 2) sem_id st3 of
        Inl e \<Rightarrow> (Inl e, st3)
      | Inr None \<Rightarrow> (Inl unpack_none, st3)
      | Inr (Some (loaded_entry, _)) \<Rightarrow>
     (case store_stats E st3 of
        Inl e \<Rightarrow> (Inl e, st3)
      | Inr stats \<Rightarrow>
          (Inr \<lparr>qs_obj_id = obj_id,
             qs_nbytes = nd_nbytes (rt_numpy (env_runtime E)) key_states + nd_nbytes (rt_numpy (env_runtime E)) value_states,
             qs_token_hash = kv_token_hash loaded_block, qs_rag_id = rag_id, qs_document_id = rg_document_id loaded_rag,
             qs_dim = rg_embedding_dim loaded_rag, qs_sem_id = sem_id, qs_prompt = take 40 (se_prompt_text loaded_entry),
             qs_stats = stats\<rparr>, st3))))))))"

text \<open>The program: the configuration of \<^verbatim>\<open>configs/default.yaml\<close>, a store on S3, and the above on it.\<close>

definition quickstart_main ::
    "Pydantic \<Rightarrow> (string \<Rightarrow> string res) \<Rightarrow> (string \<Rightarrow> json res) \<Rightarrow> ('c, 'h, 'a, 'b) StoreEnv \<Rightarrow> ('c, 'b) S3Client
       \<Rightarrow> 'c boto3_client \<Rightarrow> ('b \<Rightarrow> nat) \<Rightarrow> (json \<Rightarrow> string)
       \<Rightarrow> ('a \<Rightarrow> 'a \<Rightarrow> bool) \<Rightarrow> (nat \<Rightarrow> string) \<Rightarrow> (nat \<Rightarrow> rat) \<Rightarrow> 'a \<Rightarrow> 'a \<Rightarrow> 'a \<Rightarrow> 'a \<Rightarrow> QuickstartReport res" where
  "quickstart_main V open_file safe_load E C make_client blen py_str same u t key_states value_states embedding prompt_emb =
     (case from_yaml V open_file safe_load ''configs/default.yaml'' of
        Inl e \<Rightarrow> Inl e
      | Inr config \<Rightarrow>
          (case build_store E C make_client blen py_str config of
             Inl e \<Rightarrow> Inl e
           | Inr (E', st) \<Rightarrow> fst (quickstart E' same u t key_states value_states embedding prompt_emb st)))"

lemma quickstart_ids [simp]:
  "object_id (kv_meta (quickstart_block oid)) = oid" "object_id (rg_meta (quickstart_rag oid)) = oid"
  "object_id (se_meta (quickstart_entry oid)) = oid"
  by (simp_all add: quickstart_block_def demo_block_def quickstart_rag_def quickstart_entry_def new_meta_def)

context total_store
begin

lemma list_ids_total: "\<exists>ids. list_ids E pfx st = Inr ids"
  using list_total [of pfx "os_storage st"] by (auto simp: list_ids_def)

lemma stats_total: "\<exists>s. store_stats E st = Inr s"
proof -
  have "\<exists>ids. list_kv_blocks E st = Inr ids" "\<exists>ids. list_rag_objects E st = Inr ids" "\<exists>ids. list_semantic_entries E st = Inr ids"
    "\<exists>ids. list_agent_workflows E st = Inr ids" "\<exists>ids. list_agent_steps E st = Inr ids" "\<exists>ids. list_tool_artifacts E st = Inr ids"
    "\<exists>ids. list_plan_cache_entries E st = Inr ids" "\<exists>ids. list_workflow_traces E st = Inr ids"
    unfolding list_kv_blocks_def list_rag_objects_def list_semantic_entries_def list_agent_workflows_def list_agent_steps_def
      list_tool_artifacts_def list_plan_cache_entries_def list_workflow_traces_def
    by (rule list_ids_total)+
  then show ?thesis unfolding store_stats_def by force
qed

end

section \<open>What the programs show\<close>

text \<open>The eviction demonstration prints a match on every line: whatever distinct ids and whatever clock that does not go
  back, LRU evicts the oldest block that was not used again, and prefix reuse evicts the block that is neither popular nor
  shared, where LRU would evict the shared one.\<close>

theorem demos_match:
  assumes "inj u" and "mono t"
  shows "demo_lru u t = Inr True \<and> demo_prefix_reuse u t = Inr True \<and> demo_comparison u t = Inr (True, True)"
proof -
  have "u i = u j \<longleftrightarrow> i = j" for i j using assms(1) by (auto dest: injD)
  then show ?thesis
    using demo_lru_match [OF assms(1)] demo_prefix_reuse_match [OF _ assms(2)] demo_comparison_match [OF _ _ _ assms(2)] by simp
qed

lemma demos_match_witness:
  "demo_lru (\<lambda>i. replicate i CHR ''x'') of_nat = Inr True \<and> demo_comparison (\<lambda>i. replicate i CHR ''x'') of_nat = Inr (True, True)"
proof -
  have "inj (\<lambda>i. replicate i CHR ''x'')" by (rule injI) (metis length_replicate)
  moreover have "mono (of_nat :: nat \<Rightarrow> rat)" by (rule monoI) simp
  ultimately show ?thesis using demos_match by blast
qed

text \<open>The index that the semantic entry goes to is not changed by putting other objects.\<close>

lemma semantic_added_cong:
  assumes "md_hnsw md' = md_hnsw md" and "md_expected_items md' = md_expected_items md"
  shows "fst (on_semantic_entry_added R oid v md') = fst (on_semantic_entry_added R oid v md)"
  using assms by (simp add: on_semantic_entry_added_def ensure_hnsw_def Let_def split: sum.split option.split prod.split)

lemma object_added_hnsw:
  "md_hnsw (on_object_added R ty oid ts md) = md_hnsw md"
  "md_expected_items (on_object_added R ty oid ts md) = md_expected_items md"
  by (simp_all add: on_object_added_def Let_def split: option.split)

lemma put_kv_hnsw:
  assumes "put_kv_block E b k v st = (Inr i, b', st')"
  shows "md_hnsw (os_metadata st') = md_hnsw (os_metadata st)"
    and "md_expected_items (os_metadata st') = md_expected_items (os_metadata st)"
  using assms by (auto simp: put_kv_block_def Let_def object_added_hnsw split: sum.splits prod.splits)

lemma put_rag_hnsw:
  assumes "put_rag_object E r v st = (Inr i, r', st')"
  shows "md_hnsw (os_metadata st') = md_hnsw (os_metadata st)"
    and "md_expected_items (os_metadata st') = md_expected_items (os_metadata st)"
    and "rg_document_id r' = rg_document_id r"
  using assms by (auto simp: put_rag_object_def Let_def object_added_hnsw split: sum.splits prod.splits)

lemma put_semantic_prompt:
  assumes "put_semantic_entry E e v st = (q, e', st')"
  shows "se_prompt_text e' = se_prompt_text e"
  using assms by (auto simp: put_semantic_entry_def Let_def split: sum.splits prod.splits)

text \<open>On a new store over a backend that does not raise, the quick start reports the ids it was given, the hash of the block's
  tokens, the chunk's document and dimension and the first forty characters of the prompt, unless the index refuses the
  prompt's embedding: then it raises that refusal.\<close>

theorem quickstart_reports:
  assumes "total_store E contents" and "codec_ok (env_codec E)" and "fresh_store contents st"
    and "compute_token_hash (env_int32_bytes E) (rt_digests (env_runtime E)) [100 .. 115] = Inr hash"
    and "last_axis (rt_numpy (env_runtime E)) emb = Inr d" and "last_axis (rt_numpy (env_runtime E)) pemb = Inr d'"
    and "same k k"
  shows "\<exists>stats st'. store_reachable E st st' \<and> quickstart E same u t k v emb pemb st =
       (map_sum id (\<lambda>_. \<lparr>qs_obj_id = u 0,
            qs_nbytes = nd_nbytes (rt_numpy (env_runtime E)) k + nd_nbytes (rt_numpy (env_runtime E)) v,
            qs_token_hash = hash, qs_rag_id = u 1, qs_document_id = ''doc_quantum_001'', qs_dim = d, qs_sem_id = u 2,
            qs_prompt = ''Explain quantum computing in simple term'', qs_stats = stats\<rparr>)
          (fst (on_semantic_entry_added (env_runtime E) (u 2) pemb (os_metadata st))), st')"
proof -
  note objs = total_objects [OF assms(1)]
  note wf = reachable_wf [OF objs assms(3)]
  have r0: "store_reachable E st st" by (rule store_reachable.start)
  let ?b = "quickstart_block (u 0)"
  have "fill_token_hash E ?b = Inr (?b\<lparr>kv_token_hash := hash\<rparr>)"
    using assms(4) by (simp add: fill_token_hash_def quickstart_block_def demo_block_def)
  from total_store.put_kv_total [OF assms(1) this, of k v st] obtain b' st1
    where kv: "put_kv_block E ?b k v st = (Inr (u 0), b', st1)" and b': "kv_token_hash b' = hash"
    by (auto simp: quickstart_ids)
  have r1: "store_reachable E st st1" using store_reachable.step [OF r0 store_step.put_kv [OF kv]] .
  obtain c' st2 where rag: "put_rag_object E (quickstart_rag (u 1)) emb st1 = (Inr (u 1), c', st2)" and c': "rg_embedding_dim c' = d"
    using total_store.put_rag_total [OF assms(1,5), of "quickstart_rag (u 1)" st1] by auto
  have r2: "store_reachable E st st2" using store_reachable.step [OF r1 store_step.put_rag [OF rag]] .
  let ?q = "fst (on_semantic_entry_added (env_runtime E) (u 2) pemb (os_metadata st))"
  have q: "fst (on_semantic_entry_added (env_runtime E) (u 2) pemb (os_metadata st2)) = ?q"
    by (rule semantic_added_cong) (simp_all add: put_kv_hnsw [OF kv] put_rag_hnsw [OF rag])
  obtain e' st3 where sem: "put_semantic_entry E (quickstart_entry (u 2)) pemb st2 = (map_sum id (\<lambda>_. u 2) ?q, e', st3)"
    and got: "get_semantic_entry E (t 2) (u 2) st3 = Inr (Some (e'\<lparr>se_meta := touch (t 2) (se_meta e')\<rparr>, pemb))"
    using total_store.put_semantic_total [OF assms(1,2) wf [OF r2] assms(6), of "quickstart_entry (u 2)" "t 2"] q by auto
  have r3: "store_reachable E st st3" using store_reachable.step [OF r2 store_step.put_semantic [OF sem]] .
  obtain stats where stats: "store_stats E st3 = Inr stats" using total_store.stats_total [OF assms(1)] by blast
  have doc: "rg_document_id c' = ''doc_quantum_001''" using put_rag_hnsw(3) [OF rag] by (simp add: quickstart_rag_def)
  have prompt: "take 40 (se_prompt_text e') = ''Explain quantum computing in simple term''"
    using put_semantic_prompt [OF sem] by (simp add: quickstart_entry_def)
  note runs = quickstart_def kv total_store.put_get_kv [OF assms(1,2) wf [OF r0] kv] assms(7) rag
    total_store.put_get_rag [OF assms(1,2) wf [OF r1] rag] sem got stats b' c' doc prompt
  show ?thesis
  proof (cases ?q)
    case (Inl err)
    then show ?thesis using r3 by (intro exI [of _ stats] exI [of _ st3]) (simp add: runs del: One_nat_def)
  next
    case (Inr x)
    then show ?thesis using r3 by (intro exI [of _ stats] exI [of _ st3]) (simp add: runs del: One_nat_def)
  qed
qed

lemma quickstart_reports_witness:
  "\<exists>hash stats st'. store_reachable sample_env sample_store st'
     \<and> quickstart sample_env (=) (\<lambda>i. replicate i CHR ''x'') of_nat [1] [2] [3, 4] [5] sample_store =
     (Inr \<lparr>qs_obj_id = [], qs_nbytes = 8, qs_token_hash = hash, qs_rag_id = ''x'',
        qs_document_id = ''doc_quantum_001'', qs_dim = 2, qs_sem_id = ''xx'',
        qs_prompt = ''Explain quantum computing in simple term'', qs_stats = stats\<rparr>, st')"
proof -
  obtain hash where hash: "compute_token_hash (env_int32_bytes sample_env) (rt_digests (env_runtime sample_env)) [100 .. 115] = Inr hash"
    by (simp add: compute_token_hash_def sample_env_def)
  have axis: "last_axis (rt_numpy (env_runtime sample_env)) [3, 4] = Inr 2" "last_axis (rt_numpy (env_runtime sample_env)) [5] = Inr 1"
    by (simp_all add: last_axis_def sample_runtime_def sample_numpy_def)
  have added: "fst (on_semantic_entry_added (env_runtime sample_env) ''xx'' [5] (os_metadata sample_store)) = Inr ()"
    by (simp add: on_semantic_entry_added_def Let_def axis(2) [unfolded sample_env_simps] ensure_hnsw_def sample_store_def empty_metadata_def hnsw_init_def hnsw_add_def
        prepare_embedding_def last_axis_def sample_runtime_def sample_numpy_def sample_hnswlib_def)
  have u: "replicate 0 CHR ''x'' = []" "replicate 1 CHR ''x'' = ''x''" "replicate 2 CHR ''x'' = ''xx''"
    by (simp_all add: numeral_2_eq_2)
  have n: "nd_nbytes (rt_numpy (env_runtime sample_env)) [1] + nd_nbytes (rt_numpy (env_runtime sample_env)) [2] = 8"
    by (simp add: sample_runtime_def sample_numpy_def)
  have codec: "codec_ok (env_codec sample_env)" by simp
  from quickstart_reports [where same = "(=)" and u = "\<lambda>i. replicate i CHR ''x''" and t = of_nat and k = "[1]" and v = "[2]",
      OF sample_total codec sample_fresh hash axis refl, unfolded u n added]
  show ?thesis by fastforce
qed

section \<open>The embeddings demonstration\<close>

text \<open>
  \<^verbatim>\<open>03_embeddings_demo.py\<close>: what it prints.  \<open>load_model\<close> is the constructor of \<^verbatim>\<open>SentenceTransformer\<close> for a name and a device,
  \<open>row\<close> the row of an array.
\<close>

record EmbeddingsReport =
  er_dimension :: int
  er_shape :: "nat list"
  er_quantum :: rat
  er_topic :: rat
  er_stats :: "nat \<times> int"

definition demo_texts :: "string list" where
  "demo_texts = [''Quantum computing uses qubits.'', ''Qubits are the basic units of quantum computers.'',
     ''A chocolate cake needs flour and cocoa.'']"

definition embeddings_main ::
    "(string \<Rightarrow> string \<Rightarrow> 'a SentenceModel res) \<Rightarrow> Digests \<Rightarrow> 'a ArrayLib \<Rightarrow> 'a Numpy \<Rightarrow> ('a \<Rightarrow> nat \<Rightarrow> 'a res) \<Rightarrow> EmbeddingsReport res" where
  "embeddings_main load_model D A N row =
     (case load_model ''all-MiniLM-L6-v2'' ''cpu'' of
        Inl e \<Rightarrow> Inl e
      | Inr M \<Rightarrow>
     (let S = sentence_transformer A M
      in case cached_init (sts_init M True) 10000 of
        Inl e \<Rightarrow> Inl e
      | Inr embeddings \<Rightarrow>
     (case cached_embed_batch D A S demo_texts embeddings of
        (Inl e, _) \<Rightarrow> Inl e
      | (Inr vectors, embeddings1) \<Rightarrow>
     (case (row vectors 0, row vectors 1) of
        (Inr v0, Inr v1) \<Rightarrow>
     (case cached_similarity S v0 v1 embeddings1 of
        Inl e \<Rightarrow> Inl e
      | Inr quantum \<Rightarrow>
     (case (row vectors 0, row vectors 2) of
        (Inr v0, Inr v2) \<Rightarrow>
     (case cached_similarity S v0 v2 embeddings1 of
        Inl e \<Rightarrow> Inl e
      | Inr topic \<Rightarrow>
          Inr \<lparr>er_dimension = cached_dimension S embeddings1, er_shape = nd_shape N vectors, er_quantum = quantum,
            er_topic = topic, er_stats = cache_stats embeddings1\<rparr>)
      | (Inl e, _) \<Rightarrow> Inl e | (_, Inl e) \<Rightarrow> Inl e))
      | (Inl e, _) \<Rightarrow> Inl e | (_, Inl e) \<Rightarrow> Inl e))))"

text \<open>With a model that encodes the texts and digests that tell them apart, the cache ends with one entry per text, and the
  similarities are the dot products of the rows.\<close>

lemma embeddings_main_report:
  assumes "load_model ''all-MiniLM-L6-v2'' ''cpu'' = Inr M" and "\<And>t. t \<in> set demo_texts \<Longrightarrow> sm_encode M True t = Inr (enc t)"
    and "inj_on (cache_key D) (set demo_texts)"
    and "al_stack A (map (\<lambda>t. al_float32 A (al_float32 A (enc t))) demo_texts) = Inr m"
    and "\<And>i. i < 3 \<Longrightarrow> row (al_float32 A m) i = Inr (r i)"
    and "al_dot A (r 0) (r 1) = Inr q" and "al_dot A (r 0) (r 2) = Inr t"
  shows "embeddings_main load_model D A N row = Inr \<lparr>er_dimension = sm_dimension M, er_shape = nd_shape N (al_float32 A m),
      er_quantum = q, er_topic = t, er_stats = (3, 10000)\<rparr>"
proof -
  obtain x y z where texts: "demo_texts = [x, y, z]" and xyz: "x \<noteq> y" "x \<noteq> z" "y \<noteq> z"
    by (simp add: demo_texts_def)
  have keys: "cache_key D x \<noteq> cache_key D y" "cache_key D x \<noteq> cache_key D z" "cache_key D y \<noteq> cache_key D z"
    using assms(3) xyz unfolding texts inj_on_def by auto
  have enc: "sm_encode M True x = Inr (enc x)" "sm_encode M True y = Inr (enc y)" "sm_encode M True z = Inr (enc z)"
    using assms(2) by (simp_all add: texts)
  define S where "S = sentence_transformer A M"
  let ?s = "\<lparr>sts_normalize = True, sts_dim = sm_dimension M\<rparr>"
  have embed: "em_embed S t ?s = (map_sum id (al_float32 A) (sm_encode M True t), ?s)" for t
    by (simp add: S_def sentence_transformer_def sts_embed_def)
  have stack: "al_stack A [al_float32 A (al_float32 A (enc x)), al_float32 A (al_float32 A (enc y)), al_float32 A (al_float32 A (enc z))] = Inr m"
    using assms(4) by (simp add: texts)
  have sim: "em_similarity S = sts_similarity A" "em_dimension S = sts_dim" by (simp_all add: S_def sentence_transformer_def)
  have rows: "row (al_float32 A m) 0 = Inr (r 0)" "row (al_float32 A m) 1 = Inr (r 1)" "row (al_float32 A m) 2 = Inr (r 2)"
    using assms(5) by simp_all
  show ?thesis
    using keys keys [symmetric]
    by (simp add: embeddings_main_def assms(1,6,7) texts Let_def flip: S_def)
      (simp add: cached_init_def cached_embed_batch_def cached_embed_def texts embed enc Let_def dget_dset
        cache_stats_def cached_dimension_def cached_similarity_def sim sts_similarity_def sts_init_def stack rows assms(6,7)
        del: One_nat_def)
qed

end
