(* ===== verification/Spec2Isabelle.thy ===== *)
theory Spec2Isabelle
  imports S3 StoreSpec StoreProps Eviction Prefetch LatencyEstimator Embeddings AgentTTL ToolCache PlanCache SemanticCache Converters Grpc
    StoreTypes Concurrency Rpc Atomicity Server Json Demos
begin

text \<open>
  A model of IntelliL3 (\<^verbatim>\<open>src/l3store\<close>), the third tier of a KV-cache hierarchy: an object store for
  KV blocks, RAG chunks, semantic-cache entries and the artifacts of agents over a key-value storage
  backend, with an in-memory index in front of it, policies for eviction, prefetching and retention,
  caches built on it, and a gRPC service.

  \<^bold>\<open>Conventions.\<close>  A class is a record of its attributes; a method takes the state and returns a result
  and the new state.  An exception is a value: \<open>'a res\<close> is \<open>pyerr + 'a\<close>, and a state is returned with an
  exception too, since Python keeps what was done before it was raised.  A dictionary is an
  association list in insertion order (\<open>dget\<close>, \<open>dset\<close>, \<open>dpop\<close>).  Python integers are \<open>int\<close>, fields of
  messages are words of their width, floats are exact rationals: rounding is not modelled.  A string
  is a list of bytes.  What reads the clock, draws a \<^verbatim>\<open>uuid4\<close> or prints the digits of a float takes it as an
  argument.  Logging is left out.

  \<^bold>\<open>Code outside the repository\<close> is a parameter: \<open>Codec\<close> holds pydantic's and numpy's conversions (law
  \<open>codec_ok\<close>), \<open>Numpy\<close> and \<open>ArrayLib\<close> what is used of arrays, \<open>HnswLib\<close> hnswlib, \<open>S3Client\<close> boto3
  (locale \<open>s3_service\<close>), \<open>SentenceModel\<close> the embedding model, \<open>Digests\<close> the hash functions, \<open>Protobuf\<close> and
  \<open>Channel\<close> protobuf and gRPC (locale \<open>grpc_link\<close>), \<open>Pydantic\<close> the reading of a field of a configuration; YAML,
  \<^verbatim>\<open>argparse\<close> and opening a port are functions.  Each of those with laws has a concrete instance, on which the witnesses run.

  \<^bold>\<open>Storage.\<close>  \<open>Storage\<close> is \<^verbatim>\<open>storage/backend.py\<close> and \<^verbatim>\<open>memory_backend.py\<close>, with the contracts that a backend may satisfy, each a
  locale above the one before: \<open>storage_backend\<close>, where a call that raises may have been carried out or not and a bulk deletion may fail for
  some keys; \<open>exact_backend\<close>, where it has changed nothing and a deletion knows what was there; \<open>counting_backend\<close>; and \<open>total_backend\<close>,
  where no call raises.  The in-memory backend satisfies the last.  \<open>S3\<close> is \<^verbatim>\<open>s3_backend.py\<close>; under the documented behaviour of the
  service (\<open>s3_service\<close>) it satisfies the first, and under more than that (\<open>clean_s3_service\<close>) the second.  It never satisfies the
  third: its bulk deletion counts the keys that it was asked to delete.  Two buckets are instances, one that is full after a number of objects
  and one whose puts lose their answers, whose HEAD is forbidden and whose deletions are refused.
  \<open>Types\<close> and \<open>Codec\<close> are \<^verbatim>\<open>core/types.py\<close>, \<^verbatim>\<open>storage/serialization.py\<close> and \<^verbatim>\<open>utils/config.py\<close>.

  \<^bold>\<open>Index.\<close>  \<open>BloomFilter\<close>, \<open>PrefixTree\<close>, \<open>Hnsw\<close> and \<open>MetadataStore\<close> are the files of those names under \<^verbatim>\<open>metadata\<close>:
  the filter never forgets a key, the trie is refined by the map from objects to tokens, the HNSW
  wrapper keeps labels and objects in bijection.  \<open>StepGraph\<close> is \<^verbatim>\<open>agent_step_graph.py\<close>.

  \<^bold>\<open>Store.\<close>  \<open>ObjectStore\<close> is \<^verbatim>\<open>core/object_store.py\<close>, every operation over any backend.  \<open>StoreSpec\<close> has the
  step relation \<open>store_step\<close>, the reachable stores, the locales \<open>object_store\<close>, \<open>exact_store\<close> and \<open>total_store\<close> over the contracts of
  the backend, and the invariants: an operation touches only the keys of its object (any backend), the objects stored are known to the
  filter (exact), a read is a lookup of what is stored (total).  \<open>StoreProps\<close> states the properties, and the contract
  \<open>codec_store\<close> that the managers build on.  \<open>StoreTypes\<close> shows that a reachable store is well typed, blob by blob,
  on any backend: a read decodes with the deserializer of its type and answers an object with the id it was asked for.

  \<^bold>\<open>Concurrency.\<close>  gRPC runs the requests on a pool of threads and the store has no lock.  \<open>Interleave\<close> is the theory of such
  pools: a \<open>request\<close> makes calls on the shared state until it is answered, \<open>served\<close> lets any request of a pool make its next call, and
  \<open>calls_at_most\<close>, \<open>safe\<close>, \<open>keeps\<close> and \<open>achieves\<close> (locale \<open>rely\<close>) are bounds, invariants, and rely and guarantee for them.  \<open>Requests\<close> writes all
  eleven handlers as requests over their calls of the backend and the index, each with a bound on its calls; alone each is the handler of
  \<open>Grpc\<close> (\<open>handlers_alone\<close>), which is a check of one model against the other.  \<open>RequestSafety\<close>: under every schedule the store stays well typed and each answer is about the object that was asked for.
  \<open>Atomicity\<close>: what one request puts is read whole or not at all, and on a backend that never raises every schedule ends with it stored and
  readable.  \<open>Concurrency\<close> treats the requests on KV blocks more finely, as a state
  machine that deletes one blob at a time (\<open>pool_step\<close>), among operations on objects of all other types (\<open>server_step\<close>); two puts of one id
  can tear (\<open>concurrent_puts_can_tear\<close>).

  \<^bold>\<open>Policies.\<close>  \<open>Eviction\<close> has the locale of eviction policies, LRU, prefix reuse and workflow-aware
  eviction, and the registry; \<open>Prefetch\<close> the locale of prefetch policies and the session, semantic,
  adaptive and agent policies; \<open>LatencyEstimator\<close> the statistics of tool latencies; \<open>AgentTTL\<close> the
  retention of blocks while a tool runs, refined by the list of its decisions.

  \<^bold>\<open>Managers.\<close>  \<open>Embeddings\<close> are the embedding services and their LRU cache; \<open>ToolCache\<close> and \<open>PlanCache\<close> the
  caches under \<^verbatim>\<open>agent\<close>; \<open>SemanticCache\<close> is \<^verbatim>\<open>semantic_cache\<close>.  The tool cache is refined by a map with expiry.

  \<^bold>\<open>Service.\<close>  \<open>Converters\<close> are the messages and \<^verbatim>\<open>api/converters.py\<close>; \<open>Grpc\<close> the handlers of \<^verbatim>\<open>grpc_server.py\<close> and the
  client of \<^verbatim>\<open>grpc_client.py\<close> over a stub (locale \<open>l3_channel\<close>).  \<open>Rpc\<close> is the generated \<^verbatim>\<open>api/proto/l3_service_pb2_grpc.py\<close>: the
  stub, the servicer and its table of handlers, the static methods; over a channel that finds the handlers, the generated stub
  is the stub the client was proved for, inside a \<^verbatim>\<open>with\<close> statement too.  \<open>Json\<close> reads the statistics back on the client.  \<open>Server\<close> is the start-up:
  the configuration file, \<^verbatim>\<open>build_store\<close> and \<^verbatim>\<open>serve\<close> of \<^verbatim>\<open>grpc_server.py\<close>, and \<^verbatim>\<open>server.py\<close>; the program comes up and serves.  This theory composes client,
  generated stub, wire, service, store and backend.

  \<^bold>\<open>Examples.\<close>  \<open>Demos\<close> are the three programs of \<^verbatim>\<open>examples\<close>; the eviction demonstration prints what its author expects, the others
  what the store and the cache promise.

  \<^bold>\<open>Loops and bounds.\<close>  Loops over lists are structural recursion and need no fuel; the eviction loop of
  the embedding cache is also shown to end as a while loop.  A message field rejects an integer
  outside its width (\<open>fits_int32\<close>, \<open>fits_uint64\<close>).  The JSON reader has as fuel twice the length of the text and two; a
  printed value needs at most twice its length (\<open>depth_bound\<close>), so reading it never runs out.

  \<^bold>\<open>Not modelled.\<close>  The descriptors \<^verbatim>\<open>l3_service_pb2.py\<close> and \<^verbatim>\<open>objects_pb2.py\<close> are data for protobuf's runtime.  A call to the
  backend or to the metadata store is one step of a request: what threads do to each other inside one is not modelled, and the policies and
  managers, which the service does not use, run alone.  The \<^verbatim>\<open>__init__.py\<close> files re-export
  names.  Benchmarks, scripts and tests are not part of the library.
\<close>

section \<open>From client to storage\<close>

lemma filled_block:
  assumes "fill_token_hash E b = Inr b1"
  shows "b1 = b\<lparr>kv_token_hash := kv_token_hash b1\<rparr>"
  using assms by (auto simp: fill_token_hash_def split: if_splits sum.splits)

lemma wire_kv_simps [simp]:
  "object_id (kv_meta (wire_kv b)) = object_id (kv_meta b)" "access_count (kv_meta (wire_kv b)) = access_count (kv_meta b)"
  "size_bytes (kv_meta (wire_kv b)) = size_bytes (kv_meta b)" "ref_count (kv_meta (wire_kv b)) = ref_count (kv_meta b)"
  "kv_token_ids (wire_kv b) = kv_token_ids b" "kv_token_hash (wire_kv b) = kv_token_hash b"
  "kv_model_name (wire_kv b) = kv_model_name b" "kv_block_index (wire_kv b) = kv_block_index b"
  by (simp_all add: wire_kv_def wire_meta_def)

definition sample_stub :: "((rat list blob MemoryBackend, (nat \<times> rat list) list) UnifiedObjectStore, rat list blob) L3ServiceStub" where
  "sample_stub = generated_stub message_protobuf (in_process message_protobuf
     (add_L3ServiceServicer_to_server (servicer_method (L3ServiceImpl sample_env (Blob_array []) 7 (\<lambda>q. []))) new_server))"

text \<open>A block \<open>b'\<close> that a client reads is the block \<open>b\<close> that it put: tokens and model, the hash the server filled in, the size of the
  tensors, and one more access.\<close>

definition reads_back :: "KVCacheBlock \<Rightarrow> string \<Rightarrow> int \<Rightarrow> KVCacheBlock \<Rightarrow> bool" where
  "reads_back b token_hash n b' \<longleftrightarrow> object_id (kv_meta b') = object_id (kv_meta b) \<and> kv_token_ids b' = kv_token_ids b
     \<and> kv_model_name b' = kv_model_name b \<and> kv_token_hash b' = token_hash \<and> size_bytes (kv_meta b') = n
     \<and> access_count (kv_meta b') = access_count (kv_meta b) + 1"

abbreviation tensor_size :: "('s, 'h, 'a, 'b) StoreEnv \<Rightarrow> 'a \<Rightarrow> 'a \<Rightarrow> int" where
  "tensor_size E k v \<equiv> int (nd_nbytes (rt_numpy (env_runtime E)) k + nd_nbytes (rt_numpy (env_runtime E)) v)"

text \<open>The block as the server stores it, touched.\<close>

lemma stored_reads_back:
  assumes fill: "fill_token_hash E (wire_kv b) = Inr b1" and "kv_fits b" and "fits_uint64 (access_count (kv_meta b) + 1)"
    and "fits_uint64 n" and b': "b' = b1\<lparr>kv_meta := (kv_meta b1)\<lparr>size_bytes := n\<rparr>\<rparr>"
  shows "kv_fits (b'\<lparr>kv_meta := touch now (kv_meta b')\<rparr>)"
    and "reads_back b (kv_token_hash b1) n (wire_kv (b'\<lparr>kv_meta := touch now (kv_meta b')\<rparr>))"
proof -
  have b1: "b1 = (wire_kv b)\<lparr>kv_token_hash := kv_token_hash b1\<rparr>" by (rule filled_block [OF fill])
  have fields: "kv_token_ids b1 = kv_token_ids b" "kv_model_name b1 = kv_model_name b" "kv_block_index b1 = kv_block_index b"
    "kv_meta b1 = kv_meta (wire_kv b)" using b1 by (metis KVCacheBlock.select_convs KVCacheBlock.update_convs wire_kv_simps KVCacheBlock.surjective)+
  with assms(2-5) show "kv_fits (b'\<lparr>kv_meta := touch now (kv_meta b')\<rparr>)" by (simp add: kv_fits_def meta_fits_def touch_def)
  from fields b' show "reads_back b (kv_token_hash b1) n (wire_kv (b'\<lparr>kv_meta := touch now (kv_meta b')\<rparr>))"
    by (simp add: reads_back_def touch_def)
qed

text \<open>C1: A client puts a KV block over the generated stub and a channel to a server with the handlers of the service, over any
  backend, S3 included.  When the put answers, it answers the block's id, and whatever operations on other objects follow, the client reads the block back with the same
  tensors, tokens and model, the hash the server filled in, the size of the tensors and one more access, unless the backend raises, which the
  client sees as an \<^verbatim>\<open>RpcError\<close>.  On a backend that never raises and whose bulk deletion counts the keys that were stored the put answers and the block is read back, and what the client reads of any other block does not change.\<close>

theorem remote_kv_put_get:
  assumes "object_store E contents" and "codec_ok (env_codec E)" and "prefixes_ok (env_config E)"
    and "fresh_store contents st0" and "store_reachable E st0 st"
    and "fill_token_hash E (wire_kv b) = Inr b1" and "kv_fits b" and "fits_uint64 (access_count (kv_meta b) + 1)"
    and "fits_uint64 (tensor_size E k v)"
    and "grpc_link P channel (add_L3ServiceServicer_to_server (servicer_method (L3ServiceImpl E nb now fr)) new_server)"
    and "stub = generated_stub P channel"
  shows "(\<forall>i st' st2. client_put_kv_block (env_codec E) stub b k v st = (Inr i, st') \<longrightarrow> (steps_elsewhere E KV_CACHE i)\<^sup>*\<^sup>* st' st2 \<longrightarrow>
      i = object_id (kv_meta b) \<and> store_reachable E st0 st'
      \<and> (client_get_kv_block (env_codec E) stub i st2 = (Inl rpc_error, st2) \<and> (\<exists>key e. be_get (env_backend E) key (os_storage st2) = Inl e)
         \<or> (\<exists>b'. client_get_kv_block (env_codec E) stub i st2 = (Inr (Some (b', k, v)), st2)
              \<and> reads_back b (kv_token_hash b1) (tensor_size E k v) b')))
    \<and> (total_store E contents \<longrightarrow> (\<exists>st' b'. client_put_kv_block (env_codec E) stub b k v st = (Inr (object_id (kv_meta b)), st')
      \<and> client_get_kv_block (env_codec E) stub (object_id (kv_meta b)) st' = (Inr (Some (b', k, v)), st')
      \<and> reads_back b (kv_token_hash b1) (tensor_size E k v) b'
      \<and> (\<forall>oid. oid \<noteq> object_id (kv_meta b) \<longrightarrow>
           fst (client_get_kv_block (env_codec E) stub oid st') = fst (client_get_kv_block (env_codec E) stub oid st))))"
proof (intro conjI allI impI)
  have ch: "l3_channel stub E nb now" unfolding assms(11) stub_routes [OF assms(10)] by (rule service_channel [OF assms(2)])
  note client = l3_channel.client_put_kv [OF ch] l3_channel.client_get_kv [OF ch]
  have wf: "md_bloom_wf (os_metadata st)" by (rule reachable_wf [OF assms(1,4,5)])
  fix i st' st2
  assume call: "client_put_kv_block (env_codec E) stub b k v st = (Inr i, st')" and later: "(steps_elsewhere E KV_CACHE i)\<^sup>*\<^sup>* st' st2"
  obtain r b' st1 where put: "put_kv_block E (wire_kv b) k v st = (r, b', st1)" by (metis prod.collapse)
  with call assms(7) client(1) have "r = Inr i" "st1 = st'" by (cases r; simp)+
  note put = put [unfolded this]
  note holds = object_store.put_kv_holds [OF assms(1) put assms(6) wf]
  note sent = stored_reads_back [OF assms(6-9) holds(2), of now]
  show "i = object_id (kv_meta b)" using holds(1) by simp
  show "store_reachable E st0 st'" using store_reachable.step [OF assms(5) store_step.put_kv [OF put]] .
  from object_store.holds_get [OF assms(1,2) object_store.holds_later [OF assms(1,3) later holds(3)], of now]
  show "client_get_kv_block (env_codec E) stub i st2 = (Inl rpc_error, st2) \<and> (\<exists>key e. be_get (env_backend E) key (os_storage st2) = Inl e)
      \<or> (\<exists>b'. client_get_kv_block (env_codec E) stub i st2 = (Inr (Some (b', k, v)), st2)
           \<and> reads_back b (kv_token_hash b1) (tensor_size E k v) b')"
    using sent by (auto simp: client)
next
  assume total: "total_store E contents"
  have ch: "l3_channel stub E nb now" unfolding assms(11) stub_routes [OF assms(10)] by (rule service_channel [OF assms(2)])
  note client = l3_channel.client_put_kv [OF ch] l3_channel.client_get_kv [OF ch]
  have wf: "md_bloom_wf (os_metadata st)" by (rule reachable_wf [OF assms(1,4,5)])
  let ?i = "object_id (kv_meta b)" and ?b = "b1\<lparr>kv_meta := (kv_meta b1)\<lparr>size_bytes := tensor_size E k v\<rparr>\<rparr>"
  obtain st' where put: "put_kv_block E (wire_kv b) k v st = (Inr ?i, ?b, st')"
    using total_store.put_kv_total [OF total assms(6), of k v st] by auto
  have step: "store_step E KV_CACHE ?i st st'" using store_step.put_kv [OF put] by simp
  have same: "get_kv_block E now oid st' = get_kv_block E now oid st" if "oid \<noteq> ?i" for oid
    using total_store.step_same_view [OF total assms(3) reachable_is_indexed [OF total_exact [OF total] assms(4,5,3)] step, of KV_CACHE oid now] that
    by simp
  show "\<exists>st' b'. client_put_kv_block (env_codec E) stub b k v st = (Inr ?i, st')
      \<and> client_get_kv_block (env_codec E) stub ?i st' = (Inr (Some (b', k, v)), st')
      \<and> reads_back b (kv_token_hash b1) (tensor_size E k v) b'
      \<and> (\<forall>oid. oid \<noteq> ?i \<longrightarrow>
           fst (client_get_kv_block (env_codec E) stub oid st') = fst (client_get_kv_block (env_codec E) stub oid st))"
    using put total_store.put_get_kv [OF total assms(2) wf put, of now] stored_reads_back [OF assms(6-9) refl, of now] same assms(7)
    by (intro exI [of _ st'] exI [of _ "wire_kv (?b\<lparr>kv_meta := touch now (kv_meta ?b)\<rparr>)"]) (simp add: client)
qed

lemma remote_kv_put_get_witness:
  "\<exists>st' b'. client_put_kv_block blob_codec sample_stub (sample_block ''new'' [3, 4]) [5] [6] sample_filled
       = (Inr ''new'', st')
     \<and> client_get_kv_block blob_codec sample_stub ''new'' st' = (Inr (Some (b', [5], [6])), st')
     \<and> kv_token_ids b' = [3, 4] \<and> size_bytes (kv_meta b') = 8
     \<and> fst (client_get_kv_block blob_codec sample_stub ''blk'' st')
       = fst (client_get_kv_block blob_codec sample_stub ''blk'' sample_filled)"
proof -
  let ?b = "sample_block ''new'' [3, 4]"
  have fill: "fill_token_hash sample_env (wire_kv ?b) = Inr (wire_kv ?b)"
    by (simp add: fill_token_hash_def sample_block_def wire_kv_def)
  have fits: "kv_fits ?b" "fits_uint64 (access_count (kv_meta ?b) + 1)"
    by (simp_all add: kv_fits_def meta_fits_def sample_block_def new_meta_def fits_int32_def fits_uint64_def)
  have n: "tensor_size sample_env [5] [6] = 8" by (simp add: sample_runtime_def sample_numpy_def)
  have b: "object_id (kv_meta ?b) = ''new''" "kv_token_ids ?b = [3, 4]" by (simp_all add: sample_block_def new_meta_def)
  have "fits_uint64 8" by (simp add: fits_uint64_def)
  from remote_kv_put_get [OF sample_objects _ _ sample_fresh sample_filled_reachable fill fits this [folded n] local_link.grpc_link_axioms
      sample_stub_def, THEN conjunct2] sample_total
  show ?thesis unfolding n b reads_back_def by fastforce
qed

end
